(* ===== verification/Vita_Prelude.thy ===== *)
theory Vita_Prelude
  imports Main "HOL-Library.Word" "HOL-Library.Sublist"
begin

text \<open>
  Prelude of the VitaOS development: C strings and the small text routines that every file of
  kernel/ carries its own static copy of (\<open>str_eq\<close>, \<open>starts_with\<close>, \<open>skip_spaces\<close>,
  \<open>str_copy\<close>, \<open>str_append\<close>, the decimal printers), the generic facts about them, and the
  interface \<open>bounded_append\<close> that every fixed-size text buffer of the kernel satisfies.

  A C string is the list of the characters before its terminator; a character array used as a
  text buffer is the string it holds, and its \<open>sizeof\<close> is the capacity argument of the routine
  that writes it. A pointer that may be NULL is a \<open>string option\<close>.
\<close>

named_theorems cstr_eq \<open>closed forms of the C string routines\<close>

type_synonym cstr = "string option"
type_synonym u8 = "8 word"
type_synonym u16 = "16 word"
type_synonym u32 = "32 word"
type_synonym u64 = "64 word"

abbreviation NUL :: char where "NUL \<equiv> CHR 0x00"
abbreviation TAB :: char where "TAB \<equiv> CHR 0x09"
abbreviation LF :: char where "LF \<equiv> CHR 0x0A"
abbreviation CR :: char where "CR \<equiv> CHR 0x0D"
abbreviation ESC :: char where "ESC \<equiv> CHR 0x1B"
abbreviation DQ :: char where "DQ \<equiv> CHR 0x22"
abbreviation BSL :: char where "BSL \<equiv> CHR 0x5C"

text \<open>The value of a character as \<open>unsigned char\<close>.\<close>

abbreviation uchar :: "char \<Rightarrow> nat" where "uchar c \<equiv> of_char c"

section \<open>Comparison\<close>

fun str_eq_loop :: "string \<Rightarrow> string \<Rightarrow> bool" where
  "str_eq_loop (a # as) (b # bs) = (if a \<noteq> b then False else str_eq_loop as bs)"
| "str_eq_loop [] [] = True"
| "str_eq_loop _ _ = False"

definition str_eq :: "cstr \<Rightarrow> cstr \<Rightarrow> bool" where
  "str_eq a b =
     (case a of None \<Rightarrow> False
      | Some x \<Rightarrow> (case b of None \<Rightarrow> False | Some y \<Rightarrow> str_eq_loop x y))"

fun starts_with_loop :: "string \<Rightarrow> string \<Rightarrow> bool" where
  "starts_with_loop s [] = True"
| "starts_with_loop [] (p # ps) = False"
| "starts_with_loop (c # s) (p # ps) = (if c \<noteq> p then False else starts_with_loop s ps)"

definition starts_with :: "cstr \<Rightarrow> cstr \<Rightarrow> bool" where
  "starts_with s p =
     (case s of None \<Rightarrow> False
      | Some x \<Rightarrow> (case p of None \<Rightarrow> False | Some y \<Rightarrow> starts_with_loop x y))"

lemma str_eq_loop_eq [simp]: "str_eq_loop a b \<longleftrightarrow> a = b"
  by (induction a b rule: str_eq_loop.induct) auto

lemma str_eq_Some [simp]: "str_eq (Some a) (Some b) \<longleftrightarrow> a = b"
  by (simp add: str_eq_def)

lemma str_eq_None [simp]: "\<not> str_eq None b" "\<not> str_eq a None"
  by (simp_all add: str_eq_def split: option.splits)

lemma starts_with_loop_prefix: "starts_with_loop s p \<longleftrightarrow> prefix p s"
  by (induction s p rule: starts_with_loop.induct) auto

lemma starts_with_Some: "starts_with (Some s) (Some p) \<longleftrightarrow> prefix p s"
  by (simp add: starts_with_def starts_with_loop_prefix)

lemma starts_with_None [simp]: "\<not> starts_with None p" "\<not> starts_with s None"
  by (simp_all add: starts_with_def split: option.splits)

text \<open>The comparisons as the kernel calls them on strings that are known not to be NULL.\<close>

abbreviation eqs :: "string \<Rightarrow> string \<Rightarrow> bool" where "eqs a b \<equiv> str_eq (Some a) (Some b)"
abbreviation pre :: "string \<Rightarrow> string \<Rightarrow> bool" where "pre s p \<equiv> starts_with (Some s) (Some p)"

text \<open>\<open>contains_token\<close>: the outer loop tries every start, the inner one matches the token.\<close>

fun contains_loop :: "string \<Rightarrow> string \<Rightarrow> bool" where
  "contains_loop [] token = False"
| "contains_loop (c # cs) token = (if starts_with_loop (c # cs) token then True else contains_loop cs token)"

definition contains_token :: "string \<Rightarrow> string \<Rightarrow> bool" where
  "contains_token text token = (token \<noteq> [] \<and> contains_loop text token)"

lemma contains_loop_sublist: "token \<noteq> [] \<Longrightarrow> contains_loop s token \<longleftrightarrow> sublist token s"
  by (induction s) (auto simp: starts_with_loop_prefix sublist_Cons_right)

lemma contains_token_sublist:
  "token \<noteq> [] \<Longrightarrow> contains_token text token \<longleftrightarrow> sublist token text"
  by (simp add: contains_token_def contains_loop_sublist)

section \<open>White space\<close>

definition is_space_char :: "char \<Rightarrow> bool" where
  "is_space_char c = (c = CHR '' '' \<or> c = TAB \<or> c = CR \<or> c = LF)"

fun skip_spaces_loop :: "string \<Rightarrow> string" where
  "skip_spaces_loop [] = []"
| "skip_spaces_loop (c # cs) = (if is_space_char c then skip_spaces_loop cs else c # cs)"

definition skip_spaces :: "cstr \<Rightarrow> string" where
  "skip_spaces s = (case s of None \<Rightarrow> [] | Some x \<Rightarrow> skip_spaces_loop x)"

lemma skip_spaces_loop_dropWhile [cstr_eq]: "skip_spaces_loop s = dropWhile is_space_char s"
  by (induction s) auto

text \<open>\<open>trim_right_in_place\<close>: \<open>n\<close> walks down from the length while the last character is a space.\<close>

primrec trim_right_loop :: "string \<Rightarrow> nat \<Rightarrow> string" where
  "trim_right_loop s 0 = take 0 s"
| "trim_right_loop s (Suc n) = (if is_space_char (s ! n) then trim_right_loop s n else take (Suc n) s)"

definition trim_right_in_place :: "string \<Rightarrow> string" where
  "trim_right_in_place s = trim_right_loop s (length s)"

lemma trim_right_loop_append: "n \<le> length s \<Longrightarrow> trim_right_loop (s @ t) n = trim_right_loop s n"
  by (induction n) (auto simp: nth_append)

lemma trim_right_eq [cstr_eq]:
  "trim_right_in_place s = rev (dropWhile is_space_char (rev s))"
proof (induction s rule: rev_induct)
  case Nil
  show ?case by (simp add: trim_right_in_place_def)
next
  case (snoc c s)
  then show ?case
    by (simp add: trim_right_in_place_def trim_right_loop_append)
qed

lemma trim_right_length: "length (trim_right_in_place s) \<le> length s"
  by (metis trim_right_eq length_dropWhile_le length_rev)

section \<open>Bounded copy and append\<close>

text \<open>\<open>while (src[i] && (i + 1) < cap) { dst[i] = src[i]; i++; }\<close>\<close>

fun copy_loop :: "nat \<Rightarrow> nat \<Rightarrow> string \<Rightarrow> string" where
  "copy_loop cap i [] = []"
| "copy_loop cap i (c # cs) = (if i + 1 < cap then c # copy_loop cap (i + 1) cs else [])"

text \<open>
  \<open>str_copy cap src\<close> is the new contents of a destination of capacity \<open>cap\<close>; with capacity 0
  there is no destination to write.
\<close>

definition str_copy :: "nat \<Rightarrow> cstr \<Rightarrow> string" where
  "str_copy cap src =
     (if cap = 0 then [] else case src of None \<Rightarrow> [] | Some s \<Rightarrow> copy_loop cap 0 s)"

definition str_append :: "nat \<Rightarrow> string \<Rightarrow> cstr \<Rightarrow> string" where
  "str_append cap dst src =
     (if cap = 0 then dst
      else case src of None \<Rightarrow> dst
      | Some s \<Rightarrow> (if length dst \<ge> cap then dst else dst @ copy_loop cap (length dst) s))"

lemma copy_loop_take [cstr_eq]: "copy_loop cap i s = take (cap - 1 - i) s"
proof (induction s arbitrary: i)
  case Nil
  show ?case by simp
next
  case (Cons c cs)
  show ?case
  proof (cases "Suc i < cap")
    case True
    then have "cap - Suc i = Suc (cap - Suc (Suc i))" by simp
    then show ?thesis using True Cons.IH [of "Suc i"] by simp
  next
    case False
    then show ?thesis by simp
  qed
qed

lemma str_copy_take [cstr_eq]: "str_copy cap (Some s) = take (cap - 1) s"
  by (simp add: str_copy_def copy_loop_take)

lemma str_copy_None [simp]: "str_copy cap None = []"
  by (simp add: str_copy_def)

lemma str_copy_fits: "length s < cap \<Longrightarrow> str_copy cap (Some s) = s"
  by (simp add: str_copy_take)

lemma str_copy_length: "0 < cap \<Longrightarrow> length (str_copy cap s) < cap"
  by (cases s) (auto simp: str_copy_take)

abbreviation copy_text :: "nat \<Rightarrow> string \<Rightarrow> string" where
  "copy_text cap s \<equiv> str_copy cap (Some s)"

definition safe_text :: "cstr \<Rightarrow> string \<Rightarrow> string" where
  "safe_text text fallback = (case text of None \<Rightarrow> fallback | Some t \<Rightarrow> (if t \<noteq> [] then t else fallback))"

lemma safe_text_simps [simp]:
  "safe_text None f = f" "safe_text (Some []) f = f" "safe_text (Some (c # cs)) f = c # cs"
  by (simp_all add: safe_text_def)

text \<open>
  The contract of the kernel's text buffers: appending to a buffer that is terminated inside its
  capacity keeps what was there, adds as much of the text as fits, and leaves room for the
  terminator.
\<close>

locale bounded_append =
  fixes app :: "string \<Rightarrow> string \<Rightarrow> string" and cap :: nat
  assumes app_take: "length buf < cap \<Longrightarrow> app buf txt = buf @ take (cap - 1 - length buf) txt"
begin

lemma app_length: "length buf < cap \<Longrightarrow> length (app buf txt) < cap"
  by (auto simp: app_take)

lemma app_fits: "length buf + length txt < cap \<Longrightarrow> app buf txt = buf @ txt"
  by (simp add: app_take)

lemma app_prefix: "length buf < cap \<Longrightarrow> prefix buf (app buf txt)"
  by (simp add: app_take)

lemma fold_app:
  "length buf < cap \<Longrightarrow> fold (\<lambda>t b. app b t) ts buf = buf @ take (cap - 1 - length buf) (concat ts)"
proof (induction ts arbitrary: buf)
  case Nil
  then show ?case by simp
next
  case (Cons t ts)
  let ?k = "cap - 1 - length buf"
  have len: "length (buf @ take ?k t) < cap" using Cons.prems by auto
  have rest: "cap - 1 - length (buf @ take ?k t) = ?k - length t" using Cons.prems by auto
  have "fold (\<lambda>t b. app b t) (t # ts) buf = fold (\<lambda>t b. app b t) ts (buf @ take ?k t)"
    using Cons.prems by (simp add: app_take)
  also have "\<dots> = (buf @ take ?k t) @ take (?k - length t) (concat ts)"
    using Cons.IH [OF len] by (simp only: rest)
  finally show ?case by simp
qed

lemma fold_app_length:
  "length buf < cap \<Longrightarrow> length (fold (\<lambda>t b. app b t) ts buf) < cap"
  by (auto simp: fold_app)

lemma fold_app_fits:
  "length buf + length (concat ts) < cap \<Longrightarrow> fold (\<lambda>t b. app b t) ts buf = buf @ concat ts"
  by (simp add: fold_app)

end

interpretation sa: bounded_append "\<lambda>b t. str_append cap b (Some t)" cap
  by unfold_locales (auto simp: str_append_def copy_loop_take)

section \<open>Decimal numbers\<close>

text \<open>
  The digit loop of \<open>u32_to_dec\<close> and \<open>u64_to_dec\<close>: at most \<open>room\<close> digits, least
  significant first; the printers then reverse them.
\<close>

fun dec_digits :: "nat \<Rightarrow> nat \<Rightarrow> string" where
  "dec_digits 0 v = []"
| "dec_digits (Suc room) v =
     (if v = 0 then [] else char_of (48 + v mod 10) # dec_digits room (v div 10))"

definition u32_to_dec :: "u32 \<Rightarrow> string" where
  "u32_to_dec value = (if value = 0 then ''0'' else rev (dec_digits 15 (unat value)))"

definition u64_to_dec :: "u64 \<Rightarrow> string" where
  "u64_to_dec value = (if value = 0 then ''0'' else rev (dec_digits 31 (unat value)))"

lemma digit_chars [simp]:
  "char_of (48 :: nat) = CHR ''0''" "char_of (49 :: nat) = CHR ''1''" "char_of (50 :: nat) = CHR ''2''"
  "char_of (51 :: nat) = CHR ''3''" "char_of (52 :: nat) = CHR ''4''" "char_of (53 :: nat) = CHR ''5''"
  "char_of (54 :: nat) = CHR ''6''" "char_of (55 :: nat) = CHR ''7''" "char_of (56 :: nat) = CHR ''8''"
  "char_of (57 :: nat) = CHR ''9''"
  by code_simp+

text \<open>What a reader of the digits computes.\<close>

definition digit_val :: "char \<Rightarrow> nat" where
  "digit_val c = uchar c - 48"

definition dec_value :: "string \<Rightarrow> nat" where
  "dec_value s = foldl (\<lambda>a c. 10 * a + digit_val c) 0 s"

lemma digit_val_char_of [simp]: "digit_val (char_of (48 + v mod 10)) = v mod 10"
proof -
  have "48 + v mod 10 < 256" by (simp add: less_trans [of _ 10])
  then show ?thesis by (simp add: digit_val_def)
qed

lemma dec_value_snoc [simp]: "dec_value (s @ [c]) = 10 * dec_value s + digit_val c"
  by (simp add: dec_value_def)

lemma dec_value_dec_digits: "v < 10 ^ room \<Longrightarrow> dec_value (rev (dec_digits room v)) = v"
proof (induction room arbitrary: v)
  case 0
  then show ?case by (simp add: dec_value_def)
next
  case (Suc room)
  then show ?case by (auto simp: dec_value_def)
qed

lemma length_dec_digits: "length (dec_digits room v) \<le> room"
  by (induction room arbitrary: v) auto

lemma dec_digits_are_digits:
  "c \<in> set (dec_digits room v) \<Longrightarrow> 48 \<le> uchar c \<and> uchar c \<le> 57"
proof (induction room arbitrary: v)
  case 0
  then show ?case by simp
next
  case (Suc room)
  show ?case
  proof (cases "c = char_of (48 + v mod 10)")
    case True
    have "48 + v mod 10 < 256" by (simp add: less_trans [of _ 10])
    moreover have "v mod 10 \<le> 9" by (simp add: less_Suc_eq_le [symmetric])
    ultimately show ?thesis using True by simp
  next
    case False
    with Suc.prems have "c \<in> set (dec_digits room (v div 10))" by (auto split: if_splits)
    then show ?thesis by (rule Suc.IH)
  qed
qed

lemma dec_value_u32: "dec_value (u32_to_dec v) = unat v"
proof -
  have "unat v < 2 ^ 32" using unsigned_less [of v] by simp
  then have "unat v < 10 ^ 15" by simp
  then show ?thesis
    by (auto simp: u32_to_dec_def dec_value_dec_digits) (simp add: dec_value_def digit_val_def)
qed

lemma dec_value_u64: "dec_value (u64_to_dec v) = unat v"
proof -
  have "unat v < 2 ^ 64" using unsigned_less [of v] by simp
  then have "unat v < 10 ^ 31" by simp
  then show ?thesis
    by (auto simp: u64_to_dec_def dec_value_dec_digits) (simp add: dec_value_def digit_val_def)
qed

section \<open>The C library's formatted output\<close>

text \<open>
  \<open>%llu\<close>, \<open>%lld\<close> and \<open>%d\<close> print the shortest decimal numeral; \<open>snprintf\<close> keeps what fits with
  its terminator.
\<close>

fun show_nat :: "nat \<Rightarrow> string" where
  "show_nat n = (if n < 10 then [char_of (48 + n)] else show_nat (n div 10) @ [char_of (48 + n mod 10)])"

declare show_nat.simps [simp del]

definition show_int :: "int \<Rightarrow> string" where
  "show_int i = (if i < 0 then CHR ''-'' # show_nat (nat (- i)) else show_nat (nat i))"

definition snprintf :: "nat \<Rightarrow> string \<Rightarrow> string" where
  "snprintf cap s = take (cap - 1) s"

lemma dec_value_show_nat: "dec_value (show_nat n) = n"
proof (induction n rule: show_nat.induct)
  case (1 n)
  show ?case
  proof (cases "n < 10")
    case True
    then have "digit_val (char_of (48 + n)) = n" by (simp add: digit_val_def)
    moreover have "n mod 10 = n" using True by simp
    ultimately show ?thesis using True by (simp add: show_nat.simps [of n] dec_value_def)
  next
    case False
    then show ?thesis using 1 by (simp add: show_nat.simps [of n])
  qed
qed

lemma show_nat_inj: "show_nat a = show_nat b \<longleftrightarrow> a = b"
  by (metis dec_value_show_nat)

lemma show_nat_digits: "c \<in> set (show_nat n) \<Longrightarrow> 48 \<le> uchar c \<and> uchar c \<le> 57"
proof (induction n rule: show_nat.induct)
  case (1 n)
  have d: "48 \<le> uchar (char_of (48 + k) :: char) \<and> uchar (char_of (48 + k) :: char) \<le> 57" if "k < 10" for k :: nat
    using that by simp
  show ?case
  proof (cases "n < 10")
    case True
    then show ?thesis using 1 d [of n] by (simp add: show_nat.simps [of n])
  next
    case False
    then show ?thesis using 1 d [of "n mod 10"] by (auto simp: show_nat.simps [of n])
  qed
qed

lemma snprintf_fits: "length s < cap \<Longrightarrow> snprintf cap s = s"
  by (simp add: snprintf_def)

lemma snprintf_length: "0 < cap \<Longrightarrow> length (snprintf cap s) < cap"
  by (auto simp: snprintf_def)

end
