(* ===== verification/Host.thy ===== *)
theory Host
  imports Vita_Prelude "HOL-Library.AList"
begin

text \<open>
  The machine under the hosted build: the file system the C library shows (\<open>fopen\<close>, \<open>fread\<close>,
  \<open>fwrite\<close>, \<open>mkdir\<close>, \<open>stat\<close>, \<open>opendir\<close>), the two clocks, the SQLite library, the standard
  input and the trace of what the console printed. Everything the kernel cannot control is a
  function of the number of the call (\<open>h_tick\<close>): what the clocks return, how many bytes of a
  write are accepted and how many survive the \<open>fclose\<close> (\<open>None\<close>: all), whether an SQLite call
  succeeds. These
  functions are parameters of the model; nothing is assumed of them unless a theorem says so.
\<close>

datatype fs_node = FDir | FFile string

type_synonym fs_path = "string list"

text \<open>The boot handoff (include/vita/boot.h), without the two UEFI handles, which only that build reads.\<close>

record vita_handoff =
  ho_magic :: u64
  ho_version :: u32
  ho_size :: u32
  ho_arch_name :: cstr
  ho_firmware_type :: u64
  ho_audit_db_path :: cstr
  ho_vitanet_seed_endpoint :: cstr

definition VITA_FIRMWARE_UEFI :: u64 where "VITA_FIRMWARE_UEFI = 1"
definition VITA_FIRMWARE_HOSTED :: u64 where "VITA_FIRMWARE_HOSTED = 2"

text \<open>The rows the audit core stores; each constructor is one INSERT statement of audit\_core.c.\<close>

record audit_event_row =
  er_boot_id :: string
  er_seq :: u64
  er_type :: string
  er_summary :: string
  er_mono :: u64
  er_rtc :: u64
  er_prev_hash :: string
  er_hash :: string

record boot_session_row =
  br_boot_id :: string
  br_node_id :: string
  br_arch :: string
  br_boot_unix :: u64
  br_boot_mono :: u64
  br_mode :: string
  br_audit_state :: string

record vita_hw_snapshot =
  hw_cpu_arch :: string
  hw_cpu_model :: string
  hw_ram_bytes :: u64
  hw_firmware_type :: string
  hw_console_type :: string
  hw_display_count :: int
  hw_keyboard_count :: int
  hw_mouse_count :: int
  hw_audio_count :: int
  hw_microphone_count :: int
  hw_net_count :: int
  hw_ethernet_count :: int
  hw_wifi_count :: int
  hw_storage_count :: int
  hw_usb_count :: int
  hw_usb_controller_count :: int
  hw_detected_at_unix :: u64

record vita_ai_proposal =
  ap_proposal_id :: cstr
  ap_proposal_type :: cstr
  ap_summary :: cstr
  ap_rationale :: cstr
  ap_risk_level :: cstr
  ap_benefit_level :: cstr
  ap_requires_human_confirmation :: bool
  ap_status :: cstr

record vita_node_peer =
  np_peer_id :: string
  np_first_seen_unix :: u64
  np_last_seen_unix :: u64
  np_transport :: string
  np_capabilities_json :: string
  np_trust_state :: string
  np_link_state :: string

text \<open>\<open>bind_text_or_null\<close>: an empty text is stored as NULL.\<close>

definition bind_text_or_null :: "cstr \<Rightarrow> cstr" where
  "bind_text_or_null t = (case t of None \<Rightarrow> None | Some s \<Rightarrow> (if s \<noteq> [] then Some s else None))"

datatype sql_row =
    RowBoot boot_session_row
  | RowEvent audit_event_row
  | RowHardware string "cstr list" vita_hw_snapshot
  | RowProposal string u64 vita_ai_proposal
  | RowResponse string string string u64
  | RowPeer vita_node_peer

datatype sql_call =
    SqlOpen string
  | SqlExec string
  | SqlPrepare string
  | SqlStep sql_row

datatype out_event = OutLine string | OutRaw string | OutClear | OutStyle nat

record host =
  h_fs :: "(fs_path \<times> fs_node) list"
  h_read_only :: "fs_path \<Rightarrow> bool"
  h_unreadable :: "fs_path \<Rightarrow> bool"
  h_accepted :: "nat \<Rightarrow> nat option"
  h_survived :: "nat \<Rightarrow> nat option"
  h_alloc :: "nat \<Rightarrow> bool"
  h_uname :: "nat \<Rightarrow> cstr"
  h_mono :: "nat \<Rightarrow> u64"
  h_unix :: "nat \<Rightarrow> u64"
  h_sql :: "nat \<Rightarrow> sql_call \<Rightarrow> bool"
  h_sql_columns :: "nat \<Rightarrow> cstr list"
  h_sql_recent :: "nat \<Rightarrow> sql_row list \<Rightarrow> nat \<Rightarrow> (int \<times> cstr \<times> cstr) list"
  h_sql_counts :: "nat \<Rightarrow> sql_row list \<Rightarrow> (int \<times> int \<times> int \<times> int \<times> int) option"
  h_db :: "string \<Rightarrow> sql_row list"
  h_tick :: nat
  h_stdin :: string
  h_out :: "out_event list"

section \<open>Calls with an outcome the kernel does not control\<close>

definition ticked :: "'a host_scheme \<Rightarrow> 'a host_scheme" where
  "ticked s = s\<lparr>h_tick := h_tick s + 1\<rparr>"

definition monotonic_now_ns :: "'a host_scheme \<Rightarrow> u64 \<times> 'a host_scheme" where
  "monotonic_now_ns s = (h_mono s (h_tick s), ticked s)"

definition unix_now :: "'a host_scheme \<Rightarrow> u64 \<times> 'a host_scheme" where
  "unix_now s = (h_unix s (h_tick s), ticked s)"

text \<open>The machine name \<open>uname\<close> reports, when the call succeeds.\<close>

definition uname_machine :: "'a host_scheme \<Rightarrow> cstr \<times> 'a host_scheme" where
  "uname_machine s = (h_uname s (h_tick s), ticked s)"

definition malloc_ok :: "'a host_scheme \<Rightarrow> bool \<times> 'a host_scheme" where
  "malloc_ok s = (h_alloc s (h_tick s), ticked s)"

text \<open>One SQLite call; a successful step of an INSERT adds its row to the open database.\<close>

definition sqlite :: "string \<Rightarrow> sql_call \<Rightarrow> 'a host_scheme \<Rightarrow> bool \<times> 'a host_scheme" where
  "sqlite db call s =
     (let ok = h_sql s (h_tick s) call;
          s1 = ticked s
      in (ok, case call of
                SqlStep row \<Rightarrow> (if ok then s1\<lparr>h_db := (h_db s1)(db := h_db s1 db @ [row])\<rparr> else s1)
              | _ \<Rightarrow> s1))"

section \<open>Paths and files\<close>

text \<open>
  The host resolves a path by its components: repeated slashes and \<open>.\<close> name nothing; an absolute
  path starts at the component \<open>/\<close>, a relative one in the working directory. \<open>names_dir\<close> tells that
  the path ends like a directory (a final slash or dot). The kernel never passes a \<open>..\<close> component.
\<close>

fun split_slash :: "string \<Rightarrow> string list" where
  "split_slash [] = [[]]"
| "split_slash (c # cs) =
     (if c = CHR ''/'' then [] # split_slash cs
      else case split_slash cs of [] \<Rightarrow> [[c]] | w # ws \<Rightarrow> (c # w) # ws)"

definition rel_comps :: "string \<Rightarrow> fs_path" where
  "rel_comps p = filter (\<lambda>w. w \<noteq> [] \<and> w \<noteq> ''.'') (split_slash p)"

definition path_comps :: "string \<Rightarrow> fs_path" where
  "path_comps p = (if p \<noteq> [] \<and> hd p = CHR ''/'' then ''/'' # rel_comps p else rel_comps p)"

definition names_dir :: "string \<Rightarrow> bool" where
  "names_dir p = (let w = last (split_slash p) in w = [] \<or> w = ''.'')"

definition fs_lookup :: "'a host_scheme \<Rightarrow> fs_path \<Rightarrow> fs_node option" where
  "fs_lookup s k = (if k = [] then Some FDir else map_of (h_fs s) k)"

definition parent_is_dir :: "'a host_scheme \<Rightarrow> fs_path \<Rightarrow> bool" where
  "parent_is_dir s k = (fs_lookup s (butlast k) = Some FDir)"

definition fs_put :: "fs_path \<Rightarrow> fs_node \<Rightarrow> 'a host_scheme \<Rightarrow> 'a host_scheme" where
  "fs_put k n s = s\<lparr>h_fs := AList.update k n (h_fs s)\<rparr>"

definition mkdir :: "string \<Rightarrow> 'a host_scheme \<Rightarrow> bool \<times> 'a host_scheme" where
  "mkdir p s =
     (let k = path_comps p in
      if fs_lookup s k \<noteq> None \<or> \<not> parent_is_dir s k \<or> h_read_only s k then (False, s)
      else (True, fs_put k FDir s))"

definition stat_ok :: "string \<Rightarrow> 'a host_scheme \<Rightarrow> bool" where
  "stat_ok p s =
     (case fs_lookup s (path_comps p) of
        None \<Rightarrow> False | Some FDir \<Rightarrow> True | Some (FFile c) \<Rightarrow> \<not> names_dir p)"

text \<open>\<open>fopen(p, "wb")\<close> creates or truncates the file.\<close>

definition fopen_wb :: "string \<Rightarrow> 'a host_scheme \<Rightarrow> bool \<times> 'a host_scheme" where
  "fopen_wb p s =
     (let k = path_comps p in
      if names_dir p \<or> fs_lookup s k = Some FDir \<or> h_read_only s k \<or>
         (fs_lookup s k = None \<and> \<not> parent_is_dir s k)
      then (False, s)
      else (True, fs_put k (FFile []) s))"

text \<open>
  \<open>fwrite\<close> followed by \<open>fclose\<close>: the number of bytes the call reports, and the file left behind.
  The kernel ignores what \<open>fclose\<close> returns, so bytes that were accepted may still be lost.
\<close>

definition limited :: "nat option \<Rightarrow> string \<Rightarrow> string" where
  "limited limit data = (case limit of None \<Rightarrow> data | Some n \<Rightarrow> take n data)"

definition fwrite_close :: "string \<Rightarrow> string \<Rightarrow> 'a host_scheme \<Rightarrow> nat \<times> 'a host_scheme" where
  "fwrite_close p data s =
     (let written = limited (h_accepted s (h_tick s)) data;
          kept = limited (h_survived s (h_tick s)) written
      in (length written, fs_put (path_comps p) (FFile kept) (ticked s)))"

text \<open>\<open>fopen(p, "rb")\<close>: the bytes the stream will deliver; reading a directory delivers none.\<close>

definition fopen_rb :: "string \<Rightarrow> 'a host_scheme \<Rightarrow> string option" where
  "fopen_rb p s =
     (let k = path_comps p in
      if h_unreadable s k then None
      else case fs_lookup s k of
             None \<Rightarrow> None
           | Some FDir \<Rightarrow> Some []
           | Some (FFile c) \<Rightarrow> (if names_dir p then None else Some c))"

text \<open>The names a \<open>readdir\<close> loop delivers, in the order the host keeps them.\<close>

definition readdir_names :: "string \<Rightarrow> 'a host_scheme \<Rightarrow> string list option" where
  "readdir_names p s =
     (let k = path_comps p in
      if fs_lookup s k \<noteq> Some FDir \<or> h_unreadable s k then None
      else Some ([''.'', ''..''] @ map last (filter (\<lambda>x. x \<noteq> [] \<and> butlast x = k) (map fst (h_fs s)))))"

text \<open>What a C string function sees of bytes that were read into an array.\<close>

definition c_string :: "string \<Rightarrow> string" where
  "c_string bytes = takeWhile (\<lambda>c. c \<noteq> NUL) bytes"

section \<open>Reading text\<close>

text \<open>One \<open>fgets\<close> into an array of \<open>Suc n\<close>: the characters stored, and what is left of the stream.\<close>

fun fgets_loop :: "nat \<Rightarrow> string \<Rightarrow> string \<times> string" where
  "fgets_loop 0 s = ([], s)"
| "fgets_loop (Suc n) [] = ([], [])"
| "fgets_loop (Suc n) (c # cs) =
     (if c = LF then ([c], cs) else let (l, r) = fgets_loop n cs in (c # l, r))"

lemma fgets_loop_append: "fst (fgets_loop n s) @ snd (fgets_loop n s) = s"
  by (induction n s rule: fgets_loop.induct) (auto simp: case_prod_beta)

lemma fgets_loop_consumes:
  assumes "0 < n" "s \<noteq> []"
  shows "length (snd (fgets_loop n s)) < length s"
proof -
  have "fst (fgets_loop n s) \<noteq> []" using assms by (cases n; cases s) (auto simp: case_prod_beta)
  then show ?thesis
    using arg_cong [OF fgets_loop_append [of n s], of length] by (cases "fst (fgets_loop n s)") auto
qed

lemma fgets_loop_length: "length (fst (fgets_loop n s)) \<le> n"
  by (induction n s rule: fgets_loop.induct) (auto simp: case_prod_beta)

text \<open>The lines a \<open>while (fgets(line, 256, f))\<close> loop delivers, as C strings.\<close>

function text_lines :: "string \<Rightarrow> string list" where
  "text_lines s = (if s = [] then [] else c_string (fst (fgets_loop 255 s)) # text_lines (snd (fgets_loop 255 s)))"
  by pat_completeness auto
termination
  by (relation "measure length") (auto intro: fgets_loop_consumes)

declare text_lines.simps [simp del]

text \<open>White space and numbers as \<open>scanf\<close> reads them: the value and the rest of the text.\<close>

definition c_isspace :: "char \<Rightarrow> bool" where
  "c_isspace c = (c = CHR '' '' \<or> (9 \<le> uchar c \<and> uchar c \<le> 13))"

definition hex_value :: "char \<Rightarrow> nat option" where
  "hex_value c =
     (if 48 \<le> uchar c \<and> uchar c \<le> 57 then Some (uchar c - 48)
      else if 97 \<le> uchar c \<and> uchar c \<le> 102 then Some (uchar c - 87)
      else if 65 \<le> uchar c \<and> uchar c \<le> 70 then Some (uchar c - 55)
      else None)"

definition dec_digit_value :: "char \<Rightarrow> nat option" where
  "dec_digit_value c = (if 48 \<le> uchar c \<and> uchar c \<le> 57 then Some (uchar c - 48) else None)"

fun scan_digits :: "(char \<Rightarrow> nat option) \<Rightarrow> nat \<Rightarrow> nat \<Rightarrow> string \<Rightarrow> nat \<times> string" where
  "scan_digits val base acc [] = (acc, [])"
| "scan_digits val base acc (c # cs) =
     (case val c of None \<Rightarrow> (acc, c # cs) | Some d \<Rightarrow> scan_digits val base (acc * base + d) cs)"

definition scan_number :: "(char \<Rightarrow> nat option) \<Rightarrow> nat \<Rightarrow> string \<Rightarrow> (int \<times> string) option" where
  "scan_number val base s =
     (let t = dropWhile c_isspace s;
          neg = (t \<noteq> [] \<and> hd t = CHR ''-'');
          u = (if t \<noteq> [] \<and> (hd t = CHR ''-'' \<or> hd t = CHR ''+'') then tl t else t);
          v = (if base = 16 \<and> length u \<ge> 2 \<and> u ! 0 = CHR ''0'' \<and> (u ! 1 = CHR ''x'' \<or> u ! 1 = CHR ''X'')
               then drop 2 u else u)
      in if v = [] \<or> val (hd v) = None then None
         else let (n, r) = scan_digits val base 0 v;
                  m = int (min n (2 ^ 64 - 1))
              in Some (if neg then - m else m, r))"

definition scan_hex :: "string \<Rightarrow> (int \<times> string) option" where
  "scan_hex = scan_number hex_value 16"

definition scan_dec :: "string \<Rightarrow> (int \<times> string) option" where
  "scan_dec = scan_number dec_digit_value 10"

section \<open>Laws of the file system\<close>

lemma fs_put_sel [simp]:
  "h_tick (fs_put k n s) = h_tick s" "h_read_only (fs_put k n s) = h_read_only s"
  "h_unreadable (fs_put k n s) = h_unreadable s" "h_accepted (fs_put k n s) = h_accepted s"
  "h_survived (fs_put k n s) = h_survived s" "h_out (fs_put k n s) = h_out s"
  "h_stdin (fs_put k n s) = h_stdin s" "h_db (fs_put k n s) = h_db s"
  "h_mono (fs_put k n s) = h_mono s" "h_unix (fs_put k n s) = h_unix s"
  "host.more (fs_put k n s) = host.more s"
  by (simp_all add: fs_put_def)

lemma ticked_sel [simp]:
  "h_fs (ticked s) = h_fs s" "h_read_only (ticked s) = h_read_only s"
  "h_unreadable (ticked s) = h_unreadable s" "h_accepted (ticked s) = h_accepted s"
  "h_survived (ticked s) = h_survived s" "h_out (ticked s) = h_out s"
  "h_stdin (ticked s) = h_stdin s" "h_db (ticked s) = h_db s"
  "h_mono (ticked s) = h_mono s" "h_unix (ticked s) = h_unix s" "h_tick (ticked s) = Suc (h_tick s)"
  "host.more (ticked s) = host.more s"
  by (simp_all add: ticked_def)

lemma fs_lookup_ticked [simp]: "fs_lookup (ticked s) k = fs_lookup s k"
  by (simp add: fs_lookup_def)

lemma fs_lookup_put:
  "k \<noteq> [] \<Longrightarrow> fs_lookup (fs_put k n s) k' = (if k' = k then Some n else fs_lookup s k')"
  by (auto simp: fs_lookup_def fs_put_def update_conv')

lemma fs_lookup_put_same [simp]: "k \<noteq> [] \<Longrightarrow> fs_lookup (fs_put k n s) k = Some n"
  by (simp add: fs_lookup_put)

lemma fopen_wb_ok_comps: "fopen_wb p s = (True, s') \<Longrightarrow> path_comps p \<noteq> []"
  by (auto simp: fopen_wb_def Let_def fs_lookup_def split: if_splits)

lemma split_slash_not_Nil [simp]: "split_slash p \<noteq> []"
  by (induction p) (auto split: list.splits)

lemma split_slash_append:
  "split_slash (p @ CHR ''/'' # q) = split_slash p @ split_slash q"
  by (induction p) (auto split: list.splits)

lemma path_comps_slash: "p \<noteq> [] \<Longrightarrow> path_comps (p @ CHR ''/'' # q) = path_comps p @ rel_comps q"
  by (simp add: path_comps_def rel_comps_def split_slash_append)

lemma rel_comps_slash: "rel_comps (p @ CHR ''/'' # q) = rel_comps p @ rel_comps q"
  by (simp add: rel_comps_def split_slash_append)

lemma c_string_take: "NUL \<notin> set bs \<Longrightarrow> c_string bs = bs"
  by (auto simp: c_string_def intro: takeWhile_eq_all_conv [THEN iffD2])

lemma c_string_no_NUL: "NUL \<notin> set (c_string bs)"
  by (auto simp: c_string_def dest: set_takeWhileD)

end
