(* ===== verification/Sha256.thy ===== *)
theory Sha256
  imports Vita_Prelude
begin

unbundle bit_operations_syntax

text \<open>
  The SHA-256 of kernel/audit_core.c: the streaming context (\<open>sha256_init\<close>, \<open>sha256_update\<close>,
  \<open>sha256_final\<close>, \<open>sha256_transform\<close>) and the hexadecimal digest \<open>hash_hex\<close> that the audit
  chain stores. The context is a stack variable, so \<open>sha256_init\<close> leaves whatever bytes the
  64-byte block buffer held; they are an argument of the model. The main result is that the
  streaming code computes the block-by-block hash of the padded message of the standard, whatever
  those bytes were.
\<close>

section \<open>The compression function\<close>

definition ROTR :: "u32 \<Rightarrow> nat \<Rightarrow> u32" where
  "ROTR x n = (drop_bit n x) OR (push_bit (32 - n) x)"

definition CH :: "u32 \<Rightarrow> u32 \<Rightarrow> u32 \<Rightarrow> u32" where
  "CH x y z = (x AND y) XOR ((NOT x) AND z)"

definition MAJ :: "u32 \<Rightarrow> u32 \<Rightarrow> u32 \<Rightarrow> u32" where
  "MAJ x y z = (x AND y) XOR (x AND z) XOR (y AND z)"

definition EP0 :: "u32 \<Rightarrow> u32" where
  "EP0 x = ROTR x 2 XOR ROTR x 13 XOR ROTR x 22"

definition EP1 :: "u32 \<Rightarrow> u32" where
  "EP1 x = ROTR x 6 XOR ROTR x 11 XOR ROTR x 25"

definition SIG0 :: "u32 \<Rightarrow> u32" where
  "SIG0 x = ROTR x 7 XOR ROTR x 18 XOR drop_bit 3 x"

definition SIG1 :: "u32 \<Rightarrow> u32" where
  "SIG1 x = ROTR x 17 XOR ROTR x 19 XOR drop_bit 10 x"

definition ktab :: "u32 list" where
  "ktab = concat [
    [0x428a2f98,0x71374491,0xb5c0fbcf,0xe9b5dba5,0x3956c25b,0x59f111f1,0x923f82a4,0xab1c5ed5],
    [0xd807aa98,0x12835b01,0x243185be,0x550c7dc3,0x72be5d74,0x80deb1fe,0x9bdc06a7,0xc19bf174],
    [0xe49b69c1,0xefbe4786,0x0fc19dc6,0x240ca1cc,0x2de92c6f,0x4a7484aa,0x5cb0a9dc,0x76f988da],
    [0x983e5152,0xa831c66d,0xb00327c8,0xbf597fc7,0xc6e00bf3,0xd5a79147,0x06ca6351,0x14292967],
    [0x27b70a85,0x2e1b2138,0x4d2c6dfc,0x53380d13,0x650a7354,0x766a0abb,0x81c2c92e,0x92722c85],
    [0xa2bfe8a1,0xa81a664b,0xc24b8b70,0xc76c51a3,0xd192e819,0xd6990624,0xf40e3585,0x106aa070],
    [0x19a4c116,0x1e376c08,0x2748774c,0x34b0bcb5,0x391c0cb3,0x4ed8aa4a,0x5b9cca4f,0x682e6ff3],
    [0x748f82ee,0x78a5636f,0x84c87814,0x8cc70208,0x90befffa,0xa4506ceb,0xbef9a3f7,0xc67178f2]]"

record sha256_ctx =
  sha_data :: "u8 list"
  sha_datalen :: nat
  sha_bitlen :: u64
  sha_state :: "u32 list"

text \<open>The message schedule: sixteen big-endian words of the block, then 48 derived ones.\<close>

definition be_word :: "u8 list \<Rightarrow> nat \<Rightarrow> u32" where
  "be_word data j =
     (push_bit 24 (ucast (data ! j))) OR (push_bit 16 (ucast (data ! (j + 1)))) OR
     (push_bit 8 (ucast (data ! (j + 2)))) OR (ucast (data ! (j + 3)))"

fun sched_loop :: "nat \<Rightarrow> u32 list \<Rightarrow> u32 list" where
  "sched_loop 0 m = m"
| "sched_loop (Suc n) m =
     (let i = length m in
      sched_loop n (m @ [SIG1 (m ! (i - 2)) + m ! (i - 7) + SIG0 (m ! (i - 15)) + m ! (i - 16)]))"

definition message_schedule :: "u8 list \<Rightarrow> u32 list" where
  "message_schedule data = sched_loop 48 (map (\<lambda>i. be_word data (4 * i)) [0..<16])"

type_synonym working = "u32 \<times> u32 \<times> u32 \<times> u32 \<times> u32 \<times> u32 \<times> u32 \<times> u32"

fun sha_round :: "u32 \<times> u32 \<Rightarrow> working \<Rightarrow> working" where
  "sha_round (k, w) (a, b, c, d, e, f, g, h) =
     (let t1 = h + EP1 e + CH e f g + k + w;
          t2 = EP0 a + MAJ a b c
      in (t1 + t2, a, b, c, d + t1, e, f, g))"

fun state_words :: "working \<Rightarrow> u32 list" where
  "state_words (a, b, c, d, e, f, g, h) = [a, b, c, d, e, f, g, h]"

definition compress :: "u32 list \<Rightarrow> u8 list \<Rightarrow> u32 list" where
  "compress st data =
     (let w0 = (st ! 0, st ! 1, st ! 2, st ! 3, st ! 4, st ! 5, st ! 6, st ! 7);
          w = fold sha_round (zip ktab (message_schedule data)) w0
      in map2 (+) st (state_words w))"

definition sha256_transform :: "sha256_ctx \<Rightarrow> u8 list \<Rightarrow> sha256_ctx" where
  "sha256_transform ctx data = ctx\<lparr>sha_state := compress (sha_state ctx) data\<rparr>"

section \<open>The streaming interface\<close>

definition H0 :: "u32 list" where
  "H0 = [0x6a09e667, 0xbb67ae85, 0x3c6ef372, 0xa54ff53a,
         0x510e527f, 0x9b05688c, 0x1f83d9ab, 0x5be0cd19]"

definition sha256_init :: "sha256_ctx \<Rightarrow> sha256_ctx" where
  "sha256_init ctx = ctx\<lparr>sha_datalen := 0, sha_bitlen := 0, sha_state := H0\<rparr>"

definition sha256_byte :: "u8 \<Rightarrow> sha256_ctx \<Rightarrow> sha256_ctx" where
  "sha256_byte b ctx =
     (let ctx1 = ctx\<lparr>sha_data := (sha_data ctx)[sha_datalen ctx := b],
                     sha_datalen := sha_datalen ctx + 1\<rparr>
      in if sha_datalen ctx1 = 64
         then let ctx2 = sha256_transform ctx1 (sha_data ctx1)
              in ctx2\<lparr>sha_bitlen := sha_bitlen ctx2 + 512, sha_datalen := 0\<rparr>
         else ctx1)"

fun sha256_update :: "u8 list \<Rightarrow> sha256_ctx \<Rightarrow> sha256_ctx" where
  "sha256_update [] ctx = ctx"
| "sha256_update (b # bs) ctx = sha256_update bs (sha256_byte b ctx)"

text \<open>\<open>while (i < n) ctx->data[i++] = 0x00;\<close>\<close>

fun fill_zero :: "nat \<Rightarrow> nat \<Rightarrow> u8 list \<Rightarrow> u8 list" where
  "fill_zero i 0 data = data"
| "fill_zero i (Suc k) data = fill_zero (i + 1) k (data[i := 0])"

definition u64_be_bytes :: "u64 \<Rightarrow> u8 list" where
  "u64_be_bytes v = map (\<lambda>s. ucast (drop_bit s v)) [56, 48, 40, 32, 24, 16, 8, 0]"

definition digest_bytes :: "u32 list \<Rightarrow> u8 list" where
  "digest_bytes st =
     concat (map (\<lambda>w. map (\<lambda>i. ucast ((drop_bit (24 - i * 8) w) AND 0xff)) [0, 1, 2, 3]) st)"

definition sha256_final :: "sha256_ctx \<Rightarrow> u8 list" where
  "sha256_final ctx =
     (let i = sha_datalen ctx;
          data1 = (sha_data ctx)[i := 0x80];
          ctx1 = (if i < 56
                  then ctx\<lparr>sha_data := fill_zero (i + 1) (56 - (i + 1)) data1\<rparr>
                  else let data2 = fill_zero (i + 1) (64 - (i + 1)) data1;
                           c = sha256_transform (ctx\<lparr>sha_data := data2\<rparr>) data2
                       in c\<lparr>sha_data := fill_zero 0 56 (sha_data c)\<rparr>);
          bits = sha_bitlen ctx1 + of_nat (sha_datalen ctx1) * 8;
          data3 = take 56 (sha_data ctx1) @ u64_be_bytes bits
      in digest_bytes (sha_state (sha256_transform (ctx1\<lparr>sha_data := data3, sha_bitlen := bits\<rparr>) data3)))"

definition hex_digit :: "u8 \<Rightarrow> char" where
  "hex_digit n = ''0123456789abcdef'' ! unat n"

definition payload_bytes :: "string \<Rightarrow> u8 list" where
  "payload_bytes s = map (\<lambda>c. of_nat (uchar c)) s"

text \<open>\<open>hash_hex\<close>, with the uninitialised context \<open>junk\<close> it starts from.\<close>

definition hash_hex_from :: "sha256_ctx \<Rightarrow> string \<Rightarrow> string" where
  "hash_hex_from junk payload =
     concat (map (\<lambda>d. [hex_digit ((drop_bit 4 d) AND 0xF), hex_digit (d AND 0xF)])
       (sha256_final (sha256_update (payload_bytes payload) (sha256_init junk))))"

definition junk0 :: sha256_ctx where
  "junk0 = \<lparr>sha_data = replicate 64 0, sha_datalen = 0, sha_bitlen = 0, sha_state = []\<rparr>"

definition hash_hex :: "string \<Rightarrow> string" where
  "hash_hex payload = hash_hex_from junk0 payload"

section \<open>The padded, block-wise hash of the standard\<close>

function full_blocks :: "u8 list \<Rightarrow> u8 list list" where
  "full_blocks xs = (if length xs < 64 then [] else take 64 xs # full_blocks (drop 64 xs))"
  by pat_completeness auto
termination
  by (relation "measure length") auto

declare full_blocks.simps [simp del]

definition sha_pad :: "u8 list \<Rightarrow> u8 list" where
  "sha_pad msg =
     msg @ [0x80] @ replicate ((119 - length msg mod 64) mod 64) 0 @ u64_be_bytes (of_nat (8 * length msg))"

definition sha256_spec :: "u8 list \<Rightarrow> u8 list" where
  "sha256_spec msg = digest_bytes (fold (\<lambda>b st. compress st b) (full_blocks (sha_pad msg)) H0)"

definition block_rest :: "u8 list \<Rightarrow> u8 list" where
  "block_rest xs = drop (64 * (length xs div 64)) xs"

lemma full_blocks_short [simp]: "length xs < 64 \<Longrightarrow> full_blocks xs = []"
  by (simp add: full_blocks.simps)

lemma full_blocks_block [simp]: "length b = 64 \<Longrightarrow> full_blocks (b @ xs) = b # full_blocks xs"
  by (simp add: full_blocks.simps [of "b @ xs"])

lemma block_rest_short [simp]: "length xs < 64 \<Longrightarrow> block_rest xs = xs"
  by (simp add: block_rest_def)

lemma block_rest_block [simp]: "length b = 64 \<Longrightarrow> block_rest (b @ xs) = block_rest xs"
proof -
  assume "length b = 64"
  moreover have "(64 + length xs) div 64 = Suc (length xs div 64)"
    using div_add_self1 [of 64 "length xs"] by simp
  ultimately show ?thesis by (simp add: block_rest_def)
qed

lemma length_block_rest: "length (block_rest xs) = length xs mod 64"
  by (simp add: block_rest_def minus_mult_div_eq_mod)

lemma full_blocks_append: "full_blocks (xs @ ys) = full_blocks xs @ full_blocks (block_rest xs @ ys)"
proof (induction xs rule: full_blocks.induct)
  case (1 xs)
  show ?case
  proof (cases "length xs < 64")
    case True
    then show ?thesis by simp
  next
    case False
    let ?b = "take 64 xs" and ?r = "drop 64 xs"
    have b: "length ?b = 64" using False by simp
    have "full_blocks (xs @ ys) = full_blocks (?b @ (?r @ ys))"
      by (simp only: append_assoc [symmetric] append_take_drop_id)
    also have "\<dots> = ?b # full_blocks (?r @ ys)" using b by (rule full_blocks_block)
    also have "\<dots> = ?b # full_blocks ?r @ full_blocks (block_rest ?r @ ys)"
      using 1 False by simp
    also have "\<dots> = full_blocks (?b @ ?r) @ full_blocks (block_rest (?b @ ?r) @ ys)"
      by (simp only: full_blocks_block [OF b] block_rest_block [OF b] append_Cons)
    finally show ?thesis by (simp only: append_take_drop_id)
  qed
qed

text \<open>
  The loop invariant of \<open>sha256_update\<close>: the state has absorbed the full blocks, the buffer
  holds the rest, \<open>bitlen\<close> counts the absorbed bits.
\<close>

definition absorbed :: "u32 list \<Rightarrow> u8 list \<Rightarrow> sha256_ctx \<Rightarrow> bool" where
  "absorbed st0 msg ctx \<longleftrightarrow>
     length (sha_data ctx) = 64 \<and>
     sha_datalen ctx = length msg mod 64 \<and>
     take (sha_datalen ctx) (sha_data ctx) = block_rest msg \<and>
     sha_state ctx = fold (\<lambda>b st. compress st b) (full_blocks msg) st0 \<and>
     sha_bitlen ctx = of_nat (512 * (length msg div 64))"

lemma absorbed_init: "length (sha_data junk) = 64 \<Longrightarrow> absorbed H0 [] (sha256_init junk)"
  by (simp add: absorbed_def sha256_init_def)

lemma block_rest_snoc:
  assumes "length msg mod 64 < 63"
  shows "block_rest (msg @ [b]) = block_rest msg @ [b]" "full_blocks (msg @ [b]) = full_blocks msg"
proof -
  have "Suc (length msg) div 64 = length msg div 64" using assms by (simp add: div_Suc mod_Suc)
  moreover have "64 * (length msg div 64) \<le> length msg" by simp
  ultimately show "block_rest (msg @ [b]) = block_rest msg @ [b]" by (simp add: block_rest_def)
  show "full_blocks (msg @ [b]) = full_blocks msg"
    using assms by (simp add: full_blocks_append [of msg "[b]"] length_block_rest)
qed

lemma block_rest_full:
  assumes "length msg mod 64 = 63"
  shows "block_rest (msg @ [b]) = []" "full_blocks (msg @ [b]) = full_blocks msg @ [block_rest msg @ [b]]"
proof -
  have "64 * (Suc (length msg) div 64) = Suc (length msg)"
    using assms mult_div_mod_eq [of 64 "Suc (length msg)"] by (simp add: mod_Suc)
  then show "block_rest (msg @ [b]) = []" by (simp add: block_rest_def)
  have "length (block_rest msg @ [b]) = 64" using assms by (simp add: length_block_rest)
  from full_blocks_block [OF this, of "[]"]
  show "full_blocks (msg @ [b]) = full_blocks msg @ [block_rest msg @ [b]]"
    by (simp add: full_blocks_append [of msg "[b]"])
qed

lemma absorbed_byte:
  assumes "absorbed st0 msg ctx"
  shows "absorbed st0 (msg @ [b]) (sha256_byte b ctx)"
proof -
  let ?d = "sha_data ctx" and ?n = "length msg mod 64"
  have data: "length ?d = 64" and n: "sha_datalen ctx = ?n" and tk: "take ?n ?d = block_rest msg"
    using assms by (auto simp: absorbed_def)
  have upd: "take (Suc ?n) (?d[?n := b]) = block_rest msg @ [b]"
    using data tk by (simp add: take_Suc_conv_app_nth)
  show ?thesis
  proof (cases "?n = 63")
    case True
    have "?d[?n := b] = take (Suc ?n) (?d[?n := b])" using True data by simp
    with upd have blk: "?d[?n := b] = block_rest msg @ [b]" by simp
    have "Suc (length msg) mod 64 = 0" "Suc (length msg) div 64 = Suc (length msg div 64)"
      using True by (simp_all add: div_Suc mod_Suc)
    then show ?thesis
      using assms True n blk data
      by (simp add: absorbed_def sha256_byte_def sha256_transform_def block_rest_full Let_def
          length_block_rest algebra_simps)
  next
    case False
    moreover have "?n < 64" by simp
    ultimately have less: "?n < 63" by linarith
    have "Suc (length msg) mod 64 = Suc ?n" "Suc (length msg) div 64 = length msg div 64"
      using less by (simp_all add: div_Suc mod_Suc)
    then show ?thesis
      using assms less n upd data
      by (simp add: absorbed_def sha256_byte_def block_rest_snoc Let_def)
  qed
qed

lemma absorbed_update:
  "absorbed st0 msg ctx \<Longrightarrow> absorbed st0 (msg @ bs) (sha256_update bs ctx)"
proof (induction bs arbitrary: msg ctx)
  case Nil
  then show ?case by simp
next
  case (Cons b bs)
  from absorbed_byte [OF Cons.prems] have "absorbed st0 (msg @ [b]) (sha256_byte b ctx)" .
  from Cons.IH [OF this] show ?case by simp
qed

section \<open>Finalisation\<close>

lemma fill_zero_eq:
  "i + k \<le> length data \<Longrightarrow> fill_zero i k data = take i data @ replicate k 0 @ drop (i + k) data"
proof (induction k arbitrary: i data)
  case 0
  then show ?case by simp
next
  case (Suc k)
  then have "fill_zero i (Suc k) data = take (Suc i) (data[i := 0]) @ replicate k 0 @ drop (Suc i + k) (data[i := 0])"
    by simp
  also have "take (Suc i) (data[i := 0]) = take i data @ [0]"
    using Suc.prems by (simp add: take_Suc_conv_app_nth)
  finally show ?case by simp
qed

lemma length_u64_be_bytes [simp]: "length (u64_be_bytes v) = 8"
  by (simp add: u64_be_bytes_def)

lemma pad_block_short:
  assumes "length r < 56" "length data = 64" "take (length r) data = r"
  shows "take 56 (fill_zero (length r + 1) (56 - (length r + 1)) (data[length r := 0x80]))
       = r @ [0x80] @ replicate (55 - length r) 0"
proof -
  have "take (Suc (length r)) (data[length r := 0x80]) = r @ [0x80]"
    using assms by (simp add: take_Suc_conv_app_nth)
  moreover have "56 - length r = Suc (55 - length r)" using assms(1) by simp
  ultimately show ?thesis using assms(1,2) by (simp add: fill_zero_eq)
qed

lemma pad_block_long:
  assumes "length r < 64" "length data = 64" "take (length r) data = r"
  shows "fill_zero (length r + 1) (64 - (length r + 1)) (data[length r := 0x80])
       = r @ [0x80] @ replicate (63 - length r) 0"
proof -
  have "take (Suc (length r)) (data[length r := 0x80]) = r @ [0x80]"
    using assms by (simp add: take_Suc_conv_app_nth)
  then show ?thesis using assms(1,2) by (simp add: fill_zero_eq)
qed

lemma full_blocks_pad_short:
  assumes "length (block_rest msg) < 56"
  shows "full_blocks (sha_pad msg) = full_blocks msg @
    [block_rest msg @ [0x80] @ replicate (55 - length (block_rest msg)) 0 @
     u64_be_bytes (of_nat (8 * length msg))]"
proof -
  let ?r = "block_rest msg" and ?L = "u64_be_bytes (of_nat (8 * length msg))"
  have k: "(119 - length msg mod 64) mod 64 = 55 - length ?r"
    using assms by (simp add: length_block_rest mod_if [of "119 - _"])
  have len: "length (?r @ [0x80] @ replicate (55 - length ?r) 0 @ ?L) = 64" using assms by simp
  show ?thesis
    using full_blocks_block [OF len, of "[]"]
    by (simp add: sha_pad_def k full_blocks_append [of msg])
qed

lemma full_blocks_pad_long:
  assumes "56 \<le> length (block_rest msg)"
  shows "full_blocks (sha_pad msg) = full_blocks msg @
    [block_rest msg @ [0x80] @ replicate (63 - length (block_rest msg)) 0,
     replicate 56 0 @ u64_be_bytes (of_nat (8 * length msg))]"
proof -
  let ?r = "block_rest msg" and ?L = "u64_be_bytes (of_nat (8 * length msg))"
  have lt: "length ?r < 64" by (simp add: length_block_rest)
  have k: "(119 - length msg mod 64) mod 64 = (63 - length ?r) + 56"
    using assms lt by (simp add: length_block_rest mod_if [of "119 - _"])
  have b1: "length (?r @ [0x80] @ replicate (63 - length ?r) 0) = 64" using lt by simp
  have b2: "length (replicate 56 0 @ ?L) = 64" by simp
  have "full_blocks (sha_pad msg) = full_blocks msg @
      full_blocks ((?r @ [0x80] @ replicate (63 - length ?r) 0) @ (replicate 56 0 @ ?L))"
    by (simp add: sha_pad_def k full_blocks_append [of msg] replicate_add)
  also have "\<dots> = full_blocks msg @ [?r @ [0x80] @ replicate (63 - length ?r) 0, replicate 56 0 @ ?L]"
    using full_blocks_block [OF b1, of "replicate 56 0 @ ?L"] full_blocks_block [OF b2, of "[]"]
    by simp
  finally show ?thesis .
qed

lemma absorbed_bits:
  assumes "absorbed H0 msg ctx"
  shows "sha_bitlen ctx + of_nat (sha_datalen ctx) * 8 = of_nat (8 * length msg)"
proof -
  have "64 * (length msg div 64) + length msg mod 64 = length msg" by simp
  then have "512 * (length msg div 64) + (length msg mod 64) * 8 = 8 * length msg" by linarith
  then have "of_nat (512 * (length msg div 64)) + of_nat (length msg mod 64) * 8 = (of_nat (8 * length msg) :: u64)"
    by (metis of_nat_add of_nat_mult of_nat_numeral)
  then show ?thesis using assms by (simp only: absorbed_def)
qed

lemma sha256_final_absorbed:
  assumes "absorbed H0 msg ctx"
  shows "sha256_final ctx = sha256_spec msg"
proof -
  let ?r = "block_rest msg"
  have data: "length (sha_data ctx) = 64" and tk: "take (length ?r) (sha_data ctx) = ?r"
    and dl: "sha_datalen ctx = length ?r" and lt: "length ?r < 64"
    and st: "sha_state ctx = fold (\<lambda>b st. compress st b) (full_blocks msg) H0"
    using assms by (auto simp: absorbed_def length_block_rest)
  have bits: "sha_bitlen ctx + of_nat (length ?r) * 8 = of_nat (8 * length msg)"
    using absorbed_bits [OF assms] by (simp only: dl)
  show ?thesis
  proof (cases "length ?r < 56")
    case True
    show ?thesis
      using pad_block_short [OF True data tk] bits
      by (simp add: sha256_final_def sha256_spec_def dl True Let_def sha256_transform_def st
          full_blocks_pad_short)
  next
    case False
    then have ge: "56 \<le> length ?r" by simp
    have z: "take 56 (fill_zero 0 56 (?r @ [0x80] @ replicate (63 - length ?r) 0)) = replicate 56 0"
      using lt by (simp add: fill_zero_eq)
    show ?thesis
      using pad_block_long [OF lt data tk] bits z
      by (simp add: sha256_final_def sha256_spec_def dl False Let_def sha256_transform_def st
          full_blocks_pad_long [OF ge])
  qed
qed

lemma length_digest_bytes: "length (digest_bytes st) = 4 * length st"
  by (induction st) (simp_all add: digest_bytes_def)

lemma length_compress: "length st = 8 \<Longrightarrow> length (compress st b) = 8"
  by (simp add: compress_def Let_def split: prod.splits)
     (cases "fold sha_round (zip ktab (message_schedule b)) (st ! 0, st ! 1, st ! 2, st ! 3, st ! 4, st ! 5, st ! 6, st ! 7)"
        rule: state_words.cases, simp)

lemma length_fold_compress:
  "length st = 8 \<Longrightarrow> length (fold (\<lambda>b st. compress st b) bs st) = 8"
  by (induction bs arbitrary: st) (simp_all add: length_compress)

lemma length_sha256_spec: "length (sha256_spec msg) = 32"
  by (simp add: sha256_spec_def length_digest_bytes length_fold_compress H0_def)

lemma sha256_stream_spec:
  assumes "length (sha_data junk) = 64"
  shows "sha256_final (sha256_update msg (sha256_init junk)) = sha256_spec msg"
  using sha256_final_absorbed [OF absorbed_update [OF absorbed_init [OF assms]], of msg] by simp

lemma hash_hex_junk: "length (sha_data junk) = 64 \<Longrightarrow> hash_hex_from junk p = hash_hex p"
  by (simp add: hash_hex_def hash_hex_from_def sha256_stream_spec junk0_def)

lemma length_concat_pairs: "length (concat (map (\<lambda>d. [f d, g d]) xs)) = 2 * length xs"
  by (induction xs) simp_all

lemma hash_hex_length: "length (hash_hex p) = 64"
  using sha256_stream_spec [of junk0 "payload_bytes p"]
  by (simp add: hash_hex_def hash_hex_from_def length_concat_pairs junk0_def length_sha256_spec
      del: length_concat)

lemma hash_hex_nonempty [simp]: "hash_hex p \<noteq> []"
  using hash_hex_length [of p] by auto

section \<open>Properties\<close>

lemma absorbed_updates:
  "absorbed st0 msg ctx \<Longrightarrow> absorbed st0 (msg @ concat chunks) (fold sha256_update chunks ctx)"
proof (induction chunks arbitrary: msg ctx)
  case (Cons c chunks)
  from Cons.IH [OF absorbed_update [OF Cons.prems, of c]] show ?case by simp
qed simp

lemma sha256_abc:
  "sha256_final (sha256_update [0x61, 0x62, 0x63] (sha256_init junk0)) =
    [0xba, 0x78, 0x16, 0xbf, 0x8f, 0x01, 0xcf, 0xea, 0x41, 0x41, 0x40, 0xde, 0x5d, 0xae, 0x22, 0x23,
     0xb0, 0x03, 0x61, 0xa3, 0x96, 0x17, 0x7a, 0x9c, 0xb4, 0x10, 0xff, 0x61, 0xf2, 0x00, 0x15, 0xad]"
  by code_simp

text \<open>
  C15. Streaming hash. Fed in any chunks, the context that the code keeps (a block buffer, its fill
  count and a bit counter) yields the digest of the whole message as the padded, blockwise definition
  of SHA-256 has it, whatever the block buffer held before; the witness is the published test vector.
\<close>

theorem sha256_streaming:
  assumes "length (sha_data junk) = 64"
  shows "sha256_final (fold sha256_update chunks (sha256_init junk)) = sha256_spec (concat chunks)"
  using sha256_final_absorbed [OF absorbed_updates [OF absorbed_init [OF assms]], of chunks] by simp

lemma sha256_streaming_witness:
  "sha256_final (fold sha256_update [[0x61], [0x62, 0x63]] (sha256_init junk0)) =
    [0xba, 0x78, 0x16, 0xbf, 0x8f, 0x01, 0xcf, 0xea, 0x41, 0x41, 0x40, 0xde, 0x5d, 0xae, 0x22, 0x23,
     0xb0, 0x03, 0x61, 0xa3, 0x96, 0x17, 0x7a, 0x9c, 0xb4, 0x10, 0xff, 0x61, 0xf2, 0x00, 0x15, 0xad]"
proof -
  have "length (sha_data junk0) = 64" by (simp add: junk0_def)
  from sha256_streaming [OF this, of "[[0x61], [0x62, 0x63]]"] sha256_abc sha256_stream_spec [OF this, of "[0x61, 0x62, 0x63]"] show ?thesis by simp
qed

end
