(* ===== verification/Hash_Chain.thy ===== *)
theory Hash_Chain
  imports Main
begin

text \<open>
  Hash chains over an arbitrary row type: what it means for rows to be linked, and the contract
  under which the hash of the last row fixes all the payloads before it.
\<close>

fun chain_links ::
  "(string \<Rightarrow> string) \<Rightarrow> ('r \<Rightarrow> string) \<Rightarrow> ('r \<Rightarrow> string) \<Rightarrow> ('r \<Rightarrow> string) \<Rightarrow> string \<Rightarrow> 'r list \<Rightarrow> bool" where
  "chain_links hash payload prev own h [] = True"
| "chain_links hash payload prev own h (r # rs) =
     (prev r = h \<and> own r = hash (payload r) \<and> chain_links hash payload prev own (own r) rs)"

definition chain_head :: "('r \<Rightarrow> string) \<Rightarrow> string \<Rightarrow> 'r list \<Rightarrow> string" where
  "chain_head own h rs = (if rs = [] then h else own (last rs))"

lemma chain_head_simps [simp]:
  "chain_head own h [] = h" "chain_head own h (rs @ [r]) = own r"
  "chain_head own h (r # rs) = chain_head own (own r) rs"
  by (simp_all add: chain_head_def)

lemma chain_links_snoc [simp]:
  "chain_links hash payload prev own h (rs @ [r]) \<longleftrightarrow>
     chain_links hash payload prev own h rs \<and> prev r = chain_head own h rs \<and> own r = hash (payload r)"
  by (induction rs arbitrary: h) auto

lemma chain_head_hash:
  "chain_links hash payload prev own h rs \<Longrightarrow> rs \<noteq> [] \<Longrightarrow> chain_head own h rs = hash (payload (last rs))"
  by (induction rs rule: rev_induct) auto

lemma chain_prev_range:
  "chain_links hash payload prev own h rs \<Longrightarrow> r \<in> set rs \<Longrightarrow> prev r = h \<or> prev r \<in> range hash"
  by (induction rs arbitrary: h) auto

locale hash_chain =
  fixes hash :: "string \<Rightarrow> string"
    and payload :: "'r \<Rightarrow> string"
    and prev :: "'r \<Rightarrow> string"
    and own :: "'r \<Rightarrow> string"
    and fits :: "'r \<Rightarrow> bool"
  assumes hash_nonempty: "hash p \<noteq> []"
    and prev_determined:
      "fits r \<Longrightarrow> fits r' \<Longrightarrow> prev r = [] \<or> prev r \<in> range hash \<Longrightarrow>
       prev r' = [] \<or> prev r' \<in> range hash \<Longrightarrow> payload r = payload r' \<Longrightarrow> prev r = prev r'"
begin

text \<open>Two different payloads of the rows with the same hash.\<close>

definition collision :: "'r list \<Rightarrow> 'r list \<Rightarrow> bool" where
  "collision rs rs' \<longleftrightarrow> (\<exists>r\<in>set rs. \<exists>r'\<in>set rs'. payload r \<noteq> payload r' \<and> hash (payload r) = hash (payload r'))"

lemma collision_mono: "collision rs rs' \<Longrightarrow> set rs \<subseteq> set ss \<Longrightarrow> set rs' \<subseteq> set ss' \<Longrightarrow> collision ss ss'"
  by (auto simp: collision_def)

lemma head_nonempty:
  "chain_links hash payload prev own [] rs \<Longrightarrow> chain_head own [] rs = [] \<longleftrightarrow> rs = []"
  by (cases rs rule: rev_cases) (auto simp: hash_nonempty)

lemma prev_form:
  "chain_links hash payload prev own [] rs \<Longrightarrow> r \<in> set rs \<Longrightarrow> prev r = [] \<or> prev r \<in> range hash"
  by (rule chain_prev_range)

text \<open>Rewriting any earlier row and keeping the head needs a collision of the hash.\<close>

lemma head_fixes_payloads:
  assumes "chain_links hash payload prev own [] rs" "chain_links hash payload prev own [] rs'"
    and "\<forall>r\<in>set rs. fits r" "\<forall>r\<in>set rs'. fits r"
    and "chain_head own [] rs = chain_head own [] rs'"
  shows "map payload rs = map payload rs' \<or> collision rs rs'"
  using assms
proof (induction rs arbitrary: rs' rule: rev_induct)
  case Nil
  then show ?case by (metis chain_head_simps(1) head_nonempty)
next
  case (snoc r rs)
  from snoc.prems have "rs' \<noteq> []" by (auto simp: hash_nonempty)
  then obtain qs q where q: "rs' = qs @ [q]" by (cases rs' rule: rev_cases) auto
  show ?case
  proof (cases "payload r = payload q")
    case False
    then show ?thesis using snoc.prems q by (auto simp: collision_def)
  next
    case True
    then have "prev r = prev q"
      using snoc.prems q prev_form [OF snoc.prems(1), of r] prev_form [OF snoc.prems(2), of q]
      by (intro prev_determined) auto
    then have "map payload rs = map payload qs \<or> collision rs qs"
      using snoc.prems q by (intro snoc.IH) auto
    then show ?thesis using True q by (auto intro: collision_mono)
  qed
qed

end

end
