(* ===== verification/Audit_Core.thy ===== *)
theory Audit_Core
  imports Host Sha256 Hash_Chain
begin

text \<open>
  The hosted audit core (kernel/audit_core.c): the early buffer of boot events, the SQLite backend
  it is flushed to, the hash chain over the rows of \<open>audit_event\<close>, the inserts of the other
  tables, and the reports. \<open>g_audit\<close> is the field \<open>aud\<close> of the state; \<open>au_db\<close> is the open
  database handle, and \<open>h_db\<close> of the host holds the rows each database file has accepted.
\<close>

definition AUDIT_EARLY_MAX_EVENTS :: nat where "AUDIT_EARLY_MAX_EVENTS = 32"
definition AUDIT_RECENT_BLOCK_EVENTS :: nat where "AUDIT_RECENT_BLOCK_EVENTS = 8"

record early_event =
  ee_event_type :: string
  ee_summary :: string
  ee_monotonic_ns :: u64

record audit_state =
  au_persistent_ready :: bool
  au_event_seq :: u64
  au_boot_started_unix :: u64
  au_boot_id :: string
  au_node_id :: string
  au_arch_name :: string
  au_prev_hash :: string
  au_early_events :: "early_event list"
  au_db :: cstr

record audit_sys = host + aud :: audit_state

definition zero_audit :: audit_state where
  "zero_audit = \<lparr>au_persistent_ready = False, au_event_seq = 0, au_boot_started_unix = 0,
     au_boot_id = [], au_node_id = [], au_arch_name = [], au_prev_hash = [],
     au_early_events = [], au_db = None\<rparr>"

definition set_db :: "cstr \<Rightarrow> 'a audit_sys_scheme \<Rightarrow> 'a audit_sys_scheme" where
  "set_db d s = s\<lparr>aud := (aud s)\<lparr>au_db := d\<rparr>\<rparr>"

section \<open>Opening the backend\<close>

definition exec_sql_file :: "string \<Rightarrow> string \<Rightarrow> 'a audit_sys_scheme \<Rightarrow> bool \<times> 'a audit_sys_scheme" where
  "exec_sql_file db path s =
     (case fopen_rb path s of
        None \<Rightarrow> (False, s)
      | Some bytes \<Rightarrow>
          if bytes = [] then (False, s)
          else let (got, s1) = malloc_ok s in
               if \<not> got then (False, s1) else sqlite db (SqlExec (c_string bytes)) s1)"

definition hardware_snapshot_has_column :: "string \<Rightarrow> 'a audit_sys_scheme \<Rightarrow> bool \<times> 'a audit_sys_scheme" where
  "hardware_snapshot_has_column column s =
     (case au_db (aud s) of
        None \<Rightarrow> (False, s)
      | Some db \<Rightarrow>
          let (ok, s1) = sqlite db (SqlPrepare ''PRAGMA table_info(hardware_snapshot);'') s in
          if \<not> ok then (False, s1)
          else (Some column \<in> set (h_sql_columns s1 (h_tick s1)), ticked s1))"

definition ensure_hardware_snapshot_column ::
  "string \<Rightarrow> string \<Rightarrow> 'a audit_sys_scheme \<Rightarrow> bool \<times> 'a audit_sys_scheme" where
  "ensure_hardware_snapshot_column column definition0 s =
     (let (has, s1) = hardware_snapshot_has_column column s in
      if has then (True, s1)
      else let sql = ''ALTER TABLE hardware_snapshot ADD COLUMN '' @ column @ '' '' @ definition0 @ '';''
           in if length sql \<ge> 192 then (False, s1)
              else case au_db (aud s1) of None \<Rightarrow> (False, s1) | Some db \<Rightarrow> sqlite db (SqlExec sql) s1)"

fun ensure_columns :: "string list \<Rightarrow> 'a audit_sys_scheme \<Rightarrow> bool \<times> 'a audit_sys_scheme" where
  "ensure_columns [] s = (True, s)"
| "ensure_columns (c # cs) s =
     (let (ok, s1) = ensure_hardware_snapshot_column c ''INTEGER NOT NULL DEFAULT 0'' s
      in if ok then ensure_columns cs s1 else (False, s1))"

definition ensure_hardware_snapshot_schema :: "'a audit_sys_scheme \<Rightarrow> bool \<times> 'a audit_sys_scheme" where
  "ensure_hardware_snapshot_schema =
     ensure_columns [''display_count'', ''keyboard_count'', ''mouse_count'', ''audio_count'',
       ''microphone_count'', ''ethernet_count'', ''usb_controller_count'']"

definition BOOT_SQL :: string where
  "BOOT_SQL =
     ''INSERT INTO boot_session '' @
     ''(boot_id,node_id,arch,boot_unix,boot_monotonic_ns,mode,audit_state,language_mode) '' @
     ''VALUES (?1,?2,?3,?4,?5,?6,?7,'es,en');''"

definition EVENT_SQL :: string where
  "EVENT_SQL =
     ''INSERT INTO audit_event '' @
     ''(boot_id,event_seq,event_type,severity,actor_type,actor_id,target_type,target_id,summary,details_json,monotonic_ns,rtc_unix,prev_hash,event_hash) '' @
     ''VALUES (?1,?2,?3,'INFO','SYSTEM',NULL,NULL,NULL,?4,'{}',?5,?6,?7,?8);''"

definition HW_SQL :: string where
  "HW_SQL =
     ''INSERT INTO hardware_snapshot '' @
     ''(boot_id,cpu_arch,cpu_model,ram_bytes,firmware_type,console_type,'' @
     ''display_count,keyboard_count,mouse_count,audio_count,microphone_count,'' @
     ''net_count,ethernet_count,storage_count,usb_count,usb_controller_count,wifi_count,detected_at_unix) '' @
     ''VALUES (?1,?2,?3,?4,?5,?6,?7,?8,?9,?10,?11,?12,?13,?14,?15,?16,?17,?18);''"

definition PROPOSAL_SQL :: string where
  "PROPOSAL_SQL =
     ''INSERT OR REPLACE INTO ai_proposal '' @
     ''(proposal_id,boot_id,created_unix,proposal_type,summary,rationale,risk_level,benefit_level,requires_human_confirmation,status) '' @
     ''VALUES (?1,?2,?3,?4,?5,?6,?7,?8,?9,?10);''"

definition RESPONSE_SQL :: string where
  "RESPONSE_SQL =
     ''INSERT INTO human_response '' @
     ''(proposal_id,boot_id,response,operator_key,response_unix) '' @
     ''VALUES (?1,?2,?3,'s/n',?4);''"

definition PEER_SQL :: string where
  "PEER_SQL =
     ''INSERT OR REPLACE INTO node_peer '' @
     ''(peer_id,first_seen_unix,last_seen_unix,transport,capabilities_json,trust_state,link_state) '' @
     ''VALUES (?1,?2,?3,?4,?5,?6,?7);''"

definition insert_boot_session :: "'a audit_sys_scheme \<Rightarrow> bool \<times> 'a audit_sys_scheme" where
  "insert_boot_session s =
     (case au_db (aud s) of
        None \<Rightarrow> (False, s)
      | Some db \<Rightarrow>
          let (ok, s1) = sqlite db (SqlPrepare BOOT_SQL) s in
          if \<not> ok then (False, s1)
          else let (mono, s2) = monotonic_now_ns s1;
                   a = aud s2
               in sqlite db (SqlStep (RowBoot
                    \<lparr>br_boot_id = au_boot_id a, br_node_id = au_node_id a, br_arch = au_arch_name a,
                     br_boot_unix = au_boot_started_unix a, br_boot_mono = mono,
                     br_mode = ''BOOTSTRAP'', br_audit_state = ''READY''\<rparr>)) s2)"

section \<open>The hash chain\<close>

definition insert_event_row ::
  "u64 \<Rightarrow> string \<Rightarrow> string \<Rightarrow> u64 \<Rightarrow> string \<Rightarrow> string \<Rightarrow> 'a audit_sys_scheme \<Rightarrow> bool \<times> 'a audit_sys_scheme" where
  "insert_event_row seq etype summary mono_ns prev_hash event_hash s =
     (case au_db (aud s) of
        None \<Rightarrow> (False, s)
      | Some db \<Rightarrow>
          let (ok, s1) = sqlite db (SqlPrepare EVENT_SQL) s in
          if \<not> ok then (False, s1)
          else let (rtc, s2) = unix_now s1 in
               sqlite db (SqlStep (RowEvent
                 \<lparr>er_boot_id = au_boot_id (aud s2), er_seq = seq, er_type = etype, er_summary = summary,
                  er_mono = mono_ns, er_rtc = rtc, er_prev_hash = prev_hash, er_hash = event_hash\<rparr>)) s2)"

text \<open>The text under the hash, as \<open>snprintf\<close> formats it into \<open>payload[1024]\<close>.\<close>

definition full_payload :: "string \<Rightarrow> u64 \<Rightarrow> string \<Rightarrow> string \<Rightarrow> u64 \<Rightarrow> string \<Rightarrow> string" where
  "full_payload boot_id seq etype smry mono_ns prev =
     boot_id @ ''|'' @ show_nat (unat seq) @ ''|'' @ etype @ ''|INFO|SYSTEM|'' @ smry @ ''|{}|'' @
     show_nat (unat mono_ns) @ ''|'' @ prev"

definition event_payload :: "string \<Rightarrow> u64 \<Rightarrow> string \<Rightarrow> string \<Rightarrow> u64 \<Rightarrow> string \<Rightarrow> string" where
  "event_payload boot_id seq etype smry mono_ns prev =
     snprintf 1024 (full_payload boot_id seq etype smry mono_ns prev)"

definition append_event_internal ::
  "cstr \<Rightarrow> cstr \<Rightarrow> u64 \<Rightarrow> 'a audit_sys_scheme \<Rightarrow> bool \<times> 'a audit_sys_scheme" where
  "append_event_internal event_type summary monotonic_ns s =
     (let etype = safe_text event_type ''UNSPECIFIED'';
          smry = safe_text summary []
      in if \<not> au_persistent_ready (aud s) \<or> au_db (aud s) = None then (False, s)
         else
           let s1 = s\<lparr>aud := (aud s)\<lparr>au_event_seq := au_event_seq (aud s) + 1\<rparr>\<rparr>;
               prev = au_prev_hash (aud s1);
               seq = au_event_seq (aud s1);
               event_hash = hash_hex (event_payload (au_boot_id (aud s1)) seq etype smry monotonic_ns prev);
               (ok, s2) = insert_event_row seq etype smry monotonic_ns prev event_hash s1
           in if \<not> ok then (False, s2\<lparr>aud := (aud s2)\<lparr>au_event_seq := au_event_seq (aud s2) - 1\<rparr>\<rparr>)
              else (True, s2\<lparr>aud := (aud s2)\<lparr>au_prev_hash := copy_text 65 event_hash\<rparr>\<rparr>))"

definition audit_early_buffer_init :: "'a audit_sys_scheme \<Rightarrow> 'a audit_sys_scheme" where
  "audit_early_buffer_init s = s\<lparr>aud := zero_audit\<rparr>"

definition audit_emit_boot_event :: "cstr \<Rightarrow> cstr \<Rightarrow> 'a audit_sys_scheme \<Rightarrow> 'a audit_sys_scheme" where
  "audit_emit_boot_event event_type summary s =
     (let (mono, s1) = monotonic_now_ns s in
      if \<not> au_persistent_ready (aud s1) then
        (if length (au_early_events (aud s1)) < AUDIT_EARLY_MAX_EVENTS
         then s1\<lparr>aud := (aud s1)\<lparr>au_early_events := au_early_events (aud s1) @
                [\<lparr>ee_event_type = copy_text 64 (safe_text event_type ''UNSPECIFIED''),
                  ee_summary = copy_text 256 (safe_text summary []),
                  ee_monotonic_ns = mono\<rparr>]\<rparr>\<rparr>
         else s1)
      else snd (append_event_internal event_type summary mono s1))"

abbreviation audit_emit :: "string \<Rightarrow> string \<Rightarrow> 'a audit_sys_scheme \<Rightarrow> 'a audit_sys_scheme" where
  "audit_emit t m \<equiv> audit_emit_boot_event (Some t) (Some m)"

section \<open>The other tables\<close>

definition audit_persist_hardware_snapshot ::
  "vita_hw_snapshot option \<Rightarrow> 'a audit_sys_scheme \<Rightarrow> bool \<times> 'a audit_sys_scheme" where
  "audit_persist_hardware_snapshot snapshot s =
     (case (snapshot, au_db (aud s)) of
        (Some hw, Some db) \<Rightarrow>
          if \<not> au_persistent_ready (aud s) then (False, s)
          else let (ok, s1) = sqlite db (SqlPrepare HW_SQL) s in
               if \<not> ok then (False, s1)
               else sqlite db (SqlStep (RowHardware (au_boot_id (aud s1))
                      [bind_text_or_null (Some (hw_cpu_arch hw)), bind_text_or_null (Some (hw_cpu_model hw)),
                       bind_text_or_null (Some (hw_firmware_type hw)),
                       bind_text_or_null (Some (hw_console_type hw))] hw)) s1
      | _ \<Rightarrow> (False, s))"

definition audit_persist_ai_proposal ::
  "vita_ai_proposal option \<Rightarrow> 'a audit_sys_scheme \<Rightarrow> bool \<times> 'a audit_sys_scheme" where
  "audit_persist_ai_proposal proposal s =
     (case (proposal, au_db (aud s)) of
        (Some p, Some db) \<Rightarrow>
          if ap_proposal_id p = None \<or> \<not> au_persistent_ready (aud s) then (False, s)
          else let (ok, s1) = sqlite db (SqlPrepare PROPOSAL_SQL) s in
               if \<not> ok then (False, s1)
               else let (now, s2) = unix_now s1 in
                    sqlite db (SqlStep (RowProposal (au_boot_id (aud s2)) now
                      \<lparr>ap_proposal_id = ap_proposal_id p,
                       ap_proposal_type = Some (safe_text (ap_proposal_type p) ''unspecified''),
                       ap_summary = Some (safe_text (ap_summary p) []),
                       ap_rationale = Some (safe_text (ap_rationale p) []),
                       ap_risk_level = Some (safe_text (ap_risk_level p) ''unknown''),
                       ap_benefit_level = Some (safe_text (ap_benefit_level p) ''unknown''),
                       ap_requires_human_confirmation = ap_requires_human_confirmation p,
                       ap_status = Some (safe_text (ap_status p) ''PENDING'')\<rparr>)) s2
      | _ \<Rightarrow> (False, s))"

definition audit_persist_human_response ::
  "cstr \<Rightarrow> cstr \<Rightarrow> 'a audit_sys_scheme \<Rightarrow> bool \<times> 'a audit_sys_scheme" where
  "audit_persist_human_response proposal_id response s =
     (case (proposal_id, response, au_db (aud s)) of
        (Some pid, Some r, Some db) \<Rightarrow>
          if \<not> au_persistent_ready (aud s) then (False, s)
          else let (ok, s1) = sqlite db (SqlPrepare RESPONSE_SQL) s in
               if \<not> ok then (False, s1)
               else let (now, s2) = unix_now s1 in
                    sqlite db (SqlStep (RowResponse pid (au_boot_id (aud s2)) r now)) s2
      | _ \<Rightarrow> (False, s))"

definition audit_upsert_node_peer ::
  "vita_node_peer option \<Rightarrow> 'a audit_sys_scheme \<Rightarrow> bool \<times> 'a audit_sys_scheme" where
  "audit_upsert_node_peer peer s =
     (case (peer, au_db (aud s)) of
        (Some p, Some db) \<Rightarrow>
          if np_peer_id p = [] \<or> \<not> au_persistent_ready (aud s) then (False, s)
          else let (ok, s1) = sqlite db (SqlPrepare PEER_SQL) s in
               if \<not> ok then (False, s1)
               else sqlite db (SqlStep (RowPeer
                      (p\<lparr>np_transport := safe_text (Some (np_transport p)) ''unknown'',
                         np_capabilities_json := safe_text (Some (np_capabilities_json p)) ''{}'',
                         np_trust_state := safe_text (Some (np_trust_state p)) ''observed'',
                         np_link_state := safe_text (Some (np_link_state p)) ''discovered''\<rparr>))) s1
      | _ \<Rightarrow> (False, s))"

section \<open>Reports\<close>

text \<open>The SELECT loop: every row the statement delivers is formatted and appended while it fits.\<close>

fun event_block_loop ::
  "nat \<Rightarrow> (int \<times> cstr \<times> cstr) list \<Rightarrow> bool \<Rightarrow> string \<Rightarrow> bool \<times> string" where
  "event_block_loop out_cap [] first out = (out \<noteq> [], out)"
| "event_block_loop out_cap ((seq, etype, ehash) # rows) first out =
     (let line = (if first then [] else '';'') @ show_int seq @ '':'' @
                 (case etype of None \<Rightarrow> [] | Some t \<Rightarrow> t) @ '':'' @
                 (case ehash of None \<Rightarrow> [] | Some h \<Rightarrow> h)
      in if length line \<ge> 192 then (False, out)
         else if length out + length line + 1 \<ge> out_cap then (out \<noteq> [], out)
         else event_block_loop out_cap rows False (out @ line))"

text \<open>\<open>out\<close> is the array before the call; \<open>None\<close> for a null pointer.\<close>

definition RECENT_SQL :: string where
  "RECENT_SQL = ''SELECT event_seq,event_type,event_hash '' @ ''FROM audit_event '' @ ''ORDER BY id DESC '' @ ''LIMIT ?1;''"

definition COUNTS_SQL :: string where
  "COUNTS_SQL =
     ''SELECT '' @ ''(SELECT count(*) FROM boot_session),'' @ ''(SELECT count(*) FROM audit_event),'' @
     ''(SELECT count(*) FROM hardware_snapshot),'' @ ''(SELECT count(*) FROM ai_proposal),'' @
     ''(SELECT count(*) FROM node_peer)''"

definition audit_export_recent_event_block ::
  "cstr \<Rightarrow> nat \<Rightarrow> 'a audit_sys_scheme \<Rightarrow> (bool \<times> cstr) \<times> 'a audit_sys_scheme" where
  "audit_export_recent_event_block out out_cap s =
     (case (out, au_db (aud s)) of
        (Some _, Some db) \<Rightarrow>
          if out_cap < 2 \<or> \<not> au_persistent_ready (aud s) then ((False, out), s)
          else let (ok, s1) = sqlite db (SqlPrepare RECENT_SQL) s
               in if \<not> ok then ((False, Some []), s1)
                  else let rows = h_sql_recent s1 (h_tick s1) (h_db s1 db) AUDIT_RECENT_BLOCK_EVENTS;
                           (r, txt) = event_block_loop out_cap rows True []
                       in ((r, Some txt), ticked s1)
      | _ \<Rightarrow> ((False, out), s))"

definition yes_no :: "bool \<Rightarrow> string" where
  "yes_no b = (if b then ''yes'' else ''no'')"

definition audit_readiness_report :: "nat \<Rightarrow> 'a audit_sys_scheme \<Rightarrow> bool \<times> string" where
  "audit_readiness_report out_cap s =
     (if out_cap = 0 then (False, [])
      else (True, snprintf out_cap
        (''audit_ready='' @ yes_no (au_persistent_ready (aud s)) @ [LF] @ ''mode='' @
         (if au_persistent_ready (aud s) then ''hosted_sqlite'' else ''restricted_diagnostic'') @ [LF])))"

definition audit_verify_current_chain :: "nat \<Rightarrow> 'a audit_sys_scheme \<Rightarrow> bool \<times> string" where
  "audit_verify_current_chain out_cap s =
     (if out_cap = 0 then (False, [])
      else if \<not> au_persistent_ready (aud s)
      then (False, snprintf out_cap (''status=unavailable'' @ [LF] @ ''reason=restricted_diagnostic'' @ [LF]))
      else (True, snprintf out_cap
             (''status=ok'' @ [LF] @ ''boot_id='' @ au_boot_id (aud s) @ [LF] @ ''events='' @
              show_nat (unat (au_event_seq (aud s))) @ [LF])))"

definition audit_export_verify_report :: "cstr \<Rightarrow> cstr \<Rightarrow> 'a audit_sys_scheme \<Rightarrow> bool" where
  "audit_export_verify_report txt_path jsonl_path s = au_persistent_ready (aud s)"

definition audit_export_current_session_events :: "cstr \<Rightarrow> cstr \<Rightarrow> 'a audit_sys_scheme \<Rightarrow> bool" where
  "audit_export_current_session_events txt_path jsonl_path s = au_persistent_ready (aud s)"

definition audit_sqlite_summary :: "nat \<Rightarrow> 'a audit_sys_scheme \<Rightarrow> (bool \<times> string) \<times> 'a audit_sys_scheme" where
  "audit_sqlite_summary out_cap s =
     (case au_db (aud s) of
        None \<Rightarrow> ((False, []), s)
      | Some db \<Rightarrow>
          if out_cap = 0 then ((False, []), s)
          else let (ok, s1) = sqlite db (SqlPrepare COUNTS_SQL) s in
               if \<not> ok then ((False, []), s1)
               else case h_sql_counts s1 (h_tick s1) (h_db s1 db) of
                      None \<Rightarrow> ((False, []), ticked s1)
                    | Some (b, e, h, p, n) \<Rightarrow>
                        ((True, snprintf out_cap
                           (''boot_session='' @ show_int b @ [LF] @ ''audit_event='' @ show_int e @ [LF] @
                            ''hardware_snapshot='' @ show_int h @ [LF] @ ''ai_proposal='' @ show_int p @ [LF] @
                            ''node_peer='' @ show_int n @ [LF])), ticked s1))"

definition audit_get_identity :: "nat \<Rightarrow> nat \<Rightarrow> 'a audit_sys_scheme \<Rightarrow> (string \<times> string) option" where
  "audit_get_identity boot_id_cap node_id_cap s =
     (if boot_id_cap = 0 \<or> node_id_cap = 0 then None
      else Some (copy_text boot_id_cap (if au_boot_id (aud s) \<noteq> [] then au_boot_id (aud s) else ''unknown''),
                 copy_text node_id_cap (if au_node_id (aud s) \<noteq> [] then au_node_id (aud s) else ''unknown'')))"

section \<open>Initialisation\<close>

fun flush_early :: "early_event list \<Rightarrow> 'a audit_sys_scheme \<Rightarrow> 'a audit_sys_scheme" where
  "flush_early [] s = s"
| "flush_early (ev # evs) s =
     flush_early evs (snd (append_event_internal (Some (ee_event_type ev)) (Some (ee_summary ev))
                            (ee_monotonic_ns ev) s))"

definition audit_init_persistent_backend ::
  "vita_handoff option \<Rightarrow> 'a audit_sys_scheme \<Rightarrow> bool \<times> 'a audit_sys_scheme" where
  "audit_init_persistent_backend handoff s =
     (let db_path = (case handoff of
                       None \<Rightarrow> ''build/audit/vitaos-audit.db''
                     | Some h \<Rightarrow> (case ho_audit_db_path h of
                                   None \<Rightarrow> ''build/audit/vitaos-audit.db'' | Some p \<Rightarrow> p));
          (opened, s1) = sqlite db_path (SqlOpen db_path) s
      in if \<not> opened then (False, set_db None s1)
         else
           let (loaded, s2) = exec_sql_file db_path ''schema/audit.sql'' (set_db (Some db_path) s1)
           in if \<not> loaded then (False, set_db None s2)
              else
                let (cols, s3) = ensure_hardware_snapshot_schema s2
                in if \<not> cols then (False, set_db None s3)
                   else
                     let (now, s4) = unix_now s3;
                         s5 = s4\<lparr>aud := (aud s4)\<lparr>au_boot_started_unix := now,
                                au_boot_id := snprintf 64 (''boot-'' @ show_nat (unat now)),
                                au_node_id := copy_text 64 ''node-local'',
                                au_arch_name := copy_text 32
                                  (safe_text (case handoff of None \<Rightarrow> None | Some h \<Rightarrow> ho_arch_name h) ''x86_64'')\<rparr>\<rparr>;
                         (booted, s6) = insert_boot_session s5
                     in if \<not> booted then (False, set_db None s6)
                        else
                          let s7 = s6\<lparr>aud := (aud s6)\<lparr>au_persistent_ready := True\<rparr>\<rparr>;
                              s8 = flush_early (au_early_events (aud s7)) s7
                          in (True, s8\<lparr>aud := (aud s8)\<lparr>au_early_events := []\<rparr>\<rparr>))"

section \<open>What the calls of the host leave alone\<close>

lemma sqlite_sel [simp]:
  "aud (snd (sqlite db c s)) = aud s" "h_fs (snd (sqlite db c s)) = h_fs s"
  "h_out (snd (sqlite db c s)) = h_out s" "h_stdin (snd (sqlite db c s)) = h_stdin s"
  by (simp_all add: sqlite_def ticked_def Let_def split: sql_call.splits)

lemma sqlite_db:
  "h_db (snd (sqlite db c s)) =
     (case c of SqlStep row \<Rightarrow> (if fst (sqlite db c s) then (h_db s)(db := h_db s db @ [row]) else h_db s)
      | _ \<Rightarrow> h_db s)"
  by (simp add: sqlite_def Let_def split: sql_call.splits)

lemma sqlite_db_other [simp]:
  "h_db (snd (sqlite db (SqlPrepare q) s)) = h_db s" "h_db (snd (sqlite db (SqlExec q) s)) = h_db s"
  "h_db (snd (sqlite db (SqlOpen q) s)) = h_db s"
  by (simp_all add: sqlite_db)

lemma aud_ticked [simp]: "aud (ticked s) = aud s"
  by (simp add: ticked_def)

lemma aud_set_db [simp]: "aud (set_db d s) = (aud s)\<lparr>au_db := d\<rparr>" "h_db (set_db d s) = h_db s"
  by (simp_all add: set_db_def)

lemma h_sql_calls [simp]:
  "h_sql (ticked s) = h_sql s" "h_sql (snd (sqlite db c s)) = h_sql s" "h_sql (set_db d s) = h_sql s"
  by (simp_all add: sqlite_def ticked_def set_db_def Let_def split: sql_call.splits)

lemma aud_clock [simp]:
  "aud (snd (unix_now s)) = aud s" "h_db (snd (unix_now s)) = h_db s" "h_sql (snd (unix_now s)) = h_sql s"
  "aud (snd (monotonic_now_ns s)) = aud s" "h_db (snd (monotonic_now_ns s)) = h_db s"
  "h_sql (snd (monotonic_now_ns s)) = h_sql s"
  by (simp_all add: unix_now_def monotonic_now_ns_def)

section \<open>Appending one event\<close>

definition event_row_of :: "audit_state \<Rightarrow> string \<Rightarrow> string \<Rightarrow> u64 \<Rightarrow> u64 \<Rightarrow> audit_event_row" where
  "event_row_of a etype smry mono_ns rtc =
     \<lparr>er_boot_id = au_boot_id a, er_seq = au_event_seq a + 1, er_type = etype, er_summary = smry,
      er_mono = mono_ns, er_rtc = rtc, er_prev_hash = au_prev_hash a,
      er_hash = hash_hex (event_payload (au_boot_id a) (au_event_seq a + 1) etype smry mono_ns (au_prev_hash a))\<rparr>"

lemma insert_event_row_cases:
  assumes "au_db (aud s) = Some db"
  obtains (failed) s' where "insert_event_row q t m n p h s = (False, s')" "aud s' = aud s" "h_db s' = h_db s"
  | (stored) s' rtc where "insert_event_row q t m n p h s = (True, s')" "aud s' = aud s"
      "h_db s' = (h_db s)(db := h_db s db @ [RowEvent \<lparr>er_boot_id = au_boot_id (aud s), er_seq = q, er_type = t,
         er_summary = m, er_mono = n, er_rtc = rtc, er_prev_hash = p, er_hash = h\<rparr>])"
proof -
  obtain b s1 where p1: "sqlite db (SqlPrepare EVENT_SQL) s = (b, s1)" by fastforce
  then have s1: "aud s1 = aud s" "h_db s1 = h_db s" by (metis snd_conv sqlite_sel(1), metis snd_conv sqlite_db_other(1))
  obtain rtc s2 where p2: "unix_now s1 = (rtc, s2)" by fastforce
  then have s2: "aud s2 = aud s" "h_db s2 = h_db s" using s1 by (auto simp: unix_now_def)
  define row where "row = \<lparr>er_boot_id = au_boot_id (aud s), er_seq = q, er_type = t,
         er_summary = m, er_mono = n, er_rtc = rtc, er_prev_hash = p, er_hash = h\<rparr>"
  obtain c s3 where p3: "sqlite db (SqlStep (RowEvent row)) s2 = (c, s3)" by fastforce
  have s3: "aud s3 = aud s" "h_db s3 = (if c then (h_db s)(db := h_db s db @ [RowEvent row]) else h_db s)"
    using sqlite_sel(1) [of db "SqlStep (RowEvent row)" s2] sqlite_db [of db "SqlStep (RowEvent row)" s2] p3 s2 by auto
  have r: "insert_event_row q t m n p h s = (if b then (c, s3) else (False, s1))"
    using assms p1 p2 p3 s1 s2 by (simp add: insert_event_row_def row_def)
  show ?thesis
  proof (cases "b \<and> c")
    case True
    then show ?thesis using r s3 stored [of s3 rtc] by (simp add: row_def)
  next
    case False
    then show ?thesis using r s1 s3 failed by (cases b) auto
  qed
qed

lemma append_event_cases:
  obtains (refused) s' where "append_event_internal t m n s = (False, s')" "aud s' = aud s" "h_db s' = h_db s"
  | (stored') s' db rtc where "append_event_internal t m n s = (True, s')"
      "au_persistent_ready (aud s)" "au_db (aud s) = Some db"
      "aud s' = (aud s)\<lparr>au_event_seq := au_event_seq (aud s) + 1,
         au_prev_hash := er_hash (event_row_of (aud s) (safe_text t ''UNSPECIFIED'') (safe_text m []) n rtc)\<rparr>"
      "h_db s' = (h_db s)(db := h_db s db @
         [RowEvent (event_row_of (aud s) (safe_text t ''UNSPECIFIED'') (safe_text m []) n rtc)])"
proof (cases "au_persistent_ready (aud s) \<and> au_db (aud s) \<noteq> None")
  case False
  then show ?thesis by (intro refused [of s]) (auto simp: append_event_internal_def)
next
  case True
  then obtain db where db: "au_persistent_ready (aud s)" "au_db (aud s) = Some db" by auto
  define s1 where "s1 = s\<lparr>aud := (aud s)\<lparr>au_event_seq := au_event_seq (aud s) + 1\<rparr>\<rparr>"
  define h where "h = hash_hex (event_payload (au_boot_id (aud s)) (au_event_seq (aud s) + 1)
    (safe_text t ''UNSPECIFIED'') (safe_text m []) n (au_prev_hash (aud s)))"
  have s1: "au_db (aud s1) = Some db" "aud s1 = (aud s)\<lparr>au_event_seq := au_event_seq (aud s) + 1\<rparr>" "h_db s1 = h_db s"
    by (simp_all add: s1_def db)
  have r: "append_event_internal t m n s =
      (let (ok, s2) = insert_event_row (au_event_seq (aud s) + 1) (safe_text t ''UNSPECIFIED'') (safe_text m []) n
             (au_prev_hash (aud s)) h s1
       in if \<not> ok then (False, s2\<lparr>aud := (aud s2)\<lparr>au_event_seq := au_event_seq (aud s2) - 1\<rparr>\<rparr>)
          else (True, s2\<lparr>aud := (aud s2)\<lparr>au_prev_hash := copy_text 65 h\<rparr>\<rparr>))"
    using db by (simp add: append_event_internal_def Let_def s1_def h_def split: prod.split)
  have h65: "copy_text 65 h = h" by (simp add: h_def hash_hex_length str_copy_fits)
  from s1(1) show ?thesis
  proof (cases rule: insert_event_row_cases [of s1 db "au_event_seq (aud s) + 1" "safe_text t ''UNSPECIFIED''"
        "safe_text m []" n "au_prev_hash (aud s)" h])
    case (failed s')
    then show ?thesis using r s1 by (intro refused [of "s'\<lparr>aud := aud s\<rparr>"]) auto
  next
    case (stored s' rtc)
    show ?thesis
      by (rule stored' [of "s'\<lparr>aud := (aud s')\<lparr>au_prev_hash := h\<rparr>\<rparr>" db rtc])
        (use r s1 stored h65 db in \<open>simp_all add: event_row_of_def h_def\<close>)
  qed
qed

section \<open>The chain over a session\<close>

definition row_payload :: "audit_event_row \<Rightarrow> string" where
  "row_payload r = event_payload (er_boot_id r) (er_seq r) (er_type r) (er_summary r) (er_mono r) (er_prev_hash r)"

text \<open>The whole payload fits in \<open>payload[1024]\<close>, so \<open>snprintf\<close> cuts nothing off.\<close>

definition row_fits :: "audit_event_row \<Rightarrow> bool" where
  "row_fits r = (length (full_payload (er_boot_id r) (er_seq r) (er_type r) (er_summary r) (er_mono r)
                          (er_prev_hash r)) < 1024)"

fun event_of_row :: "sql_row \<Rightarrow> audit_event_row list" where
  "event_of_row (RowEvent r) = [r]"
| "event_of_row _ = []"

definition events_of :: "sql_row list \<Rightarrow> audit_event_row list" where
  "events_of rows = concat (map event_of_row rows)"

lemma events_of_simps [simp]:
  "events_of [] = []" "events_of (xs @ ys) = events_of xs @ events_of ys"
  "events_of (r # rs) = event_of_row r @ events_of rs"
  by (simp_all add: events_of_def)

abbreviation audit_links :: "string \<Rightarrow> audit_event_row list \<Rightarrow> bool" where
  "audit_links \<equiv> chain_links hash_hex row_payload er_prev_hash er_hash"

text \<open>The hash of a payload is 64 hexadecimal digits, so it is never empty and has no \<open>|\<close>.\<close>

lemma hex_digit_not_bar: "hex_digit (n AND 0xF) \<noteq> CHR ''|''"
proof -
  have "n AND 0xF \<le> 0xF" by (rule word_and_le1)
  then have "unat (n AND 0xF) < 16" by (simp add: word_le_nat_alt)
  then have "unat (n AND 0xF) \<in> set [0..<16]" by simp
  then show ?thesis unfolding hex_digit_def
    by (simp only: upt_rec_numeral upt_conv_Cons) (auto simp: numeral_eq_Suc)
qed

lemma hash_hex_no_bar: "CHR ''|'' \<notin> set (hash_hex p)"
  using hex_digit_not_bar by (auto simp: hash_hex_def hash_hex_from_def) metis+

lemma last_separator:
  assumes "a @ x # p = b @ x # q" "x \<notin> set p" "x \<notin> set q"
  shows "p = q"
proof -
  have "rev p @ x # rev a = rev q @ x # rev b"
    using arg_cong [OF assms(1), of rev] by simp
  then have "takeWhile (\<lambda>c. c \<noteq> x) (rev p @ x # rev a) = takeWhile (\<lambda>c. c \<noteq> x) (rev q @ x # rev b)"
    by simp
  moreover have "takeWhile (\<lambda>c. c \<noteq> x) (rev r @ x # y) = rev r" if "x \<notin> set r" for r y
    using that by (subst takeWhile_append2) auto
  ultimately show ?thesis using assms(2,3) by simp
qed

interpretation audit_chain: hash_chain hash_hex row_payload er_prev_hash er_hash row_fits
proof unfold_locales
  fix p
  show "hash_hex p \<noteq> []" by simp
next
  fix r r'
  assume fits: "row_fits r" "row_fits r'"
    and form: "er_prev_hash r = [] \<or> er_prev_hash r \<in> range hash_hex"
      "er_prev_hash r' = [] \<or> er_prev_hash r' \<in> range hash_hex"
    and eq: "row_payload r = row_payload r'"
  have nb: "CHR ''|'' \<notin> set (er_prev_hash r)" "CHR ''|'' \<notin> set (er_prev_hash r')"
    using form hash_hex_no_bar by auto
  have split: "\<exists>a. row_payload x = a @ CHR ''|'' # er_prev_hash x" if "row_fits x" for x
  proof
    show "row_payload x =
      (er_boot_id x @ ''|'' @ show_nat (unat (er_seq x)) @ ''|'' @ er_type x @ ''|INFO|SYSTEM|'' @
       er_summary x @ ''|{}|'' @ show_nat (unat (er_mono x))) @ CHR ''|'' # er_prev_hash x"
      using that by (simp add: row_payload_def row_fits_def event_payload_def snprintf_fits)
        (simp add: full_payload_def)
  qed
  then show "er_prev_hash r = er_prev_hash r'"
    using eq fits nb last_separator by metis
qed

text \<open>
  What a session leaves in the database: after the rows \<open>base\<close> that were there before, the events
  are numbered from 1, carry the session's boot id and form a chain from the empty hash; the state
  holds the last number and the head.
\<close>

definition session_rows :: "audit_state \<Rightarrow> audit_event_row list \<Rightarrow> bool" where
  "session_rows a evs \<longleftrightarrow>
     map er_seq evs = map of_nat [1..<Suc (length evs)] \<and>
     au_event_seq a = of_nat (length evs) \<and>
     (\<forall>r\<in>set evs. er_boot_id r = au_boot_id a) \<and>
     audit_links [] evs \<and> au_prev_hash a = chain_head er_hash [] evs"

definition chain_inv :: "string \<Rightarrow> sql_row list \<Rightarrow> 'a audit_sys_scheme \<Rightarrow> bool" where
  "chain_inv db base s \<longleftrightarrow>
     au_db (aud s) = Some db \<and> au_persistent_ready (aud s) \<and>
     (\<exists>rows. h_db s db = base @ rows \<and> session_rows (aud s) (events_of rows))"

lemma row_payload_event_row_of [simp]:
  "row_payload (event_row_of a t m n c) =
     event_payload (au_boot_id a) (au_event_seq a + 1) t m n (au_prev_hash a)"
  by (simp add: row_payload_def event_row_of_def)

lemma event_row_of_sel [simp]:
  "er_boot_id (event_row_of a t m n c) = au_boot_id a" "er_seq (event_row_of a t m n c) = au_event_seq a + 1"
  "er_prev_hash (event_row_of a t m n c) = au_prev_hash a" "er_type (event_row_of a t m n c) = t"
  "er_summary (event_row_of a t m n c) = m" "er_mono (event_row_of a t m n c) = n"
  "er_hash (event_row_of a t m n c) =
     hash_hex (event_payload (au_boot_id a) (au_event_seq a + 1) t m n (au_prev_hash a))"
  by (simp_all add: event_row_of_def)

lemma session_rows_snoc:
  assumes "session_rows a evs"
  shows "session_rows (a\<lparr>au_event_seq := au_event_seq a + 1, au_prev_hash := er_hash (event_row_of a t m n c)\<rparr>)
           (evs @ [event_row_of a t m n c])"
  using assms by (auto simp: session_rows_def add.commute)

lemma chain_inv_append:
  assumes "chain_inv db base s"
  shows "chain_inv db base (snd (append_event_internal t m n s))"
proof (cases rule: append_event_cases [of t m n s])
  case (refused s')
  then show ?thesis using assms by (simp add: chain_inv_def)
next
  case (stored' s' db' rtc)
  from assms obtain rows where rows: "au_db (aud s) = Some db" "au_persistent_ready (aud s)"
      "h_db s db = base @ rows" "session_rows (aud s) (events_of rows)"
    by (auto simp: chain_inv_def)
  have "db' = db" using stored'(3) rows(1) by simp
  let ?r = "event_row_of (aud s) (safe_text t ''UNSPECIFIED'') (safe_text m []) n rtc"
  have "h_db s' db = base @ (rows @ [RowEvent ?r])" using stored'(5) rows(3) \<open>db' = db\<close> by simp
  moreover have "session_rows (aud s') (events_of (rows @ [RowEvent ?r]))"
    using session_rows_snoc [OF rows(4), of "safe_text t ''UNSPECIFIED''" "safe_text m []" n rtc] stored'(4) by simp
  ultimately show ?thesis using stored' rows(1,2) by (auto simp: chain_inv_def)
qed

section \<open>Operations of a running session\<close>

inductive audit_step :: "audit_sys \<Rightarrow> audit_sys \<Rightarrow> bool" where
  step_emit: "audit_step s (audit_emit_boot_event t m s)"
| step_hardware: "audit_step s (snd (audit_persist_hardware_snapshot hw s))"
| step_proposal: "audit_step s (snd (audit_persist_ai_proposal p s))"
| step_response: "audit_step s (snd (audit_persist_human_response i r s))"
| step_peer: "audit_step s (snd (audit_upsert_node_peer n s))"
| step_block: "audit_step s (snd (audit_export_recent_event_block out0 cap s))"
| step_summary: "audit_step s (snd (audit_sqlite_summary cap s))"
| step_host: "audit_step s (s\<lparr>h_fs := fs, h_out := out, h_stdin := inp, h_tick := t\<rparr>)"

text \<open>A session: initialised on a cleared audit state (early events may be buffered), then any steps.\<close>

inductive audit_session :: "string \<Rightarrow> sql_row list \<Rightarrow> audit_sys \<Rightarrow> bool" where
  started: "audit_init_persistent_backend ho s = (True, s') \<Longrightarrow>
     au_event_seq (aud s) = 0 \<Longrightarrow> au_prev_hash (aud s) = [] \<Longrightarrow> au_db (aud s') = Some db \<Longrightarrow>
     audit_session db (h_db s db) s'"
| stepped: "audit_session db base s \<Longrightarrow> audit_step s s' \<Longrightarrow> audit_session db base s'"

inductive_cases audit_stepE: "audit_step s s'"

lemma chain_inv_frame:
  assumes "chain_inv db base s" "aud s' = aud s"
    and "\<exists>extra. h_db s' db = h_db s db @ extra \<and> events_of extra = []"
  shows "chain_inv db base s'"
proof -
  from assms(3) obtain extra where e: "h_db s' db = h_db s db @ extra" "events_of extra = []" by blast
  from assms(1) obtain rows where r: "h_db s db = base @ rows" "session_rows (aud s) (events_of rows)"
      "au_db (aud s) = Some db" "au_persistent_ready (aud s)"
    by (auto simp: chain_inv_def)
  have "h_db s' db = base @ (rows @ extra) \<and> session_rows (aud s') (events_of (rows @ extra))"
    using e r assms(2) by simp
  then show ?thesis unfolding chain_inv_def using r(3,4) assms(2) by auto
qed

lemma sqlite_db_at:
  "h_db (snd (sqlite db (SqlStep row) s)) db' =
     h_db s db' @ (if db' = db \<and> fst (sqlite db (SqlStep row) s) then [row] else [])"
  by (simp add: sqlite_db)

lemma other_tables_keep:
  "aud (snd (audit_persist_hardware_snapshot hw s)) = aud s"
  "aud (snd (audit_persist_ai_proposal p s)) = aud s"
  "aud (snd (audit_persist_human_response i r s)) = aud s"
  "aud (snd (audit_upsert_node_peer n s)) = aud s"
  "aud (snd (audit_export_recent_event_block out0 cap s)) = aud s"
  "aud (snd (audit_sqlite_summary cap s)) = aud s"
  by (auto simp: audit_persist_hardware_snapshot_def audit_persist_ai_proposal_def
      audit_persist_human_response_def audit_upsert_node_peer_def audit_export_recent_event_block_def
      audit_sqlite_summary_def case_prod_beta Let_def split: option.splits)

lemma other_tables_rows:
  "\<exists>extra. h_db (snd (audit_persist_hardware_snapshot hw s)) db = h_db s db @ extra \<and> events_of extra = []"
  "\<exists>extra. h_db (snd (audit_persist_ai_proposal p s)) db = h_db s db @ extra \<and> events_of extra = []"
  "\<exists>extra. h_db (snd (audit_persist_human_response i r s)) db = h_db s db @ extra \<and> events_of extra = []"
  "\<exists>extra. h_db (snd (audit_upsert_node_peer n s)) db = h_db s db @ extra \<and> events_of extra = []"
  "\<exists>extra. h_db (snd (audit_export_recent_event_block out0 cap s)) db = h_db s db @ extra \<and> events_of extra = []"
  "\<exists>extra. h_db (snd (audit_sqlite_summary cap s)) db = h_db s db @ extra \<and> events_of extra = []"
  by (auto simp: audit_persist_hardware_snapshot_def audit_persist_ai_proposal_def
      audit_persist_human_response_def audit_upsert_node_peer_def audit_export_recent_event_block_def
      audit_sqlite_summary_def case_prod_beta Let_def sqlite_db_at split: option.splits)

lemma chain_inv_emit: "chain_inv db base s \<Longrightarrow> chain_inv db base (audit_emit_boot_event t m s)"
proof -
  assume inv: "chain_inv db base s"
  let ?s1 = "snd (monotonic_now_ns s)"
  have inv1: "chain_inv db base ?s1" using inv by (simp add: chain_inv_def)
  then have "au_persistent_ready (aud ?s1)" by (simp only: chain_inv_def)
  then have "audit_emit_boot_event t m s = snd (append_event_internal t m (fst (monotonic_now_ns s)) ?s1)"
    by (simp add: audit_emit_boot_event_def case_prod_beta Let_def)
  then show ?thesis using chain_inv_append [OF inv1] by simp
qed

lemmas other_tables_frame =
  chain_inv_frame [OF _ other_tables_keep(1) other_tables_rows(1)]
  chain_inv_frame [OF _ other_tables_keep(2) other_tables_rows(2)]
  chain_inv_frame [OF _ other_tables_keep(3) other_tables_rows(3)]
  chain_inv_frame [OF _ other_tables_keep(4) other_tables_rows(4)]
  chain_inv_frame [OF _ other_tables_keep(5) other_tables_rows(5)]
  chain_inv_frame [OF _ other_tables_keep(6) other_tables_rows(6)]

lemma chain_inv_step: "audit_step s s' \<Longrightarrow> chain_inv db base s \<Longrightarrow> chain_inv db base s'"
  by (erule audit_stepE; hypsubst)
    (erule chain_inv_emit other_tables_frame | simp add: chain_inv_def)+

lemma chain_inv_flush:
  "chain_inv db base s \<Longrightarrow> chain_inv db base (flush_early evs s)"
  by (induction evs arbitrary: s) (auto intro: chain_inv_append)

section \<open>Starting a session\<close>

lemma exec_sql_file_sel [simp]:
  "h_sql (snd (exec_sql_file db f s)) = h_sql s"
  "aud (snd (exec_sql_file db f s)) = aud s" "h_db (snd (exec_sql_file db f s)) = h_db s"
  by (simp_all add: exec_sql_file_def malloc_ok_def Let_def split: option.splits)

lemma has_column_sel [simp]:
  "h_sql (snd (hardware_snapshot_has_column c s)) = h_sql s"
  "aud (snd (hardware_snapshot_has_column c s)) = aud s"
  "h_db (snd (hardware_snapshot_has_column c s)) = h_db s"
  by (simp_all add: hardware_snapshot_has_column_def Let_def case_prod_beta split: option.splits)

lemma ensure_column_sel [simp]:
  "h_sql (snd (ensure_hardware_snapshot_column c d s)) = h_sql s"
  "aud (snd (ensure_hardware_snapshot_column c d s)) = aud s"
  "h_db (snd (ensure_hardware_snapshot_column c d s)) = h_db s"
  by (simp_all add: ensure_hardware_snapshot_column_def Let_def case_prod_beta split: option.splits)

lemma ensure_columns_sel [simp]:
  "h_sql (snd (ensure_columns cs s)) = h_sql s"
  "aud (snd (ensure_columns cs s)) = aud s" "h_db (snd (ensure_columns cs s)) = h_db s"
  by (induction cs arbitrary: s) (simp_all add: Let_def case_prod_beta)

lemma ensure_schema_sel [simp]:
  "h_sql (snd (ensure_hardware_snapshot_schema s)) = h_sql s"
  "aud (snd (ensure_hardware_snapshot_schema s)) = aud s"
  "h_db (snd (ensure_hardware_snapshot_schema s)) = h_db s"
  by (simp_all only: ensure_hardware_snapshot_schema_def ensure_columns_sel)

lemma insert_boot_session_sel:
  "h_sql (snd (insert_boot_session s)) = h_sql s"
  "aud (snd (insert_boot_session s)) = aud s"
  "au_db (aud s) = Some db \<Longrightarrow>
     \<exists>extra. h_db (snd (insert_boot_session s)) db = h_db s db @ extra \<and> events_of extra = []"
  by (auto simp: insert_boot_session_def case_prod_beta Let_def sqlite_db_at split: option.splits)

lemma init_stages:
  assumes "audit_init_persistent_backend ho s = (True, s')"
  obtains db s7 where
    "s' = (flush_early (au_early_events (aud s)) s7)
       \<lparr>aud := (aud (flush_early (au_early_events (aud s)) s7))\<lparr>au_early_events := []\<rparr>\<rparr>"
    "au_db (aud s7) = Some db" "au_persistent_ready (aud s7)" "au_event_seq (aud s7) = au_event_seq (aud s)"
    "au_prev_hash (aud s7) = au_prev_hash (aud s)" "au_early_events (aud s7) = au_early_events (aud s)"
    "\<exists>extra. h_db s7 db = h_db s db @ extra \<and> events_of extra = []" "h_sql s7 = h_sql s"
proof -
  define db where "db = (case ho of None \<Rightarrow> ''build/audit/vitaos-audit.db''
    | Some h \<Rightarrow> (case ho_audit_db_path h of None \<Rightarrow> ''build/audit/vitaos-audit.db'' | Some p \<Rightarrow> p))"
  define s1 where "s1 = snd (sqlite db (SqlOpen db) s)"
  define s2 where "s2 = snd (exec_sql_file db ''schema/audit.sql'' (set_db (Some db) s1))"
  define s3 where "s3 = snd (ensure_hardware_snapshot_schema s2)"
  define s5 where "s5 = (snd (unix_now s3))\<lparr>aud := (aud (snd (unix_now s3)))\<lparr>
       au_boot_started_unix := fst (unix_now s3),
       au_boot_id := snprintf 64 (''boot-'' @ show_nat (unat (fst (unix_now s3)))),
       au_node_id := copy_text 64 ''node-local'',
       au_arch_name := copy_text 32 (safe_text (case ho of None \<Rightarrow> None | Some h \<Rightarrow> ho_arch_name h) ''x86_64'')\<rparr>\<rparr>"
  define s6 where "s6 = snd (insert_boot_session s5)"
  define s7 where "s7 = s6\<lparr>aud := (aud s6)\<lparr>au_persistent_ready := True\<rparr>\<rparr>"
  have s5: "aud s5 = (aud s)\<lparr>au_db := Some db, au_boot_started_unix := fst (unix_now s3),
       au_boot_id := snprintf 64 (''boot-'' @ show_nat (unat (fst (unix_now s3)))),
       au_node_id := copy_text 64 ''node-local'',
       au_arch_name := copy_text 32 (safe_text (case ho of None \<Rightarrow> None | Some h \<Rightarrow> ho_arch_name h) ''x86_64'')\<rparr>"
      "h_db s5 = h_db s"
    by (simp_all add: s5_def s3_def s2_def s1_def)
  have s7: "aud s7 = (aud s5)\<lparr>au_persistent_ready := True\<rparr>" "h_db s7 = h_db s6"
    by (simp_all add: s7_def s6_def insert_boot_session_sel)
  have sql: "h_sql s7 = h_sql s"
    by (simp add: s7_def s6_def insert_boot_session_sel s5_def s3_def s2_def s1_def)
  have "s' = (flush_early (au_early_events (aud s7)) s7)
       \<lparr>aud := (aud (flush_early (au_early_events (aud s7)) s7))\<lparr>au_early_events := []\<rparr>\<rparr>"
    using assms
    by (auto simp: audit_init_persistent_backend_def Let_def case_prod_beta
        s7_def s6_def s5_def s3_def s2_def s1_def db_def split: if_splits)
  moreover have "\<exists>extra. h_db s7 db = h_db s db @ extra \<and> events_of extra = []"
    using insert_boot_session_sel(3) [of s5 db] s5 s7 by (simp add: s6_def)
  ultimately show ?thesis using that [of s7 db] s5(1) s7(1) sql by simp
qed

lemma flush_early_keeps_db: "au_db (aud (flush_early evs s)) = au_db (aud s)"
proof (induction evs arbitrary: s)
  case (Cons ev evs)
  have "au_db (aud (snd (append_event_internal t m n s))) = au_db (aud s)" for t m n
    by (rule append_event_cases [of t m n s]) auto
  then show ?case using Cons by simp
qed simp

lemma chain_inv_init:
  assumes "audit_init_persistent_backend ho s = (True, s')"
    and "au_event_seq (aud s) = 0" "au_prev_hash (aud s) = []" "au_db (aud s') = Some db"
  shows "chain_inv db (h_db s db) s'"
proof -
  from init_stages [OF assms(1)] obtain db' s7 where st:
    "s' = (flush_early (au_early_events (aud s)) s7)
       \<lparr>aud := (aud (flush_early (au_early_events (aud s)) s7))\<lparr>au_early_events := []\<rparr>\<rparr>"
    "au_db (aud s7) = Some db'" "au_persistent_ready (aud s7)" "au_event_seq (aud s7) = au_event_seq (aud s)"
    "au_prev_hash (aud s7) = au_prev_hash (aud s)"
    "\<exists>extra. h_db s7 db' = h_db s db' @ extra \<and> events_of extra = []" by metis
  have "db' = db" using assms(4) st(1,2) by (simp add: flush_early_keeps_db)
  then have "chain_inv db (h_db s db) s7"
    using st assms(2,3) by (auto simp: chain_inv_def session_rows_def)
  then have "chain_inv db (h_db s db) (flush_early (au_early_events (aud s)) s7)"
    by (rule chain_inv_flush)
  then show ?thesis by (simp add: st(1) chain_inv_def session_rows_def)
qed

lemma audit_session_inv: "audit_session db base s \<Longrightarrow> chain_inv db base s"
  by (induction rule: audit_session.induct) (auto intro: chain_inv_init chain_inv_step)

section \<open>The early buffer\<close>

definition early_text :: "cstr \<times> cstr \<Rightarrow> string \<times> string" where
  "early_text tm = (copy_text 64 (safe_text (fst tm) ''UNSPECIFIED''), copy_text 256 (safe_text (snd tm) []))"

definition buffered_texts :: "audit_state \<Rightarrow> (string \<times> string) list" where
  "buffered_texts a = map (\<lambda>e. (ee_event_type e, ee_summary e)) (au_early_events a)"

lemma emit_not_ready:
  assumes "\<not> au_persistent_ready (aud s)"
  shows "\<not> au_persistent_ready (aud (audit_emit_boot_event t m s))"
    and "buffered_texts (aud (audit_emit_boot_event t m s)) =
      (if length (buffered_texts (aud s)) < 32 then buffered_texts (aud s) @ [early_text (t, m)]
       else buffered_texts (aud s))"
    and "h_db (audit_emit_boot_event t m s) = h_db s"
  using assms
  by (simp_all add: audit_emit_boot_event_def monotonic_now_ns_def early_text_def buffered_texts_def
      AUDIT_EARLY_MAX_EVENTS_def)

section \<open>A machine on which every call succeeds\<close>

definition demo_host :: host where
  "demo_host = \<lparr>h_fs = [([''schema''], FDir), ([''schema'', ''audit.sql''], FFile ''CREATE TABLE'')],
     h_read_only = (\<lambda>_. False), h_unreadable = (\<lambda>_. False), h_accepted = (\<lambda>_. None),
     h_survived = (\<lambda>_. None), h_alloc = (\<lambda>_. True), h_uname = (\<lambda>_. None), h_mono = (\<lambda>_. 7), h_unix = (\<lambda>n. 1000),
     h_sql = (\<lambda>_ _. True), h_sql_columns = (\<lambda>_. []), h_sql_recent = (\<lambda>_ _ _. []),
     h_sql_counts = (\<lambda>_ _. None), h_db = (\<lambda>_. []), h_tick = 0, h_stdin = [], h_out = []\<rparr>"

definition demo_audit :: audit_sys where
  "demo_audit = host.extend demo_host (audit_sys.fields zero_audit)"

definition demo_db :: string where "demo_db = ''build/audit/vitaos-audit.db''"

definition demo_started :: audit_sys where
  "demo_started = snd (audit_init_persistent_backend None demo_audit)"

lemmas demo_defs = demo_host_def demo_audit_def demo_started_def host.defs audit_sys.defs zero_audit_def

lemma demo_init: "audit_init_persistent_backend None demo_audit = (True, demo_started)"
  unfolding demo_started_def by (rule prod_eqI) (code_simp, simp)

lemma demo_started_db: "au_db (aud demo_started) = Some demo_db"
  by code_simp

lemma demo_audit_session: "audit_session demo_db [] demo_started"
proof -
  have "h_db demo_audit demo_db = []" by (simp add: demo_defs)
  then show ?thesis
    using started [OF demo_init _ _ demo_started_db] by (simp add: demo_defs)
qed

section \<open>Flushing the early buffer on a working backend\<close>

lemma sqlite_ok [simp]: "\<forall>n c. h_sql s n c \<Longrightarrow> fst (sqlite db c s)"
  by (simp add: sqlite_def Let_def)

lemma append_event_ok:
  assumes "\<forall>n c. h_sql s n c" "au_persistent_ready (aud s)" "au_db (aud s) \<noteq> None"
  shows "fst (append_event_internal t m n s)" "h_sql (snd (append_event_internal t m n s)) = h_sql s"
  using assms
  by (auto simp: append_event_internal_def insert_event_row_def unix_now_def Let_def case_prod_beta
      split: option.splits)

lemma flush_early_ok:
  assumes "\<forall>n c. h_sql s n c" "au_persistent_ready (aud s)" "au_db (aud s) = Some db"
  shows "\<exists>new. h_db (flush_early evs s) db = h_db s db @ new \<and>
     map (\<lambda>r. (er_type r, er_summary r, er_mono r)) (events_of new) =
     map (\<lambda>e. (safe_text (Some (ee_event_type e)) ''UNSPECIFIED'', safe_text (Some (ee_summary e)) [],
               ee_monotonic_ns e)) evs"
  using assms
proof (induction evs arbitrary: s)
  case Nil
  then show ?case by (auto intro: exI [of _ "[]"])
next
  case (Cons ev evs)
  let ?t = "Some (ee_event_type ev)" and ?m = "Some (ee_summary ev)"
  let ?s1 = "snd (append_event_internal ?t ?m (ee_monotonic_ns ev) s)"
  have ok: "fst (append_event_internal ?t ?m (ee_monotonic_ns ev) s)" "h_sql ?s1 = h_sql s"
    using append_event_ok [OF Cons.prems(1,2)] Cons.prems(3) by auto
  obtain rtc where st: "au_persistent_ready (aud ?s1)" "au_db (aud ?s1) = Some db"
    "h_db ?s1 db = h_db s db @ [RowEvent (event_row_of (aud s) (safe_text ?t ''UNSPECIFIED'')
       (safe_text ?m []) (ee_monotonic_ns ev) rtc)]"
    by (rule append_event_cases [of ?t ?m "ee_monotonic_ns ev" s]) (use ok Cons.prems in auto)
  from Cons.IH [OF _ st(1,2)] ok(2) Cons.prems(1) obtain new where
    "h_db (flush_early evs ?s1) db = h_db ?s1 db @ new"
    "map (\<lambda>r. (er_type r, er_summary r, er_mono r)) (events_of new) =
     map (\<lambda>e. (safe_text (Some (ee_event_type e)) ''UNSPECIFIED'', safe_text (Some (ee_summary e)) [],
               ee_monotonic_ns e)) evs" by auto
  then show ?case using st(3)
    by (intro exI [of _ "RowEvent (event_row_of (aud s) (safe_text ?t ''UNSPECIFIED'')
       (safe_text ?m []) (ee_monotonic_ns ev) rtc) # new"]) simp
qed

lemma init_flushes:
  assumes "\<forall>n c. h_sql s n c" "audit_init_persistent_backend ho s = (True, s')"
  shows "\<exists>db new. au_db (aud s') = Some db \<and> h_db s' db = h_db s db @ new \<and>
     map (\<lambda>r. (er_type r, er_summary r, er_mono r)) (events_of new) =
     map (\<lambda>e. (safe_text (Some (ee_event_type e)) ''UNSPECIFIED'', safe_text (Some (ee_summary e)) [],
               ee_monotonic_ns e)) (au_early_events (aud s))"
proof -
  from init_stages [OF assms(2)] obtain db s7 where st:
    "s' = (flush_early (au_early_events (aud s)) s7)
       \<lparr>aud := (aud (flush_early (au_early_events (aud s)) s7))\<lparr>au_early_events := []\<rparr>\<rparr>"
    "au_db (aud s7) = Some db" "au_persistent_ready (aud s7)"
    "\<exists>extra. h_db s7 db = h_db s db @ extra \<and> events_of extra = []" "h_sql s7 = h_sql s" by metis
  from st(4) obtain extra where "h_db s7 db = h_db s db @ extra" "events_of extra = []" by blast
  moreover obtain new where "h_db (flush_early (au_early_events (aud s)) s7) db = h_db s7 db @ new"
    "map (\<lambda>r. (er_type r, er_summary r, er_mono r)) (events_of new) =
     map (\<lambda>e. (safe_text (Some (ee_event_type e)) ''UNSPECIFIED'', safe_text (Some (ee_summary e)) [],
               ee_monotonic_ns e)) (au_early_events (aud s))"
    using flush_early_ok [OF _ st(3,2), of "au_early_events (aud s)"] st(5) assms(1) by auto
  ultimately show ?thesis using st(1,2)
    by (intro exI [of _ db] exI [of _ "extra @ new"]) (simp add: flush_early_keeps_db)
qed

section \<open>Properties\<close>

text \<open>
  C2. Audit chain. In every state an audit session can reach, whatever fails, the events the
  session stored are numbered 1, 2, ..., carry its boot id, and each row holds the hash of the row
  before it and the SHA-256 of its own payload; the state holds the number and hash of the last one.
\<close>

theorem audit_session_chain:
  assumes "audit_session db base s"
  shows "au_db (aud s) = Some db \<and>
    (\<exists>rows. h_db s db = base @ rows \<and>
       map er_seq (events_of rows) = map of_nat [1..<Suc (length (events_of rows))] \<and>
       (\<forall>r\<in>set (events_of rows). er_boot_id r = au_boot_id (aud s)) \<and>
       audit_links [] (events_of rows) \<and>
       au_event_seq (aud s) = of_nat (length (events_of rows)) \<and>
       au_prev_hash (aud s) = chain_head er_hash [] (events_of rows))"
  using audit_session_inv [OF assms] by (auto simp: chain_inv_def session_rows_def)

lemma audit_session_chain_witness:
  "\<exists>rows. h_db (audit_emit ''BOOT'' ''up'' demo_started) demo_db = [] @ rows \<and> audit_links [] (events_of rows)"
  using audit_session_chain [OF stepped [OF demo_audit_session step_emit]] by blast

text \<open>
  C3. Tamper evidence. Replace the stored events of a session by any other chain that starts from
  the empty hash and ends in the hash the session holds: then its payloads are the same, or two
  different payloads with the same SHA-256 are on the table. (The payload of every row has to fit
  the 1023 characters the code hashes.)
\<close>

theorem audit_tamper_evident:
  assumes "audit_session db base s" "h_db s db = base @ rows"
    and "\<forall>r\<in>set (events_of rows). row_fits r"
    and "audit_links [] forged" "\<forall>r\<in>set forged. row_fits r"
    and "chain_head er_hash [] forged = au_prev_hash (aud s)"
  shows "map row_payload forged = map row_payload (events_of rows) \<or>
    (\<exists>r\<in>set forged. \<exists>r'\<in>set (events_of rows).
       row_payload r \<noteq> row_payload r' \<and> hash_hex (row_payload r) = hash_hex (row_payload r'))"
proof -
  have "session_rows (aud s) (events_of rows)"
    using audit_session_inv [OF assms(1)] assms(2) by (auto simp: chain_inv_def)
  then have "map row_payload forged = map row_payload (events_of rows) \<or>
      audit_chain.collision forged (events_of rows)"
    using assms(3-6) by (intro audit_chain.head_fixes_payloads) (auto simp: session_rows_def)
  then show ?thesis by (simp add: audit_chain.collision_def)
qed

lemma demo_started_aud:
  "au_boot_id (aud demo_started) = ''boot-1000''" "au_event_seq (aud demo_started) = 0"
  "au_prev_hash (aud demo_started) = []" "au_persistent_ready (aud demo_started)"
  "h_mono demo_started (h_tick demo_started) = 7" "events_of (h_db demo_started demo_db) = []"
  by code_simp+

lemma demo_started_sql: "h_sql demo_started n c"
  by code_simp

definition demo_one :: audit_sys where
  "demo_one = audit_emit ''BOOT'' ''up'' demo_started"

lemma demo_one_session: "audit_session demo_db [] demo_one"
  unfolding demo_one_def by (rule stepped [OF demo_audit_session step_emit])

lemma demo_one_rows:
  "\<exists>r. events_of (h_db demo_one demo_db) = [r] \<and> row_fits r \<and> audit_links [] [r] \<and> er_hash r = au_prev_hash (aud demo_one)"
proof -
  let ?s = "ticked demo_started"
  have ok: "fst (append_event_internal (Some ''BOOT'') (Some ''up'') 7 ?s)"
    by (intro append_event_ok) (simp_all add: demo_started_aud demo_started_db demo_started_sql)
  have one: "demo_one = snd (append_event_internal (Some ''BOOT'') (Some ''up'') 7 ?s)"
    by (simp add: demo_one_def audit_emit_boot_event_def monotonic_now_ns_def demo_started_aud)
  show ?thesis
  proof (cases rule: append_event_cases [of "Some ''BOOT''" "Some ''up''" 7 ?s])
    case (refused s')
    then show ?thesis using ok by simp
  next
    case (stored' s' db rtc)
    let ?r = "event_row_of (aud demo_started) ''BOOT'' ''up'' 7 rtc"
    have "row_fits ?r"
      by (simp add: row_fits_def full_payload_def demo_started_aud show_nat.simps)
    then show ?thesis using stored' one
      by (intro exI [of _ ?r]) (simp add: demo_started_db demo_started_aud)
  qed
qed

lemma audit_tamper_evident_witness:
  "\<exists>forged. forged \<noteq> [] \<and> map row_payload forged = map row_payload (events_of (h_db demo_one demo_db))"
proof -
  obtain r where r: "events_of (h_db demo_one demo_db) = [r]" "row_fits r" "audit_links [] [r]"
      "er_hash r = au_prev_hash (aud demo_one)" using demo_one_rows by blast
  have "map row_payload [r] = map row_payload (events_of (h_db demo_one demo_db)) \<or>
    (\<exists>x\<in>set [r]. \<exists>r'\<in>set (events_of (h_db demo_one demo_db)).
       row_payload x \<noteq> row_payload r' \<and> hash_hex (row_payload x) = hash_hex (row_payload r'))"
    by (rule audit_tamper_evident [OF demo_one_session, of "h_db demo_one demo_db" "[r]"]) (use r in auto)
  then show ?thesis using r(1) by auto
qed

text \<open>
  C40. One event. Either the call is refused, and then neither the audit state (its sequence number
  included) nor any database changes; or the session is open and exactly one row is added, with the
  next number, the stored head as its previous hash and the SHA-256 of its payload, which becomes
  the new head.
\<close>

theorem append_event_atomic:
  "let s' = snd (append_event_internal t m n s);
       etype = safe_text t ''UNSPECIFIED''; smry = safe_text m []; a = aud s
   in (if fst (append_event_internal t m n s)
       then au_persistent_ready a \<and>
            (\<exists>db rtc. au_db a = Some db \<and>
              h_db s' = (h_db s)(db := h_db s db @ [RowEvent
                \<lparr>er_boot_id = au_boot_id a, er_seq = au_event_seq a + 1, er_type = etype, er_summary = smry,
                 er_mono = n, er_rtc = rtc, er_prev_hash = au_prev_hash a,
                 er_hash = hash_hex (event_payload (au_boot_id a) (au_event_seq a + 1) etype smry n (au_prev_hash a))\<rparr>])) \<and>
            aud s' = a\<lparr>au_event_seq := au_event_seq a + 1,
              au_prev_hash := hash_hex (event_payload (au_boot_id a) (au_event_seq a + 1) etype smry n (au_prev_hash a))\<rparr>
       else aud s' = a \<and> h_db s' = h_db s)"
  by (rule append_event_cases [of t m n s]) (auto simp: event_row_of_def Let_def)

text \<open>
  Early buffer. Until the backend is open, emitted events are kept in order, with their texts cut
  to the sizes of the slots, and the buffer never holds more than 32: later events are dropped,
  never earlier ones, and nothing reaches the database.
\<close>

theorem early_buffer_keeps_first:
  assumes "\<not> au_persistent_ready (aud s)" "length (au_early_events (aud s)) \<le> 32"
  shows "let s' = fold (\<lambda>tm. audit_emit_boot_event (fst tm) (snd tm)) tms s
    in buffered_texts (aud s') = take 32 (buffered_texts (aud s) @ map early_text tms) \<and>
       h_db s' = h_db s"
  using assms
proof (induction tms arbitrary: s)
  case Nil
  then show ?case by (simp add: buffered_texts_def)
next
  case (Cons tm tms)
  let ?s1 = "audit_emit_boot_event (fst tm) (snd tm) s"
  note em = emit_not_ready [OF Cons.prems(1), of "fst tm" "snd tm"]
  have len: "length (buffered_texts a) = length (au_early_events a)" for a
    by (simp add: buffered_texts_def)
  have "length (au_early_events (aud ?s1)) \<le> 32"
    using em(2) Cons.prems(2) len [of "aud ?s1"] len [of "aud s"] by (auto split: if_splits)
  from Cons.IH [OF em(1) this] show ?case
    using em(2,3) Cons.prems(2) len [of "aud s"] by (auto simp: Let_def take_Cons')
qed

lemma early_buffer_keeps_first_witness:
  "buffered_texts (aud (fold (\<lambda>tm. audit_emit_boot_event (fst tm) (snd tm))
      [(Some ''BOOT'', None), (None, Some ''x'')] demo_audit)) = [(''BOOT'', []), (''UNSPECIFIED'', ''x'')]"
  using early_buffer_keeps_first [of demo_audit "[(Some ''BOOT'', None), (None, Some ''x'')]"]
  by (simp add: demo_defs buffered_texts_def early_text_def str_copy_fits Let_def)

text \<open>
  Flush. When every SQLite call succeeds, opening the backend turns the buffered events into rows of
  the database it opened, in the order they were emitted and with the times they were emitted at.
\<close>

theorem audit_init_flushes_early_events:
  assumes "\<forall>n c. h_sql s n c" "audit_init_persistent_backend ho s = (True, s')"
  shows "\<exists>db new. au_db (aud s') = Some db \<and> h_db s' db = h_db s db @ new \<and>
     map (\<lambda>r. (er_type r, er_summary r, er_mono r)) (events_of new) =
     map (\<lambda>e. (safe_text (Some (ee_event_type e)) ''UNSPECIFIED'', safe_text (Some (ee_summary e)) [],
               ee_monotonic_ns e)) (au_early_events (aud s))"
  using init_flushes [OF assms] .

lemma audit_init_flushes_early_events_witness:
  "\<exists>db new. au_db (aud demo_started) = Some db \<and> h_db demo_started db = h_db demo_audit db @ new \<and> events_of new = []"
  using audit_init_flushes_early_events [OF _ demo_init] by (simp add: demo_defs)

text \<open>
  Verification report. \<open>audit_verify_current_chain\<close> reads no row: whatever the database
  contains, the report is the same, and on an open session it is always \<open>status=ok\<close>.
\<close>

theorem audit_verify_reads_no_row:
  "audit_verify_current_chain cap (s\<lparr>h_db := rows\<rparr>) = audit_verify_current_chain cap s \<and>
   (fst (audit_verify_current_chain cap s) \<longleftrightarrow> 0 < cap \<and> au_persistent_ready (aud s))"
  by (simp add: audit_verify_current_chain_def)

end
