(* ===== verification/Storage.thy ===== *)
theory Storage
  imports Audit_Core
begin

text \<open>
  The storage facade (kernel/storage.c) as the hosted build compiles it: which paths are accepted,
  how they are mapped under \<open>build/storage\<close>, writing and reading text files, and the directory
  tree. \<open>g_storage\<close> is the field \<open>sto\<close>; the functions that print (status, probe, commands) follow
  in StorageCmd, above the console.
\<close>

datatype vita_storage_backend = BACKEND_NONE | BACKEND_HOSTED | BACKEND_UEFI_SIMPLE_FS

record storage_state =
  st_initialized :: bool
  st_writable :: bool
  st_bootstrap_attempted :: bool
  st_bootstrap_verified :: bool
  st_backend :: vita_storage_backend
  st_backend_name :: string
  st_root_hint :: string
  st_last_error :: string
  st_handoff :: "vita_handoff option"

record storage_sys = audit_sys + sto :: storage_state

definition VITA_STORAGE_PATH_MAX :: nat where "VITA_STORAGE_PATH_MAX = 192"
definition VITA_STORAGE_ERROR_MAX :: nat where "VITA_STORAGE_ERROR_MAX = 128"
definition VITA_STORAGE_TEXT_MAX :: nat where "VITA_STORAGE_TEXT_MAX = 512"
definition VITA_STORAGE_READ_MAX :: nat where "VITA_STORAGE_READ_MAX = 2048"

definition zero_storage :: storage_state where
  "zero_storage = \<lparr>st_initialized = False, st_writable = False, st_bootstrap_attempted = False,
     st_bootstrap_verified = False, st_backend = BACKEND_NONE, st_backend_name = [],
     st_root_hint = [], st_last_error = [], st_handoff = None\<rparr>"

definition storage_last_error :: "'a storage_sys_scheme \<Rightarrow> string" where
  "storage_last_error s = (if st_last_error (sto s) \<noteq> [] then st_last_error (sto s) else ''none'')"

definition storage_set_error :: "string \<Rightarrow> 'a storage_sys_scheme \<Rightarrow> 'a storage_sys_scheme" where
  "storage_set_error txt s = s\<lparr>sto := (sto s)\<lparr>st_last_error := copy_text 128 txt\<rparr>\<rparr>"

section \<open>Accepted paths\<close>

fun path_chars_allowed :: "string \<Rightarrow> bool" where
  "path_chars_allowed [] = True"
| "path_chars_allowed (c # cs) =
     (if c = CHR '':'' then False
      else if c = CHR ''.'' \<and> cs \<noteq> [] \<and> hd cs = CHR ''.'' then False
      else if uchar c < 32 then False
      else path_chars_allowed cs)"

definition path_allowed :: "cstr \<Rightarrow> bool" where
  "path_allowed path =
     (case path of None \<Rightarrow> False
      | Some p \<Rightarrow> (if \<not> (eqs p ''/vita'' \<or> pre p ''/vita/'') then False else path_chars_allowed p))"

definition g_storage_expected_dirs :: "string list" where
  "g_storage_expected_dirs = [
    ''/vita'', ''/vita/config'', ''/vita/audit'', ''/vita/notes'', ''/vita/messages'',
    ''/vita/messages/inbox'', ''/vita/messages/outbox'', ''/vita/messages/drafts'',
    ''/vita/emergency'', ''/vita/emergency/reports'', ''/vita/emergency/checklists'',
    ''/vita/ai'', ''/vita/ai/prompts'', ''/vita/ai/responses'', ''/vita/ai/sessions'',
    ''/vita/net'', ''/vita/net/profiles'', ''/vita/export'', ''/vita/export/audit'',
    ''/vita/export/notes'', ''/vita/export/reports'', ''/vita/tmp'']"

section \<open>The hosted backend\<close>

text \<open>\<open>host_path[i]\<close> is cut at every slash but the first character, and the directory made.\<close>

fun parent_dirs_loop :: "string \<Rightarrow> string \<Rightarrow> 'a storage_sys_scheme \<Rightarrow> 'a storage_sys_scheme" where
  "parent_dirs_loop done [] s = s"
| "parent_dirs_loop done (c # cs) s =
     parent_dirs_loop (done @ [c]) cs (if c = CHR ''/'' then snd (mkdir done s) else s)"

definition hosted_ensure_parent_dirs :: "string \<Rightarrow> 'a storage_sys_scheme \<Rightarrow> 'a storage_sys_scheme" where
  "hosted_ensure_parent_dirs host_path s = parent_dirs_loop (take 1 host_path) (drop 1 host_path) s"

definition hosted_host_path :: "nat \<Rightarrow> string \<Rightarrow> string" where
  "hosted_host_path cap path = str_append cap (copy_text cap ''build/storage'') (Some path)"

definition hosted_ensure_dir_path :: "string \<Rightarrow> 'a storage_sys_scheme \<Rightarrow> bool \<times> 'a storage_sys_scheme" where
  "hosted_ensure_dir_path path s =
     (if \<not> path_allowed (Some path) then (False, s)
      else let host_path = hosted_host_path 256 path;
               s1 = hosted_ensure_parent_dirs host_path s
           in (True, snd (mkdir host_path s1)))"

definition hosted_path_exists :: "string \<Rightarrow> 'a storage_sys_scheme \<Rightarrow> bool" where
  "hosted_path_exists path s =
     (if \<not> path_allowed (Some path) then False else stat_ok (hosted_host_path 256 path) s)"

definition hosted_map_path :: "string \<Rightarrow> nat \<Rightarrow> string option" where
  "hosted_map_path path out_cap =
     (if \<not> path_allowed (Some path) \<or> out_cap = 0 then None
      else let out = hosted_host_path out_cap path in if out \<noteq> [] then Some out else None)"

definition hosted_write_text :: "string \<Rightarrow> string \<Rightarrow> 'a storage_sys_scheme \<Rightarrow> bool \<times> 'a storage_sys_scheme" where
  "hosted_write_text path txt s =
     (case hosted_map_path path 256 of
        None \<Rightarrow> (False, storage_set_error ''invalid hosted storage path'' s)
      | Some host_path \<Rightarrow>
          let s1 = hosted_ensure_parent_dirs host_path s;
              (opened, s2) = fopen_wb host_path s1
          in if \<not> opened then (False, storage_set_error ''hosted fopen failed'' s2)
             else if txt \<noteq> [] then
               let (n, s3) = fwrite_close host_path txt s2
               in if n \<noteq> length txt then (False, storage_set_error ''hosted fwrite failed'' s3)
                  else (True, storage_set_error ''ok'' s3)
             else (True, storage_set_error ''ok'' s2))"

text \<open>
  The text in the result is the string in \<open>out\<close> on return. A call that fails returns it empty; only
  the test of \<open>initialized\<close> below fails before the array is emptied, and no caller reads it then.
\<close>

definition hosted_read_text :: "string \<Rightarrow> nat \<Rightarrow> 'a storage_sys_scheme \<Rightarrow> (bool \<times> string) \<times> 'a storage_sys_scheme" where
  "hosted_read_text path out_cap s =
     (if out_cap = 0 then ((False, []), storage_set_error ''invalid read buffer'' s)
      else case hosted_map_path path 256 of
        None \<Rightarrow> ((False, []), storage_set_error ''invalid hosted storage path'' s)
      | Some host_path \<Rightarrow>
          (case fopen_rb host_path s of
             None \<Rightarrow> ((False, []), storage_set_error ''hosted fopen read failed'' s)
           | Some bytes \<Rightarrow> ((True, c_string (take (out_cap - 1) bytes)), storage_set_error ''ok'' s)))"

section \<open>The facade\<close>

definition storage_ensure_directory :: "string \<Rightarrow> 'a storage_sys_scheme \<Rightarrow> bool \<times> 'a storage_sys_scheme" where
  "storage_ensure_directory path s =
     (let (ok, s1) = hosted_ensure_dir_path path s
      in if \<not> ok then (False, storage_set_error ''hosted ensure directory failed'' s1)
         else (True, storage_set_error ''ok'' s1))"

definition storage_path_exists :: "string \<Rightarrow> 'a storage_sys_scheme \<Rightarrow> bool" where
  "storage_path_exists path s = hosted_path_exists path s"

definition storage_init :: "vita_handoff option \<Rightarrow> 'a storage_sys_scheme \<Rightarrow> bool \<times> 'a storage_sys_scheme" where
  "storage_init handoff s =
     (let s1 = s\<lparr>sto := zero_storage\<lparr>st_handoff := handoff, st_initialized := True, st_writable := True,
                   st_backend := BACKEND_HOSTED, st_backend_name := copy_text 32 ''hosted_fs'',
                   st_root_hint := copy_text 64 ''build/storage/vita''\<rparr>\<rparr>
      in (True, storage_set_error ''ok'' s1))"

definition storage_is_ready :: "'a storage_sys_scheme \<Rightarrow> bool" where
  "storage_is_ready s = (st_initialized (sto s) \<and> st_writable (sto s))"

definition storage_is_bootstrap_verified :: "'a storage_sys_scheme \<Rightarrow> bool" where
  "storage_is_bootstrap_verified s = (st_bootstrap_attempted (sto s) \<and> st_bootstrap_verified (sto s))"

text \<open>The copy \<open>storage_get_status\<close> makes: every field of the state but the handoff.\<close>

definition storage_get_status :: "'a storage_sys_scheme \<Rightarrow> storage_state" where
  "storage_get_status s = (sto s)\<lparr>st_handoff := None\<rparr>"

definition PATH_ERROR :: string where
  "PATH_ERROR = ''path must be /vita or /vita/... and must not contain '..' or '' @ [CHR 0x27, CHR '':'', CHR 0x27]"

definition storage_write_text ::
  "cstr \<Rightarrow> cstr \<Rightarrow> 'a storage_sys_scheme \<Rightarrow> bool \<times> 'a storage_sys_scheme" where
  "storage_write_text path txt s =
     (if \<not> st_initialized (sto s) \<or> \<not> st_writable (sto s)
      then (False, storage_set_error ''storage not initialized or not writable'' s)
      else if \<not> path_allowed path then (False, storage_set_error PATH_ERROR s)
      else hosted_write_text (the path) (case txt of None \<Rightarrow> [] | Some t \<Rightarrow> t) s)"

definition storage_read_text ::
  "cstr \<Rightarrow> nat \<Rightarrow> 'a storage_sys_scheme \<Rightarrow> (bool \<times> string) \<times> 'a storage_sys_scheme" where
  "storage_read_text path out_cap s =
     (if \<not> st_initialized (sto s) then ((False, []), storage_set_error ''storage not initialized'' s)
      else if out_cap = 0 then ((False, []), storage_set_error ''invalid read buffer'' s)
      else if \<not> path_allowed path then ((False, []), storage_set_error PATH_ERROR s)
      else hosted_read_text (the path) out_cap s)"

fun repair_loop :: "string list \<Rightarrow> 'a storage_sys_scheme \<Rightarrow> bool \<times> 'a storage_sys_scheme" where
  "repair_loop [] s = (True, s)"
| "repair_loop (d # ds) s =
     (let (ok, s1) = storage_ensure_directory d s in if \<not> ok then (False, s1) else repair_loop ds s1)"

definition storage_tree_repair :: "'a storage_sys_scheme \<Rightarrow> bool \<times> 'a storage_sys_scheme" where
  "storage_tree_repair s = repair_loop g_storage_expected_dirs s"

section \<open>Which paths are accepted, and where they lead\<close>

lemma path_chars_allowed_iff:
  "path_chars_allowed p \<longleftrightarrow> (\<forall>c\<in>set p. c \<noteq> CHR '':'' \<and> 32 \<le> uchar c) \<and> \<not> sublist ''..'' p"
proof (induction p)
  case Nil
  then show ?case by simp
next
  case (Cons c cs)
  have "sublist ''..'' (c # cs) \<longleftrightarrow> (c = CHR ''.'' \<and> cs \<noteq> [] \<and> hd cs = CHR ''.'') \<or> sublist ''..'' cs"
    by (cases cs) (auto simp: sublist_Cons_right prefix_Cons)
  then show ?case using Cons by auto
qed

lemma path_allowed_iff:
  "path_allowed (Some p) \<longleftrightarrow>
     (p = ''/vita'' \<or> prefix ''/vita/'' p) \<and>
     (\<forall>c\<in>set p. c \<noteq> CHR '':'' \<and> 32 \<le> uchar c) \<and> \<not> sublist ''..'' p"
  by (simp add: path_allowed_def starts_with_Some path_chars_allowed_iff)

lemma path_allowed_None [simp]: "\<not> path_allowed None"
  by (simp add: path_allowed_def)

abbreviation host_root :: string where "host_root \<equiv> ''build/storage''"
abbreviation vita_root :: fs_path where "vita_root \<equiv> [''build'', ''storage'', ''vita'']"

lemma hosted_host_path_eq:
  "13 < cap \<Longrightarrow> hosted_host_path cap path = host_root @ take (cap - 14) path"
proof -
  assume "13 < cap"
  then have "copy_text cap host_root = host_root" by (intro str_copy_fits) simp
  moreover have "str_append cap host_root (Some path) = host_root @ take (cap - 1 - length host_root) path"
    using \<open>13 < cap\<close> by (intro sa.app_take) simp
  ultimately show ?thesis by (simp add: hosted_host_path_def eval_nat_numeral)
qed

lemma hosted_map_path_eq:
  "hosted_map_path path 256 = (if path_allowed (Some path) then Some (hosted_host_path 256 path) else None)"
  by (simp add: hosted_map_path_def hosted_host_path_eq Let_def)

text \<open>A cut path that starts at \<open>/vita\<close> still names something at or below the root of the tree.\<close>

lemma host_path_comps:
  assumes "path_allowed (Some path)"
  shows "\<exists>rest. path_comps (hosted_host_path 256 path) = vita_root @ rest"
proof -
  have "\<exists>rest. path_comps (host_root @ take 242 path) = vita_root @ rest"
  proof -
  from assms consider "path = ''/vita''" | rest where "path = ''/vita/'' @ rest"
    by (auto simp: path_allowed_iff prefix_def)
  then show ?thesis
  proof cases
    case 1
    then show ?thesis by (intro exI [of _ "[]"]) (simp add: 1 path_comps_def rel_comps_def)
  next
    case 2
    have "host_root @ take 242 path = ''build'' @ CHR ''/'' # ''storage'' @ CHR ''/'' # ''vita'' @ CHR ''/'' # take 236 rest"
      using 2 by simp
    then have "path_comps (host_root @ take 242 path) =
        path_comps ''build'' @ rel_comps ''storage'' @ rel_comps ''vita'' @ rel_comps (take 236 rest)"
      by (simp only: path_comps_slash rel_comps_slash list.distinct not_False_eq_True)
    also have "\<dots> = vita_root @ rel_comps (take 236 rest)"
      by (simp add: path_comps_def rel_comps_def)
    finally show ?thesis by blast
  qed
  qed
  then show ?thesis by (simp add: hosted_host_path_eq)
qed

section \<open>What the operations touch\<close>

definition outside_tree :: "fs_path \<Rightarrow> bool" where
  "outside_tree k \<longleftrightarrow> \<not> prefix k vita_root \<and> \<not> prefix vita_root k"

lemma sto_host [simp]:
  "sto (fs_put k n s) = sto s" "sto (ticked s) = sto s" "aud (fs_put k n s) = aud s"
  by (simp_all add: fs_put_def ticked_def)

lemma storage_set_error_sel [simp]:
  "h_fs (storage_set_error e s) = h_fs s" "aud (storage_set_error e s) = aud s"
  "h_db (storage_set_error e s) = h_db s" "h_out (storage_set_error e s) = h_out s"
  "h_stdin (storage_set_error e s) = h_stdin s" "h_tick (storage_set_error e s) = h_tick s"
  "h_unreadable (storage_set_error e s) = h_unreadable s"
  "fs_lookup (storage_set_error e s) k = fs_lookup s k"
  "st_initialized (sto (storage_set_error e s)) = st_initialized (sto s)"
  "st_writable (sto (storage_set_error e s)) = st_writable (sto s)"
  "st_bootstrap_verified (sto (storage_set_error e s)) = st_bootstrap_verified (sto s)"
  "st_bootstrap_attempted (sto (storage_set_error e s)) = st_bootstrap_attempted (sto s)"
  "st_last_error (sto (storage_set_error e s)) = copy_text 128 e"
  "storage_sys.more (storage_set_error e s) = storage_sys.more s"
  by (simp_all add: storage_set_error_def fs_lookup_def)

lemma fopen_rb_set_error [simp]: "fopen_rb p (storage_set_error e s) = fopen_rb p s"
  by (simp add: fopen_rb_def Let_def)

lemma mkdir_lookup:
  "fs_lookup (snd (mkdir p s)) k =
     (if k = path_comps p \<and> fst (mkdir p s) then Some FDir else fs_lookup s k)"
proof (cases "path_comps p = []")
  case True
  then show ?thesis by (simp add: mkdir_def fs_lookup_def)
next
  case False
  then show ?thesis by (simp add: mkdir_def Let_def fs_lookup_put)
qed

lemma mkdir_keeps_existing: "fs_lookup s k = Some n \<Longrightarrow> fs_lookup (snd (mkdir p s)) k = Some n"
proof (cases "path_comps p = []")
  case True
  then show "fs_lookup s k = Some n \<Longrightarrow> ?thesis" by (simp add: mkdir_def fs_lookup_def)
next
  case False
  then show "fs_lookup s k = Some n \<Longrightarrow> ?thesis" by (auto simp: mkdir_def Let_def fs_lookup_put)
qed

lemma parent_dirs_elsewhere:
  "done \<noteq> [] \<Longrightarrow> \<not> prefix k (path_comps (done @ cs)) \<Longrightarrow> fs_lookup (parent_dirs_loop done cs s) k = fs_lookup s k"
proof (induction cs arbitrary: "done" s)
  case Nil
  then show ?case by simp
next
  case (Cons c cs)
  have "k \<noteq> path_comps done" if "c = CHR ''/''"
    using Cons.prems that path_comps_slash [of "done" cs] by auto
  then show ?case using Cons by (auto simp: mkdir_lookup)
qed

lemma parent_dirs_keeps: "fs_lookup s k = Some n \<Longrightarrow> fs_lookup (parent_dirs_loop done cs s) k = Some n"
  by (induction cs arbitrary: "done" s) (auto simp: mkdir_keeps_existing)

lemma ensure_parent_dirs_elsewhere:
  "\<not> prefix k (path_comps hp) \<Longrightarrow> fs_lookup (hosted_ensure_parent_dirs hp s) k = fs_lookup s k"
proof (cases "hp = []")
  case True
  then show ?thesis by (simp add: hosted_ensure_parent_dirs_def)
next
  case False
  then show "\<not> prefix k (path_comps hp) \<Longrightarrow> ?thesis"
    using append_take_drop_id [of 1 hp]
    by (simp only: hosted_ensure_parent_dirs_def) (intro parent_dirs_elsewhere, simp_all)
qed

lemma ensure_parent_dirs_keeps:
  "fs_lookup s k = Some n \<Longrightarrow> fs_lookup (hosted_ensure_parent_dirs hp s) k = Some n"
  by (simp add: hosted_ensure_parent_dirs_def parent_dirs_keeps)

text \<open>The directory calls change nothing but the file table.\<close>

lemma mkdir_sel [simp]:
  "sto (snd (mkdir p s)) = sto s" "aud (snd (mkdir p s)) = aud s" "h_tick (snd (mkdir p s)) = h_tick s"
  "h_accepted (snd (mkdir p s)) = h_accepted s" "h_survived (snd (mkdir p s)) = h_survived s"
  "h_unreadable (snd (mkdir p s)) = h_unreadable s" "h_read_only (snd (mkdir p s)) = h_read_only s"
  "h_out (snd (mkdir p s)) = h_out s" "h_stdin (snd (mkdir p s)) = h_stdin s" "h_db (snd (mkdir p s)) = h_db s"
  by (simp_all add: mkdir_def Let_def)

lemma parent_dirs_sel [simp]:
  "sto (parent_dirs_loop d cs s) = sto s" "aud (parent_dirs_loop d cs s) = aud s"
  "h_tick (parent_dirs_loop d cs s) = h_tick s"
  "h_accepted (parent_dirs_loop d cs s) = h_accepted s" "h_survived (parent_dirs_loop d cs s) = h_survived s"
  "h_unreadable (parent_dirs_loop d cs s) = h_unreadable s" "h_read_only (parent_dirs_loop d cs s) = h_read_only s"
  "h_out (parent_dirs_loop d cs s) = h_out s" "h_stdin (parent_dirs_loop d cs s) = h_stdin s"
  "h_db (parent_dirs_loop d cs s) = h_db s"
  by (induction cs arbitrary: d s) simp_all

lemma ensure_parent_dirs_sel [simp]:
  "sto (hosted_ensure_parent_dirs p s) = sto s" "aud (hosted_ensure_parent_dirs p s) = aud s"
  "h_tick (hosted_ensure_parent_dirs p s) = h_tick s"
  "h_accepted (hosted_ensure_parent_dirs p s) = h_accepted s" "h_survived (hosted_ensure_parent_dirs p s) = h_survived s"
  "h_unreadable (hosted_ensure_parent_dirs p s) = h_unreadable s" "h_read_only (hosted_ensure_parent_dirs p s) = h_read_only s"
  "h_out (hosted_ensure_parent_dirs p s) = h_out s" "h_stdin (hosted_ensure_parent_dirs p s) = h_stdin s"
  "h_db (hosted_ensure_parent_dirs p s) = h_db s"
  by (simp_all add: hosted_ensure_parent_dirs_def)

lemma fopen_wb_cases:
  obtains (refused) "fopen_wb p s = (False, s)"
  | (opened) "fopen_wb p s = (True, fs_put (path_comps p) (FFile []) s)" "path_comps p \<noteq> []" "\<not> names_dir p"
proof (cases "fst (fopen_wb p s)")
  case True
  then show ?thesis using opened by (auto simp: fopen_wb_def Let_def fs_lookup_def split: if_splits)
next
  case False
  then show ?thesis using refused by (auto simp: fopen_wb_def Let_def split: if_splits)
qed

lemma limited_length: "length (limited l t) = length t \<longleftrightarrow> limited l t = t"
  by (auto simp: limited_def split: option.splits)

text \<open>
  The outcomes of a write on an accepted path: the parent directories have been made; then either
  the file could not be opened, or it holds what the host accepted and kept of the text.
\<close>

lemma hosted_write_cases:
  fixes s :: "'a storage_sys_scheme"
  assumes "path_allowed (Some p)"
  defines "hp \<equiv> (hosted_host_path 256 p)"
  defines "s1 \<equiv> hosted_ensure_parent_dirs (hosted_host_path 256 p) s"
  obtains (no_open) "hosted_write_text p txt s = (False, storage_set_error ''hosted fopen failed'' s1)"
  | (written) ok err kept s2 where
      "hosted_write_text p txt s = (ok, storage_set_error err s2)"
      "\<forall>k. fs_lookup s2 k = (if k = path_comps hp then Some (FFile kept) else fs_lookup s1 k)"
      "sto s2 = sto s" "aud s2 = aud s" "h_unreadable s2 = h_unreadable s" "h_db s2 = h_db s" "h_out s2 = h_out s"
      "path_comps hp \<noteq> []" "\<not> names_dir hp"
      "ok \<Longrightarrow> err = ''ok'' \<and> kept = limited (h_survived s (h_tick s)) txt"
      "\<not> ok \<Longrightarrow> err = ''hosted fwrite failed''"
proof (cases rule: fopen_wb_cases [of hp s1])
  case refused
  then show ?thesis using no_open assms(1)
    by (simp add: hosted_write_text_def hosted_map_path_eq hp_def s1_def Let_def)
next
  case opened
  show ?thesis
  proof (cases "txt = []")
    case True
    show ?thesis
      by (rule written [of True "''ok''" "fs_put (path_comps hp) (FFile []) s1" "[]"])
        (use opened True assms(1) in \<open>simp_all add: hosted_write_text_def hosted_map_path_eq hp_def s1_def
          Let_def fs_lookup_put limited_def split: option.splits\<close>)
  next
    case False
    let ?w = "limited (h_accepted s (h_tick s)) txt"
    let ?s3 = "snd (fwrite_close hp txt (fs_put (path_comps hp) (FFile []) s1))"
    have res: "hosted_write_text p txt s =
        (if length ?w \<noteq> length txt then (False, storage_set_error ''hosted fwrite failed'' ?s3)
         else (True, storage_set_error ''ok'' ?s3))"
      using opened False assms(1)
      by (simp add: hosted_write_text_def hosted_map_path_eq hp_def s1_def Let_def fwrite_close_def)
    show ?thesis
      by (rule written [of "?w = txt" "if ?w = txt then ''ok'' else ''hosted fwrite failed''" ?s3
            "limited (h_survived s (h_tick s)) ?w"])
        (use opened res in \<open>auto simp: limited_length fwrite_close_def s1_def Let_def fs_lookup_put\<close>)
  qed
qed

abbreviation host_target :: "string \<Rightarrow> fs_path" where
  "host_target p \<equiv> path_comps (hosted_host_path 256 p)"

lemma prefix_of_target:
  assumes "path_allowed (Some p)" "prefix k (host_target p)"
  shows "prefix k vita_root \<or> prefix vita_root k"
proof -
  from host_path_comps [OF assms(1)] obtain rest where "host_target p = vita_root @ rest" by blast
  then show ?thesis using assms(2) prefix_same_cases [of k "vita_root @ rest" vita_root] by auto
qed

lemma hosted_write_elsewhere:
  assumes "path_allowed (Some p)" "outside_tree k"
  shows "fs_lookup (snd (hosted_write_text p txt s)) k = fs_lookup s k"
proof -
  have np: "\<not> prefix k (host_target p)"
    using prefix_of_target [OF assms(1)] assms(2) by (auto simp: outside_tree_def)
  then have ne: "k \<noteq> host_target p" by auto
  show ?thesis
    by (rule hosted_write_cases [OF assms(1), of "txt" s])
      (use np ne in \<open>simp_all add: ensure_parent_dirs_elsewhere\<close>)
qed

lemma hosted_write_keeps_others:
  assumes "path_allowed (Some p)" "fs_lookup s k = Some n" "k \<noteq> host_target p"
  shows "fs_lookup (snd (hosted_write_text p txt s)) k = Some n"
  by (rule hosted_write_cases [OF assms(1), of "txt" s])
    (use assms(2,3) in \<open>simp_all add: ensure_parent_dirs_keeps\<close>)

lemma storage_write_refused:
  assumes "\<not> (st_initialized (sto s) \<and> st_writable (sto s) \<and> path_allowed path)"
  shows "\<exists>e. storage_write_text path txt s = (False, storage_set_error e s)"
  using assms by (auto simp: storage_write_text_def)

text \<open>What the storage calls leave alone.\<close>

lemma hosted_write_sel:
  assumes "path_allowed (Some p)"
  shows "st_initialized (sto (snd (hosted_write_text p txt s))) = st_initialized (sto s)"
    "st_writable (sto (snd (hosted_write_text p txt s))) = st_writable (sto s)"
    "aud (snd (hosted_write_text p txt s)) = aud s" "h_db (snd (hosted_write_text p txt s)) = h_db s"
    "h_out (snd (hosted_write_text p txt s)) = h_out s"
    "st_last_error (sto (snd (hosted_write_text p txt s))) = ''ok'' \<longleftrightarrow> fst (hosted_write_text p txt s)"
proof -
  show "st_initialized (sto (snd (hosted_write_text p txt s))) = st_initialized (sto s)"
    by (rule hosted_write_cases [OF assms, of "txt" s]) simp_all
  show "st_writable (sto (snd (hosted_write_text p txt s))) = st_writable (sto s)"
    by (rule hosted_write_cases [OF assms, of "txt" s]) simp_all
  show "aud (snd (hosted_write_text p txt s)) = aud s"
    by (rule hosted_write_cases [OF assms, of "txt" s]) simp_all
  show "h_db (snd (hosted_write_text p txt s)) = h_db s"
    by (rule hosted_write_cases [OF assms, of "txt" s]) simp_all
  show "h_out (snd (hosted_write_text p txt s)) = h_out s"
    by (rule hosted_write_cases [OF assms, of "txt" s]) simp_all
  show "st_last_error (sto (snd (hosted_write_text p txt s))) = ''ok'' \<longleftrightarrow> fst (hosted_write_text p txt s)"
  proof (rule hosted_write_cases [OF assms, of "txt" s])
    assume "hosted_write_text p txt s = (False, storage_set_error ''hosted fopen failed'' (hosted_ensure_parent_dirs (hosted_host_path 256 p) s))"
    then show ?thesis by (simp add: str_copy_fits)
  next
    fix ok err kept s2
    assume "hosted_write_text p txt s = (ok, storage_set_error err s2)"
      "ok \<Longrightarrow> err = ''ok'' \<and> kept = limited (h_survived s (h_tick s)) txt" "\<not> ok \<Longrightarrow> err = ''hosted fwrite failed''"
    then show ?thesis by (cases ok) (simp_all add: str_copy_fits)
  qed
qed

lemma storage_write_sel [simp]:
  "st_initialized (sto (snd (storage_write_text path txt s))) = st_initialized (sto s)"
  "st_writable (sto (snd (storage_write_text path txt s))) = st_writable (sto s)"
  "aud (snd (storage_write_text path txt s)) = aud s" "h_db (snd (storage_write_text path txt s)) = h_db s"
  "h_out (snd (storage_write_text path txt s)) = h_out s"
  by (cases path; simp add: storage_write_text_def hosted_write_sel)+

lemma storage_read_sel [simp]:
  "st_initialized (sto (snd (storage_read_text path cap s))) = st_initialized (sto s)"
  "st_writable (sto (snd (storage_read_text path cap s))) = st_writable (sto s)"
  "st_bootstrap_verified (sto (snd (storage_read_text path cap s))) = st_bootstrap_verified (sto s)"
  "st_bootstrap_attempted (sto (snd (storage_read_text path cap s))) = st_bootstrap_attempted (sto s)"
  "aud (snd (storage_read_text path cap s)) = aud s" "h_db (snd (storage_read_text path cap s)) = h_db s"
  "h_out (snd (storage_read_text path cap s)) = h_out s" "h_fs (snd (storage_read_text path cap s)) = h_fs s"
  "h_unreadable (snd (storage_read_text path cap s)) = h_unreadable s"
  by (simp_all add: storage_read_text_def hosted_read_text_def Let_def split: option.splits)

section \<open>Write and read back\<close>

text \<open>The bytes the host keeps for an accepted path.\<close>

definition stored_text :: "'a storage_sys_scheme \<Rightarrow> string \<Rightarrow> string option" where
  "stored_text s p = (if path_allowed (Some p) then fopen_rb (hosted_host_path 256 p) s else None)"

lemma storage_read_text_eq:
  "st_initialized (sto s) \<Longrightarrow> 0 < cap \<Longrightarrow> path_allowed (Some p) \<Longrightarrow>
   storage_read_text (Some p) cap s =
     (case stored_text s p of
        None \<Rightarrow> ((False, []), storage_set_error ''hosted fopen read failed'' s)
      | Some c \<Rightarrow> ((True, c_string (take (cap - 1) c)), storage_set_error ''ok'' s))"
  by (simp add: storage_read_text_def hosted_read_text_def hosted_map_path_eq stored_text_def)

lemma storage_read_ok:
  "storage_read_text (Some p) cap s = ((True, t), s') \<Longrightarrow>
     \<exists>c. stored_text s p = Some c \<and> t = c_string (take (cap - 1) c) \<and> s' = storage_set_error ''ok'' s"
  by (auto simp: storage_read_text_def hosted_read_text_def hosted_map_path_eq stored_text_def
      split: if_splits option.splits)

lemma stored_text_set_error [simp]: "stored_text (storage_set_error e s) p = stored_text s p"
  by (simp add: stored_text_def)

lemma stored_text_read [simp]: "stored_text (snd (storage_read_text q cap s)) p = stored_text s p"
  by (simp add: stored_text_def fopen_rb_def fs_lookup_def Let_def)

text \<open>A store of texts whose reads deliver what is stored, cut to the reader's buffer.\<close>

locale text_store =
  fixes wr :: "string \<Rightarrow> string \<Rightarrow> 's \<Rightarrow> bool \<times> 's"
    and rd :: "string \<Rightarrow> nat \<Rightarrow> 's \<Rightarrow> (bool \<times> string) \<times> 's"
    and look :: "'s \<Rightarrow> string \<Rightarrow> string option"
  assumes rd_ok: "rd p cap s = ((True, t), s') \<Longrightarrow> \<exists>c. look s p = Some c \<and> t = c_string (take (cap - 1) c)"
    and rd_keeps: "look (snd (rd q cap s)) p = look s p"
begin

text \<open>Write, read into a buffer of \<open>cap\<close> characters, compare: the pattern of every verified write.\<close>

definition write_verified :: "nat \<Rightarrow> string \<Rightarrow> string \<Rightarrow> 's \<Rightarrow> bool \<times> 's" where
  "write_verified cap p txt s =
     (let (w, s1) = wr p txt s in
      if \<not> w then (False, s1)
      else let ((r, back), s2) = rd p cap s1 in
           if \<not> r then (False, s2) else (back = txt, s2))"

lemma write_verified_stored:
  assumes "write_verified cap p txt s = (True, s')"
  shows "\<exists>c. look s' p = Some c \<and> c_string (take (cap - 1) c) = txt"
proof -
  obtain s1 where w: "wr p txt s = (True, s1)"
    using assms by (auto simp: write_verified_def split: prod.splits if_splits)
  with assms have r: "rd p cap s1 = ((True, txt), s')"
    by (auto simp: write_verified_def split: prod.splits if_splits)
  show ?thesis using rd_ok [OF r] rd_keeps [of p cap s1 p] r by auto
qed

text \<open>A text longer than the read-back buffer can never be verified, whatever was written.\<close>

lemma write_verified_too_long:
  assumes "cap \<le> length txt" "0 < cap"
  shows "\<not> fst (write_verified cap p txt s)"
proof
  assume "fst (write_verified cap p txt s)"
  then obtain s' where "write_verified cap p txt s = (True, s')" by (metis prod.collapse)
  from write_verified_stored [OF this] obtain c where "c_string (take (cap - 1) c) = txt" by blast
  moreover have "length (c_string (take (cap - 1) c)) \<le> length (take (cap - 1) c)"
    unfolding c_string_def by (rule length_takeWhile_le)
  ultimately have "length txt \<le> cap - 1" by simp
  then show False using assms by arith
qed

end

interpretation st: text_store "\<lambda>p t. storage_write_text (Some p) (Some t)" "\<lambda>p. storage_read_text (Some p)" stored_text
proof unfold_locales
  fix p t and s s' :: "'a storage_sys_scheme" and cap
  assume "storage_read_text (Some p) cap s = ((True, t), s')"
  then show "\<exists>c. stored_text s p = Some c \<and> t = c_string (take (cap - 1) c)"
    using storage_read_ok by blast
qed simp

section \<open>The directory tree\<close>

lemma ensure_dir_path_sel [simp]:
  "sto (snd (hosted_ensure_dir_path p s)) = sto s" "aud (snd (hosted_ensure_dir_path p s)) = aud s"
  "h_db (snd (hosted_ensure_dir_path p s)) = h_db s" "h_out (snd (hosted_ensure_dir_path p s)) = h_out s"
  "h_tick (snd (hosted_ensure_dir_path p s)) = h_tick s" "h_stdin (snd (hosted_ensure_dir_path p s)) = h_stdin s"
  "h_read_only (snd (hosted_ensure_dir_path p s)) = h_read_only s"
  by (simp_all add: hosted_ensure_dir_path_def Let_def)

lemma ensure_directory_sel [simp]:
  "aud (snd (storage_ensure_directory p s)) = aud s" "h_db (snd (storage_ensure_directory p s)) = h_db s"
  "h_out (snd (storage_ensure_directory p s)) = h_out s"
  "st_initialized (sto (snd (storage_ensure_directory p s))) = st_initialized (sto s)"
  "st_writable (sto (snd (storage_ensure_directory p s))) = st_writable (sto s)"
  "h_read_only (snd (storage_ensure_directory p s)) = h_read_only s"
  "h_tick (snd (storage_ensure_directory p s)) = h_tick s" "h_stdin (snd (storage_ensure_directory p s)) = h_stdin s"
  by (simp_all add: storage_ensure_directory_def Let_def case_prod_beta storage_set_error_def [symmetric])
    (simp_all add: storage_set_error_def)

lemma repair_loop_sel [simp]:
  "aud (snd (repair_loop ds s)) = aud s" "h_db (snd (repair_loop ds s)) = h_db s"
  "h_out (snd (repair_loop ds s)) = h_out s"
  "st_initialized (sto (snd (repair_loop ds s))) = st_initialized (sto s)"
  "st_writable (sto (snd (repair_loop ds s))) = st_writable (sto s)"
  "h_tick (snd (repair_loop ds s)) = h_tick s" "h_stdin (snd (repair_loop ds s)) = h_stdin s"
  by (induction ds arbitrary: s) (simp_all add: Let_def case_prod_beta)

lemma tree_repair_sel [simp]:
  "aud (snd (storage_tree_repair s)) = aud s" "h_db (snd (storage_tree_repair s)) = h_db s"
  "h_out (snd (storage_tree_repair s)) = h_out s"
  "st_initialized (sto (snd (storage_tree_repair s))) = st_initialized (sto s)"
  "st_writable (sto (snd (storage_tree_repair s))) = st_writable (sto s)"
  "h_tick (snd (storage_tree_repair s)) = h_tick s" "h_stdin (snd (storage_tree_repair s)) = h_stdin s"
  by (simp_all add: storage_tree_repair_def)

lemma expected_dirs_allowed: "list_all (\<lambda>d. path_allowed (Some d)) g_storage_expected_dirs"
  by code_simp

text \<open>
  Making a directory succeeds as a call whenever the path is accepted, even if \<open>mkdir\<close> does not: its
  result is ignored, so \<open>storage_tree_repair\<close> reports success even when no directory could be made.
\<close>

lemma repair_loop_ok: "list_all (\<lambda>d. path_allowed (Some d)) ds \<Longrightarrow> fst (repair_loop ds s)"
  by (induction ds arbitrary: s)
    (auto simp: storage_ensure_directory_def hosted_ensure_dir_path_def Let_def case_prod_beta)

lemma tree_repair_always_ok: "fst (storage_tree_repair s)"
  unfolding storage_tree_repair_def by (rule repair_loop_ok [OF expected_dirs_allowed])

definition demo_storage :: storage_sys where
  "demo_storage = snd (storage_init None (audit_sys.extend demo_audit (storage_sys.fields zero_storage)))"

lemma demo_storage_fs: "map_of (h_fs demo_storage) [''schema''] = Some FDir"
  by code_simp

section \<open>Properties\<close>

text \<open>
  C13. Accepted paths. A path is accepted exactly when it is \<open>/vita\<close> or starts with \<open>/vita/\<close>, has no
  colon, no two dots in a row and no control character; what an accepted path is mapped to lies at
  or below \<open>build/storage/vita\<close>, also when the 256-character array cuts it.
\<close>

theorem storage_path_confinement:
  "(path_allowed (Some p) \<longleftrightarrow>
     (p = ''/vita'' \<or> prefix ''/vita/'' p) \<and>
     (\<forall>c. c \<in> set p \<longrightarrow> c \<noteq> CHR '':'' \<and> 32 \<le> uchar c) \<and> \<not> sublist ''..'' p) \<and>
   (\<forall>hp. hosted_map_path p 256 = Some hp \<longrightarrow> prefix vita_root (path_comps hp))"
  using host_path_comps [of p] by (auto simp: path_allowed_iff hosted_map_path_eq prefix_def)

lemma storage_path_confinement_witness:
  "prefix vita_root (path_comps ''build/storage/vita/notes/a.txt'')"
  using storage_path_confinement [of "''/vita/notes/a.txt''"]
  by (simp add: hosted_map_path_eq path_allowed_iff hosted_host_path_eq prefix_def sublist_code)

text \<open>
  C12. Confinement of writes. Whatever path and text the caller passes, a write leaves every file and
  directory outside the tree as it was, and every existing entry of the tree but the file it names;
  when the storage is not ready or the path is refused it touches no file at all and fails.
\<close>

theorem storage_write_confined:
  fixes s :: "'a storage_sys_scheme" and path "txt" :: cstr
  defines "s' \<equiv> snd (storage_write_text path txt s)"
  shows "(\<not> prefix k vita_root \<and> \<not> prefix vita_root k \<longrightarrow> fs_lookup s' k = fs_lookup s k) \<and>
    (fs_lookup s k \<noteq> None \<and> fs_lookup s' k \<noteq> fs_lookup s k \<longrightarrow>
       (\<exists>p. path = Some p \<and> path_allowed path \<and> k = path_comps (hosted_host_path 256 p))) \<and>
    (\<not> (storage_is_ready s \<and> path_allowed path) \<longrightarrow>
       \<not> fst (storage_write_text path txt s) \<and> h_fs s' = h_fs s)"
proof (cases "storage_is_ready s \<and> path_allowed path")
  case False
  then show ?thesis using storage_write_refused [of s path "txt"]
    by (auto simp: s'_def storage_is_ready_def)
next
  case True
  then obtain p where p: "path = Some p" "path_allowed (Some p)" by (cases path) auto
  have w: "s' = snd (hosted_write_text p (case txt of None \<Rightarrow> [] | Some t \<Rightarrow> t) s)"
    using True p by (simp add: s'_def storage_write_text_def storage_is_ready_def)
  show ?thesis
    using hosted_write_elsewhere [OF p(2)] hosted_write_keeps_others [OF p(2)] p True
    by (auto simp: w outside_tree_def) blast
qed

lemma storage_write_confined_witness:
  "fs_lookup (snd (storage_write_text (Some ''/vita/a'') None demo_storage)) [''schema''] = Some FDir \<and>
   \<not> fst (storage_write_text (Some ''/etc/passwd'') (Some ''x'') demo_storage)"
  using storage_write_confined [of "[''schema'']" "Some ''/vita/a''" None demo_storage]
    storage_write_confined [of "[''schema'']" "Some ''/etc/passwd''" "Some ''x''" demo_storage]
  by (simp add: path_allowed_iff fs_lookup_def [of demo_storage] demo_storage_fs)

text \<open>
  C14. Round trip. A write that reports success on a host that keeps the bytes it accepts can be read
  back: the reader gets the text up to its first NUL, cut to one character less than its buffer.
\<close>

theorem storage_write_read_back:
  assumes "storage_write_text (Some p) (Some t) s = (True, s')"
    and "h_survived s (h_tick s) = None" "\<not> h_unreadable s (path_comps (hosted_host_path 256 p))" "0 < cap"
  shows "storage_read_text (Some p) cap s' =
           ((True, c_string (take (cap - 1) t)), storage_set_error ''ok'' s')"
proof -
  have ok: "st_initialized (sto s)" "st_writable (sto s)" "path_allowed (Some p)" "hosted_write_text p t s = (True, s')"
    using assms(1) by (auto simp: storage_write_text_def split: if_splits)
  have "stored_text s' p = Some t \<and> st_initialized (sto s')"
  proof (rule hosted_write_cases [OF ok(3), of t s])
    assume "hosted_write_text p t s = (False, storage_set_error ''hosted fopen failed'' (hosted_ensure_parent_dirs (hosted_host_path 256 p) s))"
    then show ?thesis using ok(4) by simp
  next
    fix b err kept s2
    assume *: "hosted_write_text p t s = (b, storage_set_error err s2)"
      "\<forall>k. fs_lookup s2 k = (if k = path_comps (hosted_host_path 256 p) then Some (FFile kept)
         else fs_lookup (hosted_ensure_parent_dirs (hosted_host_path 256 p) s) k)"
      "sto s2 = sto s" "h_unreadable s2 = h_unreadable s" "\<not> names_dir (hosted_host_path 256 p)"
      "b \<Longrightarrow> err = ''ok'' \<and> kept = limited (h_survived s (h_tick s)) t"
    then have "kept = t" "s' = storage_set_error err s2" using ok(4) assms(2) by (auto simp: limited_def)
    then show ?thesis using * ok(1,3) assms(3) by (simp add: stored_text_def fopen_rb_def Let_def)
  qed
  then show ?thesis using ok(3) assms(4) by (simp add: storage_read_text_eq)
qed

lemma storage_write_read_back_witness:
  "fst (storage_read_text (Some ''/vita/notes/a.txt'') 4
      (snd (storage_write_text (Some ''/vita/notes/a.txt'') (Some ''hello'') demo_storage))) = (True, ''hel'')"
proof -
  let ?w = "storage_write_text (Some ''/vita/notes/a.txt'') (Some ''hello'') demo_storage"
  have ok: "?w = (True, snd ?w)"
    by (rule prod_eqI) (code_simp, simp)
  have "h_survived demo_storage (h_tick demo_storage) = None"
    "\<not> h_unreadable demo_storage (path_comps (hosted_host_path 256 ''/vita/notes/a.txt''))"
    by code_simp+
  from storage_write_read_back [OF ok this, of 4] show ?thesis by (simp add: c_string_def)
qed

end
