(* ===== verification/Journal.thy ===== *)
theory Journal
  imports Storage
begin

text \<open>
  The session journal (kernel/session_journal.c): sanitising and redacting what is recorded, the two
  8192-character buffers, the records, and the verified flush. \<open>g_journal\<close> is the field \<open>jrn\<close>.
  A buffer and its length counter move together, so the model keeps the buffer as the string it
  holds. The functions that print follow in JournalCmd, above the console.
\<close>

definition SESSION_JOURNAL_JSONL_PATH :: string where
  "SESSION_JOURNAL_JSONL_PATH = ''/vita/audit/session-journal.jsonl''"
definition SESSION_JOURNAL_TEXT_PATH :: string where
  "SESSION_JOURNAL_TEXT_PATH = ''/vita/audit/session-journal.txt''"
definition SESSION_JOURNAL_BUFFER_MAX :: nat where "SESSION_JOURNAL_BUFFER_MAX = 8192"
definition SESSION_JOURNAL_EVENT_TEXT_MAX :: nat where "SESSION_JOURNAL_EVENT_TEXT_MAX = 160"

record session_journal_state =
  jr_initialized :: bool
  jr_active :: bool
  jr_truncated :: bool
  jr_last_flush_ok :: bool
  jr_seq :: u32
  jr_jsonl :: string
  jr_text :: string
  jr_last_error :: string

record journal_sys = storage_sys + jrn :: session_journal_state

definition zero_journal :: session_journal_state where
  "zero_journal = \<lparr>jr_initialized = False, jr_active = False, jr_truncated = False,
     jr_last_flush_ok = False, jr_seq = 0, jr_jsonl = [], jr_text = [], jr_last_error = []\<rparr>"

definition upd_jrn ::
  "(session_journal_state \<Rightarrow> session_journal_state) \<Rightarrow> 'a journal_sys_scheme \<Rightarrow> 'a journal_sys_scheme" where
  "upd_jrn f s = s\<lparr>jrn := f (jrn s)\<rparr>"

definition journal_set_error :: "string \<Rightarrow> session_journal_state \<Rightarrow> session_journal_state" where
  "journal_set_error txt j = j\<lparr>jr_last_error := copy_text 128 txt\<rparr>"

section \<open>Buffers\<close>

text \<open>The buffer after the call and whether it was cut.\<close>

fun append_to_buffer :: "nat \<Rightarrow> string \<Rightarrow> string \<Rightarrow> string \<times> bool" where
  "append_to_buffer cap buf [] = (buf, False)"
| "append_to_buffer cap buf (c # cs) =
     (if length buf + 1 \<ge> cap then (buf, True) else append_to_buffer cap (buf @ [c]) cs)"

definition append_jsonl :: "string \<Rightarrow> session_journal_state \<Rightarrow> session_journal_state" where
  "append_jsonl t j =
     (let (b, cut) = append_to_buffer SESSION_JOURNAL_BUFFER_MAX (jr_jsonl j) t
      in j\<lparr>jr_jsonl := b, jr_truncated := jr_truncated j \<or> cut\<rparr>)"

definition append_jtext :: "string \<Rightarrow> session_journal_state \<Rightarrow> session_journal_state" where
  "append_jtext t j =
     (let (b, cut) = append_to_buffer SESSION_JOURNAL_BUFFER_MAX (jr_text j) t
      in j\<lparr>jr_text := b, jr_truncated := jr_truncated j \<or> cut\<rparr>)"

definition append_text_line :: "string \<Rightarrow> session_journal_state \<Rightarrow> session_journal_state" where
  "append_text_line t j = append_jtext [LF] (append_jtext t j)"

section \<open>Redaction\<close>

definition looks_sensitive :: "cstr \<Rightarrow> bool" where
  "looks_sensitive text =
     (case text of None \<Rightarrow> False
      | Some t \<Rightarrow>
          contains_token t ''password'' \<or> contains_token t ''passwd'' \<or> contains_token t ''token'' \<or>
          contains_token t ''secret'' \<or> contains_token t ''api_key'' \<or> contains_token t ''apikey'' \<or>
          contains_token t ''key='' \<or> contains_token t ''clave'' \<or> contains_token t ''contrasena'')"

definition sanitize_char :: "char \<Rightarrow> char" where
  "sanitize_char c =
     (if c = CR \<or> c = LF \<or> c = TAB then CHR '' ''
      else if 32 \<le> uchar c \<and> uchar c < 127 then c
      else CHR ''?'')"

fun sanitize_loop :: "nat \<Rightarrow> nat \<Rightarrow> string \<Rightarrow> string" where
  "sanitize_loop dst_cap j [] = []"
| "sanitize_loop dst_cap j (c # cs) =
     (if j + 1 < dst_cap then sanitize_char c # sanitize_loop dst_cap (j + 1) cs else [])"

text \<open>The new contents of \<open>dst\<close> and of \<open>*redacted\<close>.\<close>

definition sanitize_text :: "nat \<Rightarrow> cstr \<Rightarrow> string \<times> bool" where
  "sanitize_text dst_cap src =
     (if dst_cap = 0 then ([], False)
      else case src of None \<Rightarrow> ([], False)
      | Some t \<Rightarrow>
          if looks_sensitive src then (copy_text dst_cap ''[redacted sensitive command]'', True)
          else (sanitize_loop dst_cap 0 t, False))"

section \<open>Records\<close>

definition json_escape_char :: "char \<Rightarrow> string" where
  "json_escape_char c =
     (if c = DQ then [BSL, DQ]
      else if c = BSL then [BSL, BSL]
      else if c = LF \<or> c = CR then '' ''
      else if uchar c < 32 then ''?''
      else [c])"

fun append_json_escaped :: "string \<Rightarrow> session_journal_state \<Rightarrow> session_journal_state" where
  "append_json_escaped [] j = j"
| "append_json_escaped (c # cs) j = append_json_escaped cs (append_jsonl (json_escape_char c) j)"

definition append_json_record :: "string \<Rightarrow> string \<Rightarrow> bool \<Rightarrow> session_journal_state \<Rightarrow> session_journal_state" where
  "append_json_record type summary redacted j =
     (let seq = u32_to_dec (jr_seq j);
          j1 = append_jsonl (''{'' @ [DQ] @ ''seq'' @ [DQ] @ '':'') j;
          j2 = append_jsonl seq j1;
          j3 = append_jsonl ('','' @ [DQ] @ ''type'' @ [DQ] @ '':'' @ [DQ]) j2;
          j4 = append_json_escaped type j3;
          j5 = append_jsonl ([DQ] @ '','' @ [DQ] @ ''summary'' @ [DQ] @ '':'' @ [DQ]) j4;
          j6 = append_json_escaped summary j5;
          j7 = append_jsonl ([DQ] @ '','' @ [DQ] @ ''redacted'' @ [DQ] @ '':'') j6;
          j8 = append_jsonl (if redacted then ''true'' else ''false'') j7
      in append_jsonl (''}'' @ [LF]) j8)"

text \<open>Appending to the 224-character line also raises \<open>g_journal.truncated\<close> when it is cut.\<close>

definition line_append :: "string \<Rightarrow> string \<times> bool \<Rightarrow> string \<times> bool" where
  "line_append t l = (let (b, cut) = append_to_buffer 224 (fst l) t in (b, snd l \<or> cut))"

definition append_text_record :: "string \<Rightarrow> string \<Rightarrow> bool \<Rightarrow> session_journal_state \<Rightarrow> session_journal_state" where
  "append_text_record type summary redacted j =
     (let seq = u32_to_dec (jr_seq j);
          l1 = line_append seq (copy_text 224 ''#'', False);
          l2 = line_append '' '' l1;
          l3 = line_append type l2;
          l4 = line_append '': '' l3;
          l5 = line_append summary l4;
          l6 = (if redacted then line_append '' [redacted]'' l5 else l5)
      in append_text_line (fst l6) (j\<lparr>jr_truncated := jr_truncated j \<or> snd l6\<rparr>))"

section \<open>Flush\<close>

definition session_journal_flush :: "'a journal_sys_scheme \<Rightarrow> bool \<times> 'a journal_sys_scheme" where
  "session_journal_flush s =
     (if \<not> jr_initialized (jrn s) \<or> \<not> jr_active (jrn s)
      then (False, upd_jrn (journal_set_error ''journal inactive'') s)
      else
        let (ok_jsonl, s1) = storage_write_text (Some SESSION_JOURNAL_JSONL_PATH) (Some (jr_jsonl (jrn s))) s;
            (ok_text, s2) = storage_write_text (Some SESSION_JOURNAL_TEXT_PATH) (Some (jr_text (jrn s1))) s1;
            (same, s3) =
              (if \<not> (ok_jsonl \<and> ok_text) then (False, s2)
               else let ((r1, back1), sa) = storage_read_text (Some SESSION_JOURNAL_JSONL_PATH) VITA_STORAGE_READ_MAX s2
                    in if \<not> r1 then (False, sa)
                       else let ((r2, back2), sb) = storage_read_text (Some SESSION_JOURNAL_TEXT_PATH) VITA_STORAGE_READ_MAX sa
                            in (r2 \<and> eqs back1 (jr_jsonl (jrn sb)) \<and> eqs back2 (jr_text (jrn sb)), sb))
        in if same then (True, upd_jrn (\<lambda>j. journal_set_error ''ok'' (j\<lparr>jr_last_flush_ok := True\<rparr>)) s3)
           else let st = storage_get_status s3
                in (False, upd_jrn (\<lambda>j. journal_set_error
                      (if st_last_error st \<noteq> [] then st_last_error st else ''storage write failed'')
                      (j\<lparr>jr_last_flush_ok := False\<rparr>)) s3))"

definition journal_add_event :: "string \<Rightarrow> cstr \<Rightarrow> bool \<Rightarrow> 'a journal_sys_scheme \<Rightarrow> 'a journal_sys_scheme" where
  "journal_add_event type summary redact_check s =
     (if \<not> jr_initialized (jrn s) \<or> \<not> jr_active (jrn s) then s
      else
        let (safe, red) = sanitize_text SESSION_JOURNAL_EVENT_TEXT_MAX summary;
            redacted = (if \<not> redact_check then False else red);
            s1 = upd_jrn (\<lambda>j. j\<lparr>jr_seq := jr_seq j + 1\<rparr>) s;
            s2 = upd_jrn (append_json_record type safe redacted) s1;
            s3 = upd_jrn (append_text_record type safe redacted) s2;
            s4 = (if jr_truncated (jrn s3)
                  then upd_jrn (journal_set_error ''journal buffer truncated'') s3 else s3)
        in snd (session_journal_flush s4))"

definition session_journal_is_active :: "'a journal_sys_scheme \<Rightarrow> bool" where
  "session_journal_is_active s = (jr_initialized (jrn s) \<and> jr_active (jrn s))"

definition session_journal_log_command :: "cstr \<Rightarrow> 'a journal_sys_scheme \<Rightarrow> 'a journal_sys_scheme" where
  "session_journal_log_command command s =
     journal_add_event ''user_command'' (Some (case command of None \<Rightarrow> [] | Some c \<Rightarrow> c)) True s"

definition session_journal_log_system :: "cstr \<Rightarrow> cstr \<Rightarrow> 'a journal_sys_scheme \<Rightarrow> 'a journal_sys_scheme" where
  "session_journal_log_system event_type summary s =
     journal_add_event (case event_type of None \<Rightarrow> ''system_response'' | Some t \<Rightarrow> t)
       (Some (case summary of None \<Rightarrow> [] | Some t \<Rightarrow> t)) True s"

section \<open>The buffers\<close>

lemma append_to_buffer_eq:
  "length buf < cap \<Longrightarrow>
     append_to_buffer cap buf t = (buf @ take (cap - 1 - length buf) t, cap \<le> length buf + length t)"
proof (induction cap buf t rule: append_to_buffer.induct)
  case (1 cap buf)
  then show ?case by simp
next
  case (2 cap buf c cs)
  show ?case
  proof (cases "length buf + 1 \<ge> cap")
    case True
    then show ?thesis using 2(2) by simp
  next
    case False
    then have "cap - 1 - length buf = Suc (cap - 1 - length (buf @ [c]))" by simp
    then show ?thesis using 2 False by simp
  qed
qed

interpretation jb: bounded_append "\<lambda>b t. fst (append_to_buffer cap b t)" cap
  by unfold_locales (simp add: append_to_buffer_eq)

definition journal_ok :: "session_journal_state \<Rightarrow> bool" where
  "journal_ok j \<longleftrightarrow> length (jr_jsonl j) < 8192 \<and> length (jr_text j) < 8192"

lemma append_jsonl_eq:
  "journal_ok j \<Longrightarrow> append_jsonl t j =
     j\<lparr>jr_jsonl := jr_jsonl j @ take (8191 - length (jr_jsonl j)) t,
       jr_truncated := jr_truncated j \<or> 8192 \<le> length (jr_jsonl j) + length t\<rparr>"
  by (simp add: append_jsonl_def append_to_buffer_eq SESSION_JOURNAL_BUFFER_MAX_def journal_ok_def)

lemma append_jtext_eq:
  "journal_ok j \<Longrightarrow> append_jtext t j =
     j\<lparr>jr_text := jr_text j @ take (8191 - length (jr_text j)) t,
       jr_truncated := jr_truncated j \<or> 8192 \<le> length (jr_text j) + length t\<rparr>"
  by (simp add: append_jtext_def append_to_buffer_eq SESSION_JOURNAL_BUFFER_MAX_def journal_ok_def)

lemma append_jsonl_ok: "journal_ok j \<Longrightarrow> journal_ok (append_jsonl t j)"
  by (auto simp: append_jsonl_eq) (auto simp: journal_ok_def)

lemma append_jtext_ok: "journal_ok j \<Longrightarrow> journal_ok (append_jtext t j)"
  by (auto simp: append_jtext_eq) (auto simp: journal_ok_def)

lemma append_text_line_ok: "journal_ok j \<Longrightarrow> journal_ok (append_text_line t j)"
  by (simp add: append_text_line_def append_jtext_ok)

lemma append_json_escaped_ok: "journal_ok j \<Longrightarrow> journal_ok (append_json_escaped t j)"
  by (induction t j rule: append_json_escaped.induct) (auto intro: append_jsonl_ok)

lemma append_json_record_ok: "journal_ok j \<Longrightarrow> journal_ok (append_json_record t m r j)"
  by (simp add: append_json_record_def Let_def append_jsonl_ok append_json_escaped_ok)

lemma append_text_record_ok: "journal_ok j \<Longrightarrow> journal_ok (append_text_record t m r j)"
  unfolding append_text_record_def Let_def
  by (rule append_text_line_ok) (simp add: journal_ok_def)

text \<open>Two appends in a row are one append of the two texts, also at the edge of the buffer.\<close>

lemma append_jsonl_append: "journal_ok j \<Longrightarrow> append_jsonl u (append_jsonl t j) = append_jsonl (t @ u) j"
proof -
  assume ok: "journal_ok j"
  let ?n = "8191 - length (jr_jsonl j)"
  have "take (8191 - (length (jr_jsonl j) + min (length t) ?n)) u = take (?n - length t) u"
    by (simp add: min_def)
  moreover have "8192 \<le> length (jr_jsonl j) + length t \<or> 8192 \<le> length (jr_jsonl j) + min (length t) ?n + length u
     \<longleftrightarrow> 8192 \<le> length (jr_jsonl j) + (length t + length u)"
    using ok by (auto simp: journal_ok_def min_def)
  ultimately show ?thesis using ok append_jsonl_ok [OF ok, of t]
    by (simp add: append_jsonl_eq journal_ok_def disj_assoc)
qed

lemma append_json_escaped_eq:
  "journal_ok j \<Longrightarrow> append_json_escaped t j = append_jsonl (concat (map json_escape_char t)) j"
proof (induction t j rule: append_json_escaped.induct)
  case (1 j)
  then show ?case by (simp add: append_jsonl_def)
next
  case (2 c cs j)
  then show ?case by (simp add: append_jsonl_ok append_jsonl_append)
qed

definition json_record :: "u32 \<Rightarrow> string \<Rightarrow> string \<Rightarrow> bool \<Rightarrow> string" where
  "json_record seq type summary redacted =
     ''{'' @ [DQ] @ ''seq'' @ [DQ] @ '':'' @ u32_to_dec seq @ '','' @ [DQ] @ ''type'' @ [DQ] @ '':'' @ [DQ] @
     concat (map json_escape_char type) @ [DQ] @ '','' @ [DQ] @ ''summary'' @ [DQ] @ '':'' @ [DQ] @
     concat (map json_escape_char summary) @ [DQ] @ '','' @ [DQ] @ ''redacted'' @ [DQ] @ '':'' @
     (if redacted then ''true'' else ''false'') @ ''}'' @ [LF]"

lemma append_json_record_eq:
  "journal_ok j \<Longrightarrow> append_json_record t m r j = append_jsonl (json_record (jr_seq j) t m r) j"
  by (simp add: append_json_record_def Let_def append_json_escaped_eq append_jsonl_ok append_jsonl_append
      json_record_def)

section \<open>What sanitising leaves\<close>

lemma sanitize_loop_eq: "sanitize_loop cap j t = map sanitize_char (take (cap - 1 - j) t)"
proof (induction cap j t rule: sanitize_loop.induct)
  case (1 cap j)
  then show ?case by simp
next
  case (2 cap j c cs)
  show ?case
  proof (cases "j + 1 < cap")
    case True
    then have "cap - 1 - j = Suc (cap - 1 - (j + 1))" by simp
    then show ?thesis using 2 True by simp
  next
    case False
    then show ?thesis by simp
  qed
qed

lemma sanitize_char_printable: "32 \<le> uchar (sanitize_char c) \<and> uchar (sanitize_char c) < 127"
  by (simp add: sanitize_char_def)

lemma sanitize_char_id: "32 \<le> uchar c \<Longrightarrow> uchar c < 127 \<Longrightarrow> sanitize_char c = c"
  by (auto simp: sanitize_char_def)

lemma sanitize_text_cases:
  "sanitize_text 160 (Some t) =
     (if looks_sensitive (Some t) then (''[redacted sensitive command]'', True)
      else (map sanitize_char (take 159 t), False))"
  by (simp add: sanitize_text_def sanitize_loop_eq str_copy_fits)

lemma sanitize_text_printable:
  "c \<in> set (fst (sanitize_text 160 (Some t))) \<Longrightarrow> 32 \<le> uchar c \<and> uchar c < 127"
  by (auto simp: sanitize_text_cases sanitize_char_printable split: if_splits)

lemma sanitize_text_length: "length (fst (sanitize_text 160 (Some t))) \<le> 159"
  by (simp add: sanitize_text_cases)

text \<open>Reading a JSON string literal back: the text up to the closing quote, and what follows it.\<close>

fun json_unescape :: "string \<Rightarrow> (string \<times> string) option" where
  "json_unescape [] = None"
| "json_unescape (c # cs) =
     (if c = DQ then Some ([], cs)
      else if c = BSL then
        (case cs of [] \<Rightarrow> None
         | d # ds \<Rightarrow> (case json_unescape ds of None \<Rightarrow> None | Some (t, r) \<Rightarrow> Some (d # t, r)))
      else (case json_unescape cs of None \<Rightarrow> None | Some (t, r) \<Rightarrow> Some (c # t, r)))"

lemma json_unescape_escaped:
  "(\<And>c. c \<in> set t \<Longrightarrow> 32 \<le> uchar c) \<Longrightarrow>
   json_unescape (concat (map json_escape_char t) @ DQ # rest) = Some (t, rest)"
proof (induction t)
  case Nil
  then show ?case by simp
next
  case (Cons c cs)
  have "c \<noteq> LF" "c \<noteq> CR" "\<not> uchar c < 32" using Cons.prems [of c] by auto
  then show ?case using Cons by (auto simp: json_escape_char_def)
qed

section \<open>Flush\<close>

lemma jrn_host [simp]:
  "jrn (fs_put k n s) = jrn s" "jrn (ticked s) = jrn s" "jrn (storage_set_error e s) = jrn s"
  "jrn (snd (mkdir p s)) = jrn s" "jrn (upd_jrn f s) = f (jrn s)"
  by (simp_all add: fs_put_def ticked_def storage_set_error_def mkdir_def upd_jrn_def Let_def)

lemma jrn_parent_dirs [simp]: "jrn (parent_dirs_loop d cs s) = jrn s"
  by (induction cs arbitrary: d s) simp_all

lemma jrn_storage [simp]:
  "jrn (snd (storage_write_text p t s)) = jrn s" "jrn (snd (storage_read_text p cap s)) = jrn s"
  by (simp_all add: storage_write_text_def hosted_write_text_def hosted_ensure_parent_dirs_def fopen_wb_def
      fwrite_close_def storage_read_text_def hosted_read_text_def Let_def case_prod_beta split: option.splits)

lemma upd_jrn_sel [simp]:
  "sto (upd_jrn f s) = sto s" "aud (upd_jrn f s) = aud s" "h_fs (upd_jrn f s) = h_fs s"
  "h_out (upd_jrn f s) = h_out s" "h_unreadable (upd_jrn f s) = h_unreadable s"
  "h_db (upd_jrn f s) = h_db s" "h_tick (upd_jrn f s) = h_tick s"
  by (simp_all add: upd_jrn_def)

lemma stored_text_upd_jrn [simp]: "stored_text (upd_jrn f s) p = stored_text s p"
  by (simp add: stored_text_def fopen_rb_def fs_lookup_def Let_def)

lemma flush_keeps:
  "jr_jsonl (jrn (snd (session_journal_flush s))) = jr_jsonl (jrn s)"
  "jr_text (jrn (snd (session_journal_flush s))) = jr_text (jrn s)"
  "jr_seq (jrn (snd (session_journal_flush s))) = jr_seq (jrn s)"
  "jr_active (jrn (snd (session_journal_flush s))) = jr_active (jrn s)"
  "jr_initialized (jrn (snd (session_journal_flush s))) = jr_initialized (jrn s)"
  "jr_truncated (jrn (snd (session_journal_flush s))) = jr_truncated (jrn s)"
  by (simp_all add: session_journal_flush_def Let_def case_prod_beta journal_set_error_def)

lemma flush_keeps_others [simp]:
  "st_initialized (sto (snd (session_journal_flush s))) = st_initialized (sto s)"
  "st_writable (sto (snd (session_journal_flush s))) = st_writable (sto s)"
  "aud (snd (session_journal_flush s)) = aud s" "h_out (snd (session_journal_flush s)) = h_out s"
  "h_db (snd (session_journal_flush s)) = h_db s"
  by (simp_all add: session_journal_flush_def Let_def case_prod_beta)

lemma flush_ok_steps:
  assumes "session_journal_flush s = (True, s')"
  obtains s1 s2 c1 c2 where
    "storage_write_text (Some SESSION_JOURNAL_JSONL_PATH) (Some (jr_jsonl (jrn s))) s = (True, s1)"
    "storage_write_text (Some SESSION_JOURNAL_TEXT_PATH) (Some (jr_text (jrn s))) s1 = (True, s2)"
    "stored_text s' SESSION_JOURNAL_JSONL_PATH = Some c1" "c_string (take 2047 c1) = jr_jsonl (jrn s)"
    "stored_text s' SESSION_JOURNAL_TEXT_PATH = Some c2" "c_string (take 2047 c2) = jr_text (jrn s)"
    "jr_initialized (jrn s)" "jr_active (jrn s)" "jr_last_flush_ok (jrn s')"
proof -
  obtain ok1 s1 where w1: "storage_write_text (Some SESSION_JOURNAL_JSONL_PATH) (Some (jr_jsonl (jrn s))) s = (ok1, s1)"
    by fastforce
  obtain ok2 s2 where w2: "storage_write_text (Some SESSION_JOURNAL_TEXT_PATH) (Some (jr_text (jrn s))) s1 = (ok2, s2)"
    by fastforce
  obtain r1 b1 sa where rd1: "storage_read_text (Some SESSION_JOURNAL_JSONL_PATH) 2048 s2 = ((r1, b1), sa)"
    by (metis surj_pair)
  obtain r2 b2 sb where rd2: "storage_read_text (Some SESSION_JOURNAL_TEXT_PATH) 2048 sa = ((r2, b2), sb)"
    by (metis surj_pair)
  have j: "jrn s1 = jrn s" "jrn s2 = jrn s" "jrn sa = jrn s" "jrn sb = jrn s"
    using jrn_storage(1) [of "Some SESSION_JOURNAL_JSONL_PATH" "Some (jr_jsonl (jrn s))" s]
      jrn_storage(1) [of "Some SESSION_JOURNAL_TEXT_PATH" "Some (jr_text (jrn s))" s1]
      jrn_storage(2) [of "Some SESSION_JOURNAL_JSONL_PATH" 2048 s2]
      jrn_storage(2) [of "Some SESSION_JOURNAL_TEXT_PATH" 2048 sa] w1 w2 rd1 rd2 by simp_all
  have all: "jr_initialized (jrn s)" "jr_active (jrn s)" "ok1" "ok2" "r1" "r2"
      "b1 = jr_jsonl (jrn s)" "b2 = jr_text (jrn s)"
      "s' = upd_jrn (\<lambda>j. journal_set_error ''ok'' (j\<lparr>jr_last_flush_ok := True\<rparr>)) sb"
    using assms w1 w2 rd1 rd2 j
    by (auto simp: session_journal_flush_def VITA_STORAGE_READ_MAX_def Let_def split: if_splits)
  from storage_read_ok [OF rd1 [unfolded eqTrueI [OF all(5)]]] obtain c1 where
    c1: "stored_text s2 SESSION_JOURNAL_JSONL_PATH = Some c1" "b1 = c_string (take 2047 c1)" "sa = storage_set_error ''ok'' s2"
    by auto
  from storage_read_ok [OF rd2 [unfolded eqTrueI [OF all(6)]]] obtain c2 where
    c2: "stored_text sa SESSION_JOURNAL_TEXT_PATH = Some c2" "b2 = c_string (take 2047 c2)" "sb = storage_set_error ''ok'' sa"
    by auto
  show ?thesis
    by (rule that [of s1 s2 c1 c2]) (use w1 w2 all c1 c2 in \<open>simp_all add: journal_set_error_def\<close>)
qed

section \<open>Events\<close>

lemma add_event_active:
  fixes s :: "'a journal_sys_scheme" and ty t :: string and check :: bool
  assumes "jr_initialized (jrn s)" "jr_active (jrn s)" "journal_ok (jrn s)"
  defines "j \<equiv> jrn (journal_add_event ty (Some t) check s)"
  shows "jr_jsonl j = jr_jsonl (jrn s) @ take (8191 - length (jr_jsonl (jrn s)))
           (json_record (jr_seq (jrn s) + 1) ty (fst (sanitize_text 160 (Some t))) (check \<and> snd (sanitize_text 160 (Some t))))"
    and "jr_seq j = jr_seq (jrn s) + 1" and "journal_ok j"
    and "8192 \<le> length (jr_jsonl (jrn s)) + length (json_record (jr_seq (jrn s) + 1) ty
           (fst (sanitize_text 160 (Some t))) (check \<and> snd (sanitize_text 160 (Some t)))) \<Longrightarrow> jr_truncated j"
proof -
  let ?safe = "fst (sanitize_text 160 (Some t))" and ?red = "check \<and> snd (sanitize_text 160 (Some t))"
  let ?j0 = "(jrn s)\<lparr>jr_seq := jr_seq (jrn s) + 1\<rparr>"
  let ?j1 = "append_jsonl (json_record (jr_seq (jrn s) + 1) ty ?safe ?red) ?j0"
  have ok0: "journal_ok ?j0" using assms(3) by (simp add: journal_ok_def)
  have ok1: "journal_ok ?j1" by (rule append_jsonl_ok [OF ok0])
  have seq1: "jr_seq ?j1 = jr_seq (jrn s) + 1" by (simp add: append_jsonl_eq ok0)
  define j2 where "j2 = append_text_record ty ?safe ?red ?j1"
  have tl: "jr_jsonl (append_text_line l j) = jr_jsonl j" "jr_seq (append_text_line l j) = jr_seq j"
    "jr_truncated j \<Longrightarrow> jr_truncated (append_text_line l j)" for l j
    by (simp_all add: append_text_line_def append_jtext_def case_prod_beta)
  have j2: "jr_jsonl j2 = jr_jsonl ?j1" "jr_seq j2 = jr_seq ?j1" "journal_ok j2" "jr_truncated ?j1 \<Longrightarrow> jr_truncated j2"
    by (simp_all add: j2_def append_text_record_def Let_def tl append_text_line_ok ok1 journal_ok_def [of "_\<lparr>jr_truncated := _\<rparr>"]
        ok1 [unfolded journal_ok_def])
  define s3 where "s3 = upd_jrn (append_text_record ty ?safe ?red) (upd_jrn (append_json_record ty ?safe ?red)
      (upd_jrn (\<lambda>j. j\<lparr>jr_seq := jr_seq j + 1\<rparr>) s))"
  define s4 where "s4 = (if jr_truncated (jrn s3) then upd_jrn (journal_set_error ''journal buffer truncated'') s3 else s3)"
  have "jrn s3 = j2" by (simp add: s3_def j2_def append_json_record_eq ok0)
  then have s4: "jr_jsonl (jrn s4) = jr_jsonl j2" "jr_text (jrn s4) = jr_text j2" "jr_seq (jrn s4) = jr_seq j2"
      "jr_truncated (jrn s4) = jr_truncated j2"
    by (simp_all add: s4_def journal_set_error_def)
  have "(if \<not> check then False else snd (sanitize_text 160 (Some t))) = ?red" by simp
  then have "j = jrn (snd (session_journal_flush s4))"
    using assms(1,2)
    by (simp only: j_def journal_add_event_def SESSION_JOURNAL_EVENT_TEXT_MAX_def case_prod_beta Let_def
        s4_def s3_def if_False not_True_eq_False de_Morgan_conj simp_thms)
  then show "jr_jsonl j = jr_jsonl (jrn s) @ take (8191 - length (jr_jsonl (jrn s)))
           (json_record (jr_seq (jrn s) + 1) ty ?safe ?red)"
    "jr_seq j = jr_seq (jrn s) + 1" "journal_ok j"
    "8192 \<le> length (jr_jsonl (jrn s)) + length (json_record (jr_seq (jrn s) + 1) ty ?safe ?red) \<Longrightarrow> jr_truncated j"
    using j2 seq1 s4 by (auto simp: flush_keeps append_jsonl_eq [OF ok0] journal_ok_def)
qed

lemma add_event_inactive:
  "\<not> (jr_initialized (jrn s) \<and> jr_active (jrn s)) \<Longrightarrow> journal_add_event type t check s = s"
  by (simp add: journal_add_event_def)

definition demo_journal :: journal_sys where
  "demo_journal = storage_sys.extend demo_storage
     (journal_sys.fields (zero_journal\<lparr>jr_initialized := True, jr_active := True\<rparr>))"

section \<open>Properties\<close>

text \<open>The words, as they are spelled, that a text must contain to be taken for a secret.\<close>

definition sensitive_words :: "string list" where
  "sensitive_words = [''password'', ''passwd'', ''token'', ''secret'', ''api_key'', ''apikey'', ''key='', ''clave'', ''contrasena'']"

definition mentions_secret :: "string \<Rightarrow> bool" where
  "mentions_secret t = list_ex (\<lambda>w. sublist w t) sensitive_words"

lemma looks_sensitive_iff: "looks_sensitive (Some t) \<longleftrightarrow> mentions_secret t"
  by (simp add: looks_sensitive_def mentions_secret_def sensitive_words_def contains_token_sublist)

text \<open>
  C19. Redaction in the journal. A text that contains one of nine words - password, passwd, token, secret,
  api\_key, apikey, key=, clave, contrasena, in lower case and anywhere - is flagged as redacted, no other text is,
  and two texts that contain such a word leave exactly the same state, whether logged as a command or as a
  system event: from the buffers, the files and everything else a reader learns nothing of them but that they
  were there. This is no more than the nine words: a text with Password or with a bare key is recorded as it is. And
  it is about the journal's own calls: the session transcript keeps the same line word for word.
\<close>

theorem journal_redaction_noninterference:
  fixes s :: "'a journal_sys_scheme"
  assumes "mentions_secret a" "mentions_secret b"
  shows "session_journal_log_command (Some a) s = session_journal_log_command (Some b) s \<and>
         session_journal_log_system ty (Some a) s = session_journal_log_system ty (Some b) s \<and>
         (\<forall>t. snd (sanitize_text 160 (Some t)) \<longleftrightarrow> mentions_secret t) \<and>
         (\<forall>t. \<not> mentions_secret t \<longrightarrow> fst (sanitize_text 160 (Some t)) = map sanitize_char (take 159 t))"
proof -
  have "sanitize_text n (Some a) = sanitize_text n (Some b)" for n
    using assms by (simp add: sanitize_text_def looks_sensitive_iff)
  moreover have "sanitize_loop 160 j t = map sanitize_char (take (159 - j) t)" for j t
    by (induction t arbitrary: j) (auto simp: take_Cons' Suc_diff_le)
  from this [of 0] have "fst (sanitize_text 160 (Some t)) = map sanitize_char (take 159 t)" if "\<not> mentions_secret t" for t
    using that by (simp add: sanitize_text_def looks_sensitive_iff)
  ultimately show ?thesis
    by (simp add: session_journal_log_command_def session_journal_log_system_def journal_add_event_def)
      (simp add: sanitize_text_def looks_sensitive_iff)
qed

lemma journal_redaction_noninterference_witness:
  "session_journal_log_command (Some ''ai token abc'') demo_journal =
   session_journal_log_command (Some ''login password=x'') demo_journal \<and>
   fst (sanitize_text 160 (Some ''Password x'')) = ''Password x''"
proof -
  have "mentions_secret ''ai token abc''" "mentions_secret ''login password=x''" "\<not> mentions_secret ''Password x''"
    by (simp_all add: mentions_secret_def sensitive_words_def sublist_code)
  then show ?thesis
    using journal_redaction_noninterference [of "''ai token abc''" "''login password=x''" demo_journal]
    by (simp add: sanitize_char_def)
qed

text \<open>
  C20. Recording. An event on an active journal adds one record with the next sequence number (cut at
  the end of the 8192-character buffer, which then reports truncation), both buffers stay inside
  their arrays, and the summary in the record is printable ASCII of at most 159 characters that a
  JSON reader gets back exactly as it was recorded.
\<close>

theorem journal_event_recorded:
  fixes s :: "'a journal_sys_scheme" and ty t :: string
  assumes "jr_initialized (jrn s)" "jr_active (jrn s)" "journal_ok (jrn s)"
  defines "j \<equiv> jrn (session_journal_log_system (Some ty) (Some t) s)"
    and "safe \<equiv> fst (sanitize_text 160 (Some t))" and "red \<equiv> snd (sanitize_text 160 (Some t))"
  shows "jr_jsonl j = jr_jsonl (jrn s) @ take (8191 - length (jr_jsonl (jrn s))) (json_record (jr_seq (jrn s) + 1) ty safe red) \<and>
    (8192 \<le> length (jr_jsonl (jrn s)) + length (json_record (jr_seq (jrn s) + 1) ty safe red) \<longrightarrow> jr_truncated j) \<and>
    jr_seq j = jr_seq (jrn s) + 1 \<and> journal_ok j \<and>
    length safe \<le> 159 \<and> (\<forall>c\<in>set safe. 32 \<le> uchar c \<and> uchar c < 127) \<and>
    (\<exists>before after. json_record (jr_seq (jrn s) + 1) ty safe red = before @ DQ # after \<and>
       json_unescape after = Some (safe, ('','' @ [DQ] @ ''redacted'' @ [DQ] @ '':'' @ (if red then ''true'' else ''false'') @ ''}'' @ [LF])))"
proof -
  have pr: "\<forall>c\<in>set safe. 32 \<le> uchar c \<and> uchar c < 127"
    using sanitize_text_printable by (auto simp: safe_def)
  let ?pre = "''{'' @ [DQ] @ ''seq'' @ [DQ] @ '':'' @ u32_to_dec (jr_seq (jrn s) + 1) @ '','' @ [DQ] @ ''type'' @ [DQ] @ '':'' @ [DQ] @
     concat (map json_escape_char ty) @ [DQ] @ '','' @ [DQ] @ ''summary'' @ [DQ] @ '':''"
  let ?close = "'','' @ [DQ] @ ''redacted'' @ [DQ] @ '':'' @ (if red then ''true'' else ''false'') @ ''}'' @ [LF]"
  have "json_record (jr_seq (jrn s) + 1) ty safe red = ?pre @ DQ # (concat (map json_escape_char safe) @ DQ # ?close)"
    by (simp add: json_record_def)
  moreover have "json_unescape (concat (map json_escape_char safe) @ DQ # ?close) = Some (safe, ?close)"
    by (rule json_unescape_escaped) (use pr in blast)
  ultimately have ex: "\<exists>before after. json_record (jr_seq (jrn s) + 1) ty safe red = before @ DQ # after \<and>
      json_unescape after = Some (safe, ?close)" by blast
  have j: "j = jrn (journal_add_event ty (Some t) True s)"
    by (simp add: j_def session_journal_log_system_def)
  show ?thesis
    using add_event_active [OF assms(1-3), of ty t True] pr ex sanitize_text_length [of t]
    by (simp add: j safe_def red_def)
qed

lemma demo_journal_ready: "jr_initialized (jrn demo_journal)" "jr_active (jrn demo_journal)" "journal_ok (jrn demo_journal)"
  by (simp_all add: demo_journal_def storage_sys.defs journal_sys.defs zero_journal_def journal_ok_def)

lemma journal_event_recorded_witness:
  "jr_seq (jrn (session_journal_log_system (Some ''operator_note'') (Some ''hello'') demo_journal)) = 1"
  using journal_event_recorded [OF demo_journal_ready, of "''operator_note''" "''hello''"]
  by (simp add: demo_journal_def storage_sys.defs journal_sys.defs zero_journal_def)

text \<open>
  Verified flush. A flush that reports success means the host holds both logs: what a reader
  gets back through the 2048-character buffers is exactly the two buffers.
\<close>

theorem journal_flush_verified:
  assumes "session_journal_flush s = (True, s')"
  shows "\<exists>c1 c2. stored_text s' SESSION_JOURNAL_JSONL_PATH = Some c1 \<and> c_string (take 2047 c1) = jr_jsonl (jrn s) \<and>
    stored_text s' SESSION_JOURNAL_TEXT_PATH = Some c2 \<and> c_string (take 2047 c2) = jr_text (jrn s) \<and>
    jr_last_flush_ok (jrn s')"
  by (rule flush_ok_steps [OF assms]) blast

lemma demo_flush: "session_journal_flush demo_journal = (True, snd (session_journal_flush demo_journal))"
  by (rule prod_eqI) (code_simp, simp)

lemma journal_flush_verified_witness:
  "jr_last_flush_ok (jrn (snd (session_journal_flush demo_journal)))"
  using journal_flush_verified [OF demo_flush] by blast

text \<open>
  Flush limit. The buffers hold 8191 characters but are compared through arrays of 2048: once
  either log is longer than 2047 characters every flush reports failure, even when both files were
  written in full; the error then recorded is the storage's last one, \<open>ok\<close>.
\<close>

theorem journal_flush_fails_beyond_2047:
  assumes "2048 \<le> length (jr_jsonl (jrn s)) \<or> 2048 \<le> length (jr_text (jrn s))"
    and "jr_initialized (jrn s)" "jr_active (jrn s)"
    and "storage_write_text (Some SESSION_JOURNAL_JSONL_PATH) (Some (jr_jsonl (jrn s))) s = (True, s1)"
    and "storage_write_text (Some SESSION_JOURNAL_TEXT_PATH) (Some (jr_text (jrn s))) s1 = (True, s2)"
    and "stored_text s2 SESSION_JOURNAL_JSONL_PATH \<noteq> None" "stored_text s2 SESSION_JOURNAL_TEXT_PATH \<noteq> None"
  shows "\<not> fst (session_journal_flush s) \<and> jr_last_error (jrn (snd (session_journal_flush s))) = ''ok''"
proof -
  have short: "length (c_string (take 2047 c)) < 2048" for c
    unfolding c_string_def by (rule le_less_trans [OF length_takeWhile_le]) simp
  have nf: "\<not> fst (session_journal_flush s)"
  proof
    assume "fst (session_journal_flush s)"
    then have "session_journal_flush s = (True, snd (session_journal_flush s))" by (metis prod.collapse)
    then show False
      by (rule flush_ok_steps) (use assms(1) short in \<open>metis leD\<close>)
  qed
  have j: "jrn s1 = jrn s" "jrn s2 = jrn s"
    using jrn_storage(1) [of "Some SESSION_JOURNAL_JSONL_PATH" "Some (jr_jsonl (jrn s))" s]
      jrn_storage(1) [of "Some SESSION_JOURNAL_TEXT_PATH" "Some (jr_text (jrn s))" s1] assms(4,5) by simp_all
  obtain c1 c2 where c: "stored_text s2 SESSION_JOURNAL_JSONL_PATH = Some c1" "stored_text s2 SESSION_JOURNAL_TEXT_PATH = Some c2"
    using assms(6,7) by auto
  have init: "st_initialized (sto s2)" "path_allowed (Some SESSION_JOURNAL_JSONL_PATH)" "path_allowed (Some SESSION_JOURNAL_TEXT_PATH)"
    using assms(4,5) storage_write_sel(1) [of "Some SESSION_JOURNAL_JSONL_PATH" "Some (jr_jsonl (jrn s))" s]
      storage_write_sel(1) [of "Some SESSION_JOURNAL_TEXT_PATH" "Some (jr_text (jrn s))" s1]
    by (auto simp: storage_write_text_def split: if_splits)
  have r1: "storage_read_text (Some SESSION_JOURNAL_JSONL_PATH) 2048 s2 = ((True, c_string (take 2047 c1)), storage_set_error ''ok'' s2)"
    using init c by (simp add: storage_read_text_eq)
  have r2: "storage_read_text (Some SESSION_JOURNAL_TEXT_PATH) 2048 (storage_set_error ''ok'' s2) =
      ((True, c_string (take 2047 c2)), storage_set_error ''ok'' (storage_set_error ''ok'' s2))"
    using init c by (simp add: storage_read_text_eq)
  show ?thesis
    using nf assms(2-5) j r1 r2
    by (auto simp: session_journal_flush_def VITA_STORAGE_READ_MAX_def Let_def journal_set_error_def
        storage_get_status_def str_copy_fits split: if_splits)
qed

text \<open>The journal above with two arbitrary non-empty logs; every write of it succeeds.\<close>

definition demo_logs :: "char \<Rightarrow> string \<Rightarrow> journal_sys" where
  "demo_logs c cs = upd_jrn (\<lambda>j. j\<lparr>jr_jsonl := c # cs, jr_text := c # cs\<rparr>) demo_journal"

definition demo_logs1 :: "char \<Rightarrow> string \<Rightarrow> journal_sys" where
  "demo_logs1 c cs = snd (storage_write_text (Some SESSION_JOURNAL_JSONL_PATH) (Some (c # cs)) (demo_logs c cs))"

lemma demo_logs_writes:
  "fst (storage_write_text (Some SESSION_JOURNAL_JSONL_PATH) (Some (c # cs)) (demo_logs c cs))"
  "fst (storage_write_text (Some SESSION_JOURNAL_TEXT_PATH) (Some (c # cs)) (demo_logs1 c cs))"
  "stored_text (snd (storage_write_text (Some SESSION_JOURNAL_TEXT_PATH) (Some (c # cs)) (demo_logs1 c cs)))
     SESSION_JOURNAL_JSONL_PATH \<noteq> None"
  "stored_text (snd (storage_write_text (Some SESSION_JOURNAL_TEXT_PATH) (Some (c # cs)) (demo_logs1 c cs)))
     SESSION_JOURNAL_TEXT_PATH \<noteq> None"
  by code_simp+

lemma journal_flush_fails_beyond_2047_witness:
  "\<not> fst (session_journal_flush (demo_logs (CHR ''a'') (replicate 2100 (CHR ''a''))))"
proof -
  let ?t = "replicate 2100 (CHR ''a'')"
  have j: "jr_jsonl (jrn (demo_logs c cs)) = c # cs" "jr_text (jrn (demo_logs c cs)) = c # cs"
    "jr_initialized (jrn (demo_logs c cs))" "jr_active (jrn (demo_logs c cs))" for c cs
    using demo_journal_ready by (simp_all add: demo_logs_def)
  have w1: "storage_write_text (Some SESSION_JOURNAL_JSONL_PATH) (Some (c # cs)) (demo_logs c cs) = (True, demo_logs1 c cs)" for c cs
    using demo_logs_writes(1) [of c cs] by (simp add: demo_logs1_def prod_eq_iff)
  have w2: "storage_write_text (Some SESSION_JOURNAL_TEXT_PATH) (Some (c # cs)) (demo_logs1 c cs) =
     (True, snd (storage_write_text (Some SESSION_JOURNAL_TEXT_PATH) (Some (c # cs)) (demo_logs1 c cs)))" for c cs
    using demo_logs_writes(2) [of c cs] by (simp add: prod_eq_iff)
  show ?thesis
    using journal_flush_fails_beyond_2047 [of "demo_logs (CHR ''a'') ?t" "demo_logs1 (CHR ''a'') ?t",
        unfolded j(1,2), OF _ j(3) j(4) w1 w2 demo_logs_writes(3,4)] by simp
qed

end
