(* ===== verification/Hardware.thy ===== *)
theory Hardware
  imports Host
begin

unbundle bit_operations_syntax

text \<open>
  Hardware discovery of the hosted build: kernel/pci_discovery.c (the devices under
  /sys/bus/pci/devices and their classes) and kernel/hardware_discovery.c (the counts of the
  snapshot). Both only read the host's files.
\<close>

section \<open>PCI devices\<close>

datatype vita_pci_device_kind =
  PCI_UNKNOWN | PCI_DISPLAY | PCI_ETHERNET | PCI_WIFI | PCI_USB | PCI_AUDIO | PCI_STORAGE | PCI_BRIDGE | PCI_INPUT

record vita_pci_device =
  pd_bus :: u8
  pd_slot :: u8
  pd_function :: u8
  pd_vendor_id :: u16
  pd_device_id :: u16
  pd_class_code :: u8
  pd_subclass :: u8
  pd_prog_if :: u8
  pd_revision_id :: u8
  pd_kind :: vita_pci_device_kind
  pd_class_name :: string
  pd_device_name :: string

record vita_pci_snapshot =
  ps_devices :: "vita_pci_device list"
  ps_display_count :: u32
  ps_ethernet_count :: u32
  ps_wifi_count :: u32
  ps_usb_controller_count :: u32
  ps_audio_count :: u32
  ps_storage_count :: u32
  ps_input_count :: u32

definition VITA_PCI_MAX_DEVICES :: nat where "VITA_PCI_MAX_DEVICES = 64"

definition zero_pci :: vita_pci_snapshot where
  "zero_pci = \<lparr>ps_devices = [], ps_display_count = 0, ps_ethernet_count = 0, ps_wifi_count = 0,
     ps_usb_controller_count = 0, ps_audio_count = 0, ps_storage_count = 0, ps_input_count = 0\<rparr>"

text \<open>The kind and the two names the function writes.\<close>

definition classify_pci_device :: "u8 \<Rightarrow> u8 \<Rightarrow> vita_pci_device_kind \<times> string \<times> string" where
  "classify_pci_device class_code subclass =
     (if class_code = 0x01 then (PCI_STORAGE, ''storage'', ''storage controller'')
      else if class_code = 0x02 then
        (if subclass = 0x00 then (PCI_ETHERNET, ''network'', ''ethernet controller'')
         else if subclass = 0x80 then (PCI_WIFI, ''network'', ''network controller'')
         else (PCI_ETHERNET, ''network'', ''network controller''))
      else if class_code = 0x03 then (PCI_DISPLAY, ''display'', ''display controller'')
      else if class_code = 0x04 then (PCI_AUDIO, ''multimedia'', ''audio/multimedia controller'')
      else if class_code = 0x06 then (PCI_BRIDGE, ''bridge'', ''bridge device'')
      else if class_code = 0x0c then
        (if subclass = 0x03 then (PCI_USB, ''serial-bus'', ''usb controller'')
         else (PCI_UNKNOWN, ''serial-bus'', ''serial bus controller''))
      else (PCI_UNKNOWN, ''unknown'', ''unknown pci device''))"

fun update_counts :: "vita_pci_device_kind \<Rightarrow> vita_pci_snapshot \<Rightarrow> vita_pci_snapshot" where
  "update_counts PCI_DISPLAY p = p\<lparr>ps_display_count := ps_display_count p + 1\<rparr>"
| "update_counts PCI_ETHERNET p = p\<lparr>ps_ethernet_count := ps_ethernet_count p + 1\<rparr>"
| "update_counts PCI_WIFI p = p\<lparr>ps_wifi_count := ps_wifi_count p + 1\<rparr>"
| "update_counts PCI_USB p = p\<lparr>ps_usb_controller_count := ps_usb_controller_count p + 1\<rparr>"
| "update_counts PCI_AUDIO p = p\<lparr>ps_audio_count := ps_audio_count p + 1\<rparr>"
| "update_counts PCI_STORAGE p = p\<lparr>ps_storage_count := ps_storage_count p + 1\<rparr>"
| "update_counts PCI_INPUT p = p\<lparr>ps_input_count := ps_input_count p + 1\<rparr>"
| "update_counts _ p = p"

text \<open>\<open>fscanf(f, "0x%x", &value)\<close> on the whole file.\<close>

definition scan_0x :: "string \<Rightarrow> int option" where
  "scan_0x s = (if length s \<ge> 2 \<and> s ! 0 = CHR ''0'' \<and> s ! 1 = CHR ''x''
                then map_option fst (scan_hex (drop 2 s)) else None)"

definition read_hex_u16_file :: "string \<Rightarrow> 'a host_scheme \<Rightarrow> u16 option" where
  "read_hex_u16_file path s =
     (case fopen_rb path s of None \<Rightarrow> None
      | Some bytes \<Rightarrow> map_option (\<lambda>v. ucast (of_int v :: u32)) (scan_0x bytes))"

definition read_hex_u32_file :: "string \<Rightarrow> 'a host_scheme \<Rightarrow> u32 option" where
  "read_hex_u32_file path s =
     (case fopen_rb path s of None \<Rightarrow> None | Some bytes \<Rightarrow> map_option of_int (scan_0x bytes))"

definition expect_char :: "char \<Rightarrow> string \<Rightarrow> string option" where
  "expect_char c s = (if s \<noteq> [] \<and> hd s = c then Some (tl s) else None)"

text \<open>\<open>sscanf(name, "%x:%x:%x.%x", ...) == 4\<close>\<close>

definition parse_bdf :: "string \<Rightarrow> (u8 \<times> u8 \<times> u8) option" where
  "parse_bdf name =
     Option.bind (scan_hex name) (\<lambda>(domain, r1).
     Option.bind (expect_char (CHR '':'') r1) (\<lambda>r2.
     Option.bind (scan_hex r2) (\<lambda>(b, r3).
     Option.bind (expect_char (CHR '':'') r3) (\<lambda>r4.
     Option.bind (scan_hex r4) (\<lambda>(sl, r5).
     Option.bind (expect_char (CHR ''.'') r5) (\<lambda>r6.
     Option.bind (scan_hex r6) (\<lambda>(f, r7).
       Some (ucast (of_int b :: u32), ucast (of_int sl :: u32), ucast (of_int f :: u32)))))))))"

definition load_hosted_pci_device :: "string \<Rightarrow> 'a host_scheme \<Rightarrow> vita_pci_device option" where
  "load_hosted_pci_device entry_name s =
     (let path = (\<lambda>leaf. snprintf 256 (''/sys/bus/pci/devices/'' @ entry_name @ leaf)) in
      case parse_bdf entry_name of None \<Rightarrow> None
      | Some (bus, sl, fn) \<Rightarrow>
        (case read_hex_u16_file (path ''/vendor'') s of None \<Rightarrow> None
         | Some vendor \<Rightarrow>
           (case read_hex_u16_file (path ''/device'') s of None \<Rightarrow> None
            | Some device \<Rightarrow>
              (case read_hex_u32_file (path ''/class'') s of None \<Rightarrow> None
               | Some cv \<Rightarrow>
                   let cc = ucast ((drop_bit 16 cv) AND 0xff);
                       sc = ucast ((drop_bit 8 cv) AND 0xff);
                       (kind, cname, dname) = classify_pci_device cc sc
                   in Some \<lparr>pd_bus = bus, pd_slot = sl, pd_function = fn, pd_vendor_id = vendor,
                        pd_device_id = device, pd_class_code = cc, pd_subclass = sc,
                        pd_prog_if = ucast (cv AND 0xff), pd_revision_id = 0, pd_kind = kind,
                        pd_class_name = cname, pd_device_name = dname\<rparr>))))"

fun pci_loop :: "string list \<Rightarrow> 'a host_scheme \<Rightarrow> vita_pci_snapshot \<Rightarrow> vita_pci_snapshot" where
  "pci_loop [] s p = p"
| "pci_loop (n # ns) s p =
     (if n \<noteq> [] \<and> hd n = CHR ''.'' then pci_loop ns s p
      else if length (ps_devices p) \<ge> VITA_PCI_MAX_DEVICES then p
      else case load_hosted_pci_device n s of
             None \<Rightarrow> pci_loop ns s p
           | Some dev \<Rightarrow> pci_loop ns s (update_counts (pd_kind dev) (p\<lparr>ps_devices := ps_devices p @ [dev]\<rparr>)))"

definition pci_discovery_run :: "'a host_scheme \<Rightarrow> vita_pci_snapshot" where
  "pci_discovery_run s =
     (case readdir_names ''/sys/bus/pci/devices'' s of
        None \<Rightarrow> zero_pci
      | Some names \<Rightarrow> pci_loop names s zero_pci)"

section \<open>The host's devices\<close>

definition filter_not_dot :: "string \<Rightarrow> bool" where
  "filter_not_dot n = (n \<noteq> ''.'' \<and> n \<noteq> ''..'')"

definition filter_net :: "string \<Rightarrow> bool" where
  "filter_net n = (filter_not_dot n \<and> n \<noteq> ''lo'')"

definition filter_storage :: "string \<Rightarrow> bool" where
  "filter_storage n = (filter_not_dot n \<and> take 4 n \<noteq> ''loop'' \<and> take 3 n \<noteq> ''ram'')"

definition filter_usb :: "string \<Rightarrow> bool" where
  "filter_usb n = (filter_not_dot n \<and> CHR ''-'' \<in> set n)"

definition filter_input_event :: "string \<Rightarrow> bool" where
  "filter_input_event n = (filter_not_dot n \<and> take 5 n = ''event'')"

fun count_loop :: "(string \<Rightarrow> bool) \<Rightarrow> string list \<Rightarrow> int \<Rightarrow> int" where
  "count_loop keep [] count = count"
| "count_loop keep (n # ns) count = (if \<not> keep n then count_loop keep ns count else count_loop keep ns (count + 1))"

definition count_dir_entries :: "string \<Rightarrow> (string \<Rightarrow> bool) \<Rightarrow> 'a host_scheme \<Rightarrow> int" where
  "count_dir_entries path keep s =
     (case readdir_names path s of None \<Rightarrow> 0 | Some names \<Rightarrow> count_loop keep names 0)"

definition net_iface_has_wireless_dir :: "string \<Rightarrow> 'a host_scheme \<Rightarrow> bool" where
  "net_iface_has_wireless_dir iface_name s =
     (readdir_names (snprintf 256 (''/sys/class/net/'' @ iface_name @ ''/wireless'')) s \<noteq> None)"

definition count_wifi_ifaces :: "'a host_scheme \<Rightarrow> int" where
  "count_wifi_ifaces s =
     (case readdir_names ''/sys/class/net'' s of None \<Rightarrow> 0
      | Some names \<Rightarrow> count_loop (\<lambda>n. filter_net n \<and> net_iface_has_wireless_dir n s) names 0)"

definition count_ethernet_ifaces :: "'a host_scheme \<Rightarrow> int" where
  "count_ethernet_ifaces s =
     (case readdir_names ''/sys/class/net'' s of None \<Rightarrow> 0
      | Some names \<Rightarrow> count_loop (\<lambda>n. filter_net n \<and> \<not> net_iface_has_wireless_dir n s) names 0)"

fun any_line_has :: "string \<Rightarrow> string list \<Rightarrow> bool" where
  "any_line_has token [] = False"
| "any_line_has token (l # ls) = (if sublist token l then True else any_line_has token ls)"

definition input_device_has_token :: "string \<Rightarrow> string \<Rightarrow> 'a host_scheme \<Rightarrow> bool" where
  "input_device_has_token event_name token s =
     (case fopen_rb (snprintf 256 (''/sys/class/input/'' @ event_name @ ''/device/name'')) s of
        None \<Rightarrow> False
      | Some bytes \<Rightarrow> any_line_has token (text_lines bytes))"

definition count_keyboards :: "'a host_scheme \<Rightarrow> int" where
  "count_keyboards s =
     (case readdir_names ''/sys/class/input'' s of None \<Rightarrow> 0
      | Some names \<Rightarrow>
          count_loop (\<lambda>n. filter_input_event n \<and>
            (input_device_has_token n ''keyboard'' s \<or> input_device_has_token n ''Keyboard'' s)) names 0)"

definition count_mice :: "'a host_scheme \<Rightarrow> int" where
  "count_mice s =
     (case readdir_names ''/sys/class/input'' s of None \<Rightarrow> 0
      | Some names \<Rightarrow>
          count_loop (\<lambda>n. filter_input_event n \<and>
            (input_device_has_token n ''mouse'' s \<or> input_device_has_token n ''Mouse'' s \<or>
             input_device_has_token n ''touchpad'' s \<or> input_device_has_token n ''Touchpad'' s)) names 0)"

text \<open>
  The text after the first colon and one more character. (When the colon ends the line the source
  steps over the terminator and reads what the array held before; here the result is empty.)
\<close>

fun cpu_model_loop :: "string list \<Rightarrow> string" where
  "cpu_model_loop [] = []"
| "cpu_model_loop (line # ls) =
     (if take 10 line = ''model name'' \<and> CHR '':'' \<in> set line
      then let out = snprintf 128 (drop 2 (dropWhile (\<lambda>c. c \<noteq> CHR '':'') line))
           in rev (dropWhile (\<lambda>c. c = LF \<or> c = CR) (rev out))
      else cpu_model_loop ls)"

definition read_cpu_model :: "'a host_scheme \<Rightarrow> string" where
  "read_cpu_model s =
     (case fopen_rb ''/proc/cpuinfo'' s of None \<Rightarrow> [] | Some bytes \<Rightarrow> cpu_model_loop (text_lines bytes))"

fun ram_loop :: "string list \<Rightarrow> u64" where
  "ram_loop [] = 0"
| "ram_loop (line # ls) =
     (if take 9 line = ''MemTotal:''
      then (case scan_dec (drop 9 line) of Some (kb, r) \<Rightarrow> of_int kb * 1024 | None \<Rightarrow> ram_loop ls)
      else ram_loop ls)"

definition read_ram_bytes :: "'a host_scheme \<Rightarrow> u64" where
  "read_ram_bytes s =
     (case fopen_rb ''/proc/meminfo'' s of None \<Rightarrow> 0 | Some bytes \<Rightarrow> ram_loop (text_lines bytes))"

section \<open>The snapshot\<close>

definition int_max :: "int \<Rightarrow> int \<Rightarrow> int" where
  "int_max a b = (if a > b then a else b)"

text \<open>The conversion \<open>(int)\<close> of a \<open>uint32_t\<close>.\<close>

abbreviation as_int :: "u32 \<Rightarrow> int" where "as_int \<equiv> sint"

definition apply_pci_snapshot :: "'a host_scheme \<Rightarrow> vita_hw_snapshot \<Rightarrow> vita_hw_snapshot" where
  "apply_pci_snapshot s hw =
     (let pci = pci_discovery_run s;
          h1 = hw\<lparr>hw_display_count := int_max (hw_display_count hw) (as_int (ps_display_count pci)),
                  hw_ethernet_count := int_max (hw_ethernet_count hw) (as_int (ps_ethernet_count pci)),
                  hw_wifi_count := int_max (hw_wifi_count hw) (as_int (ps_wifi_count pci)),
                  hw_usb_controller_count := int_max (hw_usb_controller_count hw) (as_int (ps_usb_controller_count pci)),
                  hw_audio_count := int_max (hw_audio_count hw) (as_int (ps_audio_count pci))\<rparr>;
          h2 = (if hw_storage_count h1 = 0 then h1\<lparr>hw_storage_count := as_int (ps_storage_count pci)\<rparr> else h1);
          pci_net_count = as_int (ps_ethernet_count pci + ps_wifi_count pci)
      in h2\<lparr>hw_net_count := int_max (hw_net_count h2) pci_net_count, hw_microphone_count := 0\<rparr>)"

definition zero_hw :: vita_hw_snapshot where
  "zero_hw = \<lparr>hw_cpu_arch = [], hw_cpu_model = [], hw_ram_bytes = 0, hw_firmware_type = [], hw_console_type = [],
     hw_display_count = 0, hw_keyboard_count = 0, hw_mouse_count = 0, hw_audio_count = 0, hw_microphone_count = 0,
     hw_net_count = 0, hw_ethernet_count = 0, hw_wifi_count = 0, hw_storage_count = 0, hw_usb_count = 0,
     hw_usb_controller_count = 0, hw_detected_at_unix = 0\<rparr>"

definition hw_discovery_run :: "vita_handoff option \<Rightarrow> 'a host_scheme \<Rightarrow> vita_hw_snapshot \<times> 'a host_scheme" where
  "hw_discovery_run handoff s =
     (let (machine, s1) = uname_machine s;
          hosted = (case handoff of None \<Rightarrow> False | Some h \<Rightarrow> ho_firmware_type h = VITA_FIRMWARE_HOSTED);
          (now, s2) = unix_now s1;
          hw = zero_hw\<lparr>hw_cpu_arch := copy_text 32 (case machine of Some m \<Rightarrow> m
                                        | None \<Rightarrow> (case Option.bind handoff ho_arch_name of Some a \<Rightarrow> a | None \<Rightarrow> ''unknown'')),
                       hw_cpu_model := read_cpu_model s1,
                       hw_ram_bytes := read_ram_bytes s1,
                       hw_firmware_type := copy_text 32 (if hosted then ''hosted'' else ''uefi''),
                       hw_console_type := copy_text 32 (if hosted then ''stdio'' else ''uefi_text''),
                       hw_net_count := count_dir_entries ''/sys/class/net'' filter_net s1,
                       hw_ethernet_count := count_ethernet_ifaces s1,
                       hw_wifi_count := count_wifi_ifaces s1,
                       hw_storage_count := count_dir_entries ''/sys/block'' filter_storage s1,
                       hw_usb_count := count_dir_entries ''/sys/bus/usb/devices'' filter_usb s1,
                       hw_keyboard_count := count_keyboards s1,
                       hw_mouse_count := count_mice s1,
                       hw_display_count := 1,
                       hw_detected_at_unix := now\<rparr>
      in (apply_pci_snapshot s2 hw, s2))"

section \<open>Counting\<close>

lemma count_loop_filter: "count_loop keep ns c = c + int (length (filter keep ns))"
  by (induction ns arbitrary: c) auto

lemma filter_split_length:
  "length (filter (\<lambda>x. P x \<and> Q x) xs) + length (filter (\<lambda>x. P x \<and> \<not> Q x) xs) = length (filter P xs)"
  by (induction xs) auto

definition kind_count :: "vita_pci_device_kind \<Rightarrow> vita_pci_snapshot \<Rightarrow> nat" where
  "kind_count k p = length (filter (\<lambda>d. pd_kind d = k) (ps_devices p))"

definition pci_ok :: "vita_pci_snapshot \<Rightarrow> bool" where
  "pci_ok p \<longleftrightarrow> length (ps_devices p) \<le> 64 \<and>
     ps_display_count p = of_nat (kind_count PCI_DISPLAY p) \<and>
     ps_ethernet_count p = of_nat (kind_count PCI_ETHERNET p) \<and>
     ps_wifi_count p = of_nat (kind_count PCI_WIFI p) \<and>
     ps_usb_controller_count p = of_nat (kind_count PCI_USB p) \<and>
     ps_audio_count p = of_nat (kind_count PCI_AUDIO p) \<and>
     ps_storage_count p = of_nat (kind_count PCI_STORAGE p) \<and>
     ps_input_count p = of_nat (kind_count PCI_INPUT p) \<and>
     (\<forall>d\<in>set (ps_devices p).
        (pd_kind d, pd_class_name d, pd_device_name d) = classify_pci_device (pd_class_code d) (pd_subclass d))"

lemma update_counts_devices [simp]: "ps_devices (update_counts k p) = ps_devices p"
  by (cases k) simp_all

lemma pci_ok_add:
  assumes "pci_ok p" "length (ps_devices p) < 64"
    and "(pd_kind d, pd_class_name d, pd_device_name d) = classify_pci_device (pd_class_code d) (pd_subclass d)"
  shows "pci_ok (update_counts (pd_kind d) (p\<lparr>ps_devices := ps_devices p @ [d]\<rparr>))"
  using assms by (cases "pd_kind d") (simp_all add: pci_ok_def kind_count_def add.commute)

lemma load_device_classified:
  "load_hosted_pci_device n s = Some d \<Longrightarrow>
     (pd_kind d, pd_class_name d, pd_device_name d) = classify_pci_device (pd_class_code d) (pd_subclass d)"
  by (auto simp: load_hosted_pci_device_def Let_def split: option.splits prod.splits)

lemma pci_loop_ok: "pci_ok p \<Longrightarrow> pci_ok (pci_loop ns s p)"
proof (induction ns s p rule: pci_loop.induct)
  case (1 s p)
  then show ?case by simp
next
  case (2 n ns s p)
  show ?case
  proof (cases "n \<noteq> [] \<and> hd n = CHR ''.''")
    case True
    then show ?thesis using 2 by simp
  next
    case dot: False
    show ?thesis
    proof (cases "length (ps_devices p) \<ge> VITA_PCI_MAX_DEVICES")
      case True
      then show ?thesis using dot 2(4) by (simp only: pci_loop.simps if_False if_True)
    next
      case False
      then have "length (ps_devices p) < 64" by (simp add: VITA_PCI_MAX_DEVICES_def)
      note lt = this
      show ?thesis
      proof (cases "load_hosted_pci_device n s")
        case None
        then show ?thesis using dot False 2 by (simp del: de_Morgan_conj)
      next
        case (Some d)
        then show ?thesis
          using dot False pci_ok_add [OF 2(4) lt load_device_classified [OF Some]] 2(3) [OF dot False Some]
          by (simp del: de_Morgan_conj)
      qed
    qed
  qed
qed

section \<open>Properties\<close>

text \<open>
  PCI snapshot. Whatever the host's tree contains, discovery lists at most 64 devices, each with
  the kind and names of its class code, and every counter of the snapshot is the number of listed
  devices of its kind.
\<close>

theorem pci_discovery_counts:
  "let p = pci_discovery_run s in
     length (ps_devices p) \<le> 64 \<and>
     ps_display_count p = of_nat (kind_count PCI_DISPLAY p) \<and>
     ps_ethernet_count p = of_nat (kind_count PCI_ETHERNET p) \<and>
     ps_wifi_count p = of_nat (kind_count PCI_WIFI p) \<and>
     ps_usb_controller_count p = of_nat (kind_count PCI_USB p) \<and>
     ps_audio_count p = of_nat (kind_count PCI_AUDIO p) \<and>
     ps_storage_count p = of_nat (kind_count PCI_STORAGE p) \<and>
     list_all (\<lambda>d. (pd_kind d, pd_class_name d, pd_device_name d) =
        classify_pci_device (pd_class_code d) (pd_subclass d)) (ps_devices p)"
proof -
  have "pci_ok zero_pci" by (simp add: pci_ok_def zero_pci_def kind_count_def)
  then have "pci_ok (pci_discovery_run s)"
    by (auto simp: pci_discovery_run_def pci_loop_ok split: option.splits)
  then show ?thesis by (simp add: pci_ok_def Let_def list_all_iff)
qed

text \<open>
  Network interfaces. The wired and the wireless count of the hosted snapshot split its
  interface count: no interface is counted twice or lost before the PCI counts are merged in.
\<close>

theorem net_interface_counts_split:
  "count_ethernet_ifaces s + count_wifi_ifaces s = count_dir_entries ''/sys/class/net'' filter_net s"
  using filter_split_length [of filter_net "\<lambda>n. net_iface_has_wireless_dir n s"]
  by (auto simp: count_ethernet_ifaces_def count_wifi_ifaces_def count_dir_entries_def count_loop_filter
      split: option.splits) (metis add.commute of_nat_add)

end
