(* ===== verification/Transcript.thy ===== *)
theory Transcript
  imports Journal Hardware
begin

text \<open>
  The session transcript (kernel/session_transcript.c): the text and JSONL logs of everything the
  session shows, their 64 KiB buffers, the rotation of the JSONL part, the truncation report, and
  the guards against re-entry and repeated error reports. The static \<open>g\<close> is the field \<open>trn\<close>;
  the buffers and their length counters move together and are kept as strings.
\<close>

record vita_session_identity =
  id_boot_id :: string
  id_node_id :: string
  id_host_id :: string
  id_arch :: string
  id_firmware :: string
  id_boot_mode :: string
  id_cpu_model :: string
  id_ram_bytes :: u64
  id_storage_backend :: string
  id_storage_state :: string

record transcript_state =
  tr_initialized :: bool
  tr_active :: bool
  tr_busy :: bool
  tr_error_reported :: bool
  tr_seq :: u32
  tr_session_id :: string
  tr_txt_path :: string
  tr_jsonl_path :: string
  tr_jsonl_primary_path :: string
  tr_txt :: string
  tr_jsonl :: string
  tr_state :: string
  tr_last_text :: string
  tr_identity :: vita_session_identity
  tr_current_jsonl_part :: u32
  tr_jsonl_rotation_count :: u32
  tr_truncated_reported :: bool
  tr_jsonl_locked :: bool

record transcript_sys = journal_sys + trn :: transcript_state

definition zero_identity :: vita_session_identity where
  "zero_identity = \<lparr>id_boot_id = [], id_node_id = [], id_host_id = [], id_arch = [], id_firmware = [],
     id_boot_mode = [], id_cpu_model = [], id_ram_bytes = 0, id_storage_backend = [], id_storage_state = []\<rparr>"

definition zero_transcript :: transcript_state where
  "zero_transcript = \<lparr>tr_initialized = False, tr_active = False, tr_busy = False, tr_error_reported = False,
     tr_seq = 0, tr_session_id = [], tr_txt_path = [], tr_jsonl_path = [], tr_jsonl_primary_path = [],
     tr_txt = [], tr_jsonl = [], tr_state = [], tr_last_text = [], tr_identity = zero_identity,
     tr_current_jsonl_part = 0, tr_jsonl_rotation_count = 0, tr_truncated_reported = False, tr_jsonl_locked = False\<rparr>"

definition upd_trn :: "(transcript_state \<Rightarrow> transcript_state) \<Rightarrow> 'a transcript_sys_scheme \<Rightarrow> 'a transcript_sys_scheme" where
  "upd_trn f s = s\<lparr>trn := f (trn s)\<rparr>"

definition TRANSCRIPT_BUFFER :: nat where "TRANSCRIPT_BUFFER = 65536"

section \<open>Text helpers\<close>

text \<open>\<open>contains\<close>: the comparison stops at the end of the needle or at a difference.\<close>

definition contains :: "string \<Rightarrow> string \<Rightarrow> bool" where
  "contains haystack needle = (needle \<noteq> [] \<and> contains_loop haystack needle)"

definition ap :: "nat \<Rightarrow> string \<Rightarrow> string \<Rightarrow> string" where
  "ap cap d t = d @ copy_loop cap (length d) t"

definition apc :: "nat \<Rightarrow> string \<Rightarrow> string \<Rightarrow> string" where
  "apc cap d t = ap cap d t"

text \<open>A sequence of \<open>apc\<close> calls on one array.\<close>

definition apcs :: "nat \<Rightarrow> string list \<Rightarrow> string \<Rightarrow> string" where
  "apcs cap ts d = fold (\<lambda>t b. apc cap b t) ts d"

definition u6 :: "u32 \<Rightarrow> string" where
  "u6 v = map (\<lambda>k. char_of (48 + unat ((v div k) mod 10))) [100000, 10000, 1000, 100, 10, 1]"

definition u4 :: "u32 \<Rightarrow> string" where
  "u4 v = map (\<lambda>k. char_of (48 + unat ((v div k) mod 10))) [1000, 100, 10, 1]"

text \<open>\<open>while (seq[m] == '0' \&\& seq[m + 1]) m++\<close>\<close>

fun trim_zeros :: "string \<Rightarrow> string" where
  "trim_zeros (c # d # r) = (if c = CHR ''0'' then trim_zeros (d # r) else c # d # r)"
| "trim_zeros t = t"

definition SESSIONS_DIR :: string where "SESSIONS_DIR = ''/vita/audit/sessions/''"

definition build_jsonl_part_path :: "string \<Rightarrow> u32 \<Rightarrow> nat \<Rightarrow> string" where
  "build_jsonl_part_path session_id part_number cap =
     (let out = apc cap (copy_text cap SESSIONS_DIR) session_id in
      if part_number \<le> 1 then apc cap out ''.jsonl''
      else apcs cap [''.part-'', u4 part_number, ''.jsonl''] out)"

section \<open>The error report and the buffers\<close>

definition mark_transcript_error_once :: "string \<Rightarrow> 'a transcript_sys_scheme \<Rightarrow> 'a transcript_sys_scheme" where
  "mark_transcript_error_once reason s =
     (if tr_error_reported (trn s) then s
      else session_journal_log_system (Some ''transcript_error'') (Some reason)
             (upd_trn (\<lambda>g. g\<lparr>tr_error_reported := True\<rparr>) s))"

definition append_within_cap :: "nat \<Rightarrow> string \<Rightarrow> string \<Rightarrow> bool \<times> string" where
  "append_within_cap cap dst src =
     (if cap = 0 then (False, dst)
      else if length dst + length src + 1 > cap then (False, dst)
      else (True, dst @ src))"

definition jkey :: "string \<Rightarrow> string" where
  "jkey name = [DQ] @ '','' @ [DQ] @ name @ [DQ] @ '':'' @ [DQ]"

definition jstart :: string where
  "jstart = ''{'' @ [DQ] @ ''session_id'' @ [DQ] @ '':'' @ [DQ]"

definition report_transcript_truncated_once :: "transcript_state \<Rightarrow> transcript_state" where
  "report_transcript_truncated_once g =
     (if tr_truncated_reported g then g
      else
        let g1 = g\<lparr>tr_truncated_reported := True, tr_jsonl_locked := True, tr_seq := tr_seq g + 1\<rparr>;
            seq = u6 (tr_seq g1);
            t1 = ap TRANSCRIPT_BUFFER (tr_txt g1) ''['';
            t2 = ap TRANSCRIPT_BUFFER t1 seq;
            t3 = ap TRANSCRIPT_BUFFER t2 (''] transcript_truncated: jsonl capacity reached'' @ [LF]);
            jsonl_line = apcs 256
              [tr_session_id g1,
               jkey ''event_type'' @ ''transcript_truncated'' @ jkey ''actor'' @ ''system'' @ jkey ''text'' @
                 ''jsonl capacity reached'' @ [DQ] @ '','' @ [DQ] @ ''seq'' @ [DQ] @ '':'',
               trim_zeros seq, ''}'' @ [LF]] (copy_text 256 jstart)
        in g1\<lparr>tr_txt := t3, tr_jsonl := snd (append_within_cap TRANSCRIPT_BUFFER (tr_jsonl g1) jsonl_line)\<rparr>)"

definition flushv :: "'a transcript_sys_scheme \<Rightarrow> bool \<times> 'a transcript_sys_scheme" where
  "flushv s =
     (let (w1, s1) = storage_write_text (Some (tr_txt_path (trn s))) (Some (tr_txt (trn s))) s in
      if \<not> w1 then (False, s1)
      else
        let (w2, s2) = storage_write_text (Some (tr_jsonl_path (trn s1))) (Some (tr_jsonl (trn s1))) s1 in
        if \<not> w2 then (False, s2)
        else if length (tr_txt (trn s2)) \<ge> VITA_STORAGE_READ_MAX - 1 \<or> length (tr_jsonl (trn s2)) \<ge> VITA_STORAGE_READ_MAX - 1
        then (True, s2)
        else
          let ((r1, a), s3) = storage_read_text (Some (tr_txt_path (trn s2))) VITA_STORAGE_READ_MAX s2 in
          if \<not> r1 then (False, s3)
          else let ((r2, b), s4) = storage_read_text (Some (tr_jsonl_path (trn s3))) VITA_STORAGE_READ_MAX s3
               in (r2 \<and> eqs a (tr_txt (trn s4)) \<and> eqs b (tr_jsonl (trn s4)), s4))"

definition append_jsonl_line :: "string \<Rightarrow> transcript_state \<Rightarrow> bool \<times> transcript_state" where
  "append_jsonl_line jsonl_line g =
     (if tr_jsonl_locked g then (False, g)
      else let (ok, j) = append_within_cap TRANSCRIPT_BUFFER (tr_jsonl g) jsonl_line in (ok, g\<lparr>tr_jsonl := j\<rparr>))"

text \<open>The session id and identity fields every JSONL event starts with, up to the event type.\<close>

definition identity_parts :: "transcript_state \<Rightarrow> string list" where
  "identity_parts g =
     (let i = tr_identity g in
      [tr_session_id g, jkey ''boot_id'', id_boot_id i, jkey ''node_id'', id_node_id i,
       jkey ''host_id'', id_host_id i, jkey ''firmware'', id_firmware i, jkey ''arch'', id_arch i,
       jkey ''boot_mode'', id_boot_mode i, jkey ''cpu_model'', id_cpu_model i,
       [DQ] @ '','' @ [DQ] @ ''ram_bytes'' @ [DQ] @ '':'', u64_to_dec (id_ram_bytes i),
       '','' @ [DQ] @ ''storage_backend'' @ [DQ] @ '':'' @ [DQ], id_storage_backend i,
       jkey ''storage_state'', id_storage_state i, jkey ''event_type''])"

definition seq_key :: string where
  "seq_key = [DQ] @ '','' @ [DQ] @ ''seq'' @ [DQ] @ '':''"

definition append_control_jsonl_event :: "string \<Rightarrow> string \<Rightarrow> transcript_state \<Rightarrow> bool \<times> transcript_state" where
  "append_control_jsonl_event etype txt g =
     (let g1 = g\<lparr>tr_seq := tr_seq g + 1\<rparr>;
          seq = u6 (tr_seq g1);
          line = apcs 512 (identity_parts g1 @
                   [etype, jkey ''actor'' @ ''system'' @ jkey ''text'', txt, seq_key, trim_zeros seq, ''}'' @ [LF]])
                   (copy_text 512 jstart)
      in append_jsonl_line line g1)"

definition rotate_jsonl_part :: "'a transcript_sys_scheme \<Rightarrow> bool \<times> 'a transcript_sys_scheme" where
  "rotate_jsonl_part s =
     (let (ok, s1) = flushv s in
      if \<not> ok then (False, s1)
      else
        let g = trn s1;
            g1 = g\<lparr>tr_current_jsonl_part := tr_current_jsonl_part g + 1,
                   tr_jsonl_rotation_count := tr_jsonl_rotation_count g + 1, tr_jsonl := []\<rparr>;
            g2 = g1\<lparr>tr_jsonl_path := build_jsonl_part_path (tr_session_id g1) (tr_current_jsonl_part g1) VITA_STORAGE_PATH_MAX\<rparr>;
            (c1, g3) = append_control_jsonl_event ''transcript_rotated'' ''jsonl part rotated'' g2
        in if \<not> c1 then (False, s1\<lparr>trn := g3\<rparr>)
           else let msg = apc 96 (copy_text 96 ''part='') (u4 (tr_current_jsonl_part g3));
                    (c2, g4) = append_control_jsonl_event ''transcript_part_start'' msg g3
                in (c2, s1\<lparr>trn := g4\<rparr>))"

definition append_trimmed_seq :: "nat \<Rightarrow> u32 \<Rightarrow> string \<Rightarrow> string" where
  "append_trimmed_seq cap seq_value dst = apc cap dst (trim_zeros (u6 seq_value))"

definition transcript_escape :: "char \<Rightarrow> string" where
  "transcript_escape c =
     (if c = DQ then [BSL, DQ] else if c = BSL then [BSL, BSL]
      else if c = LF then [BSL, CHR ''n''] else if c = CR then [BSL, CHR ''r''] else [c])"

definition build_jsonl_event_line :: "nat \<Rightarrow> u32 \<Rightarrow> string \<Rightarrow> string \<Rightarrow> string \<Rightarrow> transcript_state \<Rightarrow> string" where
  "build_jsonl_event_line cap seq_value event_type actor txt g =
     (let l1 = apcs cap (identity_parts g @ [event_type, jkey ''actor'', actor, jkey ''text'']) (copy_text cap jstart);
          l2 = apcs cap (map transcript_escape (take 180 txt)) l1;
          l3 = apc cap l2 seq_key;
          l4 = append_trimmed_seq cap seq_value l3
      in apc cap l4 (''}'' @ [LF]))"

section \<open>Events\<close>

text \<open>
  The JSONL half of \<open>event\<close>: append, or rotate and append to the new part, or report truncation. The
  number is the one the text log then uses.
\<close>

definition event_jsonl :: "string \<Rightarrow> string \<Rightarrow> string \<Rightarrow> 'a transcript_sys_scheme \<Rightarrow> u32 \<times> 'a transcript_sys_scheme" where
  "event_jsonl t a x s =
     (if tr_jsonl_locked (trn s) then (tr_seq (trn s) + 1, s)
      else
        let es = tr_seq (trn s) + 1;
            (ok, g1) = append_jsonl_line (build_jsonl_event_line 1024 es t a x (trn s)) (trn s);
            s1 = s\<lparr>trn := g1\<rparr>
        in if ok then (es, s1)
           else
             let (rok, s2) = rotate_jsonl_part s1 in
             if \<not> rok then (es, upd_trn report_transcript_truncated_once s2)
             else
               let es2 = tr_seq (trn s2) + 1;
                   (ok2, g2) = append_jsonl_line (build_jsonl_event_line 1024 es2 t a x (trn s2)) (trn s2);
                   s3 = s2\<lparr>trn := g2\<rparr>
               in (es2, if ok2 then s3 else upd_trn report_transcript_truncated_once s3))"

definition event :: "string \<Rightarrow> string \<Rightarrow> string \<Rightarrow> 'a transcript_sys_scheme \<Rightarrow> 'a transcript_sys_scheme" where
  "event t a x s =
     (if \<not> tr_active (trn s) \<or> tr_busy (trn s) then s
      else
        let s1 = upd_trn (\<lambda>g. g\<lparr>tr_busy := True\<rparr>) s;
            (event_seq, s2) = event_jsonl t a x s1;
            s3 = upd_trn (\<lambda>g. g\<lparr>tr_seq := event_seq\<rparr>) s2;
            line = apcs 256 [u6 (tr_seq (trn s3)), ''] '', t, '': '', x] (copy_text 256 ''['');
            s4 = upd_trn (\<lambda>g. g\<lparr>tr_txt := ap TRANSCRIPT_BUFFER (ap TRANSCRIPT_BUFFER (tr_txt g) line) [LF]\<rparr>) s3;
            (ok, s5) = flushv s4;
            s6 = (if ok then s5
                  else mark_transcript_error_once ''write_read_compare_failed''
                         (upd_trn (\<lambda>g. g\<lparr>tr_active := False, tr_state := copy_text 32 ''error''\<rparr>) s5))
        in upd_trn (\<lambda>g. g\<lparr>tr_busy := False\<rparr>) s6)"

section \<open>Start and end of a session\<close>

definition txt_path_of :: "string \<Rightarrow> string" where
  "txt_path_of num = apcs VITA_STORAGE_PATH_MAX [num, ''.txt''] (copy_text VITA_STORAGE_PATH_MAX ''/vita/audit/sessions/session-'')"

text \<open>
  The first number whose text log cannot be read: \<open>for (i = 1; i < 999999; i++)\<close>. The result is the
  value of \<open>i\<close> after the loop and whether it broke out.
\<close>

function find_session :: "nat \<Rightarrow> 'a transcript_sys_scheme \<Rightarrow> (nat \<times> bool) \<times> 'a transcript_sys_scheme" where
  "find_session i s =
     (if i \<ge> 999999 then ((i, False), s)
      else let ((r, scratch), s1) = storage_read_text (Some (txt_path_of (u6 (of_nat i)))) 8 s
           in if \<not> r then ((i, True), s1) else find_session (i + 1) s1)"
  by pat_completeness auto
termination
  by (relation "measure (\<lambda>(i, s). 999999 - i)") auto

declare find_session.simps [simp del]

text \<open>The search of the previous session's parts for its closing event.\<close>

fun prev_parts_loop :: "string \<Rightarrow> nat list \<Rightarrow> bool \<Rightarrow> 'a transcript_sys_scheme \<Rightarrow> (bool \<times> bool) \<times> 'a transcript_sys_scheme" where
  "prev_parts_loop prev_id [] rotated s = ((False, rotated), s)"
| "prev_parts_loop prev_id (part # parts) rotated s =
     (let ((r, body), s1) = storage_read_text
            (Some (build_jsonl_part_path prev_id (of_nat part) VITA_STORAGE_PATH_MAX)) VITA_STORAGE_READ_MAX s
      in if \<not> r then prev_parts_loop prev_id parts rotated s1
         else let rotated1 = (if part > 1 then True else rotated)
              in if contains body ([DQ] @ ''event_type'' @ [DQ] @ '':'' @ [DQ] @ ''session_end'' @ [DQ]) \<or>
                    contains body ([DQ] @ ''event_type'' @ [DQ] @ '':'' @ [DQ] @ ''transcript_truncated'' @ [DQ])
                 then ((True, rotated1), s1)
                 else prev_parts_loop prev_id parts rotated1 s1)"

definition check_previous_session :: "nat \<Rightarrow> 'a transcript_sys_scheme \<Rightarrow> 'a transcript_sys_scheme" where
  "check_previous_session i s =
     (if i > 1 then
        let prev_id = apc 32 (copy_text 32 ''session-'') (u6 (of_nat (i - 1)));
            ((prev_clean, prev_has_rotated_part), s1) = prev_parts_loop prev_id [1..<513] False s
        in if \<not> prev_clean \<and> \<not> prev_has_rotated_part
           then event ''previous_session_unclean'' ''system''
                  (apcs 128 [prev_id, '' reason=missing_session_end''] (copy_text 128 ''previous_session_id='')) s1
           else s1
      else s)"

definition unknown_text :: string where "unknown_text = ''unknown''"

definition init_identity :: "vita_handoff option \<Rightarrow> cstr \<Rightarrow> vita_session_identity" where
  "init_identity h arch =
     (let firmware = copy_text 16 (case h of None \<Rightarrow> unknown_text
            | Some ho \<Rightarrow> (if ho_firmware_type ho = VITA_FIRMWARE_HOSTED then ''hosted''
                         else if ho_firmware_type ho = VITA_FIRMWARE_UEFI then ''uefi'' else unknown_text))
      in \<lparr>id_boot_id = unknown_text, id_node_id = unknown_text, id_host_id = unknown_text,
          id_arch = copy_text 32 (safe_text arch unknown_text), id_firmware = firmware,
          id_boot_mode = copy_text 16 firmware, id_cpu_model = unknown_text, id_ram_bytes = 0,
          id_storage_backend = unknown_text, id_storage_state = unknown_text\<rparr>)"

definition session_header :: "transcript_state \<Rightarrow> string list" where
  "session_header g =
     (let i = tr_identity g in
      [''=== VitaOS session transcript ==='' @ [LF] @ ''session_id: '', tr_session_id g,
       [LF, LF] @ ''Datos de esta sesion:'' @ [LF] @ ''session_id: '', tr_session_id g,
       [LF] @ ''boot_id: '', id_boot_id i, [LF] @ ''node_id: '', id_node_id i,
       [LF] @ ''host_id: '', id_host_id i, [LF] @ ''arquitectura: '', id_arch i,
       [LF] @ ''firmware: '', id_firmware i, [LF] @ ''modo de arranque: '', id_boot_mode i,
       [LF] @ ''CPU: '', id_cpu_model i, [LF] @ ''RAM: '', u64_to_dec (id_ram_bytes i),
       [LF] @ ''storage/backend: '', id_storage_backend i, [LF] @ ''storage_state: '', id_storage_state i,
       [LF, LF]])"

definition session_transcript_init ::
  "vita_handoff option \<Rightarrow> cstr \<Rightarrow> 'a transcript_sys_scheme \<Rightarrow> bool \<times> 'a transcript_sys_scheme" where
  "session_transcript_init h arch s =
     (let g0 = zero_transcript\<lparr>tr_initialized := True, tr_current_jsonl_part := 1,
                 tr_state := copy_text 32 ''degraded'', tr_identity := init_identity h arch\<rparr>;
          g1 = (case audit_get_identity 64 64 s of None \<Rightarrow> g0
                | Some (b, n) \<Rightarrow> g0\<lparr>tr_identity := (tr_identity g0)\<lparr>id_boot_id := copy_text 64 b, id_node_id := copy_text 64 n\<rparr>\<rparr>);
          (hw, s1) = hw_discovery_run h s;
          st = storage_get_status s1;
          g2 = g1\<lparr>tr_identity := (tr_identity g1)\<lparr>
                 id_cpu_model := copy_text 128 (if hw_cpu_model hw \<noteq> [] then hw_cpu_model hw else unknown_text),
                 id_ram_bytes := hw_ram_bytes hw,
                 id_storage_backend := copy_text 32 (if st_backend_name st \<noteq> [] then st_backend_name st else unknown_text),
                 id_storage_state := copy_text 32 (if st_bootstrap_verified st then ''verified'' else ''degraded'')\<rparr>\<rparr>;
          s2 = s1\<lparr>trn := g2\<rparr>
      in if \<not> storage_is_bootstrap_verified s2
         then (False, mark_transcript_error_once ''storage_not_verified'' s2)
         else
           let ((i, found), s3) = find_session 1 s2;
               sid = (if found then apc 64 (copy_text 64 ''session-'') (u6 (of_nat i)) else copy_text 64 ''session-boot-unknown'');
               jp = build_jsonl_part_path sid 1 VITA_STORAGE_PATH_MAX;
               g3 = (trn s3)\<lparr>tr_session_id := sid,
                      tr_txt_path := apcs VITA_STORAGE_PATH_MAX [sid, ''.txt''] (copy_text VITA_STORAGE_PATH_MAX SESSIONS_DIR),
                      tr_jsonl_path := jp, tr_jsonl_primary_path := copy_text VITA_STORAGE_PATH_MAX jp\<rparr>;
               g4 = g3\<lparr>tr_txt := fold (\<lambda>t b. ap TRANSCRIPT_BUFFER b t) (session_header g3) (tr_txt g3),
                       tr_active := True, tr_state := copy_text 32 ''active''\<rparr>;
               s4 = event ''session_start'' ''system'' ''transcript started'' (s3\<lparr>trn := g4\<rparr>);
               s5 = check_previous_session i s4
           in (tr_active (trn s5), s5))"

definition session_transcript_shutdown :: "'a transcript_sys_scheme \<Rightarrow> 'a transcript_sys_scheme" where
  "session_transcript_shutdown s =
     (if tr_active (trn s) then event ''session_end'' ''system'' ''session closed'' s else s)"

definition session_transcript_is_active :: "'a transcript_sys_scheme \<Rightarrow> bool" where
  "session_transcript_is_active s = (tr_initialized (trn s) \<and> tr_active (trn s))"

definition session_transcript_log_user_input :: "string \<Rightarrow> 'a transcript_sys_scheme \<Rightarrow> 'a transcript_sys_scheme" where
  "session_transcript_log_user_input t = event ''user_input'' ''user'' t"

definition session_transcript_log_command_executed :: "string \<Rightarrow> 'a transcript_sys_scheme \<Rightarrow> 'a transcript_sys_scheme" where
  "session_transcript_log_command_executed t = event ''command_executed'' ''user'' t"

definition session_transcript_log_editor_event :: "cstr \<Rightarrow> string \<Rightarrow> 'a transcript_sys_scheme \<Rightarrow> 'a transcript_sys_scheme" where
  "session_transcript_log_editor_event e t = event (case e of None \<Rightarrow> ''editor_event'' | Some x \<Rightarrow> x) ''editor'' t"

definition session_transcript_log_storage_status :: "string \<Rightarrow> 'a transcript_sys_scheme \<Rightarrow> 'a transcript_sys_scheme" where
  "session_transcript_log_storage_status t = event ''storage_status'' ''system'' t"

definition session_transcript_log_journal_status :: "string \<Rightarrow> 'a transcript_sys_scheme \<Rightarrow> 'a transcript_sys_scheme" where
  "session_transcript_log_journal_status t = event ''journal_status'' ''system'' t"

text \<open>
  The cleaning loop: an escape sequence is dropped up to and including its final \<open>m\<close>, \<open>H\<close>, \<open>J\<close> or
  \<open>K\<close>; at most 255 characters are kept.
\<close>

fun skip_escape :: "string \<Rightarrow> string" where
  "skip_escape [] = []"
| "skip_escape (c # cs) =
     (if c = CHR ''m'' \<or> c = CHR ''H'' \<or> c = CHR ''J'' \<or> c = CHR ''K'' then cs else skip_escape cs)"

lemma skip_escape_length: "length (skip_escape cs) \<le> length cs"
  by (induction cs) auto

function clean_loop :: "string \<Rightarrow> nat \<Rightarrow> string" where
  "clean_loop [] j = []"
| "clean_loop (c # cs) j =
     (if \<not> j + 1 < 256 then []
      else if c = ESC then clean_loop (skip_escape cs) j
      else c # clean_loop cs (j + 1))"
  by pat_completeness auto
termination
  by (relation "measure (\<lambda>(t, j). length t)") (auto simp: skip_escape_length less_Suc_eq_le)

definition session_transcript_log_system_output :: "string \<Rightarrow> bool \<Rightarrow> 'a transcript_sys_scheme \<Rightarrow> 'a transcript_sys_scheme" where
  "session_transcript_log_system_output t raw s =
     (if t = [] then s
      else
        let clean = clean_loop t 0
        in if clean = ''> '' \<or> clean = [] then s
           else if raw \<and> eqs (tr_last_text (trn s)) clean then s
           else event ''system_output'' ''system'' clean
                  (upd_trn (\<lambda>g. g\<lparr>tr_last_text := copy_text 160 clean\<rparr>) s))"

definition session_transcript_txt_path :: "'a transcript_sys_scheme \<Rightarrow> string" where
  "session_transcript_txt_path s = (if tr_txt_path (trn s) \<noteq> [] then tr_txt_path (trn s) else ''unknown'')"

definition session_transcript_jsonl_path :: "'a transcript_sys_scheme \<Rightarrow> string" where
  "session_transcript_jsonl_path s =
     (if tr_jsonl_primary_path (trn s) \<noteq> [] then tr_jsonl_primary_path (trn s)
      else if tr_jsonl_path (trn s) \<noteq> [] then tr_jsonl_path (trn s) else ''unknown'')"

definition session_transcript_state :: "'a transcript_sys_scheme \<Rightarrow> string" where
  "session_transcript_state s = tr_state (trn s)"

section \<open>What the calls leave alone\<close>

lemma trn_host [simp]:
  "trn (fs_put k n s) = trn s" "trn (ticked s) = trn s" "trn (storage_set_error e s) = trn s"
  "trn (snd (mkdir p s)) = trn s" "trn (upd_jrn f s) = trn s" "trn (upd_trn h s) = h (trn s)"
  by (simp_all add: fs_put_def ticked_def storage_set_error_def mkdir_def upd_jrn_def upd_trn_def Let_def)

lemma trn_parent_dirs [simp]: "trn (parent_dirs_loop d cs s) = trn s"
  by (induction cs arbitrary: d s) simp_all

lemma trn_storage [simp]:
  "trn (snd (storage_write_text p t s)) = trn s" "trn (snd (storage_read_text p cap s)) = trn s"
  by (simp_all add: storage_write_text_def hosted_write_text_def hosted_ensure_parent_dirs_def fopen_wb_def
      fwrite_close_def storage_read_text_def hosted_read_text_def Let_def case_prod_beta split: option.splits)

lemma trn_journal_flush [simp]: "trn (snd (session_journal_flush s)) = trn s"
  by (simp add: session_journal_flush_def Let_def case_prod_beta)

lemma trn_journal [simp]:
  "trn (journal_add_event ty t b s) = trn s" "trn (session_journal_log_system e t s) = trn s"
  by (simp_all add: session_journal_log_system_def journal_add_event_def Let_def case_prod_beta)

lemma upd_trn_sel [simp]:
  "sto (upd_trn f s) = sto s" "aud (upd_trn f s) = aud s" "jrn (upd_trn f s) = jrn s"
  "h_fs (upd_trn f s) = h_fs s" "h_out (upd_trn f s) = h_out s" "h_unreadable (upd_trn f s) = h_unreadable s"
  "h_db (upd_trn f s) = h_db s" "h_stdin (upd_trn f s) = h_stdin s"
  by (simp_all add: upd_trn_def)

lemma trn_mark [simp]:
  "trn (mark_transcript_error_once r s) = (trn s)\<lparr>tr_error_reported := True\<rparr>"
  by (simp add: mark_transcript_error_once_def)

lemma trn_flushv [simp]: "trn (snd (flushv s)) = trn s"
  by (simp add: flushv_def Let_def case_prod_beta)

section \<open>Bounds\<close>

interpretation tap: bounded_append "ap cap" cap
  by unfold_locales (simp add: ap_def copy_loop_take)

interpretation tapc: bounded_append "apc cap" cap
  by unfold_locales (simp add: apc_def ap_def copy_loop_take)

lemma apcs_length: "length d < cap \<Longrightarrow> length (apcs cap ts d) < cap"
  unfolding apcs_def by (rule tapc.fold_app_length)

lemma apcs_fits: "length d + length (concat ts) < cap \<Longrightarrow> apcs cap ts d = d @ concat ts"
  unfolding apcs_def by (rule tapc.fold_app_fits)

definition trn_ok :: "transcript_state \<Rightarrow> bool" where
  "trn_ok g \<longleftrightarrow> length (tr_txt g) < 65536 \<and> length (tr_jsonl g) < 65536"

lemma append_within_cap_cases:
  "append_within_cap 65536 d t = (if length d + length t < 65536 then (True, d @ t) else (False, d))"
  by (simp add: append_within_cap_def)

lemma append_jsonl_line_eq:
  "append_jsonl_line l g =
     (if \<not> tr_jsonl_locked g \<and> length (tr_jsonl g) + length l < 65536
      then (True, g\<lparr>tr_jsonl := tr_jsonl g @ l\<rparr>) else (False, g))"
  by (simp add: append_jsonl_line_def append_within_cap_cases TRANSCRIPT_BUFFER_def)

lemma append_jsonl_line_ok: "trn_ok g \<Longrightarrow> trn_ok (snd (append_jsonl_line l g))"
  by (simp add: append_jsonl_line_eq trn_ok_def)

lemma append_control_ok: "trn_ok g \<Longrightarrow> trn_ok (snd (append_control_jsonl_event e t g))"
  unfolding append_control_jsonl_event_def Let_def
  by (rule append_jsonl_line_ok) (simp add: trn_ok_def)

lemma append_control_keeps:
  "tr_busy (snd (append_control_jsonl_event e t g)) = tr_busy g"
  "tr_active (snd (append_control_jsonl_event e t g)) = tr_active g"
  "tr_txt (snd (append_control_jsonl_event e t g)) = tr_txt g"
  "tr_initialized (snd (append_control_jsonl_event e t g)) = tr_initialized g"
  "tr_error_reported (snd (append_control_jsonl_event e t g)) = tr_error_reported g"
  "tr_jsonl_locked (snd (append_control_jsonl_event e t g)) = tr_jsonl_locked g"
  "tr_seq (snd (append_control_jsonl_event e t g)) = tr_seq g + 1"
  by (simp_all add: append_control_jsonl_event_def append_jsonl_line_eq Let_def)

lemma report_ok: "trn_ok g \<Longrightarrow> trn_ok (report_transcript_truncated_once g)"
  by (auto simp: report_transcript_truncated_once_def Let_def trn_ok_def TRANSCRIPT_BUFFER_def
      append_within_cap_cases intro!: tap.app_length)

lemma report_keeps:
  "tr_busy (report_transcript_truncated_once g) = tr_busy g"
  "tr_active (report_transcript_truncated_once g) = tr_active g"
  "tr_error_reported (report_transcript_truncated_once g) = tr_error_reported g"
  by (simp_all add: report_transcript_truncated_once_def Let_def)

lemma rotate_keeps:
  "trn_ok (trn s) \<Longrightarrow> trn_ok (trn (snd (rotate_jsonl_part s)))"
  "tr_active (trn (snd (rotate_jsonl_part s))) = tr_active (trn s)"
  "tr_busy (trn (snd (rotate_jsonl_part s))) = tr_busy (trn s)"
  "tr_error_reported (trn (snd (rotate_jsonl_part s))) = tr_error_reported (trn s)"
proof -
  show "trn_ok (trn s) \<Longrightarrow> trn_ok (trn (snd (rotate_jsonl_part s)))"
    by (auto simp: rotate_jsonl_part_def Let_def case_prod_beta intro!: append_control_ok) (simp_all add: trn_ok_def)
qed (simp_all add: rotate_jsonl_part_def Let_def case_prod_beta append_control_keeps)

lemma event_jsonl_keeps:
  "trn_ok (trn s) \<Longrightarrow> trn_ok (trn (snd (event_jsonl t a x s)))"
  "tr_active (trn (snd (event_jsonl t a x s))) = tr_active (trn s)"
  "tr_busy (trn (snd (event_jsonl t a x s))) = tr_busy (trn s)"
  "tr_error_reported (trn (snd (event_jsonl t a x s))) = tr_error_reported (trn s)"
proof -
  let ?l = "build_jsonl_event_line 1024 (tr_seq (trn s) + 1) t a x (trn s)"
  let ?s1 = "s\<lparr>trn := snd (append_jsonl_line ?l (trn s))\<rparr>"
  have k: "tr_active (snd (append_jsonl_line l g)) = tr_active g" "tr_busy (snd (append_jsonl_line l g)) = tr_busy g"
    "tr_error_reported (snd (append_jsonl_line l g)) = tr_error_reported g" for l g
    by (simp_all add: append_jsonl_line_eq)
  show "trn_ok (trn s) \<Longrightarrow> trn_ok (trn (snd (event_jsonl t a x s)))"
    by (auto simp: event_jsonl_def Let_def case_prod_beta intro!: report_ok append_jsonl_line_ok rotate_keeps)
  show "tr_active (trn (snd (event_jsonl t a x s))) = tr_active (trn s)"
    "tr_busy (trn (snd (event_jsonl t a x s))) = tr_busy (trn s)"
    "tr_error_reported (trn (snd (event_jsonl t a x s))) = tr_error_reported (trn s)"
    by (simp_all add: event_jsonl_def Let_def case_prod_beta report_keeps rotate_keeps k)
qed

lemma event_skipped: "\<not> tr_active (trn s) \<or> tr_busy (trn s) \<Longrightarrow> event t a x s = s"
  by (simp add: event_def)

lemma event_result:
  fixes s :: "'a transcript_sys_scheme" and t a x :: string
  assumes "tr_active (trn s)" "\<not> tr_busy (trn s)"
  defines "g \<equiv> trn (event t a x s)"
  shows "\<not> tr_busy g" "trn_ok (trn s) \<Longrightarrow> trn_ok g"
    "\<not> tr_active g \<Longrightarrow> tr_error_reported g \<and> tr_state g = ''error''"
    "tr_active g \<Longrightarrow> tr_error_reported g = tr_error_reported (trn s)"
proof -
  let ?s1 = "upd_trn (\<lambda>g. g\<lparr>tr_busy := True\<rparr>) s"
  let ?s2 = "snd (event_jsonl t a x ?s1)" and ?n = "fst (event_jsonl t a x ?s1)"
  let ?s3 = "upd_trn (\<lambda>g. g\<lparr>tr_seq := ?n\<rparr>) ?s2"
  define line where "line = apcs 256 [u6 (tr_seq (trn ?s3)), ''] '', t, '': '', x] (copy_text 256 ''['')"
  define s4 where "s4 = upd_trn (\<lambda>g. g\<lparr>tr_txt := ap TRANSCRIPT_BUFFER (ap TRANSCRIPT_BUFFER (tr_txt g) line) [LF]\<rparr>) ?s3"
  have g: "g = (if fst (flushv s4) then (trn s4)\<lparr>tr_busy := False\<rparr>
      else (trn s4)\<lparr>tr_active := False, tr_state := ''error'', tr_error_reported := True, tr_busy := False\<rparr>)"
    using assms(1,2) by (simp add: g_def event_def Let_def case_prod_beta s4_def line_def str_copy_fits)
  have ev: "trn_ok (trn s) \<Longrightarrow> trn_ok (trn ?s2)" "tr_active (trn ?s2) = tr_active (trn s)"
      "tr_error_reported (trn ?s2) = tr_error_reported (trn s)"
    using event_jsonl_keeps [where s = ?s1 and t = t and a = a and x = x] by (simp_all add: trn_ok_def)
  have "trn_ok (trn s4)" if "trn_ok (trn s)"
    using ev(1) [OF that] by (simp add: s4_def trn_ok_def TRANSCRIPT_BUFFER_def tap.app_length)
  moreover have "tr_active (trn s4)" "tr_error_reported (trn s4) = tr_error_reported (trn s)"
    using ev assms(1) by (simp_all add: s4_def)
  ultimately show "\<not> tr_busy g" "trn_ok (trn s) \<Longrightarrow> trn_ok g"
    "\<not> tr_active g \<Longrightarrow> tr_error_reported g \<and> tr_state g = ''error''"
    "tr_active g \<Longrightarrow> tr_error_reported g = tr_error_reported (trn s)"
    by (auto simp: g trn_ok_def)
qed

section \<open>The flush\<close>

lemma flushv_ok_steps:
  assumes "flushv s = (True, s')" "length (tr_txt (trn s)) < 2047" "length (tr_jsonl (trn s)) < 2047"
  shows "\<exists>c1 c2. stored_text s' (tr_txt_path (trn s)) = Some c1 \<and> c_string (take 2047 c1) = tr_txt (trn s) \<and>
    stored_text s' (tr_jsonl_path (trn s)) = Some c2 \<and> c_string (take 2047 c2) = tr_jsonl (trn s)"
proof -
  define s1 where "s1 = snd (storage_write_text (Some (tr_txt_path (trn s))) (Some (tr_txt (trn s))) s)"
  define s2 where "s2 = snd (storage_write_text (Some (tr_jsonl_path (trn s))) (Some (tr_jsonl (trn s))) s1)"
  have t: "trn s1 = trn s" "trn s2 = trn s" by (simp_all add: s1_def s2_def)
  obtain r1 b1 s3 where rd1: "storage_read_text (Some (tr_txt_path (trn s))) 2048 s2 = ((r1, b1), s3)"
    by (metis surj_pair)
  have t3: "trn s3 = trn s" using trn_storage(2) [of "Some (tr_txt_path (trn s))" 2048 s2] rd1 t by simp
  obtain r2 b2 s4 where rd2: "storage_read_text (Some (tr_jsonl_path (trn s))) 2048 s3 = ((r2, b2), s4)"
    by (metis surj_pair)
  have t4: "trn s4 = trn s" using trn_storage(2) [of "Some (tr_jsonl_path (trn s))" 2048 s3] rd2 t3 by simp
  have ok: "r1" "r2" "b1 = tr_txt (trn s)" "b2 = tr_jsonl (trn s)" "s' = s4"
    using assms rd1 rd2 t t3 t4
    by (auto simp: flushv_def VITA_STORAGE_READ_MAX_def Let_def case_prod_beta
        s1_def [symmetric] s2_def [symmetric] split: if_splits)
  show ?thesis
    using storage_read_ok [OF rd1 [unfolded eqTrueI [OF ok(1)]]] storage_read_ok [OF rd2 [unfolded eqTrueI [OF ok(2)]]] ok
    by auto
qed

section \<open>Session numbers and the previous session\<close>

lemma storage_read_outcome:
  assumes "st_initialized (sto s)" "0 < cap"
  shows "\<exists>e t. storage_read_text (Some p) cap s = ((stored_text s p \<noteq> None, t), storage_set_error e s) \<and>
    (\<forall>c. stored_text s p = Some c \<longrightarrow> t = c_string (take (cap - 1) c))"
  using assms
  by (auto simp: storage_read_text_def hosted_read_text_def hosted_map_path_eq stored_text_def split: option.splits)

lemma find_session_spec:
  assumes "st_initialized (sto s)" "i \<le> 999999" "find_session i s = ((k, found), s')"
  shows "i \<le> k \<and> k \<le> 999999 \<and> (\<forall>m. i \<le> m \<and> m < k \<longrightarrow> stored_text s (txt_path_of (u6 (of_nat m))) \<noteq> None) \<and>
    (found \<longrightarrow> stored_text s (txt_path_of (u6 (of_nat k))) = None) \<and> (\<not> found \<longrightarrow> k = 999999)"
  using assms
proof (induction i s arbitrary: k found s' rule: find_session.induct)
  case (1 i s)
  show ?case
  proof (cases "i \<ge> 999999")
    case True
    have "find_session i s = ((i, False), s)"
      by (subst find_session.simps) (use True in simp)
    then show ?thesis using True 1(3,4) by auto
  next
    case False
    from storage_read_outcome [OF 1(2), of 8 "txt_path_of (u6 (of_nat i))"] obtain e t where
      rd: "storage_read_text (Some (txt_path_of (u6 (of_nat i)))) 8 s =
        ((stored_text s (txt_path_of (u6 (of_nat i))) \<noteq> None, t), storage_set_error e s)" by auto
    show ?thesis
    proof (cases "stored_text s (txt_path_of (u6 (of_nat i)))")
      case None
      then show ?thesis using 1(4) False rd by (auto simp: find_session.simps [of i s])
    next
      case (Some c)
      then have "find_session (i + 1) (storage_set_error e s) = ((k, found), s')"
        using 1(4) False rd by (simp add: find_session.simps [of i s])
      then have "i + 1 \<le> k \<and> k \<le> 999999 \<and>
          (\<forall>m. i + 1 \<le> m \<and> m < k \<longrightarrow> stored_text s (txt_path_of (u6 (of_nat m))) \<noteq> None) \<and>
          (found \<longrightarrow> stored_text s (txt_path_of (u6 (of_nat k))) = None) \<and> (\<not> found \<longrightarrow> k = 999999)"
        using 1(1) [OF False rd [symmetric] refl refl, where xc = "storage_set_error e s"] 1(2) False Some by simp
      note ih = this
      have "stored_text s (txt_path_of (u6 (of_nat m))) \<noteq> None" if "i \<le> m" "m < k" for m
        using that ih Some by (cases "m = i") auto
      then show ?thesis using ih by auto
    qed
  qed
qed

lemma prev_parts_none:
  assumes "st_initialized (sto s)"
    and "\<forall>k\<in>set ks. stored_text s (build_jsonl_part_path prev (of_nat k) 192) = None"
  shows "fst (prev_parts_loop prev ks r s) = (False, r)"
  using assms
proof (induction ks arbitrary: s)
  case Nil
  then show ?case by simp
next
  case (Cons k ks)
  from storage_read_outcome [OF Cons.prems(1), of 2048 "build_jsonl_part_path prev (of_nat k) 192"] Cons.prems(2)
  obtain e t where "storage_read_text (Some (build_jsonl_part_path prev (of_nat k) 192)) 2048 s = ((False, t), storage_set_error e s)"
    by auto
  then show ?case using Cons
    by (simp add: VITA_STORAGE_PATH_MAX_def VITA_STORAGE_READ_MAX_def)
qed

definition end_marker :: string where
  "end_marker = [DQ] @ ''event_type'' @ [DQ] @ '':'' @ [DQ] @ ''session_end'' @ [DQ]"
definition cut_marker :: string where
  "cut_marker = [DQ] @ ''event_type'' @ [DQ] @ '':'' @ [DQ] @ ''transcript_truncated'' @ [DQ]"

section \<open>Properties\<close>

text \<open>
  C22. Event guard. An event on an inactive or busy transcript changes nothing at all, so logging can
  neither recurse nor continue after a failure. Otherwise the busy mark is down again afterwards, both
  buffers stay inside their 65536 characters, and a transcript that is no longer active says so: state
  \<open>error\<close>, with the one error report made.
\<close>

theorem transcript_event_guard:
  "(\<not> tr_active (trn s) \<or> tr_busy (trn s) \<longrightarrow> event t a x s = s) \<and>
   (tr_active (trn s) \<and> \<not> tr_busy (trn s) \<longrightarrow>
      (let g = trn (event t a x s) in
         \<not> tr_busy g \<and> (trn_ok (trn s) \<longrightarrow> trn_ok g) \<and>
         (\<not> tr_active g \<longrightarrow> tr_error_reported g \<and> tr_state g = ''error'' \<and>
            (\<forall>t' a' x'. event t' a' x' (event t a x s) = event t a x s))))"
proof (intro conjI impI)
  assume "\<not> tr_active (trn s) \<or> tr_busy (trn s)"
  then show "event t a x s = s" by (rule event_skipped)
next
  assume act: "tr_active (trn s) \<and> \<not> tr_busy (trn s)"
  then show "let g = trn (event t a x s) in
         \<not> tr_busy g \<and> (trn_ok (trn s) \<longrightarrow> trn_ok g) \<and>
         (\<not> tr_active g \<longrightarrow> tr_error_reported g \<and> tr_state g = ''error'' \<and>
            (\<forall>t' a' x'. event t' a' x' (event t a x s) = event t a x s))"
    using event_result [of s t a x] by (auto simp: Let_def event_skipped)
qed

definition demo_transcript0 :: transcript_sys where
  "demo_transcript0 = journal_sys.extend demo_journal (transcript_sys.fields zero_transcript)"

definition demo_transcript :: transcript_sys where
  "demo_transcript = upd_trn (\<lambda>g. g\<lparr>tr_initialized := True, tr_active := True, tr_session_id := ''session-000001'',
     tr_txt_path := ''/vita/audit/sessions/session-000001.txt'',
     tr_jsonl_path := ''/vita/audit/sessions/session-000001.jsonl''\<rparr>) demo_transcript0"

lemma demo_transcript_active: "tr_active (trn demo_transcript)" "\<not> tr_busy (trn demo_transcript)"
    "trn_ok (trn demo_transcript)"
  by (simp_all add: demo_transcript_def demo_transcript0_def journal_sys.defs transcript_sys.defs
      zero_transcript_def trn_ok_def)

lemma transcript_event_guard_witness:
  "\<not> tr_busy (trn (event ''user_input'' ''user'' ''help'' demo_transcript)) \<and>
   trn_ok (trn (event ''user_input'' ''user'' ''help'' demo_transcript))"
  using transcript_event_guard [of demo_transcript "''user_input''" "''user''" "''help''"] demo_transcript_active
  by (simp add: Let_def)

text \<open>
  Verified flush. While both logs are shorter than 2047 characters, a flush that reports success
  means the files hold exactly the two buffers. (Longer logs are not read back.)
\<close>

theorem transcript_flush_verified:
  assumes "flushv s = (True, s')" "length (tr_txt (trn s)) < 2047" "length (tr_jsonl (trn s)) < 2047"
  shows "\<exists>c1 c2. stored_text s' (tr_txt_path (trn s)) = Some c1 \<and> c_string (take 2047 c1) = tr_txt (trn s) \<and>
    stored_text s' (tr_jsonl_path (trn s)) = Some c2 \<and> c_string (take 2047 c2) = tr_jsonl (trn s)"
  by (rule flushv_ok_steps [OF assms])

lemma transcript_flush_verified_witness:
  "\<exists>c1. stored_text (snd (flushv demo_transcript)) ''/vita/audit/sessions/session-000001.txt'' = Some c1 \<and>
     c_string (take 2047 c1) = []"
proof -
  have ok: "flushv demo_transcript = (True, snd (flushv demo_transcript))"
    by (rule prod_eqI) (code_simp, simp)
  have "tr_txt (trn demo_transcript) = []" "tr_jsonl (trn demo_transcript) = []"
    "tr_txt_path (trn demo_transcript) = ''/vita/audit/sessions/session-000001.txt''"
    by code_simp+
  then show ?thesis using transcript_flush_verified [OF ok] by auto
qed

text \<open>
  Session numbers. The search picks the first number from 1 on whose text log cannot be read: no
  readable log of an earlier session is reused.
\<close>

theorem transcript_session_number_is_free:
  assumes "st_initialized (sto s)" "find_session 1 s = ((k, found), s')"
  shows "(\<forall>m. 1 \<le> m \<and> m < k \<longrightarrow> stored_text s (txt_path_of (u6 (of_nat m))) \<noteq> None) \<and>
    (if found then stored_text s (txt_path_of (u6 (of_nat k))) = None else k = 999999)"
  using find_session_spec [OF assms(1) _ assms(2)] by simp

lemma transcript_session_number_is_free_witness:
  "stored_text demo_transcript (txt_path_of (u6 1)) = None"
proof -
  have n: "stored_text demo_transcript (txt_path_of (u6 (of_nat 1))) = None" and i: "st_initialized (sto demo_transcript)"
    by code_simp+
  from storage_read_outcome [OF i, of 8 "txt_path_of (u6 (of_nat 1))"] n obtain e t where
    "storage_read_text (Some (txt_path_of (u6 (of_nat 1)))) 8 demo_transcript = ((False, t), storage_set_error e demo_transcript)"
    by auto
  then have "find_session 1 demo_transcript = ((1, True), storage_set_error e demo_transcript)"
    by (simp add: find_session.simps [of "Suc 0" demo_transcript])
  from transcript_session_number_is_free [OF i this] show ?thesis by simp
qed

text \<open>
  Unclean sessions. The check of the previous session reads 2047 characters of its JSONL log, so a
  session whose closing event stands further down, in a log with no second part, is taken for one
  that did not end.
\<close>

theorem previous_session_end_missed:
  assumes "st_initialized (sto s)" "stored_text s (build_jsonl_part_path prev 1 192) = Some c"
    and "\<not> contains (c_string (take 2047 c)) end_marker" "\<not> contains (c_string (take 2047 c)) cut_marker"
    and "\<forall>k. 2 \<le> k \<and> k \<le> 512 \<longrightarrow> stored_text s (build_jsonl_part_path prev (of_nat k) 192) = None"
  shows "fst (prev_parts_loop prev [1..<513] False s) = (False, False)"
proof -
  define ks where "ks = [Suc 1..<513]"
  have ks: "[1..<513] = 1 # ks" "set ks = {2..<513}"
    unfolding ks_def set_upt by (rule upt_conv_Cons, simp) (simp add: numeral_2_eq_2)
  obtain e where "storage_read_text (Some (build_jsonl_part_path prev 1 192)) 2048 s =
      ((True, c_string (take 2047 c)), storage_set_error e s)"
    using storage_read_outcome [OF assms(1), of 2048 "build_jsonl_part_path prev 1 192"] assms(2) by auto
  moreover have "fst (prev_parts_loop prev ks False (storage_set_error e s)) = (False, False)" for e
    by (rule prev_parts_none) (use assms(1,5) in \<open>auto simp: ks(2)\<close>)
  ultimately show ?thesis using assms(3,4)
    unfolding ks(1) by (simp add: VITA_STORAGE_PATH_MAX_def VITA_STORAGE_READ_MAX_def end_marker_def cut_marker_def)
qed

lemma split_slash_none: "CHR ''/'' \<notin> set w \<Longrightarrow> split_slash w = [w]"
  by (induction w) auto

lemma rel_comps_single: "CHR ''/'' \<notin> set w \<Longrightarrow> w \<noteq> [] \<Longrightarrow> w \<noteq> ''.'' \<Longrightarrow> rel_comps w = [w]"
  by (simp add: rel_comps_def split_slash_none)

definition demo_prev :: string where "demo_prev = ''session-000001''"

definition demo_long_log :: string where
  "demo_long_log = replicate 2100 (CHR ''x'') @ end_marker"

lemma sessions_path_comps:
  assumes "CHR ''/'' \<notin> set w" "w \<noteq> []" "w \<noteq> ''.''" "length w < 200"
  shows "path_comps (hosted_host_path 256 (SESSIONS_DIR @ w)) = [''build'', ''storage'', ''vita'', ''audit'', ''sessions'', w]"
proof -
  have "hosted_host_path 256 (SESSIONS_DIR @ w) =
      ''build'' @ CHR ''/'' # ''storage'' @ CHR ''/'' # ''vita'' @ CHR ''/'' # ''audit'' @ CHR ''/'' # ''sessions'' @ CHR ''/'' # w"
    using assms(4) by (simp add: hosted_host_path_eq SESSIONS_DIR_def)
  then show ?thesis
    by (simp only: path_comps_slash rel_comps_slash list.distinct not_False_eq_True rel_comps_single [OF assms(1-3)])
      (simp add: path_comps_def rel_comps_def)
qed

lemma part_path_1: "build_jsonl_part_path demo_prev 1 192 = SESSIONS_DIR @ ''session-000001.jsonl''"
  by code_simp

lemma length_u4 [simp]: "length (u4 v) = 4"
  by (simp add: u4_def)

lemma part_path_k:
  assumes "2 \<le> k" "k \<le> 512"
  shows "build_jsonl_part_path demo_prev (of_nat k) 192 = SESSIONS_DIR @ (''session-000001.part-'' @ u4 (of_nat k) @ ''.jsonl'')"
proof -
  have "unat (of_nat k :: u32) = k" using assms(2) by (simp add: unsigned_of_nat take_bit_nat_eq_self_iff)
  then have "\<not> (of_nat k :: u32) \<le> 1" using assms(1) by (simp add: word_le_nat_alt)
  moreover have "apc 192 (copy_text 192 SESSIONS_DIR) demo_prev = SESSIONS_DIR @ demo_prev" by code_simp
  ultimately show ?thesis
    by (simp add: build_jsonl_part_path_def Let_def apcs_fits demo_prev_def SESSIONS_DIR_def)
qed

lemma u4_no_slash: "CHR ''/'' \<notin> set (u4 v)"
proof -
  have "unat (w mod 10) < 10" for w :: u32
    using word_mod_less_divisor [of 10 w] by (simp add: word_less_nat_alt)
  then have v: "uchar (char_of (48 + unat (w mod 10)) :: char) = 48 + unat (w mod 10)" for w :: u32
    by (simp add: less_trans [of _ 10])
  have "48 \<le> uchar c" if "c \<in> set (u4 v)" for c
    using that unfolding u4_def by (auto simp only: v list.map list.set insert_iff empty_iff)
  then show ?thesis by force
qed

definition demo_unclean :: transcript_sys where
  "demo_unclean = demo_transcript\<lparr>h_fs :=
     [([''build'', ''storage'', ''vita'', ''audit'', ''sessions'', ''session-000001.jsonl''], FFile demo_long_log)]\<rparr>"

lemma demo_long_log_cut: "c_string (take 2047 demo_long_log) = replicate 2047 (CHR ''x'')"
  by (simp add: demo_long_log_def c_string_take)

lemma not_contains_replicate: "DQ \<in> set m \<Longrightarrow> \<not> contains (replicate n (CHR ''x'')) m"
proof
  assume m: "DQ \<in> set m" "contains (replicate n (CHR ''x'')) m"
  have "sublist m (replicate n (CHR ''x''))" using m(2) by (auto simp: contains_def contains_loop_sublist)
  from subsetD [OF set_mono_sublist [OF this] m(1)] show False by (simp split: if_splits)
qed

lemma demo_unclean_parts:
  "stored_text demo_unclean (build_jsonl_part_path demo_prev 1 192) = Some demo_long_log"
  "2 \<le> k \<Longrightarrow> k \<le> 512 \<Longrightarrow> stored_text demo_unclean (build_jsonl_part_path demo_prev (of_nat k) 192) = None"
proof -
  have nu: "\<not> h_unreadable demo_unclean x" for x
    by (simp add: demo_unclean_def demo_transcript_def demo_transcript0_def demo_journal_def demo_storage_def
        storage_init_def demo_defs storage_sys.defs journal_sys.defs transcript_sys.defs upd_trn_def storage_set_error_def)
  have k1: "path_comps (hosted_host_path 256 (SESSIONS_DIR @ ''session-000001.jsonl'')) =
      [''build'', ''storage'', ''vita'', ''audit'', ''sessions'', ''session-000001.jsonl'']"
    by (rule sessions_path_comps) simp_all
  have nd: "\<not> names_dir (hosted_host_path 256 (SESSIONS_DIR @ ''session-000001.jsonl''))" by code_simp
  have ok: "path_allowed (Some (SESSIONS_DIR @ ''session-000001.jsonl''))" by code_simp
  show "stored_text demo_unclean (build_jsonl_part_path demo_prev 1 192) = Some demo_long_log"
    by (simp only: stored_text_def part_path_1 ok if_True fopen_rb_def k1 Let_def nu if_False nd)
      (simp add: demo_unclean_def fs_lookup_def)
  assume k: "2 \<le> k" "k \<le> 512"
  let ?w = "''session-000001.part-'' @ u4 (of_nat k) @ ''.jsonl''"
  have "path_comps (hosted_host_path 256 (SESSIONS_DIR @ ?w)) =
      [''build'', ''storage'', ''vita'', ''audit'', ''sessions'', ?w]"
    by (rule sessions_path_comps) (simp_all add: u4_no_slash)
  then show "stored_text demo_unclean (build_jsonl_part_path demo_prev (of_nat k) 192) = None"
    by (simp only: stored_text_def part_path_k [OF k] fopen_rb_def Let_def nu if_False)
      (simp add: demo_unclean_def fs_lookup_def)
qed

lemma previous_session_end_missed_witness:
  "contains demo_long_log end_marker \<and> fst (prev_parts_loop demo_prev [1..<513] False demo_unclean) = (False, False)"
proof
  show "contains demo_long_log end_marker"
    by (simp add: contains_def contains_loop_sublist demo_long_log_def end_marker_def sublist_append)
  have "st_initialized (sto demo_unclean)" by (simp add: demo_unclean_def) code_simp
  then show "fst (prev_parts_loop demo_prev [1..<513] False demo_unclean) = (False, False)"
    by (rule previous_session_end_missed [OF _ demo_unclean_parts(1)])
      (use demo_unclean_parts(2) in \<open>auto simp: demo_long_log_cut not_contains_replicate end_marker_def cut_marker_def\<close>)
qed

end
