(* ===== verification/Console.thy ===== *)
theory Console
  imports Transcript
begin

text \<open>
  The console (kernel/console.c) with the writers and the reader the hosted entry binds
  (arch/x86\_64/boot/host\_entry.c): line output with its transcript copy and pager, styles, line
  input, and the guided screens. The static flags of console.c are the field \<open>con\<close>; a bound function
  pointer is a flag, what the bound functions print goes to the trace \<open>h_out\<close>, what they read comes
  from \<open>h_stdin\<close>.
\<close>

record console_vars =
  co_writer :: bool
  co_raw_writer :: bool
  co_reader :: bool
  co_clear :: bool
  co_ansi_enabled :: bool
  co_transcript_logging :: bool
  co_pager_enabled :: bool
  co_pager_busy :: bool
  co_pager_line_count :: u64
  co_pager_line_limit :: u64

record console_sys = transcript_sys + con :: console_vars

datatype vita_console_mode = MODE_BOOT | MODE_GUIDED | MODE_TECHNICAL | MODE_EMERGENCY | MODE_AUDIT | MODE_NODES | MODE_OTHER int

datatype vita_console_style =
  STYLE_DEFAULT | STYLE_EN | STYLE_ES | STYLE_ERROR | STYLE_OK | STYLE_WARNING | STYLE_EDITOR_TEXT

record vita_console_state =
  cs_arch_name :: cstr
  cs_boot_mode :: cstr
  cs_language_mode :: cstr
  cs_console_ready :: bool
  cs_audit_ready :: bool
  cs_proposal_engine_ready :: bool
  cs_node_core_ready :: bool
  cs_peer_count :: u32
  cs_pending_proposal_count :: u32
  cs_mode :: vita_console_mode

record vita_boot_status =
  bs_arch_name :: cstr
  bs_console_ready :: bool
  bs_audit_ready :: bool

definition PAGE_LINES_DEFAULT :: u64 where "PAGE_LINES_DEFAULT = 22"

definition zero_console :: console_vars where
  "zero_console = \<lparr>co_writer = False, co_raw_writer = False, co_reader = False, co_clear = False,
     co_ansi_enabled = False, co_transcript_logging = False, co_pager_enabled = False, co_pager_busy = False,
     co_pager_line_count = 0, co_pager_line_limit = PAGE_LINES_DEFAULT\<rparr>"

definition upd_con :: "(console_vars \<Rightarrow> console_vars) \<Rightarrow> 'a console_sys_scheme \<Rightarrow> 'a console_sys_scheme" where
  "upd_con f s = s\<lparr>con := f (con s)\<rparr>"

definition emit_out :: "out_event \<Rightarrow> 'a host_scheme \<Rightarrow> 'a host_scheme" where
  "emit_out e s = s\<lparr>h_out := h_out s @ [e]\<rparr>"

section \<open>The hosted writers and reader\<close>

definition host_console_write :: "string \<Rightarrow> 'a host_scheme \<Rightarrow> 'a host_scheme" where
  "host_console_write t s = emit_out (OutLine t) s"

definition host_console_write_raw :: "string \<Rightarrow> 'a host_scheme \<Rightarrow> 'a host_scheme" where
  "host_console_write_raw t s = emit_out (OutRaw t) s"

definition host_console_clear :: "'a host_scheme \<Rightarrow> 'a host_scheme" where
  "host_console_clear s = emit_out (OutRaw ([ESC] @ ''[2J'' @ [ESC] @ ''[H'')) s"

text \<open>The result and the string in \<open>out\<close>; at the end of the input nothing is read.\<close>

definition host_console_read_line :: "nat \<Rightarrow> 'a host_scheme \<Rightarrow> (bool \<times> string) \<times> 'a host_scheme" where
  "host_console_read_line out_cap s =
     (if out_cap = 0 then ((False, []), s)
      else if h_stdin s = [] \<and> out_cap > 1 then ((False, []), s)
      else let (l, rest) = fgets_loop (out_cap - 1) (h_stdin s);
               out = c_string l
           in ((True, rev (dropWhile (\<lambda>c. c = LF \<or> c = CR) (rev out))), s\<lparr>h_stdin := rest\<rparr>))"

section \<open>Output\<close>

definition console_bind_writer :: "bool \<Rightarrow> 'a console_sys_scheme \<Rightarrow> 'a console_sys_scheme" where
  "console_bind_writer w = upd_con (\<lambda>c. c\<lparr>co_writer := w\<rparr>)"
definition console_bind_raw_writer :: "bool \<Rightarrow> 'a console_sys_scheme \<Rightarrow> 'a console_sys_scheme" where
  "console_bind_raw_writer w = upd_con (\<lambda>c. c\<lparr>co_raw_writer := w\<rparr>)"
definition console_bind_reader :: "bool \<Rightarrow> 'a console_sys_scheme \<Rightarrow> 'a console_sys_scheme" where
  "console_bind_reader r = upd_con (\<lambda>c. c\<lparr>co_reader := r\<rparr>)"
definition console_bind_clear :: "bool \<Rightarrow> 'a console_sys_scheme \<Rightarrow> 'a console_sys_scheme" where
  "console_bind_clear f = upd_con (\<lambda>c. c\<lparr>co_clear := f\<rparr>)"

definition console_early_init :: "'a console_sys_scheme \<Rightarrow> 'a console_sys_scheme" where
  "console_early_init = upd_con (\<lambda>c. c\<lparr>co_ansi_enabled := True\<rparr>)"

definition console_write_raw :: "cstr \<Rightarrow> 'a console_sys_scheme \<Rightarrow> 'a console_sys_scheme" where
  "console_write_raw text s =
     (case text of None \<Rightarrow> s
      | Some t \<Rightarrow>
          if co_raw_writer (con s) then host_console_write_raw t s
          else if co_writer (con s) then host_console_write t s
          else s)"

definition style_is_color :: "vita_console_style \<Rightarrow> bool" where
  "style_is_color style =
     (style = STYLE_ES \<or> style = STYLE_ERROR \<or> style = STYLE_OK \<or> style = STYLE_WARNING \<or> style = STYLE_EDITOR_TEXT)"

fun style_ansi :: "vita_console_style \<Rightarrow> string" where
  "style_ansi STYLE_ES = ESC # ''[32m''"
| "style_ansi STYLE_OK = ESC # ''[32m''"
| "style_ansi STYLE_ERROR = ESC # ''[31m''"
| "style_ansi STYLE_WARNING = ESC # ''[33m''"
| "style_ansi STYLE_EDITOR_TEXT = ESC # ''[36m''"
| "style_ansi _ = ESC # ''[0m''"

definition console_set_style :: "vita_console_style \<Rightarrow> 'a console_sys_scheme \<Rightarrow> 'a console_sys_scheme" where
  "console_set_style style s =
     (if \<not> co_ansi_enabled (con s) \<or> \<not> style_is_color style then s
      else console_write_raw (Some (style_ansi style)) s)"

definition console_reset_style :: "'a console_sys_scheme \<Rightarrow> 'a console_sys_scheme" where
  "console_reset_style s =
     (if \<not> co_ansi_enabled (con s) then s else console_write_raw (Some (ESC # ''[0m'')) s)"

definition console_prompt_begin :: "'a console_sys_scheme \<Rightarrow> 'a console_sys_scheme" where
  "console_prompt_begin s =
     (if \<not> co_ansi_enabled (con s) then s else console_write_raw (Some (ESC # ''[?25h'')) s)"

definition console_prompt_end :: "'a console_sys_scheme \<Rightarrow> 'a console_sys_scheme" where
  "console_prompt_end s = (if \<not> co_ansi_enabled (con s) then s else console_reset_style s)"

definition console_input_style_begin :: "'a console_sys_scheme \<Rightarrow> 'a console_sys_scheme" where
  "console_input_style_begin s =
     (if \<not> co_ansi_enabled (con s) then s else console_write_raw (Some (ESC # ''[31m'')) s)"

definition console_input_style_end :: "'a console_sys_scheme \<Rightarrow> 'a console_sys_scheme" where
  "console_input_style_end s = (if \<not> co_ansi_enabled (con s) then s else console_reset_style s)"

definition console_read_line :: "nat \<Rightarrow> 'a console_sys_scheme \<Rightarrow> (bool \<times> string) \<times> 'a console_sys_scheme" where
  "console_read_line out_cap s =
     (if out_cap = 0 then ((False, []), s)
      else if \<not> co_reader (con s) then ((False, []), console_prompt_end (console_input_style_end s))
      else let (r, s1) = host_console_read_line out_cap s
           in (r, console_prompt_end (console_input_style_end s1)))"

definition MORE_PROMPT :: string where "MORE_PROMPT = ''-- more / mas: Enter --''"

definition console_pager_after_line :: "'a console_sys_scheme \<Rightarrow> 'a console_sys_scheme" where
  "console_pager_after_line s =
     (if \<not> co_pager_enabled (con s) \<or> co_pager_busy (con s) \<or> \<not> co_reader (con s) then s
      else
        let s1 = upd_con (\<lambda>c. c\<lparr>co_pager_line_count := co_pager_line_count c + 1\<rparr>) s
        in if co_pager_line_count (con s1) < co_pager_line_limit (con s1) then s1
           else
             let s2 = upd_con (\<lambda>c. c\<lparr>co_pager_busy := True\<rparr>) s1;
                 s3 = console_write_raw (Some MORE_PROMPT) s2;
                 s4 = snd (console_read_line 8 s3)
             in upd_con (\<lambda>c. c\<lparr>co_pager_line_count := 0, co_pager_busy := False\<rparr>) s4)"

definition console_write_line :: "cstr \<Rightarrow> 'a console_sys_scheme \<Rightarrow> 'a console_sys_scheme" where
  "console_write_line text s =
     (case text of None \<Rightarrow> s
      | Some t \<Rightarrow>
          if \<not> co_writer (con s) then s
          else
            let s1 = host_console_write t s;
                s2 = (if \<not> co_transcript_logging (con s1)
                      then upd_con (\<lambda>c. c\<lparr>co_transcript_logging := False\<rparr>)
                             (session_transcript_log_system_output t False
                               (upd_con (\<lambda>c. c\<lparr>co_transcript_logging := True\<rparr>) s1))
                      else s1)
            in console_pager_after_line s2)"

abbreviation say :: "string \<Rightarrow> 'a console_sys_scheme \<Rightarrow> 'a console_sys_scheme" where
  "say t \<equiv> console_write_line (Some t)"

text \<open>Several lines one after the other.\<close>

definition say_all :: "string list \<Rightarrow> 'a console_sys_scheme \<Rightarrow> 'a console_sys_scheme" where
  "say_all ts s = fold say ts s"

definition console_write_styled ::
  "vita_console_style \<Rightarrow> string \<Rightarrow> string \<Rightarrow> 'a console_sys_scheme \<Rightarrow> 'a console_sys_scheme" where
  "console_write_styled style prefix0 t s =
     (let line = (if prefix0 \<noteq> [] then str_append 256 (copy_text 256 prefix0) (Some t) else copy_text 256 t)
      in console_reset_style (say line (console_set_style style s)))"

definition console_write_en :: "string \<Rightarrow> 'a console_sys_scheme \<Rightarrow> 'a console_sys_scheme" where
  "console_write_en t = console_write_styled STYLE_EN [] t"
definition console_write_es :: "string \<Rightarrow> 'a console_sys_scheme \<Rightarrow> 'a console_sys_scheme" where
  "console_write_es t = console_write_styled STYLE_ES [] t"
definition console_write_error :: "string \<Rightarrow> 'a console_sys_scheme \<Rightarrow> 'a console_sys_scheme" where
  "console_write_error t s =
     console_write_styled STYLE_ERROR (if co_ansi_enabled (con s) then [] else ''[ERROR] '') t s"
definition console_write_ok :: "string \<Rightarrow> 'a console_sys_scheme \<Rightarrow> 'a console_sys_scheme" where
  "console_write_ok t s =
     console_write_styled STYLE_OK (if co_ansi_enabled (con s) then [] else ''[OK] '') t s"
definition console_write_warning :: "string \<Rightarrow> 'a console_sys_scheme \<Rightarrow> 'a console_sys_scheme" where
  "console_write_warning t s =
     console_write_styled STYLE_WARNING (if co_ansi_enabled (con s) then [] else ''[WARN] '') t s"
definition console_write_editor_text :: "string \<Rightarrow> 'a console_sys_scheme \<Rightarrow> 'a console_sys_scheme" where
  "console_write_editor_text t = console_write_styled STYLE_EDITOR_TEXT [] t"

definition console_clear_screen :: "'a console_sys_scheme \<Rightarrow> 'a console_sys_scheme" where
  "console_clear_screen s =
     (if co_clear (con s) then upd_con (\<lambda>c. c\<lparr>co_pager_line_count := 0\<rparr>) (host_console_clear s)
      else say_all ['''', ''----------------------------------------''] s)"

definition console_pager_begin :: "u64 \<Rightarrow> 'a console_sys_scheme \<Rightarrow> 'a console_sys_scheme" where
  "console_pager_begin page_lines =
     upd_con (\<lambda>c. c\<lparr>co_pager_enabled := True, co_pager_busy := False, co_pager_line_count := 0,
       co_pager_line_limit := (if page_lines \<noteq> 0 then page_lines else PAGE_LINES_DEFAULT)\<rparr>)"

definition console_pager_end :: "'a console_sys_scheme \<Rightarrow> 'a console_sys_scheme" where
  "console_pager_end =
     upd_con (\<lambda>c. c\<lparr>co_pager_enabled := False, co_pager_busy := False, co_pager_line_count := 0\<rparr>)"

section \<open>Screens\<close>

fun mode_name :: "vita_console_mode \<Rightarrow> string" where
  "mode_name MODE_BOOT = ''boot''"
| "mode_name MODE_GUIDED = ''guided''"
| "mode_name MODE_TECHNICAL = ''technical''"
| "mode_name MODE_EMERGENCY = ''emergency''"
| "mode_name MODE_AUDIT = ''audit''"
| "mode_name MODE_NODES = ''nodes''"
| "mode_name _ = ''unknown''"

definition console_write_kv :: "string \<Rightarrow> string \<Rightarrow> 'a console_sys_scheme \<Rightarrow> 'a console_sys_scheme" where
  "console_write_kv key val = say (str_append 192 (copy_text 192 key) (Some val))"

definition console_write_kv_u32 :: "string \<Rightarrow> u32 \<Rightarrow> 'a console_sys_scheme \<Rightarrow> 'a console_sys_scheme" where
  "console_write_kv_u32 key val = console_write_kv key (u32_to_dec val)"

definition console_banner :: "vita_boot_status option \<Rightarrow> 'a console_sys_scheme \<Rightarrow> 'a console_sys_scheme" where
  "console_banner status s =
     (let s1 = console_write_ok ''Boot: OK'' (console_write_es ''VitaOS con IA'' (console_write_en ''VitaOS with AI /'' s));
          arch = (case Option.bind status bs_arch_name of None \<Rightarrow> [] | Some a \<Rightarrow> a);
          s2 = (if arch \<noteq> [] then say (str_append 96 (copy_text 96 ''Arch: '') (Some arch)) s1
                else console_write_warning ''Arch: unknown'' s1);
          s3 = (if (case status of None \<Rightarrow> False | Some b \<Rightarrow> bs_console_ready b)
                then console_write_ok ''Console: OK'' s2 else console_write_warning ''Console: MISSING'' s2)
      in if (case status of None \<Rightarrow> False | Some b \<Rightarrow> bs_audit_ready b)
         then console_write_ok ''Audit SQLite: READY'' (console_write_ok ''Audit journal: OK'' s3)
         else console_write_warning ''Audit SQLite: UNAVAILABLE''
                (console_write_ok ''Audit journal: OK/WARN (depends on storage+journal runtime)'' s3))"

definition console_guided_show_welcome :: "vita_console_state option \<Rightarrow> 'a console_sys_scheme \<Rightarrow> 'a console_sys_scheme" where
  "console_guided_show_welcome state s =
     (let on = (\<lambda>f. case state of None \<Rightarrow> False | Some c \<Rightarrow> f c);
          s1 = say_all [''VitaOS with AI / VitaOS con IA'', '''', ''Status / Estado:'', ''- Boot: OK'',
                 ''- Audit journal TXT/JSONL: runtime-check / verificacion en tiempo real'',
                 (if on cs_audit_ready then ''- Audit SQLite: READY / Auditoria SQLite: LISTA''
                  else ''- Audit SQLite: UNAVAILABLE / Auditoria SQLite: NO DISPONIBLE''),
                 (if on cs_console_ready then ''- Guided console: READY / Consola guiada: LISTA''
                  else ''- Guided console: OFFLINE / Consola guiada: FUERA DE LINEA''),
                 (if on cs_proposal_engine_ready then ''- Proposal engine: READY / Motor de propuestas: LISTO''
                  else ''- Proposal engine: OFFLINE / Motor de propuestas: FUERA DE LINEA''),
                 (if on cs_node_core_ready then ''- VitaNet hosted: READY / VitaNet hosted: LISTO''
                  else ''- VitaNet hosted: LIMITED / VitaNet hosted: LIMITADO'')] s;
          s2 = (case state of None \<Rightarrow> s1
                | Some c \<Rightarrow>
                    console_write_kv_u32 ''Pending proposals / Propuestas pendientes: '' (cs_pending_proposal_count c)
                    (console_write_kv_u32 ''Peers / Nodos detectados: '' (cs_peer_count c)
                    (console_write_kv ''Language / Idioma: '' (safe_text (cs_language_mode c) ''es,en'')
                    (console_write_kv ''Boot mode / Modo de arranque: '' (safe_text (cs_boot_mode c) ''unknown'')
                    (console_write_kv ''Mode / Modo: '' (mode_name (cs_mode c))
                    (console_write_kv ''Arch / Arquitectura: '' (safe_text (cs_arch_name c) ''unknown'') s1))))))
      in say_all ['''', ''I can help you with / Puedo ayudarte con:'',
           ''1. Emergency assistance / Asistencia de emergencia'',
           ''2. Hardware and system status / Estado de hardware y sistema'',
           ''3. Cooperative nodes / Nodos cooperativos'',
           ''4. Audit review / Revision de auditoria'',
           ''5. Technical console / Consola tecnica'', '''',
           ''Describe what happened or choose an option.'',
           ''Describe que paso o elige una opcion.''] s2)"

definition console_guided_show_menu :: "'a console_sys_scheme \<Rightarrow> 'a console_sys_scheme" where
  "console_guided_show_menu =
     say_all [''Menu / Menu:'', ''- status'', ''- hw'', ''- audit'', ''- storage status'', ''- peers'', ''- proposals'',
       ''- selftest'', ''- diagnostic'', ''- export vitair'', ''- export vitair-state'', ''- linux countdown'',
       ''- emergency'', ''- helpme'', ''- clear'', ''- approve <id>'', ''- reject <id>'', ''- shutdown'']"

definition console_guided_show_help :: "'a console_sys_scheme \<Rightarrow> 'a console_sys_scheme" where
  "console_guided_show_help =
     say_all [''Help / Ayuda:'',
       ''status      -> show current guided status'',
       ''hw          -> show hardware summary when available'',
       ''audit       -> show audit readiness and restricted-mode note'',
       ''storage status -> show storage readiness summary'',
       ''peers       -> show cooperative nodes summary'',
       ''proposals   -> list current system proposals'',
       ''selftest    -> run local self-check and export report'',
       ''diagnostic  -> export local diagnostic bundle'',
       ''export vitair -> export VitaIR-Tri report'',
       ''export vitair-state -> alias of export vitair'',
       ''linux countdown -> safe preview of planned Linux-assisted countdown'',
       ''emergency   -> enter emergency-oriented flow'',
       ''helpme      -> show this help and guided menu'',
       ''clear       -> clear screen and redraw guided header'',
       ''approve ID  -> approve a proposal'',
       ''reject ID   -> reject a proposal'',
       ''shutdown    -> stop current command session'',
       ''Keys / Teclas: Up/Down history in UEFI, Enter continues paging.'']"

definition console_guided_show_status :: "vita_console_state option \<Rightarrow> 'a console_sys_scheme \<Rightarrow> 'a console_sys_scheme" where
  "console_guided_show_status state s =
     (let s1 = say ''Guided status / Estado guiado:'' s in
      case state of None \<Rightarrow> say ''No state available / No hay estado disponible'' s1
      | Some c \<Rightarrow>
          let s2 = console_write_kv ''Language: '' (safe_text (cs_language_mode c) ''es,en'')
                   (console_write_kv ''Boot mode: '' (safe_text (cs_boot_mode c) ''unknown'')
                   (console_write_kv ''Mode: '' (mode_name (cs_mode c))
                   (console_write_kv ''Arch: '' (safe_text (cs_arch_name c) ''unknown'') s1)));
              s3 = say_all
                   [(if cs_console_ready c then ''Console: OK'' else ''Console: MISSING''),
                    (if cs_audit_ready c then ''Audit SQLite: READY'' else ''Audit SQLite: UNAVAILABLE''),
                    (if cs_proposal_engine_ready c then ''Proposal engine: READY'' else ''Proposal engine: OFFLINE''),
                    (if cs_node_core_ready c then ''Node core: READY'' else ''Node core: LIMITED'')] s2
          in console_write_kv_u32 ''Pending proposals: '' (cs_pending_proposal_count c)
             (console_write_kv_u32 ''Peers discovered: '' (cs_peer_count c) s3))"

definition console_guided_prompt :: "'a console_sys_scheme \<Rightarrow> 'a console_sys_scheme" where
  "console_guided_prompt s =
     console_input_style_begin (console_write_raw (Some ''> '') (console_prompt_begin s))"

section \<open>Logging leaves the console and the terminal alone\<close>

lemma con_host [simp]:
  "con (fs_put k n s) = con s" "con (ticked s) = con s" "con (storage_set_error e s) = con s"
  "con (snd (mkdir p s)) = con s" "con (upd_jrn f s) = con s" "con (upd_trn g s) = con s"
  "con (upd_con h s) = h (con s)" "con (emit_out ev s) = con s"
  by (simp_all add: fs_put_def ticked_def storage_set_error_def mkdir_def upd_jrn_def upd_trn_def upd_con_def
      emit_out_def Let_def)

lemma con_parent_dirs [simp]: "con (parent_dirs_loop d cs s) = con s"
  by (induction cs arbitrary: d s) simp_all

lemma con_storage [simp]:
  "con (snd (storage_write_text p t s)) = con s" "con (snd (storage_read_text p cap s)) = con s"
  by (simp_all add: storage_write_text_def hosted_write_text_def hosted_ensure_parent_dirs_def fopen_wb_def
      fwrite_close_def storage_read_text_def hosted_read_text_def Let_def case_prod_beta split: option.splits)

lemma con_journal_flush [simp]: "con (snd (session_journal_flush s)) = con s"
  by (simp add: session_journal_flush_def Let_def case_prod_beta)

lemma con_journal [simp]:
  "con (journal_add_event ty t b s) = con s" "con (session_journal_log_system e t s) = con s"
  by (simp_all add: session_journal_log_system_def journal_add_event_def Let_def case_prod_beta)

lemma con_flushv [simp]: "con (snd (flushv s)) = con s"
  by (simp add: flushv_def Let_def case_prod_beta)

lemma con_rotate [simp]: "con (snd (rotate_jsonl_part s)) = con s"
  by (simp add: rotate_jsonl_part_def Let_def case_prod_beta)

lemma con_event_jsonl [simp]: "con (snd (event_jsonl t a x s)) = con s"
  by (simp add: event_jsonl_def Let_def case_prod_beta)

lemma con_event [simp]: "con (event t a x s) = con s"
  by (simp add: event_def mark_transcript_error_once_def Let_def case_prod_beta)

lemma con_log_output [simp]: "con (session_transcript_log_system_output t r s) = con s"
  by (simp add: session_transcript_log_system_output_def Let_def)

text \<open>The same for what the terminal shows and what is waiting to be read.\<close>

lemma term_storage [simp]:
  "h_stdin (snd (storage_write_text p t s)) = h_stdin s" "h_stdin (snd (storage_read_text p cap s)) = h_stdin s"
  by (simp_all add: storage_write_text_def hosted_write_text_def fopen_wb_def
      fwrite_close_def storage_read_text_def hosted_read_text_def Let_def case_prod_beta split: option.splits)

lemma term_upd_jrn [simp]: "h_stdin (upd_jrn f s) = h_stdin s"
  by (simp add: upd_jrn_def)

lemma term_upd [simp]:
  "h_stdin (upd_con g s) = h_stdin s" "h_out (upd_con g s) = h_out s"
  by (simp_all add: upd_con_def)

lemma term_journal_flush [simp]: "h_stdin (snd (session_journal_flush s)) = h_stdin s"
  by (simp add: session_journal_flush_def Let_def case_prod_beta)

lemma term_journal [simp]:
  "h_stdin (journal_add_event ty t b s) = h_stdin s" "h_out (journal_add_event ty t b s) = h_out s"
  "h_stdin (session_journal_log_system e t s) = h_stdin s" "h_out (session_journal_log_system e t s) = h_out s"
  by (simp_all add: session_journal_log_system_def journal_add_event_def Let_def case_prod_beta)

lemma term_flushv [simp]: "h_stdin (snd (flushv s)) = h_stdin s" "h_out (snd (flushv s)) = h_out s"
  by (simp_all add: flushv_def Let_def case_prod_beta)

lemma term_rotate [simp]:
  "h_stdin (snd (rotate_jsonl_part s)) = h_stdin s" "h_out (snd (rotate_jsonl_part s)) = h_out s"
  by (simp_all add: rotate_jsonl_part_def Let_def case_prod_beta)

lemma term_event_jsonl [simp]:
  "h_stdin (snd (event_jsonl t a x s)) = h_stdin s" "h_out (snd (event_jsonl t a x s)) = h_out s"
  by (simp_all add: event_jsonl_def Let_def case_prod_beta)

lemma term_event [simp]: "h_stdin (event t a x s) = h_stdin s" "h_out (event t a x s) = h_out s"
  by (simp_all add: event_def mark_transcript_error_once_def Let_def case_prod_beta)

lemma term_log_output [simp]:
  "h_stdin (session_transcript_log_system_output t r s) = h_stdin s"
  "h_out (session_transcript_log_system_output t r s) = h_out s"
  by (simp_all add: session_transcript_log_system_output_def Let_def)

section \<open>Lines and pages\<close>

text \<open>A console as the hosted entry binds it, between two lines.\<close>

definition bound_console :: "console_vars \<Rightarrow> bool" where
  "bound_console c \<longleftrightarrow> co_writer c \<and> co_raw_writer c \<and> co_reader c \<and> \<not> co_transcript_logging c \<and> \<not> co_pager_busy c"

lemma write_raw_bound:
  "co_raw_writer (con s) \<Longrightarrow> h_out (console_write_raw (Some t) s) = h_out s @ [OutRaw t]"
  "con (console_write_raw x s) = con s"
  by (simp_all add: console_write_raw_def host_console_write_raw_def host_console_write_def emit_out_def split: option.splits)

lemma reset_style_sel [simp]: "con (console_reset_style s) = con s"
  by (simp add: console_reset_style_def write_raw_bound)

lemma read_line_con [simp]: "con (snd (console_read_line cap s)) = con s"
  by (simp add: console_read_line_def console_prompt_end_def console_input_style_end_def host_console_read_line_def
      case_prod_beta Let_def)

definition is_more :: "out_event \<Rightarrow> bool" where
  "is_more e = (e = OutRaw MORE_PROMPT)"

lemma not_more [simp]: "\<not> is_more (OutRaw (ESC # t))" "\<not> is_more (OutLine t)"
  by (simp_all add: is_more_def MORE_PROMPT_def)

text \<open>The prompts and the lines that a call added to the trace.\<close>

definition more_count :: "'a host_scheme \<Rightarrow> nat" where
  "more_count s = length (filter is_more (h_out s))"

fun line_of :: "out_event \<Rightarrow> string list" where
  "line_of (OutLine t) = [t]"
| "line_of _ = []"

definition lines_out :: "'a host_scheme \<Rightarrow> string list" where
  "lines_out s = concat (map line_of (h_out s))"

lemma style_end_trace:
  assumes "co_raw_writer (con s)"
  shows "more_count (console_prompt_end (console_input_style_end s)) = more_count s"
    "lines_out (console_prompt_end (console_input_style_end s)) = lines_out s"
  using assms
  by (simp_all add: console_prompt_end_def console_input_style_end_def console_reset_style_def
      write_raw_bound more_count_def lines_out_def)

lemma read_line_trace:
  assumes "co_raw_writer (con s)"
  shows "more_count (snd (console_read_line cap s)) = more_count s"
    "lines_out (snd (console_read_line cap s)) = lines_out s"
proof -
  have k: "con (snd (host_console_read_line cap s)) = con s" "h_out (snd (host_console_read_line cap s)) = h_out s"
    by (simp_all add: host_console_read_line_def case_prod_beta Let_def)
  show "more_count (snd (console_read_line cap s)) = more_count s"
    "lines_out (snd (console_read_line cap s)) = lines_out s"
    using assms k
    by (simp_all add: console_read_line_def case_prod_beta style_end_trace)
      (simp_all add: more_count_def lines_out_def)
qed

lemma say_line:
  assumes "bound_console (con s)"
  defines "c \<equiv> con s"
  shows "lines_out (say t s) = lines_out s @ [t]"
    and "con (say t s) =
      (if \<not> co_pager_enabled c then c
       else if co_pager_line_count c + 1 < co_pager_line_limit c
       then c\<lparr>co_pager_line_count := co_pager_line_count c + 1\<rparr>
       else c\<lparr>co_pager_line_count := 0\<rparr>)"
    and "more_count (say t s) = more_count s +
      (if co_pager_enabled c \<and> \<not> co_pager_line_count c + 1 < co_pager_line_limit c then 1 else 0)"
proof -
  define s1 where "s1 = host_console_write t s"
  define s2 where "s2 = upd_con (\<lambda>c. c\<lparr>co_transcript_logging := False\<rparr>)
      (session_transcript_log_system_output t False (upd_con (\<lambda>c. c\<lparr>co_transcript_logging := True\<rparr>) s1))"
  have b: "co_writer c" "co_raw_writer c" "co_reader c" "\<not> co_transcript_logging c" "\<not> co_pager_busy c"
    using assms by (auto simp: bound_console_def)
  have c1: "con s1 = c" by (simp add: s1_def host_console_write_def c_def)
  have c2: "con s2 = c"
    using b c1 by (simp add: s2_def)
  have o2: "h_out s2 = h_out s @ [OutLine t]"
    by (simp add: s2_def s1_def host_console_write_def) (simp add: emit_out_def)
  have say: "say t s = console_pager_after_line s2"
    using b c1 by (simp add: console_write_line_def s1_def [symmetric] s2_def c_def [symmetric] Let_def)
  have base: "lines_out s2 = lines_out s @ [t]" "more_count s2 = more_count s"
    by (simp_all add: lines_out_def more_count_def o2)
  let ?s3 = "upd_con (\<lambda>c. c\<lparr>co_pager_busy := True\<rparr>) (upd_con (\<lambda>c. c\<lparr>co_pager_line_count := co_pager_line_count c + 1\<rparr>) s2)"
  let ?s4 = "console_write_raw (Some MORE_PROMPT) ?s3"
  have r4: "co_raw_writer (con ?s3)" using b c2 by simp
  have o4: "lines_out ?s4 = lines_out s2" "more_count ?s4 = more_count s2 + 1" "con ?s4 = con ?s3"
    using r4 by (simp_all add: lines_out_def more_count_def write_raw_bound is_more_def)
  have o5: "lines_out (snd (console_read_line 8 ?s4)) = lines_out s2"
    "more_count (snd (console_read_line 8 ?s4)) = more_count s2 + 1" "con (snd (console_read_line 8 ?s4)) = con ?s3"
    using read_line_trace [of ?s4 8] r4 o4 by simp_all
  have res: "console_pager_after_line s2 =
      (if \<not> co_pager_enabled c then s2
       else if co_pager_line_count c + 1 < co_pager_line_limit c
       then upd_con (\<lambda>c. c\<lparr>co_pager_line_count := co_pager_line_count c + 1\<rparr>) s2
       else upd_con (\<lambda>c. c\<lparr>co_pager_line_count := 0, co_pager_busy := False\<rparr>) (snd (console_read_line 8 ?s4)))"
    using b c2 by (simp add: console_pager_after_line_def Let_def)
  have u: "lines_out (upd_con f x) = lines_out x" "more_count (upd_con f x) = more_count x" for f and x :: "'a console_sys_scheme"
    by (simp_all add: lines_out_def more_count_def)
  show "lines_out (say t s) = lines_out s @ [t]"
    using base o5 by (simp add: say res u)
  show "con (say t s) =
      (if \<not> co_pager_enabled c then c
       else if co_pager_line_count c + 1 < co_pager_line_limit c
       then c\<lparr>co_pager_line_count := co_pager_line_count c + 1\<rparr>
       else c\<lparr>co_pager_line_count := 0\<rparr>)"
    using c2 o5(3) b by (simp add: say res)
  show "more_count (say t s) = more_count s +
      (if co_pager_enabled c \<and> \<not> co_pager_line_count c + 1 < co_pager_line_limit c then 1 else 0)"
    using base o5 by (simp add: say res u)
qed

lemma say_all_snoc: "say_all (ts @ [t]) s = say t (say_all ts s)"
  by (simp add: say_all_def)

lemma say_all_pages:
  assumes "bound_console (con s)" "co_pager_enabled (con s)" "co_pager_line_count (con s) = 0"
    and "0 < co_pager_line_limit (con s)"
  defines "L \<equiv> unat (co_pager_line_limit (con s))"
  shows "lines_out (say_all ts s) = lines_out s @ ts \<and>
    con (say_all ts s) = (con s)\<lparr>co_pager_line_count := of_nat (length ts mod L)\<rparr> \<and>
    more_count (say_all ts s) = more_count s + length ts div L"
proof (induction ts rule: rev_induct)
  case Nil
  then show ?case using assms(3) by (simp add: say_all_def)
next
  case (snoc t ts)
  let ?s = "say_all ts s" and ?n = "length ts"
  have L: "0 < L" using assms(4) by (simp add: L_def word_greater_zero_iff unat_gt_0)
  have b: "bound_console (con ?s)" using snoc assms(1) by (simp add: bound_console_def)
  have lt: "?n mod L < L" using L by simp
  have "L < 2 ^ 64" unfolding L_def using unsigned_less [of "co_pager_line_limit (con s)"] by simp
  then have cnt: "unat (of_nat (Suc (?n mod L)) :: u64) = Suc (?n mod L) \<or> Suc (?n mod L) = L"
    using lt by (auto simp: unsigned_of_nat take_bit_nat_eq_self_iff simp del: of_nat_Suc)
  have cmp: "(of_nat (?n mod L) :: u64) + 1 < co_pager_line_limit (con s) \<longleftrightarrow> Suc (?n mod L) < L"
  proof (cases "Suc (?n mod L) = L")
    case True
    then have "(of_nat (?n mod L) :: u64) + 1 = of_nat L" by (metis of_nat_Suc add.commute)
    also have "\<dots> = co_pager_line_limit (con s)" by (simp add: L_def)
    finally show ?thesis using True by simp
  next
    case False
    then have "unat ((of_nat (?n mod L) :: u64) + 1) = Suc (?n mod L)" using cnt by (simp add: add.commute)
    then show ?thesis by (simp add: word_less_nat_alt L_def)
  qed
  have "Suc ?n mod L = (if Suc (?n mod L) < L then Suc (?n mod L) else 0)"
    using lt by (auto simp: mod_Suc)
  moreover have "Suc ?n div L = (if Suc (?n mod L) < L then ?n div L else ?n div L + 1)"
    using lt by (auto simp: div_Suc mod_Suc)
  ultimately show ?case
    using snoc say_line [OF b, of t] assms(2) cmp by (simp add: say_all_snoc add.commute)
qed

section \<open>Properties\<close>

text \<open>
  Paging. After \<open>console_pager_begin p\<close>, printing any lines on a bound console shows exactly these
  lines in order and stops for Enter once after every \<open>p\<close> lines (22 when \<open>p\<close> is 0), whatever the
  transcript does behind them.
\<close>

theorem console_pager_prompts:
  assumes "co_writer (con s)" "co_raw_writer (con s)" "co_reader (con s)" "\<not> co_transcript_logging (con s)"
  shows "let s' = say_all ts (console_pager_begin p s); L = (if p \<noteq> 0 then unat p else 22) in
    lines_out s' = lines_out s @ ts \<and> more_count s' = more_count s + length ts div L"
proof -
  let ?s = "console_pager_begin p s"
  have c: "con ?s = (con s)\<lparr>co_pager_enabled := True, co_pager_busy := False, co_pager_line_count := 0,
       co_pager_line_limit := (if p \<noteq> 0 then p else PAGE_LINES_DEFAULT)\<rparr>"
    by (simp add: console_pager_begin_def)
  have o: "lines_out ?s = lines_out s" "more_count ?s = more_count s"
    by (simp_all add: console_pager_begin_def lines_out_def more_count_def)
  have "0 < co_pager_line_limit (con ?s)"
    by (simp add: c PAGE_LINES_DEFAULT_def word_greater_zero_iff)
  then show ?thesis
    using say_all_pages [of ?s ts] assms by (simp add: c o bound_console_def PAGE_LINES_DEFAULT_def)
qed

definition demo_console :: console_sys where
  "demo_console = transcript_sys.extend demo_transcript
     (console_sys.fields (zero_console\<lparr>co_writer := True, co_raw_writer := True, co_reader := True, co_clear := True\<rparr>))"

lemma demo_console_bound: "co_writer (con demo_console)" "co_raw_writer (con demo_console)" "co_reader (con demo_console)"
    "\<not> co_transcript_logging (con demo_console)"
  by (simp_all add: demo_console_def transcript_sys.defs console_sys.defs zero_console_def)

lemma console_pager_prompts_witness:
  "more_count (say_all [''a'', ''b'', ''c''] (console_pager_begin 2 demo_console)) = more_count demo_console + 1"
  using console_pager_prompts [OF demo_console_bound, of "[''a'', ''b'', ''c'']" 2] by (simp add: Let_def)

end
