(* ===== verification/Quiet.thy ===== *)
theory Quiet
  imports Console
begin

text \<open>
  What writing to the logs and to the terminal leaves alone. An observation of the state that no
  storage write, storage error or log state reaches is the same after every log entry
  (\<open>log_quiet\<close>); when also the trace, the input and the console flags do not reach it, it is the same
  after every line printed or read (\<open>talk_quiet\<close>). An observation that does not depend on the file
  table at all is one of those (\<open>host_quiet\<close>, \<open>mute\<close>). The interpretations: the storage flags, the
  audit state, its database, the components declared after the console, and the files outside the
  storage tree.
\<close>

locale log_quiet =
  fixes obs :: "'a console_sys_scheme \<Rightarrow> 'b"
  assumes obs_write: "obs (snd (storage_write_text p t s)) = obs s"
    and obs_repair: "obs (snd (storage_tree_repair s)) = obs s"
    and obs_error: "obs (storage_set_error e s) = obs s"
    and obs_jrn: "obs (upd_jrn f s) = obs s"
    and obs_trn: "obs (upd_trn g s) = obs s"
begin

lemma obs_field: "obs (s\<lparr>trn := x\<rparr>) = obs s" "obs (s\<lparr>jrn := y\<rparr>) = obs s"
  using obs_trn [of "\<lambda>_. x" s] obs_jrn [of "\<lambda>_. y" s] by (simp_all add: upd_trn_def upd_jrn_def)

lemmas obs_host = obs_error obs_jrn obs_trn obs_field

lemma obs_read: "obs (snd (storage_read_text p cap s)) = obs s"
  by (simp add: storage_read_text_def hosted_read_text_def Let_def obs_host split: option.splits)

lemmas obs_storage = obs_write obs_read

lemma obs_journal_flush: "obs (snd (session_journal_flush s)) = obs s"
  by (simp add: session_journal_flush_def Let_def case_prod_beta obs_host obs_storage journal_set_error_def)

lemma obs_journal:
  "obs (journal_add_event ty t b s) = obs s" "obs (session_journal_log_system e t s) = obs s"
  by (simp_all add: session_journal_log_system_def journal_add_event_def Let_def case_prod_beta obs_journal_flush obs_host)

lemma obs_flushv: "obs (snd (flushv s)) = obs s"
  by (simp add: flushv_def Let_def case_prod_beta obs_storage)

lemma obs_rotate: "obs (snd (rotate_jsonl_part s)) = obs s"
  by (simp add: rotate_jsonl_part_def Let_def case_prod_beta obs_storage obs_host obs_flushv)

lemma obs_event_jsonl: "obs (snd (event_jsonl t a x s)) = obs s"
  by (simp add: event_jsonl_def Let_def case_prod_beta obs_rotate obs_host)

lemma obs_event: "obs (event t a x s) = obs s"
  by (simp add: event_def mark_transcript_error_once_def Let_def case_prod_beta obs_event_jsonl obs_flushv obs_journal obs_host)

lemma obs_log_output: "obs (session_transcript_log_system_output t r s) = obs s"
  by (simp add: session_transcript_log_system_output_def Let_def obs_event obs_host)

lemmas obs_log = obs_host obs_storage obs_repair obs_journal obs_journal_flush obs_event obs_log_output

end

locale talk_quiet = log_quiet +
  assumes obs_out: "obs (emit_out ev s) = obs s"
    and obs_con: "obs (upd_con h s) = obs s"
    and obs_stdin: "obs (s\<lparr>h_stdin := l\<rparr>) = obs s"
begin

lemma obs_raw: "obs (console_write_raw t s) = obs s"
  by (simp add: console_write_raw_def host_console_write_raw_def host_console_write_def obs_out split: option.splits)

lemma obs_style:
  "obs (console_set_style st s) = obs s" "obs (console_reset_style s) = obs s" "obs (console_prompt_begin s) = obs s"
  "obs (console_input_style_begin s) = obs s" "obs (console_prompt_end s) = obs s" "obs (console_input_style_end s) = obs s"
  by (simp_all add: console_set_style_def console_reset_style_def console_prompt_begin_def console_prompt_end_def
      console_input_style_begin_def console_input_style_end_def obs_raw)

lemma obs_read_line: "obs (snd (console_read_line cap s)) = obs s"
  by (simp add: console_read_line_def host_console_read_line_def case_prod_beta Let_def obs_style obs_stdin)

lemma obs_pager:
  "obs (console_pager_after_line s) = obs s" "obs (console_pager_begin n s) = obs s" "obs (console_pager_end s) = obs s"
  by (simp_all add: console_pager_after_line_def console_pager_begin_def console_pager_end_def Let_def obs_con obs_raw obs_read_line)

lemma obs_line: "obs (console_write_line t s) = obs s"
  by (simp add: console_write_line_def host_console_write_def Let_def obs_pager obs_con obs_out obs_log_output
      split: option.splits)

lemma obs_say_all: "obs (say_all ts s) = obs s"
  by (induction ts arbitrary: s) (simp_all add: say_all_def obs_line)

lemma obs_kv: "obs (console_write_kv k v s) = obs s" "obs (console_write_kv_u32 k w s) = obs s"
  by (simp_all add: console_write_kv_u32_def console_write_kv_def obs_line)

lemma obs_clear: "obs (console_clear_screen s) = obs s"
  by (simp add: console_clear_screen_def host_console_clear_def obs_con obs_out obs_say_all)

lemma obs_styled: "obs (console_write_styled st p t s) = obs s"
  by (simp add: console_write_styled_def Let_def obs_style obs_line)

lemmas obs_talk = obs_log obs_raw obs_style obs_read_line obs_pager obs_line obs_say_all obs_kv obs_clear obs_styled

end

text \<open>A part of the state that the file table and the tick do not reach.\<close>

locale host_quiet =
  fixes obs :: "'a console_sys_scheme \<Rightarrow> 'b"
  assumes obs_put: "obs (fs_put k n s) = obs s"
    and obs_tick: "obs (ticked s) = obs s"
    and obs_set_error: "obs (storage_set_error e s) = obs s"
    and obs_upd_jrn: "obs (upd_jrn f s) = obs s"
    and obs_upd_trn: "obs (upd_trn g s) = obs s"
begin

lemmas obs_base = obs_put obs_tick obs_set_error

lemma obs_mkdir: "obs (snd (mkdir p s)) = obs s"
  by (simp add: mkdir_def Let_def obs_base)

lemma obs_parent_dirs: "obs (parent_dirs_loop d cs s) = obs s"
  by (induction cs arbitrary: d s) (simp_all add: obs_mkdir)

lemma obs_write_text: "obs (snd (storage_write_text p t s)) = obs s"
  by (simp add: storage_write_text_def hosted_write_text_def hosted_ensure_parent_dirs_def fopen_wb_def fwrite_close_def
      Let_def case_prod_beta obs_base obs_parent_dirs split: option.splits)

lemma obs_repair_loop: "obs (snd (repair_loop ds s)) = obs s"
  by (induction ds arbitrary: s)
    (simp_all add: storage_ensure_directory_def hosted_ensure_dir_path_def hosted_ensure_parent_dirs_def
      Let_def case_prod_beta obs_base obs_parent_dirs obs_mkdir)

lemma obs_tree_repair: "obs (snd (storage_tree_repair s)) = obs s"
  by (simp add: storage_tree_repair_def obs_repair_loop)

end

sublocale host_quiet \<subseteq> log_quiet
  by unfold_locales (rule obs_write_text obs_tree_repair obs_set_error obs_upd_jrn obs_upd_trn)+

locale mute = host_quiet +
  assumes obs_emit: "obs (emit_out ev s) = obs s"
    and obs_upd_con: "obs (upd_con h s) = obs s"
    and obs_input: "obs (s\<lparr>h_stdin := l\<rparr>) = obs s"

sublocale mute \<subseteq> talk_quiet
  by unfold_locales (rule obs_emit obs_upd_con obs_input)+

text \<open>The storage flags.\<close>

definition storage_flags :: "'a storage_sys_scheme \<Rightarrow> storage_state" where
  "storage_flags s = (sto s)\<lparr>st_last_error := []\<rparr>"

lemma storage_flags_sel:
  "storage_flags s = storage_flags s' \<Longrightarrow>
     st_initialized (sto s) = st_initialized (sto s') \<and> st_writable (sto s) = st_writable (sto s') \<and>
     st_bootstrap_attempted (sto s) = st_bootstrap_attempted (sto s') \<and>
     st_bootstrap_verified (sto s) = st_bootstrap_verified (sto s')"
  by (cases "sto s"; cases "sto s'") (simp add: storage_flags_def)

lemma storage_flags_error [simp]: "storage_flags (storage_set_error e s) = storage_flags s"
  by (simp add: storage_flags_def storage_set_error_def)

interpretation sf: mute storage_flags
  by unfold_locales
    (simp_all add: storage_flags_def fs_put_def ticked_def storage_set_error_def upd_jrn_def upd_trn_def upd_con_def emit_out_def)

declare sf.obs_talk [simp]

interpretation aq: mute aud
  by unfold_locales
    (simp_all add: fs_put_def ticked_def storage_set_error_def upd_jrn_def upd_trn_def upd_con_def emit_out_def)

interpretation dbq: mute h_db
  by unfold_locales
    (simp_all add: fs_put_def ticked_def storage_set_error_def upd_jrn_def upd_trn_def upd_con_def emit_out_def)

interpretation appq: mute console_sys.more
  by unfold_locales
    (simp_all add: fs_put_def ticked_def storage_set_error_def upd_jrn_def upd_trn_def upd_con_def emit_out_def)

text \<open>What decides whether the host's calls succeed.\<close>

definition host_oracles ::
  "'a host_scheme \<Rightarrow> (fs_path \<Rightarrow> bool) \<times> (fs_path \<Rightarrow> bool) \<times> (nat \<Rightarrow> nat option) \<times> (nat \<Rightarrow> nat option)" where
  "host_oracles s = (h_read_only s, h_unreadable s, h_accepted s, h_survived s)"

interpretation hq: mute host_oracles
  by unfold_locales
    (simp_all add: host_oracles_def fs_put_def ticked_def storage_set_error_def upd_jrn_def upd_trn_def upd_con_def emit_out_def)

text \<open>The files and directories outside the tree.\<close>

definition outside_files :: "'a host_scheme \<Rightarrow> fs_path \<Rightarrow> fs_node option" where
  "outside_files s k = (if outside_tree k then fs_lookup s k else None)"

lemma outside_write: "outside_files (snd (storage_write_text p t s)) = outside_files s"
proof (cases "storage_is_ready s \<and> path_allowed p")
  case True
  then show ?thesis
    by (cases p) (auto simp: storage_write_text_def storage_is_ready_def outside_files_def hosted_write_elsewhere
        split: option.splits)
next
  case False
  then show ?thesis using storage_write_refused [of s p t]
    by (auto simp: storage_is_ready_def outside_files_def fs_lookup_def)
qed

lemma outside_target:
  "path_allowed (Some p) \<Longrightarrow> outside_tree k \<Longrightarrow> \<not> prefix k (host_target p)"
  using prefix_of_target by (auto simp: outside_tree_def)

lemma outside_repair_loop:
  "list_all (\<lambda>d. path_allowed (Some d)) ds \<Longrightarrow> outside_files (snd (repair_loop ds s)) = outside_files s"
proof (induction ds arbitrary: s)
  case Nil
  then show ?case by simp
next
  case (Cons d ds)
  have "outside_files (snd (storage_ensure_directory d s)) = outside_files s"
  proof
    fix k
    show "outside_files (snd (storage_ensure_directory d s)) k = outside_files s k"
      using outside_target [of d k] Cons.prems
      by (auto simp: outside_files_def storage_ensure_directory_def hosted_ensure_dir_path_def Let_def case_prod_beta
          mkdir_lookup ensure_parent_dirs_elsewhere)
  qed
  then show ?case using Cons by (simp add: Let_def case_prod_beta)
qed

interpretation oq: talk_quiet outside_files
proof unfold_locales
  fix s :: "'a console_sys_scheme" and e f g ev h l p t
  show "outside_files (snd (storage_write_text p t s)) = outside_files s" by (rule outside_write)
  show "outside_files (snd (storage_tree_repair s)) = outside_files s"
    unfolding storage_tree_repair_def by (rule outside_repair_loop [OF expected_dirs_allowed])
qed (simp_all add: outside_files_def fs_lookup_def storage_set_error_def upd_jrn_def upd_trn_def upd_con_def emit_out_def fun_eq_iff)

declare hq.obs_talk [simp] oq.obs_talk [simp]
declare aq.obs_talk [simp] dbq.obs_talk [simp] appq.obs_talk [simp]

section \<open>Printing while no session is logged\<close>

lemma trn_terminal: "trn (upd_con h s) = trn s" "trn (emit_out ev s) = trn s"
  by (simp_all add: upd_con_def emit_out_def)

text \<open>With the transcript closed a line reaches only the trace, the pager and the last logged text.\<close>

locale print_quiet =
  fixes obs :: "'a console_sys_scheme \<Rightarrow> 'b"
  assumes obs_out: "obs (emit_out ev s) = obs s"
    and obs_con: "obs (upd_con h s) = obs s"
    and obs_stdin: "obs (s\<lparr>h_stdin := l\<rparr>) = obs s"
    and obs_last: "obs (upd_trn (\<lambda>g. g\<lparr>tr_last_text := x\<rparr>) s) = obs s"
begin

lemma obs_raw: "obs (console_write_raw t s) = obs s"
  by (simp add: console_write_raw_def host_console_write_raw_def host_console_write_def obs_out split: option.splits)

lemma obs_pager: "obs (console_pager_after_line s) = obs s"
  by (simp add: console_pager_after_line_def Let_def obs_con obs_raw console_read_line_def host_console_read_line_def
      case_prod_beta obs_stdin console_prompt_end_def console_input_style_end_def console_reset_style_def)

lemma obs_log_inactive:
  "\<not> tr_active (trn s) \<Longrightarrow> obs (session_transcript_log_system_output t r s) = obs s"
  by (simp add: session_transcript_log_system_output_def Let_def event_def obs_last upd_trn_def)
    (simp add: obs_last upd_trn_def [symmetric])

lemma obs_line: "\<not> tr_active (trn s) \<Longrightarrow> obs (console_write_line t s) = obs s"
  by (simp add: console_write_line_def host_console_write_def Let_def obs_pager obs_con obs_out obs_log_inactive
      trn_terminal split: option.splits)

end

interpretation inactive: print_quiet "\<lambda>s. tr_active (trn s)"
  by unfold_locales (simp_all add: upd_con_def emit_out_def upd_trn_def)

context print_quiet
begin

lemma obs_say_all: "\<not> tr_active (trn s) \<Longrightarrow> obs (say_all ts s) = obs s"
  by (induction ts arbitrary: s) (simp_all add: say_all_def obs_line inactive.obs_line)

end

interpretation jq: print_quiet jrn
  by unfold_locales (simp_all add: upd_con_def emit_out_def upd_trn_def)

interpretation fq: print_quiet "\<lambda>s. (h_fs s, h_unreadable s)"
  by unfold_locales (simp_all add: upd_con_def emit_out_def upd_trn_def)

interpretation stq: print_quiet sto
  by unfold_locales (simp_all add: upd_con_def emit_out_def upd_trn_def)

lemma stored_text_obs:
  "(h_fs s, h_unreadable s) = (h_fs s', h_unreadable s') \<Longrightarrow> stored_text s = stored_text s'"
  by (rule ext) (simp add: stored_text_def fopen_rb_def fs_lookup_def Let_def)

section \<open>Audit calls\<close>

text \<open>A part of the state the audit calls do not reach: they change its state, the database and the tick.\<close>

locale audit_quiet =
  fixes obs :: "'a audit_sys_scheme \<Rightarrow> 'b"
  assumes obs_tick: "obs (ticked s) = obs s"
    and obs_db: "obs (s\<lparr>h_db := d\<rparr>) = obs s"
    and obs_aud: "obs (s\<lparr>aud := a\<rparr>) = obs s"
begin

lemma obs_sqlite: "obs (snd (sqlite db c s)) = obs s"
  by (simp add: sqlite_def Let_def obs_tick obs_db split: sql_call.splits)

lemma obs_append: "obs (snd (append_event_internal t m n s)) = obs s"
  by (simp add: append_event_internal_def insert_event_row_def unix_now_def Let_def case_prod_beta obs_aud obs_sqlite
      obs_tick split: option.splits)

lemma obs_emit: "obs (audit_emit_boot_event t m s) = obs s"
  by (simp add: audit_emit_boot_event_def monotonic_now_ns_def Let_def case_prod_beta obs_tick obs_aud obs_append)

lemma obs_persist:
  "obs (snd (audit_persist_hardware_snapshot hw s)) = obs s" "obs (snd (audit_persist_ai_proposal p s)) = obs s"
  "obs (snd (audit_persist_human_response i r s)) = obs s" "obs (snd (audit_upsert_node_peer q s)) = obs s"
  by (simp_all add: audit_persist_hardware_snapshot_def audit_persist_ai_proposal_def audit_persist_human_response_def
      audit_upsert_node_peer_def unix_now_def Let_def case_prod_beta obs_sqlite obs_tick split: option.splits)

lemmas obs_audit = obs_emit obs_persist

end

interpretation ah: audit_quiet "\<lambda>s. (h_fs s, h_unreadable s, h_read_only s, h_accepted s, h_survived s, h_stdin s, h_out s)"
  by unfold_locales (simp_all add: ticked_def)

interpretation asto: audit_quiet sto by unfold_locales (simp_all add: ticked_def)
interpretation ajrn: audit_quiet jrn by unfold_locales (simp_all add: ticked_def)
interpretation atrn: audit_quiet trn by unfold_locales (simp_all add: ticked_def)
interpretation acon: audit_quiet con by unfold_locales (simp_all add: ticked_def)
interpretation amore: audit_quiet console_sys.more by unfold_locales (simp_all add: ticked_def)

declare asto.obs_audit [simp] ajrn.obs_audit [simp] atrn.obs_audit [simp] acon.obs_audit [simp] amore.obs_audit [simp]

lemma audit_host [simp]:
  "h_fs (audit_emit_boot_event t m s) = h_fs s" "h_unreadable (audit_emit_boot_event t m s) = h_unreadable s"
  "h_stdin (audit_emit_boot_event t m s) = h_stdin s" "h_out (audit_emit_boot_event t m s) = h_out s"
  using ah.obs_emit [of t m s] by simp_all

end
