(* ===== verification/StorageCmd.thy ===== *)
theory StorageCmd
  imports Quiet
begin

text \<open>
  The part of kernel/storage.c that prints: the tree check, the verified bootstrap, the test and
  probe commands, the list of notes and the command dispatcher.
\<close>

definition upd_sto :: "(storage_state \<Rightarrow> storage_state) \<Rightarrow> 'a storage_sys_scheme \<Rightarrow> 'a storage_sys_scheme" where
  "upd_sto f s = s\<lparr>sto := f (sto s)\<rparr>"

definition hosted_list_notes :: "'a console_sys_scheme \<Rightarrow> bool \<times> 'a console_sys_scheme" where
  "hosted_list_notes s =
     (case readdir_names ''build/storage/vita/notes'' s of
        None \<Rightarrow> (False, storage_set_error ''hosted notes directory missing''
                  (say_all [''notes: no hosted notes directory yet'', ''Run: note first.txt, then .save''] s))
      | Some names \<Rightarrow>
          let s1 = say ''Notes / Notas:'' s;
              shown = filter (\<lambda>n. \<not> (eqs n ''.'' \<or> eqs n ''..'')) names;
              s2 = say_all shown s1;
              s3 = (if length shown = 0 then say ''(empty / vacio)'' s2 else s2)
          in (True, storage_set_error ''ok'' s3))"

definition storage_list_notes :: "'a console_sys_scheme \<Rightarrow> bool \<times> 'a console_sys_scheme" where
  "storage_list_notes s =
     (if \<not> st_initialized (sto s)
      then (False, say ''notes: storage not initialized'' (storage_set_error ''storage not initialized'' s))
      else hosted_list_notes s)"

definition storage_show_status :: "'a console_sys_scheme \<Rightarrow> 'a console_sys_scheme" where
  "storage_show_status s0 =
     (let s1 = say ''Estado de almacenamiento / Storage status:'' s0;
          s2 = say (if st_initialized (sto s1) then ''initialized: yes'' else ''initialized: no'') s1;
          s3 = say (if st_writable (sto s2) then ''writable: yes'' else ''writable: no'') s2;
          s4 = say (if st_bootstrap_attempted (sto s3) then ''bootstrap_attempted: yes'' else ''bootstrap_attempted: no'') s3;
          s5 = say (if st_bootstrap_verified (sto s4)
                    then ''storage: verified writable / almacenamiento verificado escribible''
                    else ''storage: unavailable or unverified / almacenamiento no disponible o no verificado'') s4;
          s6 = say (if st_bootstrap_verified (sto s5)
                    then ''storage bootstrap: verified / bootstrap verificado''
                    else ''storage bootstrap: failed / bootstrap fallido'') s5;
          s7 = say ''backend:'' s6;
          s8 = say (if st_backend_name (sto s7) \<noteq> [] then st_backend_name (sto s7) else ''none'') s7;
          s9 = say ''root_hint:'' s8;
          s10 = say (if st_root_hint (sto s9) \<noteq> [] then st_root_hint (sto s9) else ''/vita'') s9;
          s11 = say ''last_error:'' s10;
          s12 = say (storage_last_error s11) s11;
          s13 = (if \<not> st_bootstrap_verified (sto s12)
                 then say ''Estado degradado: el almacenamiento no esta verificado; revisar last_error y root_hint.'' s12
                 else s12)
      in say_all [''Commands / Comandos:'', ''storage status'', ''storage test'',
           ''storage write /vita/notes/test.txt hello from VitaOS'', ''storage read /vita/notes/test.txt'',
           ''cat /vita/notes/test.txt'', ''storage repair | storage check | storage probe'',
           ''storage last-error'', ''notes list''] s13)"

fun check_loop :: "string list \<Rightarrow> 'a console_sys_scheme \<Rightarrow> bool \<times> 'a console_sys_scheme" where
  "check_loop [] s = (True, s)"
| "check_loop (d # ds) s =
     (if \<not> storage_path_exists d s
      then (False, say_all [''missing:'', d] (storage_set_error ''storage tree missing expected directory'' s))
      else check_loop ds s)"

definition storage_tree_check :: "'a console_sys_scheme \<Rightarrow> bool \<times> 'a console_sys_scheme" where
  "storage_tree_check s =
     (let (ok, s1) = check_loop g_storage_expected_dirs s
      in (ok, if ok then storage_set_error ''ok'' s1 else s1))"

definition VERIFY_PATH :: string where "VERIFY_PATH = ''/vita/tmp/boot-storage-verify.txt''"
definition VERIFY_TEXT :: string where "VERIFY_TEXT = ''vita_storage_bootstrap_verify_v1'' @ [LF]"

definition storage_bootstrap_persistent_tree :: "'a console_sys_scheme \<Rightarrow> bool \<times> 'a console_sys_scheme" where
  "storage_bootstrap_persistent_tree s =
     (let s0 = upd_sto (\<lambda>t. t\<lparr>st_bootstrap_attempted := True, st_bootstrap_verified := False\<rparr>) s
      in if \<not> st_initialized (sto s0) \<or> \<not> st_writable (sto s0)
         then (False, storage_set_error ''bootstrap failed: storage unavailable'' s0)
         else
           let (rep, s1) = storage_tree_repair s0 in
           if \<not> rep then (False, storage_set_error ''bootstrap failed: storage_tree_repair'' s1)
           else let (chk, s2) = storage_tree_check s1 in
           if \<not> chk then (False, storage_set_error ''bootstrap failed: storage_tree_check'' s2)
           else let (w, s3) = storage_write_text (Some VERIFY_PATH) (Some VERIFY_TEXT) s2 in
           if \<not> w then (False, storage_set_error ''bootstrap failed: verify marker write'' s3)
           else let ((r, readback), s4) = storage_read_text (Some VERIFY_PATH) VITA_STORAGE_READ_MAX s3 in
           if \<not> r then (False, storage_set_error ''bootstrap failed: verify marker read'' s4)
           else if \<not> eqs readback VERIFY_TEXT
           then (False, storage_set_error ''bootstrap failed: verify marker compare'' s4)
           else (True, storage_set_error ''ok'' (upd_sto (\<lambda>t. t\<lparr>st_bootstrap_verified := True\<rparr>) s4)))"

definition say_error :: "'a console_sys_scheme \<Rightarrow> 'a console_sys_scheme" where
  "say_error s = say (storage_last_error s) s"

definition TEST_PATH :: string where "TEST_PATH = ''/vita/tmp/storage-test.txt''"
definition TEST_TEXT :: string where "TEST_TEXT = ''vita_storage_test_v1'' @ [LF]"
definition PROBE_PATH :: string where "PROBE_PATH = ''/vita/tmp/storage-probe.txt''"
definition PROBE_TEXT :: string where "PROBE_TEXT = ''vita_storage_probe_v1'' @ [LF]"

definition storage_command_test :: "'a console_sys_scheme \<Rightarrow> bool \<times> 'a console_sys_scheme" where
  "storage_command_test s =
     (let (b, s1) = storage_bootstrap_persistent_tree s in
      if \<not> b then (False, say_error (say ''storage test: bootstrap failed'' s1))
      else let (w, s2) = storage_write_text (Some TEST_PATH) (Some TEST_TEXT) s1 in
      if \<not> w then (False, say_error (say ''storage test: write failed'' s2))
      else let ((r, readback), s3) = storage_read_text (Some TEST_PATH) VITA_STORAGE_READ_MAX s2 in
      if \<not> r then (False, say_error (say ''storage test: read failed'' s3))
      else if \<not> eqs readback TEST_TEXT
      then (False, say_all [''storage test: verify failed'', ''write/read mismatch''] s3)
      else (True, say_all [''storage test: VERIFIED'', TEST_PATH] s3))"

text \<open>\<open>path[i] = p[i]\<close> while it is not a space and fits; the rest starts where the copy stopped.\<close>

fun path_token_loop :: "nat \<Rightarrow> nat \<Rightarrow> string \<Rightarrow> string \<times> string" where
  "path_token_loop cap i [] = ([], [])"
| "path_token_loop cap i (c # cs) =
     (if \<not> is_space_char c \<and> i + 1 < cap
      then let (tok, rest) = path_token_loop cap (i + 1) cs in (c # tok, rest)
      else ([], c # cs))"

fun text_arg_loop :: "nat \<Rightarrow> nat \<Rightarrow> string \<Rightarrow> string" where
  "text_arg_loop cap j [] = []"
| "text_arg_loop cap j (c # cs) = (if j + 2 < cap then c # text_arg_loop cap (j + 1) cs else [])"

definition storage_command_write :: "string \<Rightarrow> 'a console_sys_scheme \<Rightarrow> bool \<times> 'a console_sys_scheme" where
  "storage_command_write args s =
     (let p = skip_spaces (Some args) in
      if p = [] then (False, say ''usage: storage write /vita/notes/test.txt text'' s)
      else
        let (path, rest) = path_token_loop VITA_STORAGE_PATH_MAX 0 p;
            q = skip_spaces (Some rest)
        in if q = [] then (False, say ''storage write: missing text'' s)
           else
             let txt = text_arg_loop VITA_STORAGE_TEXT_MAX 0 q @ [LF];
                 (w, s1) = storage_write_text (Some path) (Some txt) s
             in if w then (True, say_all [''storage write: written'', path] s1)
                else let s2 = say ''storage write: failed'' s1
                     in (False, say (if st_last_error (sto s2) \<noteq> [] then st_last_error (sto s2) else ''unknown'') s2))"

definition storage_command_read :: "string \<Rightarrow> 'a console_sys_scheme \<Rightarrow> bool \<times> 'a console_sys_scheme" where
  "storage_command_read args s =
     (let p = skip_spaces (Some args) in
      if p = [] then (False, say ''usage: storage read /vita/notes/test.txt'' s)
      else
        let (path, rest) = path_token_loop VITA_STORAGE_PATH_MAX 0 p;
            ((r, txt), s1) = storage_read_text (Some path) VITA_STORAGE_READ_MAX s
        in if \<not> r
           then let s2 = say ''storage read: failed'' s1
                in (False, say (if st_last_error (sto s2) \<noteq> [] then st_last_error (sto s2) else ''unknown'') s2)
           else (True, say_all [''--- file / archivo ---'', (if txt \<noteq> [] then txt else ''(empty / vacio)''),
                   ''--- end / fin ---''] s1))"

definition storage_command_list_notes :: "'a console_sys_scheme \<Rightarrow> bool \<times> 'a console_sys_scheme" where
  "storage_command_list_notes s = storage_list_notes s"

definition storage_command_probe :: "'a console_sys_scheme \<Rightarrow> bool \<times> 'a console_sys_scheme" where
  "storage_command_probe s =
     (let s1 = say ''storage probe: repair/check'' (storage_show_status (say ''storage probe: status/backend'' s));
          (rep, s2) = storage_tree_repair s1
      in if \<not> rep then (False, say_error (say ''storage probe: repair failed'' s2))
      else let (chk, s3) = storage_tree_check s2 in
      if \<not> chk then (False, say_error (say ''storage probe: check failed'' s3))
      else let (w, s4) = storage_write_text (Some PROBE_PATH) (Some PROBE_TEXT) (say ''storage probe: create/write'' s3) in
      if \<not> w then (False, say_error (say ''storage probe: write failed'' s4))
      else let ((r, readback), s5) = storage_read_text (Some PROBE_PATH) VITA_STORAGE_READ_MAX (say ''storage probe: read'' s4) in
      if \<not> r then (False, say_error (say ''storage probe: read failed'' s5))
      else let s6 = say ''storage probe: compare'' s5 in
      if \<not> eqs readback PROBE_TEXT
      then (False, say_error (storage_set_error ''write/read verify failed''
              (say_all [''storage probe: compare failed'', ''write/read mismatch''] s6)))
      else (True, storage_set_error ''ok'' (say_all [''storage probe: ok'', PROBE_PATH] s6)))"

definition storage_repair_command :: "'a console_sys_scheme \<Rightarrow> bool \<times> 'a console_sys_scheme" where
  "storage_repair_command s =
     (let (ok, s1) = storage_tree_repair s
      in if ok then (True, say ''storage repair: ok'' s1) else (False, say ''storage repair: failed'' s1))"

definition storage_handle_command :: "cstr \<Rightarrow> 'a console_sys_scheme \<Rightarrow> bool \<times> 'a console_sys_scheme" where
  "storage_handle_command cmd0 s =
     (case cmd0 of None \<Rightarrow> (False, s)
      | Some cmd \<Rightarrow>
          let storage_family = (pre cmd ''storage'' \<or> pre cmd ''cat '' \<or> eqs cmd ''notes list'') in
          if eqs cmd ''storage'' \<or> eqs cmd ''storage status'' then (True, storage_show_status s)
          else if eqs cmd ''storage test'' then storage_command_test s
          else if eqs cmd ''storage probe'' then storage_command_probe s
          else if pre cmd ''storage write '' then storage_command_write (drop 14 cmd) s
          else if pre cmd ''storage read '' then storage_command_read (drop 13 cmd) s
          else if pre cmd ''storage cat '' then storage_command_read (drop 12 cmd) s
          else if pre cmd ''cat '' then storage_command_read (drop 4 cmd) s
          else if eqs cmd ''storage notes'' \<or> eqs cmd ''storage notes list'' \<or> eqs cmd ''notes list''
          then storage_command_list_notes s
          else if eqs cmd ''storage tree'' then (True, say_all g_storage_expected_dirs (say ''/vita tree expected:'' s))
          else if eqs cmd ''storage last-error'' then (True, say_error s)
          else if eqs cmd ''storage repair'' \<or> eqs cmd ''storage init-tree'' \<or> eqs cmd ''storage mkdirs''
          then storage_repair_command s
          else if eqs cmd ''storage check'' \<or> eqs cmd ''storage validate'' \<or> eqs cmd ''storage verify''
          then (let (ok, s1) = storage_tree_check s
                in if ok then (True, say ''storage check: ok'' s1)
                   else (False, say ''storage check: missing tree entries (run storage repair)'' s1))
          else if eqs cmd ''storage bootstrap''
          then (let (ok, s1) = storage_bootstrap_persistent_tree s
                in if ok then (True, say ''storage bootstrap: verified'' s1)
                   else (False, say_error (say ''storage bootstrap: failed'' s1)))
          else if \<not> storage_family then (False, s)
          else (False, say_all [''Unknown storage command / Comando storage desconocido'',
                  ''Use: storage, storage status, storage test, storage write /vita/notes/test.txt text'',
                  ''     storage read /vita/notes/test.txt, cat /vita/notes/test.txt, notes list''] s))"

section \<open>Checking, repairing, verifying\<close>

lemma flags_upd_sto:
  "st_initialized (sto (upd_sto f s)) = st_initialized (f (sto s))"
  "st_writable (sto (upd_sto f s)) = st_writable (f (sto s))"
  "st_bootstrap_attempted (sto (upd_sto f s)) = st_bootstrap_attempted (f (sto s))"
  "st_bootstrap_verified (sto (upd_sto f s)) = st_bootstrap_verified (f (sto s))"
  "storage_path_exists d (upd_sto f s) = storage_path_exists d s" "stored_text (upd_sto f s) p = stored_text s p"
  by (simp_all add: upd_sto_def storage_path_exists_def hosted_path_exists_def stat_ok_def fs_lookup_def
      stored_text_def fopen_rb_def Let_def)

lemma path_exists_error [simp]: "storage_path_exists d (storage_set_error e s) = storage_path_exists d s"
  by (simp add: storage_path_exists_def hosted_path_exists_def stat_ok_def fs_lookup_def storage_set_error_def)

lemma path_exists_read [simp]:
  "storage_path_exists d (snd (storage_read_text p cap s)) = storage_path_exists d s"
  by (simp add: storage_path_exists_def hosted_path_exists_def stat_ok_def fs_lookup_def)

lemma check_loop_outcome:
  "(fst (check_loop ds s) \<longleftrightarrow> list_all (\<lambda>d. storage_path_exists d s) ds) \<and>
   (fst (check_loop ds s) \<longrightarrow> snd (check_loop ds s) = s)"
  by (induction ds) auto

lemma check_loop_flags [simp]: "storage_flags (snd (check_loop ds s)) = storage_flags s"
  by (induction ds) auto

lemma tree_check_outcome:
  "fst (storage_tree_check s) \<longleftrightarrow> list_all (\<lambda>d. storage_path_exists d s) g_storage_expected_dirs"
  "fst (storage_tree_check s) \<Longrightarrow> snd (storage_tree_check s) = storage_set_error ''ok'' s"
  "storage_flags (snd (storage_tree_check s)) = storage_flags s"
  using check_loop_outcome [of g_storage_expected_dirs s] check_loop_flags [of g_storage_expected_dirs s]
  by (auto simp: storage_tree_check_def case_prod_beta Let_def simp del: check_loop_flags)

text \<open>A directory that is there stays there when a file of another name is written.\<close>

lemma write_keeps_path:
  assumes "storage_path_exists d s" "path_allowed (Some p)" "host_target d \<noteq> host_target p"
  shows "storage_path_exists d (snd (storage_write_text (Some p) t s))"
proof (cases "storage_is_ready s")
  case True
  from assms(1) obtain n where d: "path_allowed (Some d)" "fs_lookup s (host_target d) = Some n"
    "n = FDir \<or> \<not> names_dir (hosted_host_path 256 d)"
    by (auto simp: storage_path_exists_def hosted_path_exists_def stat_ok_def split: if_splits option.splits fs_node.splits)
  have "fs_lookup (snd (storage_write_text (Some p) t s)) (host_target d) = Some n"
    using True assms(2) hosted_write_keeps_others [OF assms(2) d(2) assms(3)]
    by (simp add: storage_write_text_def storage_is_ready_def split: option.splits)
  then show ?thesis using d
    by (auto simp: storage_path_exists_def hosted_path_exists_def stat_ok_def split: fs_node.splits)
next
  case False
  then obtain e where "storage_write_text (Some p) t s = (False, storage_set_error e s)"
    using storage_write_refused [of s "Some p" t] by (auto simp: storage_is_ready_def)
  then show ?thesis using assms(1) by simp
qed

lemma verify_target:
  "list_all (\<lambda>d. host_target d \<noteq> host_target VERIFY_PATH) g_storage_expected_dirs"
  "path_allowed (Some VERIFY_PATH)"
  by code_simp+

definition bootstrap_start :: "'a console_sys_scheme \<Rightarrow> 'a console_sys_scheme" where
  "bootstrap_start s = upd_sto (\<lambda>t. t\<lparr>st_bootstrap_attempted := True, st_bootstrap_verified := False\<rparr>) s"

lemma bootstrap_cases:
  obtains (failed) e s' where "storage_bootstrap_persistent_tree s = (False, storage_set_error e s')"
      "storage_flags s' = storage_flags (bootstrap_start s)"
  | (verified) s' where
      "storage_bootstrap_persistent_tree s =
         (True, storage_set_error ''ok'' (upd_sto (\<lambda>t. t\<lparr>st_bootstrap_verified := True\<rparr>) s'))"
      "storage_flags s' = storage_flags (bootstrap_start s)"
      "\<forall>d \<in> set g_storage_expected_dirs. storage_path_exists d s'"
      "\<exists>c. stored_text s' VERIFY_PATH = Some c \<and> c_string (take 2047 c) = VERIFY_TEXT"
proof -
  let ?s0 = "bootstrap_start s"
  let ?s1 = "snd (storage_tree_repair ?s0)"
  let ?s2 = "snd (storage_tree_check ?s1)"
  let ?w = "storage_write_text (Some VERIFY_PATH) (Some VERIFY_TEXT) ?s2"
  let ?r = "storage_read_text (Some VERIFY_PATH) VITA_STORAGE_READ_MAX (snd ?w)"
  have fl: "storage_flags ?s1 = storage_flags ?s0" "storage_flags ?s2 = storage_flags ?s0"
    "storage_flags (snd ?w) = storage_flags ?s0" "storage_flags (snd ?r) = storage_flags ?s0"
    by (simp_all add: tree_check_outcome(3))
  note res = storage_bootstrap_persistent_tree_def [of s, folded bootstrap_start_def]
  consider "\<not> st_initialized (sto ?s0) \<or> \<not> st_writable (sto ?s0)"
    | "storage_is_ready ?s0" "\<not> fst (storage_tree_repair ?s0)"
    | "storage_is_ready ?s0" "fst (storage_tree_repair ?s0)" "\<not> fst (storage_tree_check ?s1)"
    | "storage_is_ready ?s0" "fst (storage_tree_repair ?s0)" "fst (storage_tree_check ?s1)" "\<not> fst ?w"
    | "storage_is_ready ?s0" "fst (storage_tree_repair ?s0)" "fst (storage_tree_check ?s1)" "fst ?w" "\<not> fst (fst ?r)"
    | "storage_is_ready ?s0" "fst (storage_tree_repair ?s0)" "fst (storage_tree_check ?s1)" "fst ?w" "fst (fst ?r)"
        "snd (fst ?r) \<noteq> VERIFY_TEXT"
    | "storage_is_ready ?s0" "fst (storage_tree_repair ?s0)" "fst (storage_tree_check ?s1)" "fst ?w" "fst (fst ?r)"
        "snd (fst ?r) = VERIFY_TEXT"
    by (auto simp: storage_is_ready_def)
  then show ?thesis
  proof cases
    case 1
    show ?thesis
      by (rule failed [of "''bootstrap failed: storage unavailable''" "?s0"])
        (use 1 fl in \<open>auto simp: res Let_def case_prod_beta storage_is_ready_def\<close>)
  next
    case 2
    show ?thesis
      by (rule failed [of "''bootstrap failed: storage_tree_repair''" "?s1"])
        (use 2 fl in \<open>auto simp: res Let_def case_prod_beta storage_is_ready_def\<close>)
  next
    case 3
    show ?thesis
      by (rule failed [of "''bootstrap failed: storage_tree_check''" "?s2"])
        (use 3 fl in \<open>auto simp: res Let_def case_prod_beta storage_is_ready_def\<close>)
  next
    case 4
    show ?thesis
      by (rule failed [of "''bootstrap failed: verify marker write''" "snd ?w"])
        (use 4 fl in \<open>auto simp: res Let_def case_prod_beta storage_is_ready_def\<close>)
  next
    case 5
    show ?thesis
      by (rule failed [of "''bootstrap failed: verify marker read''" "snd ?r"])
        (use 5 fl in \<open>auto simp: res Let_def case_prod_beta storage_is_ready_def\<close>)
  next
    case 6
    show ?thesis
      by (rule failed [of "''bootstrap failed: verify marker compare''" "snd ?r"])
        (use 6 fl in \<open>auto simp: res Let_def case_prod_beta storage_is_ready_def\<close>)
  next
    case 7
    have dirs: "\<forall>d \<in> set g_storage_expected_dirs. storage_path_exists d (snd ?r)"
      using 7(3) verify_target
      by (auto simp: tree_check_outcome list_all_iff intro: write_keeps_path)
    have "?r = ((True, VERIFY_TEXT), snd ?r)" using 7(5,6) by (intro prod_eqI) simp_all
    from storage_read_ok [OF this] obtain c where
      "stored_text (snd ?w) VERIFY_PATH = Some c" "VERIFY_TEXT = c_string (take (VITA_STORAGE_READ_MAX - 1) c)" by blast
    then have "\<exists>c. stored_text (snd ?r) VERIFY_PATH = Some c \<and> c_string (take 2047 c) = VERIFY_TEXT"
      by (simp add: VITA_STORAGE_READ_MAX_def)
    then show ?thesis
      using 7 dirs fl by (intro verified [of "snd ?r"]) (auto simp: res Let_def case_prod_beta storage_is_ready_def)
  qed
qed

section \<open>A host that cooperates\<close>

text \<open>What \<open>mkdir\<close> does to the file table, by the components of its path.\<close>

definition mkfs :: "(fs_path \<Rightarrow> bool) \<Rightarrow> fs_path \<Rightarrow> (fs_path \<times> fs_node) list \<Rightarrow> (fs_path \<times> fs_node) list" where
  "mkfs ro k fs =
     (if k = [] \<or> map_of fs k \<noteq> None \<or> (butlast k \<noteq> [] \<and> map_of fs (butlast k) \<noteq> Some FDir) \<or> ro k
      then fs else AList.update k FDir fs)"

lemma mkdir_mkfs: "h_fs (snd (mkdir p s)) = mkfs (h_read_only s) (path_comps p) (h_fs s)"
  by (simp add: mkdir_def mkfs_def fs_lookup_def parent_is_dir_def fs_put_def Let_def)

fun slash_prefixes :: "string \<Rightarrow> string \<Rightarrow> string list" where
  "slash_prefixes done [] = []"
| "slash_prefixes done (c # cs) = (if c = CHR ''/'' then [done] else []) @ slash_prefixes (done @ [c]) cs"

definition parent_comps :: "string \<Rightarrow> fs_path list" where
  "parent_comps p = (let hp = hosted_host_path 256 p in map path_comps (slash_prefixes (take 1 hp) (drop 1 hp)))"

lemma parent_dirs_mkfs:
  "h_fs (parent_dirs_loop d cs s) = fold (mkfs (h_read_only s)) (map path_comps (slash_prefixes d cs)) (h_fs s)"
  by (induction cs arbitrary: d s) (simp_all add: mkdir_mkfs)

lemma ensure_parents_mkfs:
  "h_fs (hosted_ensure_parent_dirs (hosted_host_path 256 p) s) = fold (mkfs (h_read_only s)) (parent_comps p) (h_fs s)"
  by (simp add: hosted_ensure_parent_dirs_def parent_dirs_mkfs parent_comps_def Let_def)

definition made_comps :: "string \<Rightarrow> fs_path list" where
  "made_comps p = parent_comps p @ [host_target p]"

lemma repair_mkfs:
  "list_all (\<lambda>d. path_allowed (Some d)) ds \<Longrightarrow>
   h_fs (snd (repair_loop ds s)) = fold (mkfs (h_read_only s)) (concat (map made_comps ds)) (h_fs s)"
proof (induction ds arbitrary: s)
  case (Cons d ds)
  then show ?case
    by (simp add: storage_ensure_directory_def hosted_ensure_dir_path_def Let_def case_prod_beta mkdir_mkfs
        ensure_parents_mkfs made_comps_def) (simp add: storage_set_error_def)
qed simp

fun rooted :: "fs_path list \<Rightarrow> fs_path list \<Rightarrow> bool" where
  "rooted seen [] = True"
| "rooted seen (k # ks) = (k \<noteq> [] \<and> (butlast k = [] \<or> butlast k \<in> set seen) \<and> rooted (k # seen) ks)"

definition no_file :: "(fs_path \<times> fs_node) list \<Rightarrow> fs_path list \<Rightarrow> bool" where
  "no_file fs ks \<longleftrightarrow> (\<forall>k \<in> set ks. map_of fs k = None \<or> map_of fs k = Some FDir)"

lemma mkfs_lookup:
  "map_of (mkfs ro k fs) j =
     (if j = k \<and> k \<noteq> [] \<and> map_of fs k = None \<and> (butlast k = [] \<or> map_of fs (butlast k) = Some FDir) \<and> \<not> ro k
      then Some FDir else map_of fs j)"
  by (auto simp: mkfs_def update_conv')

lemma mkfs_keeps: "map_of fs k = Some n \<Longrightarrow> map_of (mkfs ro j fs) k = Some n"
  by (auto simp: mkfs_lookup)

lemma mkfs_fold_keeps: "map_of fs k = Some n \<Longrightarrow> map_of (fold (mkfs ro) ks fs) k = Some n"
  by (induction ks arbitrary: fs) (simp_all add: mkfs_keeps)

lemma mkfs_fold_no_file: "no_file fs js \<Longrightarrow> no_file (fold (mkfs ro) ks fs) js"
  by (induction ks arbitrary: fs) (auto simp: no_file_def mkfs_lookup)

lemma rooted_made:
  assumes "rooted seen ks" "\<forall>k \<in> set seen. map_of fs k = Some FDir" "no_file fs ks" "\<forall>k \<in> set ks. \<not> ro k" "k \<in> set ks"
  shows "map_of (fold (mkfs ro) ks fs) k = Some FDir"
  using assms
proof (induction ks arbitrary: seen fs)
  case (Cons j ks)
  let ?fs = "mkfs ro j fs"
  have j: "map_of ?fs j = Some FDir"
    using Cons.prems by (auto simp: mkfs_lookup no_file_def)
  show ?case
  proof (cases "k = j")
    case True
    then show ?thesis using j by (simp add: mkfs_fold_keeps)
  next
    case False
    have "no_file ?fs ks" using Cons.prems(3) by (auto simp: no_file_def mkfs_lookup)
    moreover have "\<forall>k \<in> set (j # seen). map_of ?fs k = Some FDir"
      using Cons.prems(2) j by (auto simp: mkfs_lookup)
    ultimately show ?thesis using Cons.IH [of "j # seen" ?fs] Cons.prems False by simp
  qed
qed simp

lemma rooted_all_made:
  assumes "list_all (\<lambda>d. rooted [] (m d)) ds" "\<forall>d \<in> set ds. no_file fs (m d)" "\<forall>d \<in> set ds. \<forall>k \<in> set (m d). \<not> ro k"
    "d \<in> set ds" "k \<in> set (m d)"
  shows "map_of (fold (mkfs ro) (concat (map m ds)) fs) k = Some FDir"
  using assms
proof (induction ds arbitrary: fs)
  case (Cons e ds)
  show ?case
  proof (cases "d = e")
    case True
    then have "map_of (fold (mkfs ro) (m e) fs) k = Some FDir"
      using Cons.prems by (intro rooted_made [of "[]"]) auto
    then show ?thesis by (simp add: mkfs_fold_keeps)
  next
    case False
    then show ?thesis using Cons by (simp add: mkfs_fold_no_file)
  qed
qed simp

text \<open>Plain files in the way stay, and nothing is made of their paths.\<close>

lemma mkfs_fold_files:
  "\<forall>k \<in> F. map_of fs k \<noteq> None \<Longrightarrow> fold (mkfs ro) ks fs = fold (mkfs ro) (filter (\<lambda>k. k \<notin> F) ks) fs"
proof (induction ks arbitrary: fs)
  case (Cons j ks)
  have "\<forall>k \<in> F. map_of (mkfs ro j fs) k \<noteq> None" using Cons.prems by (auto simp: mkfs_lookup)
  moreover have "j \<in> F \<Longrightarrow> mkfs ro j fs = fs" using Cons.prems by (auto simp: mkfs_def)
  ultimately show ?case using Cons by auto
qed simp

lemma expected_rooted: "list_all (\<lambda>d. rooted [] (made_comps d)) g_storage_expected_dirs"
  by code_simp

lemma expected_no_slash: "list_all (\<lambda>d. \<not> names_dir (hosted_host_path 256 d)) g_storage_expected_dirs"
  by code_simp

lemma verify_parents: "set (parent_comps VERIFY_PATH) \<subseteq> set (made_comps ''/vita/tmp'')"
    "butlast (host_target VERIFY_PATH) = host_target ''/vita/tmp''" "\<not> names_dir (hosted_host_path 256 VERIFY_PATH)"
  by code_simp+

lemma mkfs_fold_other: "k \<notin> set ks \<Longrightarrow> map_of (fold (mkfs ro) ks fs) k = map_of fs k"
  by (induction ks arbitrary: fs) (simp_all add: mkfs_lookup)

lemma verify_target_not_made:
  "list_all (\<lambda>d. host_target VERIFY_PATH \<notin> set (made_comps d)) g_storage_expected_dirs"
  by code_simp

lemma bootstrap_steps:
  assumes "st_initialized (sto (bootstrap_start s))" "st_writable (sto (bootstrap_start s))"
    "storage_tree_repair (bootstrap_start s) = (True, s1)" "storage_tree_check s1 = (True, s2)"
    "storage_write_text (Some VERIFY_PATH) (Some VERIFY_TEXT) s2 = (True, s3)"
    "storage_read_text (Some VERIFY_PATH) VITA_STORAGE_READ_MAX s3 = ((True, VERIFY_TEXT), s4)"
  shows "storage_bootstrap_persistent_tree s =
    (True, storage_set_error ''ok'' (upd_sto (\<lambda>t. t\<lparr>st_bootstrap_verified := True\<rparr>) s4))"
  using assms by (simp add: storage_bootstrap_persistent_tree_def bootstrap_start_def Let_def)

text \<open>A write into a directory that is there succeeds and stores the text.\<close>

lemma cooperative_write:
  fixes s :: "'a storage_sys_scheme" and p t :: string
  defines "s1 \<equiv> hosted_ensure_parent_dirs (hosted_host_path 256 p) s"
  assumes "storage_is_ready s" "path_allowed (Some p)" "\<not> names_dir (hosted_host_path 256 p)" "t \<noteq> []"
    and "fs_lookup s1 (host_target p) \<noteq> Some FDir" "parent_is_dir s1 (host_target p)" "\<not> h_read_only s (host_target p)"
    and "h_accepted s (h_tick s) = None" "h_survived s (h_tick s) = None" "\<not> h_unreadable s (host_target p)"
  shows "fst (storage_write_text (Some p) (Some t) s)"
    "stored_text (snd (storage_write_text (Some p) (Some t) s)) p = Some t"
    "st_initialized (sto (snd (storage_write_text (Some p) (Some t) s)))"
proof -
  have o: "fopen_wb (hosted_host_path 256 p) s1 = (True, fs_put (host_target p) (FFile []) s1)"
    using assms(4,6-8) by (simp add: fopen_wb_def Let_def s1_def)
  have w: "storage_write_text (Some p) (Some t) s =
      (True, storage_set_error ''ok'' (fs_put (host_target p) (FFile t) (ticked (fs_put (host_target p) (FFile []) s1))))"
    using assms(2,3,5,9,10) o
    by (simp add: storage_write_text_def storage_is_ready_def hosted_write_text_def hosted_map_path_eq Let_def
        fwrite_close_def limited_def s1_def [symmetric]) (simp add: s1_def limited_def)
  show "fst (storage_write_text (Some p) (Some t) s)" by (simp add: w)
  have "host_target p \<noteq> []" using host_path_comps [OF assms(3)] by auto
  then show "stored_text (snd (storage_write_text (Some p) (Some t) s)) p = Some t"
    using assms(3,4,11) by (simp add: w stored_text_def fopen_rb_def Let_def fs_lookup_put s1_def)
  show "st_initialized (sto (snd (storage_write_text (Some p) (Some t) s)))"
    using assms(2) by (simp add: storage_is_ready_def)
qed

text \<open>The bootstrap on such a host.\<close>

lemma bootstrap_verifies:
  fixes s :: "'a console_sys_scheme"
  assumes "storage_is_ready s" "\<forall>k. \<not> h_read_only s k"
    and "\<forall>d \<in> set g_storage_expected_dirs. no_file (h_fs s) (filter (\<lambda>k. k \<notin> F) (made_comps d))"
    and "map_of (h_fs s) (host_target VERIFY_PATH) \<noteq> Some FDir"
    and "\<not> h_unreadable s (host_target VERIFY_PATH)"
    and "h_accepted s (h_tick s) = None" "h_survived s (h_tick s) = None"
    and "\<forall>k \<in> F. \<exists>c. map_of (h_fs s) k = Some (FFile c)" "host_target ''/vita/tmp'' \<notin> F"
    and "list_all (\<lambda>d. rooted [] (filter (\<lambda>k. k \<notin> F) (made_comps d))) g_storage_expected_dirs"
  shows "storage_is_bootstrap_verified (snd (storage_bootstrap_persistent_tree s))"
proof -
  let ?m = "\<lambda>d. filter (\<lambda>k. k \<notin> F) (made_comps d)"
  let ?s0 = "bootstrap_start s"
  let ?s1 = "snd (storage_tree_repair ?s0)"
  let ?s2 = "storage_set_error ''ok'' ?s1"
  let ?w = "storage_write_text (Some VERIFY_PATH) (Some VERIFY_TEXT) ?s2"
  have base: "h_fs ?s0 = h_fs s" "h_read_only ?s0 = h_read_only s" "h_tick ?s0 = h_tick s"
    "h_accepted ?s0 = h_accepted s" "h_survived ?s0 = h_survived s" "h_unreadable ?s0 = h_unreadable s"
    "st_initialized (sto ?s0)" "st_writable (sto ?s0)"
    using assms(1) by (simp_all add: bootstrap_start_def upd_sto_def storage_is_ready_def)
  have fs1: "h_fs ?s1 = fold (mkfs (h_read_only s)) (concat (map made_comps g_storage_expected_dirs)) (h_fs s)"
    using repair_mkfs [OF expected_dirs_allowed, of ?s0] by (simp add: storage_tree_repair_def base)
  have fs2: "h_fs ?s1 = fold (mkfs (h_read_only s)) (concat (map ?m g_storage_expected_dirs)) (h_fs s)"
  proof -
    have "\<forall>k \<in> F. map_of (h_fs s) k \<noteq> None" using assms(8) by auto
    then show ?thesis unfolding fs1 by (subst mkfs_fold_files) (simp_all add: filter_concat comp_def)
  qed
  have made: "map_of (h_fs ?s1) k = Some FDir" if "d \<in> set g_storage_expected_dirs" "k \<in> set (?m d)" for d k
    unfolding fs2 using that assms(2,3) by (intro rooted_all_made [OF assms(10)]) auto
  have "map_of (h_fs ?s1) k \<noteq> None" if "k \<in> F" for k
    using assms(8) that mkfs_fold_keeps [of "h_fs s" k] by (auto simp: fs1)
  then have there: "map_of (h_fs ?s1) (host_target d) \<noteq> None" if "d \<in> set g_storage_expected_dirs" for d
    using made [OF that, of "host_target d"] by (cases "host_target d \<in> F") (auto simp: made_comps_def)
  have "storage_path_exists d ?s1" if d: "d \<in> set g_storage_expected_dirs" for d
  proof -
    have "\<exists>n. fs_lookup ?s1 (host_target d) = Some n" using there [OF d] by (simp add: fs_lookup_def)
    then obtain n where "fs_lookup ?s1 (host_target d) = Some n" by blast
    then show ?thesis using d expected_dirs_allowed expected_no_slash
      by (simp add: list_all_iff storage_path_exists_def hosted_path_exists_def stat_ok_def split: fs_node.split)
  qed
  then have dirs: "list_all (\<lambda>d. storage_path_exists d ?s1) g_storage_expected_dirs" by (simp add: list_all_iff)
  have chk: "storage_tree_check ?s1 = (True, ?s2)"
    using dirs tree_check_outcome [of ?s1] by (intro prod_eqI) simp_all
  have orc: "host_oracles ?s2 = host_oracles ?s0" by simp
  have t2: "map_of (h_fs ?s1) (host_target VERIFY_PATH) \<noteq> Some FDir"
    unfolding fs1 using verify_target_not_made assms(4) by (subst mkfs_fold_other) (auto simp: list_all_iff)
  have par: "map_of (h_fs ?s1) (butlast (host_target VERIFY_PATH)) = Some FDir"
    using made [of "''/vita/tmp''" "host_target ''/vita/tmp''"] assms(9)
    by (simp add: verify_parents(2) made_comps_def g_storage_expected_dirs_def)
  have npar: "host_target VERIFY_PATH \<notin> set (parent_comps VERIFY_PATH)" "host_target VERIFY_PATH \<noteq> []"
    "butlast (host_target VERIFY_PATH) \<noteq> []" by code_simp+
  have fl: "storage_is_ready ?s2"
    using storage_flags_sel [of ?s2 ?s0] base by (simp add: storage_is_ready_def)
  have w: "fst ?w" "stored_text (snd ?w) VERIFY_PATH = Some VERIFY_TEXT" "st_initialized (sto (snd ?w))"
    using fl verify_target(2) verify_parents(3) orc assms(2,5-7) base npar t2 par
    by (intro cooperative_write;
        simp add: VERIFY_TEXT_def fs_lookup_def parent_is_dir_def ensure_parents_mkfs mkfs_fold_other mkfs_fold_keeps
          host_oracles_def)+
  have r: "storage_read_text (Some VERIFY_PATH) VITA_STORAGE_READ_MAX (snd ?w) =
      ((True, VERIFY_TEXT), storage_set_error ''ok'' (snd ?w))"
    using w(2,3) verify_target(2) by (simp add: storage_read_text_eq VITA_STORAGE_READ_MAX_def VERIFY_TEXT_def c_string_def)
  have rep: "storage_tree_repair ?s0 = (True, ?s1)" using tree_repair_always_ok [of ?s0] by (intro prod_eqI) simp_all
  have "storage_bootstrap_persistent_tree s =
      (True, storage_set_error ''ok'' (upd_sto (\<lambda>t. t\<lparr>st_bootstrap_verified := True\<rparr>) (storage_set_error ''ok'' (snd ?w))))"
    using w(1) by (intro bootstrap_steps [OF base(7,8) rep chk _ r] prod_eqI) simp_all
  moreover have "st_bootstrap_attempted (sto (snd ?w))"
    using storage_flags_sel [of "snd ?w" ?s0] by (simp add: bootstrap_start_def flags_upd_sto)
  ultimately show ?thesis by (simp add: storage_is_bootstrap_verified_def flags_upd_sto)
qed

definition demo_fresh :: console_sys where
  "demo_fresh = transcript_sys.extend (journal_sys.extend (storage_sys.extend demo_storage
      (journal_sys.fields zero_journal)) (transcript_sys.fields zero_transcript)) (console_sys.fields zero_console)"

lemma demo_fresh_host:
  "h_fs demo_fresh = [([''schema''], FDir), ([''schema'', ''audit.sql''], FFile ''CREATE TABLE'')]"
  "h_read_only demo_fresh = (\<lambda>_. False)" "h_unreadable demo_fresh = (\<lambda>_. False)"
  "h_accepted demo_fresh = (\<lambda>_. None)" "h_survived demo_fresh = (\<lambda>_. None)" "storage_is_ready demo_fresh"
  by (simp_all add: demo_fresh_def transcript_sys.defs journal_sys.defs storage_sys.defs console_sys.defs demo_storage_def
      storage_init_def storage_set_error_def demo_audit_def demo_host_def host.defs audit_sys.defs storage_is_ready_def)

lemma demo_fresh_no_file: "list_all (\<lambda>d. no_file (h_fs demo_fresh) (made_comps d)) g_storage_expected_dirs"
  unfolding demo_fresh_host no_file_def by code_simp

lemma demo_fresh_target: "map_of (h_fs demo_fresh) (host_target VERIFY_PATH) \<noteq> Some FDir"
proof -
  have "host_target VERIFY_PATH = [''build'', ''storage'', ''vita'', ''tmp'', ''boot-storage-verify.txt'']" by code_simp
  then show ?thesis by (simp add: demo_fresh_host)
qed

lemma demo_fresh_verified: "storage_is_bootstrap_verified (snd (storage_bootstrap_persistent_tree demo_fresh))"
  by (rule bootstrap_verifies [where F = "{}"])
    (use demo_fresh_no_file demo_fresh_target expected_rooted in \<open>simp_all add: demo_fresh_host list_all_iff\<close>)

section \<open>What the bootstrap puts into the file table\<close>

text \<open>From one table to the other, a path but the marker's keeps what it has, or becomes a directory where nothing was.\<close>

definition only_dirs_made :: "'a host_scheme \<Rightarrow> 'a host_scheme \<Rightarrow> bool" where
  "only_dirs_made s t \<longleftrightarrow>
     (\<forall>k. k \<noteq> host_target VERIFY_PATH \<longrightarrow>
        fs_lookup t k = fs_lookup s k \<or> (fs_lookup s k = None \<and> fs_lookup t k = Some FDir))"

lemma only_dirs_refl [simp]: "h_fs t = h_fs s \<Longrightarrow> only_dirs_made s t"
  by (simp add: only_dirs_made_def fs_lookup_def)

lemma only_dirs_trans: "only_dirs_made s t \<Longrightarrow> only_dirs_made t u \<Longrightarrow> only_dirs_made s u"
  unfolding only_dirs_made_def by (metis option.distinct(1))

lemma mkfs_fold_only_dirs:
  "map_of (fold (mkfs ro) ks fs) k = map_of fs k \<or> (map_of fs k = None \<and> map_of (fold (mkfs ro) ks fs) k = Some FDir)"
proof (induction ks arbitrary: fs)
  case (Cons j ks)
  show ?case using Cons [of "mkfs ro j fs"] by (auto simp: mkfs_lookup split: if_splits)
qed simp

lemma only_dirs_repair: "only_dirs_made s (snd (storage_tree_repair s))"
  unfolding only_dirs_made_def fs_lookup_def storage_tree_repair_def repair_mkfs [OF expected_dirs_allowed]
  by (metis mkfs_fold_only_dirs)

lemma only_dirs_parents: "only_dirs_made s (hosted_ensure_parent_dirs (hosted_host_path 256 p) s)"
  unfolding only_dirs_made_def fs_lookup_def ensure_parents_mkfs by (metis mkfs_fold_only_dirs)

lemma only_dirs_write: "only_dirs_made s (snd (storage_write_text (Some VERIFY_PATH) t s))"
proof (cases "storage_is_ready s")
  case True
  have "only_dirs_made s (snd (hosted_write_text VERIFY_PATH x s))" for x
  proof (rule hosted_write_cases [OF verify_target(2), of x s])
    assume "hosted_write_text VERIFY_PATH x s = (False, storage_set_error ''hosted fopen failed''
        (hosted_ensure_parent_dirs (hosted_host_path 256 VERIFY_PATH) s))"
    then show ?thesis using only_dirs_parents [of s VERIFY_PATH] by (simp add: only_dirs_made_def)
  next
    fix ok err kept s2
    assume "hosted_write_text VERIFY_PATH x s = (ok, storage_set_error err s2)"
      "\<forall>k. fs_lookup s2 k = (if k = host_target VERIFY_PATH then Some (FFile kept)
         else fs_lookup (hosted_ensure_parent_dirs (hosted_host_path 256 VERIFY_PATH) s) k)"
    then show ?thesis using only_dirs_parents [of s VERIFY_PATH] by (simp add: only_dirs_made_def)
  qed
  then show ?thesis using True verify_target(2)
    by (simp add: storage_write_text_def storage_is_ready_def split: option.splits)
next
  case False
  then obtain e where "storage_write_text (Some VERIFY_PATH) t s = (False, storage_set_error e s)"
    using storage_write_refused [of s "Some VERIFY_PATH" t] by (auto simp: storage_is_ready_def)
  then show ?thesis by simp
qed

lemma only_dirs_bootstrap:
  assumes "fst (storage_bootstrap_persistent_tree s)"
  shows "only_dirs_made s (snd (storage_bootstrap_persistent_tree s))"
proof -
  let ?s1 = "snd (storage_tree_repair (bootstrap_start s))"
  let ?s2 = "snd (storage_tree_check ?s1)"
  let ?s3 = "snd (storage_write_text (Some VERIFY_PATH) (Some VERIFY_TEXT) ?s2)"
  let ?s4 = "snd (storage_read_text (Some VERIFY_PATH) VITA_STORAGE_READ_MAX ?s3)"
  have ok: "fst (storage_tree_check ?s1)" "h_fs (snd (storage_bootstrap_persistent_tree s)) = h_fs ?s4"
    using assms unfolding storage_bootstrap_persistent_tree_def [of s, folded bootstrap_start_def]
    by (auto simp: Let_def case_prod_beta storage_set_error_def upd_sto_def split: if_splits)
  have "only_dirs_made s (bootstrap_start s)" by (simp add: bootstrap_start_def upd_sto_def)
  moreover have "only_dirs_made (bootstrap_start s) ?s1" by (rule only_dirs_repair)
  moreover have "only_dirs_made ?s1 ?s2" using tree_check_outcome(2) [OF ok(1)] by (simp add: storage_set_error_def)
  moreover have "only_dirs_made ?s2 ?s3" by (rule only_dirs_write)
  moreover have "only_dirs_made ?s3 ?s4" by simp
  moreover have "only_dirs_made ?s4 (snd (storage_bootstrap_persistent_tree s))" using ok(2) by simp
  ultimately show ?thesis by (blast intro: only_dirs_trans)
qed

section \<open>Properties\<close>

lemma exists_node: "storage_path_exists d s \<Longrightarrow> \<exists>n. fs_lookup s (host_target d) = Some n"
  by (auto simp: storage_path_exists_def hosted_path_exists_def stat_ok_def split: if_splits option.splits)

text \<open>
  C10. The verified bootstrap. The call reports success exactly when it leaves the storage marked as
  verified, and then every path of the expected tree is there and the marker file holds bytes that were read
  back equal to the marker text; a failed call leaves the mark cleared. Each path of the tree is then a directory,
  or it is a plain file that was there before, with the same contents: the code asks \<open>stat\<close> for the path and
  not for its kind, so such a file passes for a directory of the tree.
\<close>

theorem storage_bootstrap_sound:
  fixes s :: "'a console_sys_scheme"
  defines "ok \<equiv> fst (storage_bootstrap_persistent_tree s)"
    and "s' \<equiv> snd (storage_bootstrap_persistent_tree s)"
  shows "(ok \<longleftrightarrow> storage_is_bootstrap_verified s') \<and>
    (storage_is_bootstrap_verified s' \<longrightarrow>
       storage_is_ready s' \<and>
       (\<forall>d \<in> set g_storage_expected_dirs. storage_path_exists d s' \<and>
          (fs_lookup s' (host_target d) = Some FDir \<or>
           (\<exists>c. fs_lookup s (host_target d) = Some (FFile c) \<and> fs_lookup s' (host_target d) = Some (FFile c)))) \<and>
       (\<exists>c. stored_text s' VERIFY_PATH = Some c \<and> c_string (take 2047 c) = VERIFY_TEXT))"
proof (cases rule: bootstrap_cases [of s])
  case (failed e t)
  from storage_flags_sel [OF failed(2)] failed(1) show ?thesis
    by (simp add: ok_def s'_def storage_is_bootstrap_verified_def bootstrap_start_def flags_upd_sto)
next
  case (verified t)
  have "storage_is_ready (bootstrap_start s)"
    using verified(1) by (auto simp: storage_bootstrap_persistent_tree_def Let_def bootstrap_start_def storage_is_ready_def
        split: if_splits)
  moreover have node: "fs_lookup s' (host_target d) = Some FDir \<or>
      (\<exists>c. fs_lookup s (host_target d) = Some (FFile c) \<and> fs_lookup s' (host_target d) = Some (FFile c))"
    if "d \<in> set g_storage_expected_dirs" for d
  proof -
    have "storage_path_exists d s'" using verified(1,3) that by (simp add: s'_def flags_upd_sto)
    then obtain n where "fs_lookup s' (host_target d) = Some n" using exists_node by blast
    moreover have "only_dirs_made s s'" using only_dirs_bootstrap [of s] verified(1) by (simp add: s'_def)
    moreover have "host_target d \<noteq> host_target VERIFY_PATH" using verify_target(1) that by (auto simp: list_all_iff)
    ultimately show ?thesis unfolding only_dirs_made_def by (cases n) (metis option.inject)+
  qed
  ultimately show ?thesis using storage_flags_sel [OF verified(2)] verified(1,3,4)
    by (simp add: ok_def s'_def storage_is_bootstrap_verified_def storage_is_ready_def bootstrap_start_def flags_upd_sto)
qed

lemma storage_bootstrap_sound_witness:
  "storage_path_exists ''/vita/tmp'' (snd (storage_bootstrap_persistent_tree demo_fresh)) \<and>
   fs_lookup (snd (storage_bootstrap_persistent_tree demo_fresh)) (host_target ''/vita/tmp'') = Some FDir \<and>
   stored_text (snd (storage_bootstrap_persistent_tree demo_fresh)) VERIFY_PATH \<noteq> None"
proof -
  have "host_target ''/vita/tmp'' = [''build'', ''storage'', ''vita'', ''tmp'']" by code_simp
  then have "fs_lookup demo_fresh (host_target ''/vita/tmp'') = None" by (simp add: fs_lookup_def demo_fresh_host)
  moreover have "''/vita/tmp'' \<in> set g_storage_expected_dirs" by (simp add: g_storage_expected_dirs_def)
  ultimately show ?thesis
    using storage_bootstrap_sound [of demo_fresh] demo_fresh_verified by (metis option.distinct(1))
qed

text \<open>
  Such a file does pass: with a plain file in the place of a directory that holds no other of the tree, and a host
  that cooperates otherwise, the bootstrap verifies the storage.
\<close>

lemma leaf_rooted:
  "list_all (\<lambda>e. list_all (\<lambda>d. rooted [] (filter (\<lambda>k. k \<noteq> host_target e) (made_comps d))) g_storage_expected_dirs)
     [''/vita/config'', ''/vita/ai/prompts'', ''/vita/export/audit'']"
  by code_simp

theorem plain_file_passes:
  fixes s :: "'a console_sys_scheme"
  assumes "storage_is_ready s" "\<forall>k. \<not> h_read_only s k" "e \<in> {''/vita/config'', ''/vita/ai/prompts'', ''/vita/export/audit''}"
    and "map_of (h_fs s) (host_target e) = Some (FFile c)"
    and "\<forall>d \<in> set g_storage_expected_dirs. no_file (h_fs s) (filter (\<lambda>k. k \<noteq> host_target e) (made_comps d))"
    and "map_of (h_fs s) (host_target VERIFY_PATH) \<noteq> Some FDir"
    and "\<not> h_unreadable s (host_target VERIFY_PATH)"
    and "h_accepted s (h_tick s) = None" "h_survived s (h_tick s) = None"
  shows "storage_is_bootstrap_verified (snd (storage_bootstrap_persistent_tree s))"
proof (rule bootstrap_verifies [where F = "{host_target e}"])
  have "host_target ''/vita/tmp'' \<noteq> host_target ''/vita/config''" "host_target ''/vita/tmp'' \<noteq> host_target ''/vita/ai/prompts''"
    "host_target ''/vita/tmp'' \<noteq> host_target ''/vita/export/audit''" by code_simp+
  then show "host_target ''/vita/tmp'' \<notin> {host_target e}" using assms(3) by auto
  show "list_all (\<lambda>d. rooted [] (filter (\<lambda>k. k \<notin> {host_target e}) (made_comps d))) g_storage_expected_dirs"
    using leaf_rooted assms(3) by auto
qed (use assms in auto)

text \<open>
  C11. The bootstrap succeeds on a host that cooperates. When the storage is ready, nothing is read-only,
  no file stands where a directory of the tree belongs and no directory where the marker belongs, and
  the host writes, keeps and delivers the bytes of the marker, the call verifies the storage, whatever
  else the file table holds.
\<close>

theorem storage_bootstrap_complete:
  fixes s :: "'a console_sys_scheme"
  assumes "storage_is_ready s" "\<forall>k. \<not> h_read_only s k"
    and "\<forall>d \<in> set g_storage_expected_dirs. no_file (h_fs s) (made_comps d)"
    and "map_of (h_fs s) (host_target VERIFY_PATH) \<noteq> Some FDir"
    and "\<not> h_unreadable s (host_target VERIFY_PATH)"
    and "h_accepted s (h_tick s) = None" "h_survived s (h_tick s) = None"
  shows "storage_is_bootstrap_verified (snd (storage_bootstrap_persistent_tree s))"
  by (rule bootstrap_verifies [where F = "{}"]) (use assms expected_rooted in simp_all)

lemma storage_bootstrap_complete_witness:
  "storage_is_bootstrap_verified (snd (storage_bootstrap_persistent_tree demo_fresh))"
  by (rule storage_bootstrap_complete)
    (use demo_fresh_no_file demo_fresh_target in \<open>simp_all add: demo_fresh_host list_all_iff\<close>)

end
