(* ===== verification/JournalCmd.thy ===== *)
theory JournalCmd
  imports StorageCmd
begin

text \<open>
  The part of kernel/session\_journal.c that prints: the start of the journal, its status screens and
  the \<open>journal\<close> commands.
\<close>

text \<open>\<open>cond ? text : fallback\<close> on a character array.\<close>

definition or_text :: "string \<Rightarrow> string \<Rightarrow> string" where
  "or_text t fallback = (if t \<noteq> [] then t else fallback)"

abbreviation SQ :: char where "SQ \<equiv> CHR 0x27"

section \<open>The start of the journal\<close>

definition journal_reset :: "'a console_sys_scheme \<Rightarrow> 'a console_sys_scheme" where
  "journal_reset s =
     upd_jrn (\<lambda>j. journal_set_error ''ok''
       \<lparr>jr_initialized = True, jr_active = storage_is_bootstrap_verified s, jr_truncated = False,
        jr_last_flush_ok = False, jr_seq = 0, jr_jsonl = [], jr_text = [], jr_last_error = jr_last_error j\<rparr>) s"

definition journal_header :: "session_journal_state \<Rightarrow> session_journal_state" where
  "journal_header j =
     append_text_line []
      (append_text_line ''Nota visible: se registran comandos enviados y respuestas resumidas del sistema.''
        (append_text_line ''Visible audit note: submitted commands and summarized system responses are recorded.''
          (append_text_line ''VitaOS persistent session journal / Bitacora persistente de sesion VitaOS'' j)))"

definition session_journal_init :: "'a console_sys_scheme \<Rightarrow> bool \<times> 'a console_sys_scheme" where
  "session_journal_init s0 =
     (let s = journal_reset s0 in
      if \<not> jr_active (jrn s)
      then
        let st = storage_get_status s;
            s1 = upd_jrn (journal_set_error (or_text (st_last_error st) ''storage bootstrap unavailable'')) s;
            s2 = say ''Persistent journal: unavailable / Bitacora persistente: no disponible'' s1
        in (False, say (jr_last_error (jrn s2)) s2)
      else
        let s1 = upd_jrn journal_header s;
            s2 = journal_add_event ''journal_started'' (Some ''persistent session journal active'') False s1
        in if \<not> jr_last_flush_ok (jrn s2)
           then
             let s3 = upd_jrn (\<lambda>j. j\<lparr>jr_active := False\<rparr>) s2;
                 s4 = say ''journal: inactive, write/read verification failed'' s3
             in (False, say (or_text (jr_last_error (jrn s4)) ''unknown'') s4)
           else
             let s3 = say_all [''Persistent journal: READY / Bitacora persistente: LISTA'',
                        SESSION_JOURNAL_JSONL_PATH, SESSION_JOURNAL_TEXT_PATH] s2
             in (True, audit_emit ''SESSION_JOURNAL_READY'' SESSION_JOURNAL_JSONL_PATH s3))"

section \<open>Screens and commands\<close>

definition session_journal_show_status :: "'a console_sys_scheme \<Rightarrow> 'a console_sys_scheme" where
  "session_journal_show_status s0 =
     (let seq = u32_to_dec (jr_seq (jrn s0));
          s1 = say ''Resumen del journal / Journal summary:'' s0;
          s2 = say (if jr_active (jrn s1) then ''journal: activo / active'' else ''journal: inactivo / inactive'') s1;
          s3 = say (if jr_initialized (jrn s2) then ''initialized: yes'' else ''initialized: no'') s2;
          s4 = say (if jr_active (jrn s3) then ''active: yes'' else ''active: no'') s3;
          s5 = say (if jr_last_flush_ok (jrn s4) then ''last_flush: ok'' else ''last_flush: not-ok'') s4;
          s6 = say (if jr_truncated (jrn s5) then ''truncated: yes'' else ''truncated: no'') s5;
          s7 = say_all [''seq:'', seq, ''jsonl_path:'', SESSION_JOURNAL_JSONL_PATH, ''text_path:'',
                  SESSION_JOURNAL_TEXT_PATH, ''last_error:''] s6;
          s8 = say (or_text (jr_last_error (jrn s7)) ''none'') s7
      in say_all [''Privacy / Privacidad:'', ''Records submitted commands, not raw hidden keystrokes.'',
           ''Registra comandos enviados, no teclas ocultas en bruto.'',
           ''Sensitive-looking commands are redacted / comandos sensibles se ocultan.''] s8)"

text \<open>
  The text buffer by lines of at most 159 characters. Printing can append to the very buffer that is
  being read (the transcript reports its errors to the journal), so each turn reads character \<open>i\<close> of
  the buffer as it is then; a buffer never holds more than 8191 characters, which bounds the turns.
\<close>

fun print_text_loop :: "nat \<Rightarrow> nat \<Rightarrow> string \<Rightarrow> 'a console_sys_scheme \<Rightarrow> string \<times> 'a console_sys_scheme" where
  "print_text_loop 0 i line s = (line, s)"
| "print_text_loop (Suc fuel) i line s =
     (if length (jr_text (jrn s)) \<le> i then (line, s)
      else
        let c = jr_text (jrn s) ! i
        in if c = LF \<or> length line + 1 \<ge> 160
           then print_text_loop fuel (i + 1) (if c \<noteq> LF then [c] else []) (say line s)
           else print_text_loop fuel (i + 1) (line @ [c]) s)"

definition journal_print_text :: "'a console_sys_scheme \<Rightarrow> 'a console_sys_scheme" where
  "journal_print_text s =
     (if jr_text (jrn s) = [] then say ''journal show: empty'' s
      else let (line, s1) = print_text_loop SESSION_JOURNAL_BUFFER_MAX 0 [] s
           in if line \<noteq> [] then say line s1 else s1)"

definition journal_show_last_session_file :: "'a console_sys_scheme \<Rightarrow> 'a console_sys_scheme" where
  "journal_show_last_session_file s =
     (let ((r, txt), s1) = storage_read_text (Some SESSION_JOURNAL_TEXT_PATH) VITA_STORAGE_READ_MAX s
      in if \<not> r then say ''journal last-session: unavailable'' s1
         else say_all [''--- journal last-session / ultima sesion ---'', or_text txt ''(empty / vacio)'',
                ''--- end / fin ---''] s1)"

definition journal_recover :: "'a console_sys_scheme \<Rightarrow> 'a console_sys_scheme" where
  "journal_recover s =
     (let (ok, s1) = session_journal_flush s
      in journal_show_last_session_file
           (say (if ok then ''journal recover: flush ok'' else ''journal recover: flush not available'') s1))"

definition session_journal_handle_command :: "cstr \<Rightarrow> 'a console_sys_scheme \<Rightarrow> bool \<times> 'a console_sys_scheme" where
  "session_journal_handle_command cmd0 s =
     (case cmd0 of None \<Rightarrow> (True, session_journal_show_status s)
      | Some cmd \<Rightarrow>
          if eqs cmd ''journal'' \<or> eqs cmd ''journal status'' then (True, session_journal_show_status s)
          else if eqs cmd ''journal paths''
          then (True, say_all [SESSION_JOURNAL_JSONL_PATH, SESSION_JOURNAL_TEXT_PATH] s)
          else if eqs cmd ''journal flush''
          then (True, let (ok, s1) = session_journal_flush s
                in if ok then say ''journal flush: ok'' s1
                   else let s2 = say ''journal flush: failed'' s1
                        in say (or_text (jr_last_error (jrn s2)) ''unknown'') s2)
          else if eqs cmd ''journal show'' then (True, journal_print_text s)
          else if eqs cmd ''journal summary''
          then (True, say (''journal summary: use '' @ [SQ] @ ''journal show'' @ [SQ] @ '' for full log'') (session_journal_show_status s))
          else if eqs cmd ''journal last-session'' \<or> eqs cmd ''journal last''
          then (True, journal_show_last_session_file s)
          else if eqs cmd ''journal recover'' then (True, journal_recover s)
          else if pre cmd ''journal note ''
          then (let args = skip_spaces (Some (drop 13 cmd))
                in if args = [] then (False, say ''usage: journal note text'' s)
                   else (True, say ''journal note: recorded''
                           (session_journal_log_system (Some ''operator_note'') (Some args) s)))
          else if eqs cmd ''journal help''
          then (True, say_all [''Journal commands / Comandos de bitacora:'', ''journal'', ''journal status'',
                  ''journal show'', ''journal flush'', ''journal paths'', ''journal note text''] s)
          else if \<not> pre cmd ''journal'' then (False, s)
          else (False, say_all [''journal: unknown command'', ''try: journal help''] s))"

section \<open>A started journal\<close>

lemma flush_flag:
  "jr_initialized (jrn s) \<Longrightarrow> jr_active (jrn s) \<Longrightarrow>
     jr_last_flush_ok (jrn (snd (session_journal_flush s))) \<longleftrightarrow> fst (session_journal_flush s)"
  by (simp add: session_journal_flush_def Let_def case_prod_beta journal_set_error_def)

lemma append_flags [simp]:
  "jr_active (append_jsonl t j) = jr_active j" "jr_active (append_jtext t j) = jr_active j"
  "jr_initialized (append_jsonl t j) = jr_initialized j" "jr_initialized (append_jtext t j) = jr_initialized j"
  "jr_seq (append_jsonl t j) = jr_seq j" "jr_seq (append_jtext t j) = jr_seq j"
  by (simp_all add: append_jsonl_def append_jtext_def case_prod_beta)

lemma line_flags [simp]:
  "jr_active (append_text_line t j) = jr_active j" "jr_initialized (append_text_line t j) = jr_initialized j"
  "jr_seq (append_text_line t j) = jr_seq j"
  by (simp_all add: append_text_line_def)

lemma escaped_flags [simp]:
  "jr_active (append_json_escaped t j) = jr_active j" "jr_initialized (append_json_escaped t j) = jr_initialized j"
  "jr_seq (append_json_escaped t j) = jr_seq j"
  by (induction t j rule: append_json_escaped.induct) simp_all

lemma record_flags [simp]:
  "jr_active (append_json_record y t r j) = jr_active j" "jr_active (append_text_record y t r j) = jr_active j"
  "jr_initialized (append_json_record y t r j) = jr_initialized j" "jr_initialized (append_text_record y t r j) = jr_initialized j"
  "jr_seq (append_json_record y t r j) = jr_seq j" "jr_seq (append_text_record y t r j) = jr_seq j"
  by (simp_all add: append_json_record_def append_text_record_def Let_def)

text \<open>An event that leaves the flush flag set has flushed both buffers.\<close>

lemma add_event_flushed:
  assumes "jr_initialized (jrn s)" "jr_active (jrn s)"
  obtains s4 where "journal_add_event ty t b s = snd (session_journal_flush s4)"
    "jr_initialized (jrn s4)" "jr_active (jrn s4)" "jr_seq (jrn s4) = jr_seq (jrn s) + 1"
  using assms by (simp add: journal_add_event_def Let_def case_prod_beta journal_set_error_def)

definition journal_on_disk :: "'a journal_sys_scheme \<Rightarrow> bool" where
  "journal_on_disk s \<longleftrightarrow>
     map_option (\<lambda>c. c_string (take 2047 c)) (stored_text s SESSION_JOURNAL_JSONL_PATH) = Some (jr_jsonl (jrn s)) \<and>
     map_option (\<lambda>c. c_string (take 2047 c)) (stored_text s SESSION_JOURNAL_TEXT_PATH) = Some (jr_text (jrn s))"

lemma flush_on_disk:
  assumes "session_journal_flush s = (True, s')" shows "journal_on_disk s'"
  by (rule flush_ok_steps [OF assms])
    (use assms flush_keeps [of s] in \<open>simp add: journal_on_disk_def\<close>)

lemma journal_on_disk_obs:
  "stored_text s = stored_text s' \<Longrightarrow> jrn s = jrn s' \<Longrightarrow> journal_on_disk s = journal_on_disk s'"
  by (simp add: journal_on_disk_def)

lemma reset_fields:
  "jr_active (jrn (journal_reset s)) = storage_is_bootstrap_verified s" "jr_initialized (jrn (journal_reset s))"
  "jr_seq (jrn (journal_reset s)) = 0" "trn (journal_reset s) = trn s"
  by (simp_all add: journal_reset_def journal_set_error_def upd_jrn_def)

lemma header_fields:
  "jr_active (journal_header j) = jr_active j" "jr_initialized (journal_header j) = jr_initialized j"
  "jr_seq (journal_header j) = jr_seq j"
  by (simp_all add: journal_header_def)

lemma upd_jrn_trn [simp]: "trn (upd_jrn f s) = trn s"
  by (simp add: upd_jrn_def)

lemma journal_init_cases:
  assumes "\<not> tr_active (trn s)"
  obtains (off) "\<not> fst (session_journal_init s)" "\<not> session_journal_is_active (snd (session_journal_init s))"
  | (on) "fst (session_journal_init s)" "session_journal_is_active (snd (session_journal_init s))"
      "storage_is_bootstrap_verified s" "jr_seq (jrn (snd (session_journal_init s))) = 1"
      "journal_on_disk (snd (session_journal_init s))"
proof (cases "storage_is_bootstrap_verified s")
  case False
  then show ?thesis using off assms reset_fields [of s]
    by (simp add: session_journal_init_def Let_def session_journal_is_active_def jq.obs_line inactive.obs_line journal_set_error_def)
next
  case True
  let ?s1 = "upd_jrn journal_header (journal_reset s)"
  let ?s2 = "journal_add_event ''journal_started'' (Some ''persistent session journal active'') False ?s1"
  have 1: "jr_initialized (jrn ?s1)" "jr_active (jrn ?s1)" "jr_seq (jrn ?s1) = 0" "\<not> tr_active (trn ?s1)"
    using reset_fields [of s] True assms by (simp_all add: header_fields)
  obtain s4 where s4: "?s2 = snd (session_journal_flush s4)" "jr_initialized (jrn s4)" "jr_active (jrn s4)" "jr_seq (jrn s4) = 1"
    using add_event_flushed [OF 1(1,2)] 1(3) by (metis add_0)
  have t2: "\<not> tr_active (trn ?s2)" using 1(4) by simp
  show ?thesis
  proof (cases "fst (session_journal_flush s4)")
    case False
    then have "\<not> jr_last_flush_ok (jrn ?s2)" using flush_flag [OF s4(2,3)] by (simp add: s4(1))
    then show ?thesis using off t2 reset_fields(1) [of s] True
      by (simp add: session_journal_init_def Let_def session_journal_is_active_def jq.obs_line inactive.obs_line)
  next
    case ok: True
    then have f: "jr_last_flush_ok (jrn ?s2)" using flush_flag [OF s4(2,3)] by (simp add: s4(1))
    let ?ts = "[''Persistent journal: READY / Bitacora persistente: LISTA'', SESSION_JOURNAL_JSONL_PATH, SESSION_JOURNAL_TEXT_PATH]"
    have r: "session_journal_init s = (True, audit_emit ''SESSION_JOURNAL_READY'' SESSION_JOURNAL_JSONL_PATH (say_all ?ts ?s2))"
      using True f reset_fields(1) [of s] by (simp add: session_journal_init_def Let_def)
    have "session_journal_flush s4 = (True, ?s2)" using ok s4(1) by (intro prod_eqI) simp_all
    then have d: "journal_on_disk ?s2" by (rule flush_on_disk)
    have j: "jrn (snd (session_journal_init s)) = jrn ?s2" using t2 by (simp add: r jq.obs_say_all)
    have st: "stored_text (snd (session_journal_init s)) = stored_text ?s2"
      using fq.obs_say_all [OF t2, of ?ts] by (intro stored_text_obs) (simp add: r)
    have k: "jr_initialized (jrn ?s2)" "jr_active (jrn ?s2)" "jr_seq (jrn ?s2) = 1"
      using s4 flush_keeps [of s4] by simp_all
    show ?thesis
      by (rule on) (use r k j True d journal_on_disk_obs [OF st j] in \<open>simp_all add: session_journal_is_active_def\<close>)
  qed
qed

section \<open>Properties\<close>

text \<open>
  C21. Start of the journal. Before a session log is open, the call reports success exactly when the
  journal is active afterwards; an active journal means that the storage bootstrap was verified, that
  its first record is written, and that both files on the host hold the two buffers.
\<close>

theorem session_journal_start:
  fixes s :: "'a console_sys_scheme"
  assumes "\<not> tr_active (trn s)"
  defines "s' \<equiv> snd (session_journal_init s)"
  shows "(fst (session_journal_init s) \<longleftrightarrow> session_journal_is_active s') \<and>
    (session_journal_is_active s' \<longrightarrow>
       storage_is_bootstrap_verified s \<and> jr_seq (jrn s') = 1 \<and> journal_on_disk s')"
  by (cases rule: journal_init_cases [OF assms(1)]) (auto simp: s'_def)

lemma session_journal_start_witness:
  "\<not> session_journal_is_active (snd (session_journal_init demo_fresh))"
proof -
  have "\<not> tr_active (trn demo_fresh)" "\<not> storage_is_bootstrap_verified demo_fresh"
    by (simp_all add: demo_fresh_def transcript_sys.defs journal_sys.defs storage_sys.defs console_sys.defs
        zero_transcript_def storage_is_bootstrap_verified_def demo_storage_def
        storage_init_def storage_set_error_def zero_storage_def)
  with session_journal_start [of demo_fresh] show ?thesis by blast
qed

end
