(* ===== verification/Node_Core.thy ===== *)
theory Node_Core
  imports JournalCmd
begin

text \<open>
  VitaNet v0 (kernel/node\_core.c, hosted build): one UDP exchange with a seed endpoint, the single peer
  record and the link proposal. The network is the field \<open>net\<close>: which socket calls succeed, what
  datagrams arrive, and how \<open>inet_aton\<close> reads an address are outcomes the code does not control; what
  was sent is recorded. The statics of node\_core.c are the field \<open>nod\<close>.
\<close>

record sockaddr =
  sa_addr :: u32
  sa_port :: u16

record net_env =
  nt_aton :: "string \<Rightarrow> u32 option"
  nt_socket :: "nat \<Rightarrow> bool"
  nt_send :: "nat \<Rightarrow> bool"
  nt_recv :: "nat \<Rightarrow> string option"
  nt_sent :: "(sockaddr \<times> string) list"

record net_sys = console_sys + net :: net_env

record node_state =
  nd_peer :: vita_node_peer
  nd_peer_valid :: bool
  nd_link_pending :: bool
  nd_seed :: string

record node_sys = net_sys + nod :: node_state

definition LINK_PROPOSAL_ID :: string where "LINK_PROPOSAL_ID = ''N-1''"

definition zero_peer :: vita_node_peer where
  "zero_peer = \<lparr>np_peer_id = [], np_first_seen_unix = 0, np_last_seen_unix = 0, np_transport = [],
     np_capabilities_json = [], np_trust_state = [], np_link_state = []\<rparr>"

definition zero_node :: node_state where
  "zero_node = \<lparr>nd_peer = zero_peer, nd_peer_valid = False, nd_link_pending = False, nd_seed = ''127.0.0.1:47001''\<rparr>"

definition upd_nod :: "(node_state \<Rightarrow> node_state) \<Rightarrow> 'a node_sys_scheme \<Rightarrow> 'a node_sys_scheme" where
  "upd_nod f s = s\<lparr>nod := f (nod s)\<rparr>"

definition upd_peer :: "(vita_node_peer \<Rightarrow> vita_node_peer) \<Rightarrow> 'a node_sys_scheme \<Rightarrow> 'a node_sys_scheme" where
  "upd_peer f = upd_nod (\<lambda>n. n\<lparr>nd_peer := f (nd_peer n)\<rparr>)"

section \<open>Sockets\<close>

definition socket_open :: "'a net_sys_scheme \<Rightarrow> bool \<times> 'a net_sys_scheme" where
  "socket_open s = (nt_socket (net s) (h_tick s), ticked s)"

definition udp_send :: "sockaddr \<Rightarrow> string \<Rightarrow> 'a net_sys_scheme \<Rightarrow> bool \<times> 'a net_sys_scheme" where
  "udp_send to msg s =
     (let ok = nt_send (net s) (h_tick s)
      in (ok, if ok then (ticked s)\<lparr>net := (net s)\<lparr>nt_sent := nt_sent (net s) @ [(to, msg)]\<rparr>\<rparr> else ticked s))"

definition udp_recv :: "nat \<Rightarrow> 'a net_sys_scheme \<Rightarrow> cstr \<times> 'a net_sys_scheme" where
  "udp_recv out_cap s =
     (if out_cap < 2 then (None, s)
      else case nt_recv (net s) (h_tick s) of
             None \<Rightarrow> (None, ticked s)
           | Some bytes \<Rightarrow> (if bytes = [] then None else Some (c_string (take (out_cap - 1) bytes)), ticked s))"

text \<open>\<open>atoi\<close>: 0 when no number stands there.\<close>

definition c_atoi :: "string \<Rightarrow> int" where
  "c_atoi t = (case scan_dec t of None \<Rightarrow> 0 | Some (v, _) \<Rightarrow> v)"

definition parse_endpoint :: "string \<Rightarrow> 'a net_sys_scheme \<Rightarrow> sockaddr option" where
  "parse_endpoint text s =
     (case dropWhile (\<lambda>c. c \<noteq> CHR '':'') text of
        [] \<Rightarrow> None
      | _ # rest \<Rightarrow>
          let ip = take 63 (takeWhile (\<lambda>c. c \<noteq> CHR '':'') text);
              port = c_atoi rest
          in if port \<le> 0 \<or> port > 65535 then None
             else map_option (\<lambda>a. \<lparr>sa_addr = a, sa_port = of_int port\<rparr>) (nt_aton (net s) ip))"

definition send_control_message :: "string \<Rightarrow> string \<Rightarrow> 'a net_sys_scheme \<Rightarrow> 'a net_sys_scheme" where
  "send_control_message endpoint message s =
     (case parse_endpoint endpoint s of
        None \<Rightarrow> s
      | Some target \<Rightarrow>
          let (fd, s1) = socket_open s in if \<not> fd then s1 else snd (udp_send target message s1))"

section \<open>The peer and its messages\<close>

definition ensure_peer_defaults :: "'a node_sys_scheme \<Rightarrow> 'a node_sys_scheme" where
  "ensure_peer_defaults s =
     (if nd_peer_valid (nod s) then s
      else
        let (now, s1) = unix_now s
        in upd_nod (\<lambda>n. n\<lparr>nd_peer := \<lparr>np_peer_id = copy_text 64 ''peer-unknown'', np_first_seen_unix = now,
             np_last_seen_unix = now, np_transport = copy_text 32 ''udp/ipv4-hosted'',
             np_capabilities_json = copy_text 256 ''{}'', np_trust_state = copy_text 32 ''observed'',
             np_link_state = copy_text 32 ''discovered''\<rparr>, nd_peer_valid := True\<rparr>) s1)"

definition link_proposal_row :: vita_ai_proposal where
  "link_proposal_row =
     \<lparr>ap_proposal_id = Some LINK_PROPOSAL_ID, ap_proposal_type = Some ''link_with_peer'',
      ap_summary = Some ''Link with discovered peer / Vincular con peer detectado'',
      ap_rationale = Some ''VitaNet peer discovered with basic capabilities'',
      ap_risk_level = Some ''medium'', ap_benefit_level = Some ''high'',
      ap_requires_human_confirmation = True, ap_status = Some ''PENDING''\<rparr>"

definition create_link_proposal_if_needed :: "'a node_sys_scheme \<Rightarrow> 'a node_sys_scheme" where
  "create_link_proposal_if_needed s =
     (if \<not> nd_peer_valid (nod s) \<or> nd_link_pending (nod s) then s
      else
        let (ok, s1) = audit_persist_ai_proposal (Some link_proposal_row) s
        in if ok
           then let s2 = upd_nod (\<lambda>n. n\<lparr>nd_link_pending := True\<rparr>) s1
                in audit_emit ''LINK_PROPOSAL_CREATED'' (np_peer_id (nd_peer (nod s2))) s2
           else s1)"

text \<open>\<open>g_peer.last_seen_unix = unix_now()\<close>, the upsert of the peer and the audit event.\<close>

definition seen_now :: "'a node_sys_scheme \<Rightarrow> 'a node_sys_scheme" where
  "seen_now s = (let (now, s1) = unix_now s in upd_peer (\<lambda>p. p\<lparr>np_last_seen_unix := now\<rparr>) s1)"

definition record_peer :: "string \<Rightarrow> 'a node_sys_scheme \<Rightarrow> 'a node_sys_scheme" where
  "record_peer ev s =
     (let s1 = snd (audit_upsert_node_peer (Some (nd_peer (nod s))) s)
      in audit_emit ev (np_peer_id (nd_peer (nod s1))) s1)"

definition set_link :: "string \<Rightarrow> 'a node_sys_scheme \<Rightarrow> 'a node_sys_scheme" where
  "set_link st = upd_peer (\<lambda>p. p\<lparr>np_link_state := copy_text 32 st\<rparr>)"

definition link_done :: "'a node_sys_scheme \<Rightarrow> 'a node_sys_scheme" where
  "link_done = upd_nod (\<lambda>n. n\<lparr>nd_link_pending := False\<rparr>)"

definition handle_message :: "string \<Rightarrow> 'a node_sys_scheme \<Rightarrow> 'a node_sys_scheme" where
  "handle_message msg s0 =
     (let s = ensure_peer_defaults s0 in
      if pre msg ''HELLO '' then
        let s1 = upd_peer (\<lambda>p. p\<lparr>np_peer_id := copy_text 64 (drop 6 msg)\<rparr>) s;
            s2 = (if np_first_seen_unix (nd_peer (nod s1)) \<noteq> 0 then s1
                  else let (now, t) = unix_now s1 in upd_peer (\<lambda>p. p\<lparr>np_first_seen_unix := now\<rparr>) t)
        in create_link_proposal_if_needed (record_peer ''PEER_DISCOVERED'' (seen_now s2))
      else if pre msg ''CAPS '' then
        record_peer ''PEER_CAPABILITIES_RECEIVED''
          (seen_now (upd_peer (\<lambda>p. p\<lparr>np_capabilities_json := copy_text 256 (drop 5 msg)\<rparr>) s))
      else if pre msg ''HEARTBEAT'' then record_peer ''HEARTBEAT_RECEIVED'' (seen_now s)
      else if pre msg ''LINK_ACCEPT'' then
        link_done (record_peer ''LINK_ACCEPTED_REMOTE'' (seen_now (set_link ''linked'' s)))
      else if pre msg ''LINK_REJECT'' then
        link_done (record_peer ''LINK_REJECTED_REMOTE'' (seen_now (set_link ''rejected'' s)))
      else if pre msg ''AUDIT_BLOCK '' then record_peer ''AUDIT_REPLICATION_RECEIVED'' (seen_now s)
      else s)"

text \<open>The four turns of the receive loop.\<close>

fun receive_loop :: "nat \<Rightarrow> 'a node_sys_scheme \<Rightarrow> 'a node_sys_scheme" where
  "receive_loop 0 s = s"
| "receive_loop (Suc k) s =
     (case udp_recv 512 s of
        (None, s1) \<Rightarrow> receive_loop k s1
      | (Some msg, s1) \<Rightarrow> receive_loop k (handle_message msg (audit_emit ''VITANET_RX'' msg s1)))"

definition node_core_start :: "vita_handoff option \<Rightarrow> 'a node_sys_scheme \<Rightarrow> bool \<times> 'a node_sys_scheme" where
  "node_core_start handoff s0 =
     (let s1 = upd_nod (\<lambda>n. n\<lparr>nd_peer_valid := False, nd_link_pending := False\<rparr>)
                 (audit_emit ''VITANET_STARTED'' ''vitanet started'' s0);
          s2 = (case Option.bind handoff ho_vitanet_seed_endpoint of
                  None \<Rightarrow> s1
                | Some e \<Rightarrow> if e \<noteq> [] then upd_nod (\<lambda>n. n\<lparr>nd_seed := copy_text 64 e\<rparr>) s1 else s1)
      in case parse_endpoint (nd_seed (nod s2)) s2 of
           None \<Rightarrow> (False, audit_emit ''VITANET_ERROR'' ''invalid seed endpoint'' s2)
         | Some target \<Rightarrow>
             let (fd, s3) = socket_open s2 in
             if \<not> fd then (False, audit_emit ''VITANET_ERROR'' ''udp socket failed'' s3)
             else
               let s4 = snd (udp_send target ''HELLO node-local'' s3);
                   s5 = snd (udp_send target
                          (''CAPS {'' @ [DQ] @ ''audit_replication_v0'' @ [DQ] @ '':true,'' @ [DQ] @ ''node_task_v0'' @ [DQ] @ '':true}'') s4);
                   s6 = receive_loop 4 (audit_emit ''VITANET_HELLO_SENT'' ''hello and caps sent'' s5);
                   s7 = (if \<not> nd_peer_valid (nod s6) then s6
                         else let ((r, block), t) = audit_export_recent_event_block (Some []) 512 s6 in
                              if \<not> r then t
                              else let wire = copy_text 768 ''AUDIT_BLOCK '' @ copy_text 756 (case block of None \<Rightarrow> [] | Some b \<Rightarrow> b);
                                       u = snd (udp_send target wire t)
                                   in audit_emit ''AUDIT_REPLICATION_ATTEMPTED'' (np_peer_id (nd_peer (nod u))) u)
               in (nd_peer_valid (nod s7), s7))"

definition node_core_peer_count :: "'a node_sys_scheme \<Rightarrow> nat" where
  "node_core_peer_count s = (if nd_peer_valid (nod s) then 1 else 0)"

definition node_core_pending_proposal_count :: "'a node_sys_scheme \<Rightarrow> nat" where
  "node_core_pending_proposal_count s = (if nd_link_pending (nod s) then 1 else 0)"

section \<open>Screens and the human's answer\<close>

definition node_core_show_peers :: "'a node_sys_scheme \<Rightarrow> 'a node_sys_scheme" where
  "node_core_show_peers s =
     (if \<not> nd_peer_valid (nod s) then say ''No peers discovered / Sin peers detectados'' s
      else
        let p = nd_peer (nod s);
            s1 = say_all [''Peer summary / Resumen de peer:'', np_peer_id p, ''transport:'', np_transport p,
                   ''capabilities_json:'', np_capabilities_json p, ''trust_state:'', np_trust_state p,
                   ''link_state:'', np_link_state p, ''first_seen_unix:'', u64_to_dec (np_first_seen_unix p),
                   ''last_seen_unix:'', u64_to_dec (np_last_seen_unix p)] s
        in if nd_link_pending (nod s1) then say_all [''pending_link_proposal:'', LINK_PROPOSAL_ID] s1 else s1)"

definition node_core_show_link_proposal :: "'a node_sys_scheme \<Rightarrow> 'a node_sys_scheme" where
  "node_core_show_link_proposal s =
     (if \<not> nd_link_pending (nod s) \<or> \<not> nd_peer_valid (nod s) then s
      else audit_emit ''AI_PROPOSAL_SHOWN'' LINK_PROPOSAL_ID
        (say_all [''--- Proposal / Propuesta ---'', LINK_PROPOSAL_ID, ''1. Resumen / Summary:'',
           ''Link with discovered peer / Vincular con peer detectado'', ''2. Riesgos inmediatos / Immediate risks:'',
           ''medium'', ''3. Preguntas criticas / Critical questions:'', ''Is this peer trusted for initial cooperation?'',
           ''4. Acciones inmediatas sugeridas / Suggested actions:'', ''approve N-1 | reject N-1'',
           ''5. Recursos del sistema / System resources:'', np_capabilities_json (nd_peer (nod s)),
           ''6. Propuesta del sistema / System proposal:'',
           ''Create initial cooperative link for audit replication trials.'',
           ''7. Estado de auditoria / Audit state:'', ''PENDING''] s))"

definition node_core_handle_link_response ::
  "cstr \<Rightarrow> bool \<Rightarrow> 'a node_sys_scheme \<Rightarrow> bool \<times> 'a node_sys_scheme" where
  "node_core_handle_link_response proposal_id approve s =
     (if proposal_id = None \<or> \<not> nd_link_pending (nod s) \<or> \<not> nd_peer_valid (nod s) then (False, s)
      else if \<not> str_eq proposal_id (Some LINK_PROPOSAL_ID) then (False, s)
      else
        let s1 = set_link (if approve then ''linked'' else ''rejected'') s;
            s2 = audit_emit (if approve then ''LINK_ACCEPTED'' else ''LINK_REJECTED'') (np_peer_id (nd_peer (nod s1))) s1;
            s3 = send_control_message (nd_seed (nod s2))
                   (if approve then ''LINK_ACCEPT node-local'' else ''LINK_REJECT node-local'') s2;
            s4 = seen_now s3;
            s5 = snd (audit_upsert_node_peer (Some (nd_peer (nod s4))) s4)
        in (True, link_done s5))"

section \<open>What reaches the peer record\<close>

interpretation ndq: mute nod
  by unfold_locales
    (simp_all add: fs_put_def ticked_def storage_set_error_def upd_jrn_def upd_trn_def upd_con_def emit_out_def)

interpretation ndaq: audit_quiet nod
  by unfold_locales (simp_all add: ticked_def)

interpretation ntq: mute net
  by unfold_locales
    (simp_all add: fs_put_def ticked_def storage_set_error_def upd_jrn_def upd_trn_def upd_con_def emit_out_def)

interpretation ntaq: audit_quiet net
  by unfold_locales (simp_all add: ticked_def)

declare ndq.obs_talk [simp] ndaq.obs_audit [simp] ntq.obs_talk [simp] ntaq.obs_audit [simp]

lemma nod_ticked [simp]: "nod (ticked s) = nod s"
  by (simp add: ticked_def)

lemma net_ticked [simp]: "net (ticked s) = net s"
  by (simp add: ticked_def)

lemma nod_upd [simp]: "nod (upd_nod f s) = f (nod s)" "net (upd_nod f s) = net s"
  by (simp_all add: upd_nod_def)

lemma nod_sockets [simp]:
  "nod (snd (socket_open s)) = nod s" "nod (snd (udp_send a m s)) = nod s" "nod (snd (udp_recv c s)) = nod s"
  by (simp_all add: socket_open_def udp_send_def udp_recv_def Let_def ticked_def split: option.splits)

lemma nod_export [simp]: "nod (snd (audit_export_recent_event_block out cap s)) = nod s"
  by (simp add: audit_export_recent_event_block_def Let_def case_prod_beta ndaq.obs_sqlite split: option.splits)

lemma nod_control [simp]: "nod (send_control_message e m s) = nod s"
  by (simp add: send_control_message_def Let_def case_prod_beta split: option.splits)

lemma nod_record [simp]: "nod (record_peer ev s) = nod s"
  by (simp add: record_peer_def Let_def)

lemma nod_peer_updates [simp]:
  "nod (upd_peer f s) = (nod s)\<lparr>nd_peer := f (nd_peer (nod s))\<rparr>"
  "nod (set_link st s) = (nod s)\<lparr>nd_peer := (nd_peer (nod s))\<lparr>np_link_state := copy_text 32 st\<rparr>\<rparr>"
  "nod (link_done s) = (nod s)\<lparr>nd_link_pending := False\<rparr>"
  "nod (seen_now s) = (nod s)\<lparr>nd_peer := (nd_peer (nod s))\<lparr>np_last_seen_unix := fst (unix_now s)\<rparr>\<rparr>"
  by (simp_all add: upd_peer_def set_link_def link_done_def seen_now_def case_prod_beta unix_now_def)

lemma nod_create [simp]:
  "nod (create_link_proposal_if_needed s) =
     (if nd_peer_valid (nod s) \<and> \<not> nd_link_pending (nod s) \<and> fst (audit_persist_ai_proposal (Some link_proposal_row) s)
      then (nod s)\<lparr>nd_link_pending := True\<rparr> else nod s)"
  by (simp add: create_link_proposal_if_needed_def Let_def case_prod_beta)

lemma nod_defaults:
  "nd_peer_valid (nod (ensure_peer_defaults s))"
  "nd_link_pending (nod (ensure_peer_defaults s)) = nd_link_pending (nod s)"
  "nd_seed (nod (ensure_peer_defaults s)) = nd_seed (nod s)"
  "nd_peer_valid (nod s) \<Longrightarrow> ensure_peer_defaults s = s"
  "\<not> nd_peer_valid (nod s) \<Longrightarrow> np_link_state (nd_peer (nod (ensure_peer_defaults s))) = ''discovered''"
  by (simp_all add: ensure_peer_defaults_def Let_def case_prod_beta unix_now_def str_copy_fits)

section \<open>Invariant of the peer record\<close>

definition peer_ok :: "vita_node_peer \<Rightarrow> bool" where
  "peer_ok p \<longleftrightarrow> np_link_state p \<in> {''discovered'', ''linked'', ''rejected''} \<and> np_trust_state p = ''observed'' \<and>
     np_transport p = ''udp/ipv4-hosted'' \<and> length (np_peer_id p) < 64 \<and> length (np_capabilities_json p) < 256"

definition node_ok :: "node_state \<Rightarrow> bool" where
  "node_ok n \<longleftrightarrow> (nd_link_pending n \<longrightarrow> nd_peer_valid n) \<and> (nd_peer_valid n \<longrightarrow> peer_ok (nd_peer n))"

lemma peer_ok_updates [simp]:
  "peer_ok (p\<lparr>np_last_seen_unix := t\<rparr>) = peer_ok p" "peer_ok (p\<lparr>np_first_seen_unix := t\<rparr>) = peer_ok p"
  "peer_ok p \<Longrightarrow> peer_ok (p\<lparr>np_peer_id := copy_text 64 i\<rparr>)"
  "peer_ok p \<Longrightarrow> peer_ok (p\<lparr>np_capabilities_json := copy_text 256 j\<rparr>)"
  "peer_ok p \<Longrightarrow> st \<in> {''linked'', ''rejected''} \<Longrightarrow> peer_ok (p\<lparr>np_link_state := copy_text 32 st\<rparr>)"
  by (auto simp: peer_ok_def str_copy_length str_copy_fits)

lemma defaults_ok: "node_ok (nod s) \<Longrightarrow> node_ok (nod (ensure_peer_defaults s)) \<and> peer_ok (nd_peer (nod (ensure_peer_defaults s)))"
  by (auto simp: ensure_peer_defaults_def node_ok_def peer_ok_def Let_def case_prod_beta unix_now_def str_copy_fits)

lemma handle_message_ok: "node_ok (nod s) \<Longrightarrow> node_ok (nod (handle_message m s))"
  using defaults_ok [of s] nod_defaults(1) [of s]
  by (simp add: handle_message_def Let_def case_prod_beta) (auto simp: node_ok_def unix_now_def)

lemma link_response_ok: "node_ok (nod s) \<Longrightarrow> node_ok (nod (snd (node_core_handle_link_response i a s)))"
  by (auto simp: node_core_handle_link_response_def Let_def case_prod_beta node_ok_def)

section \<open>Sessions with a peer\<close>

datatype node_event = Datagram string | Answer cstr bool

fun node_do :: "node_event \<Rightarrow> 'a node_sys_scheme \<Rightarrow> 'a node_sys_scheme" where
  "node_do (Datagram m) s = handle_message m s"
| "node_do (Answer i a) s = snd (node_core_handle_link_response i a s)"

fun linking :: "node_event \<Rightarrow> bool" where
  "linking (Datagram m) = prefix ''LINK_ACCEPT'' m"
| "linking (Answer i a) = (a \<and> i = Some LINK_PROPOSAL_ID)"

definition linked :: "node_state \<Rightarrow> bool" where
  "linked n \<longleftrightarrow> nd_peer_valid n \<and> np_link_state (nd_peer n) = ''linked''"

lemma message_links: "linked (nod (handle_message m s)) \<Longrightarrow> linking (Datagram m) \<or> linked (nod s)"
  using nod_defaults(4,5) [of s]
  by (cases "nd_peer_valid (nod s)")
    (auto simp: handle_message_def Let_def case_prod_beta linked_def starts_with_Some str_copy_fits unix_now_def
      split: if_splits)

lemma answer_links:
  "linked (nod (snd (node_core_handle_link_response i a s))) \<Longrightarrow> linking (Answer i a) \<or> linked (nod s)"
  by (cases i) (auto simp: node_core_handle_link_response_def Let_def case_prod_beta linked_def str_copy_fits split: if_splits)

lemma node_do_ok: "node_ok (nod s) \<Longrightarrow> node_ok (nod (node_do e s))"
  by (cases e) (simp_all add: handle_message_ok link_response_ok)

lemma node_do_links: "linked (nod (node_do e s)) \<Longrightarrow> linking e \<or> linked (nod s)"
proof (cases e)
  case (Datagram m)
  then show "linked (nod (node_do e s)) \<Longrightarrow> ?thesis" using message_links [of m s] by auto
next
  case (Answer i a)
  then show "linked (nod (node_do e s)) \<Longrightarrow> ?thesis" using answer_links [of i a s] by auto
qed

lemma node_run:
  "node_ok (nod s) \<Longrightarrow> node_ok (nod (fold node_do evs s)) \<and>
     (linked (nod (fold node_do evs s)) \<longrightarrow> linked (nod s) \<or> (\<exists>e\<in>set evs. linking e))"
proof (induction evs arbitrary: s)
  case (Cons e evs)
  from Cons.IH [OF node_do_ok [OF Cons.prems, of e]] node_do_links [of e s] show ?case by auto
qed simp

lemma receive_loop_ok: "node_ok (nod s) \<Longrightarrow> node_ok (nod (receive_loop k s))"
proof (induction k arbitrary: s)
  case (Suc k)
  show ?case
  proof (cases "udp_recv 512 s")
    case (Pair r t)
    with nod_sockets(3) [of 512 s] Suc show ?thesis
      by (cases r) (simp_all add: handle_message_ok)
  qed
qed simp

lemma control_message_sent:
  "\<exists>ms. nt_sent (net (send_control_message e m s)) = nt_sent (net s) @ ms \<and>
     (ms = [] \<or> (\<exists>a. parse_endpoint e s = Some a \<and> ms = [(a, m)]))"
  by (cases "parse_endpoint e s")
    (auto simp: send_control_message_def socket_open_def udp_send_def Let_def)

lemma net_steps [simp]:
  "net (upd_peer f s) = net s" "net (set_link st s) = net s" "net (link_done s) = net s" "net (seen_now s) = net s"
  by (simp_all add: upd_peer_def set_link_def link_done_def seen_now_def case_prod_beta unix_now_def)

lemma parse_endpoint_net: "net s = net t \<Longrightarrow> parse_endpoint e s = parse_endpoint e t"
  unfolding parse_endpoint_def by (erule ssubst) (rule refl)

section \<open>Properties\<close>

text \<open>
  C25. Who can link a peer. Whatever datagrams arrive and answers are given, in any order, after a start
  without a peer: the peer record stays well-formed (texts inside their arrays, a known link state, no
  pending proposal without a peer), and the peer is linked only if a \<open>LINK_ACCEPT\<close> datagram arrived or the
  proposal \<open>N-1\<close> was approved. The datagram alone is enough, without the human's answer.
\<close>

theorem node_link_needs_accept:
  fixes s :: "'a node_sys_scheme" and evs :: "node_event list" and m :: string
  assumes "\<not> nd_peer_valid (nod s)" "\<not> nd_link_pending (nod s)"
  defines "s' \<equiv> fold node_do evs s"
  shows "node_ok (nod s') \<and> (linked (nod s') \<longrightarrow> (\<exists>e\<in>set evs. linking e)) \<and>
    (prefix ''LINK_ACCEPT'' m \<longrightarrow> linked (nod (handle_message m s')) \<and> \<not> nd_link_pending (nod (handle_message m s')))"
proof -
  have "node_ok (nod s)" "\<not> linked (nod s)" using assms(1,2) by (simp_all add: node_ok_def linked_def)
  moreover have "linked (nod (handle_message m s')) \<and> \<not> nd_link_pending (nod (handle_message m s'))"
    if "prefix ''LINK_ACCEPT'' m"
    using that nod_defaults(1) [of s']
    by (auto simp: handle_message_def Let_def starts_with_Some prefix_def linked_def str_copy_fits)
  ultimately show ?thesis using node_run [of s evs] by (auto simp: s'_def)
qed

definition demo_net :: net_env where
  "demo_net = \<lparr>nt_aton = (\<lambda>t. if t = ''127.0.0.1'' then Some 0x0100007F else None), nt_socket = (\<lambda>_. True),
     nt_send = (\<lambda>_. True), nt_recv = (\<lambda>_. None), nt_sent = []\<rparr>"

definition demo_node :: node_sys where
  "demo_node = net_sys.extend (console_sys.extend demo_fresh (net_sys.fields demo_net)) (node_sys.fields zero_node)"

lemma demo_node_nod: "nod demo_node = zero_node"
  by (simp add: demo_node_def net_sys.defs node_sys.defs)

lemma node_link_needs_accept_witness:
  "node_ok (nod (fold node_do [Datagram ''HELLO peer-7'', Answer (Some ''N-1'') False] demo_node)) \<and>
   \<not> linked (nod (fold node_do [Datagram ''HELLO peer-7'', Answer (Some ''N-1'') False] demo_node)) \<and>
   linked (nod (handle_message ''LINK_ACCEPT x'' (fold node_do [] demo_node)))"
  using node_link_needs_accept [of demo_node "[Datagram ''HELLO peer-7'', Answer (Some ''N-1'') False]" "''LINK_ACCEPT x''"]
    node_link_needs_accept [of demo_node "[]" "''LINK_ACCEPT x''"]
  by (simp add: demo_node_nod zero_node_def)

text \<open>
  The human's answer. It is accepted exactly when the proposal of a known peer is pending and the
  answer names it; then the peer is linked or rejected as answered, the proposal is closed so that no
  second answer is accepted, and at most one datagram, the matching one, goes to the seed endpoint. Any
  other answer changes nothing.
\<close>

theorem node_link_answer:
  fixes s :: "'a node_sys_scheme" and i :: cstr and a :: bool
  defines "r \<equiv> node_core_handle_link_response i a s"
  shows "(fst r \<longleftrightarrow> i = Some ''N-1'' \<and> nd_link_pending (nod s) \<and> nd_peer_valid (nod s)) \<and>
    (if fst r
     then \<not> nd_link_pending (nod (snd r)) \<and>
          np_link_state (nd_peer (nod (snd r))) = (if a then ''linked'' else ''rejected'') \<and>
          (\<forall>j b. \<not> fst (node_core_handle_link_response j b (snd r))) \<and>
          (\<exists>ms. nt_sent (net (snd r)) = nt_sent (net s) @ ms \<and>
             (ms = [] \<or> (\<exists>to. parse_endpoint (nd_seed (nod s)) s = Some to \<and>
                ms = [(to, if a then ''LINK_ACCEPT node-local'' else ''LINK_REJECT node-local'')])))
     else snd r = s)"
proof (cases "i = Some LINK_PROPOSAL_ID \<and> nd_link_pending (nod s) \<and> nd_peer_valid (nod s)")
  case False
  then have "r = (False, s)"
    by (cases i) (auto simp: r_def node_core_handle_link_response_def)
  then show ?thesis using False by (auto simp: LINK_PROPOSAL_ID_def)
next
  case True
  let ?s1 = "set_link (if a then ''linked'' else ''rejected'') s"
  let ?s2 = "audit_emit (if a then ''LINK_ACCEPTED'' else ''LINK_REJECTED'') (np_peer_id (nd_peer (nod ?s1))) ?s1"
  let ?m = "if a then ''LINK_ACCEPT node-local'' else ''LINK_REJECT node-local''"
  let ?s3 = "send_control_message (nd_seed (nod ?s2)) ?m ?s2"
  have r: "fst r" "nod (snd r) = (nod ?s3)\<lparr>nd_peer := (nd_peer (nod ?s3))\<lparr>np_last_seen_unix := fst (unix_now ?s3)\<rparr>,
      nd_link_pending := False\<rparr>" "net (snd r) = net ?s3"
    using True by (simp_all add: r_def node_core_handle_link_response_def Let_def)
  have pe: "parse_endpoint (nd_seed (nod ?s2)) ?s2 = parse_endpoint (nd_seed (nod s)) s"
    by (subst parse_endpoint_net [of ?s2 s]) simp_all
  have "\<exists>ms. nt_sent (net (snd r)) = nt_sent (net s) @ ms \<and>
     (ms = [] \<or> (\<exists>to. parse_endpoint (nd_seed (nod s)) s = Some to \<and> ms = [(to, ?m)]))"
    using control_message_sent [of "nd_seed (nod ?s2)" ?m ?s2] by (simp only: r(3) pe) simp
  then show ?thesis using r True
    by (simp add: LINK_PROPOSAL_ID_def str_copy_fits) (simp add: node_core_handle_link_response_def)
qed

text \<open>
  Start of the network. The call reports success exactly when it leaves a valid peer record, and
  whatever arrived meanwhile the record is well-formed.
\<close>

theorem node_start_sound:
  "(fst (node_core_start ho s) \<longleftrightarrow> nd_peer_valid (nod (snd (node_core_start ho s)))) \<and>
   node_ok (nod (snd (node_core_start ho s)))"
proof -
  define s2 where "s2 = (let s1 = upd_nod (\<lambda>n. n\<lparr>nd_peer_valid := False, nd_link_pending := False\<rparr>)
                 (audit_emit ''VITANET_STARTED'' ''vitanet started'' s)
      in case Option.bind ho ho_vitanet_seed_endpoint of None \<Rightarrow> s1
         | Some e \<Rightarrow> if e \<noteq> [] then upd_nod (\<lambda>n. n\<lparr>nd_seed := copy_text 64 e\<rparr>) s1 else s1)"
  have ok: "node_ok (nod s2)" "\<not> nd_peer_valid (nod s2)"
    by (auto simp: s2_def node_ok_def Let_def split: option.splits)
  have loop: "node_ok (nod (receive_loop 4 t))" if "nod t = nod s2" for t
    using receive_loop_ok [of t 4] ok that by simp
  show ?thesis
    unfolding node_core_start_def Let_def s2_def [unfolded Let_def, symmetric]
    using ok by (auto simp: case_prod_beta split: option.split intro!: loop)
qed

end
