(* ===== verification/Proposal.thy ===== *)
theory Proposal
  imports Node_Core
begin

text \<open>
  The proposal engine (kernel/proposal.c): the slots, the initial proposals, their display, the
  approve and reject commands and the hosted read loop. The used slots of \<open>g_proposals\<close> with the
  counter \<open>g_count\<close> are the list \<open>prp\<close>.
\<close>

record proposal_slot =
  sl_proposal_id :: string
  sl_proposal_type :: string
  sl_summary :: string
  sl_rationale :: string
  sl_risk_level :: string
  sl_benefit_level :: string
  sl_requires_human_confirmation :: bool
  sl_status :: string

record prop_sys = node_sys + prp :: "proposal_slot list"

definition MAX_PROPOSALS :: nat where "MAX_PROPOSALS = 8"

definition upd_prp :: "(proposal_slot list \<Rightarrow> proposal_slot list) \<Rightarrow> 'a prop_sys_scheme \<Rightarrow> 'a prop_sys_scheme" where
  "upd_prp f s = s\<lparr>prp := f (prp s)\<rparr>"

definition id_from_index :: "nat \<Rightarrow> string" where
  "id_from_index idx =
     (let n = idx + 1
      in if n \<ge> 10 then ''P-'' @ [char_of (48 + n div 10), char_of (48 + n mod 10)]
         else ''P-'' @ [char_of (48 + n)])"

definition proposal_engine_reset :: "'a prop_sys_scheme \<Rightarrow> 'a prop_sys_scheme" where
  "proposal_engine_reset = upd_prp (\<lambda>_. [])"

definition row_of_slot :: "proposal_slot \<Rightarrow> vita_ai_proposal" where
  "row_of_slot p =
     \<lparr>ap_proposal_id = Some (sl_proposal_id p), ap_proposal_type = Some (sl_proposal_type p),
      ap_summary = Some (sl_summary p), ap_rationale = Some (sl_rationale p), ap_risk_level = Some (sl_risk_level p),
      ap_benefit_level = Some (sl_benefit_level p),
      ap_requires_human_confirmation = sl_requires_human_confirmation p, ap_status = Some (sl_status p)\<rparr>"

text \<open>
  The counter is raised after the row is persisted and the event emitted; neither reads the slots, so
  the model adds the slot last.
\<close>

definition add_proposal ::
  "string \<Rightarrow> string \<Rightarrow> string \<Rightarrow> string \<Rightarrow> string \<Rightarrow> 'a prop_sys_scheme \<Rightarrow> 'a prop_sys_scheme" where
  "add_proposal type summary rationale risk benefit s =
     (if length (prp s) \<ge> MAX_PROPOSALS then s
      else
        let p = \<lparr>sl_proposal_id = id_from_index (length (prp s)), sl_proposal_type = type, sl_summary = summary,
                 sl_rationale = rationale, sl_risk_level = risk, sl_benefit_level = benefit,
                 sl_requires_human_confirmation = True, sl_status = ''PENDING''\<rparr>;
            s1 = snd (audit_persist_ai_proposal (Some (row_of_slot p)) s)
        in upd_prp (\<lambda>ps. ps @ [p]) (audit_emit ''AI_PROPOSAL_CREATED'' (sl_proposal_id p) s1))"

definition proposal_generate_initial ::
  "vita_handoff option \<Rightarrow> vita_hw_snapshot option \<Rightarrow> bool \<Rightarrow> 'a prop_sys_scheme \<Rightarrow> 'a prop_sys_scheme" where
  "proposal_generate_initial handoff hw audit_ready s =
     (let hosted = (case handoff of None \<Rightarrow> False | Some h \<Rightarrow> ho_firmware_type h = VITA_FIRMWARE_HOSTED);
          mode = (if hosted then ''hosted'' else ''uefi'');
          s1 = add_proposal ''review_hardware_status'' ''Review hardware status / Revisar estado de hardware''
                 (if (case hw of None \<Rightarrow> False | Some h \<Rightarrow> hw_ram_bytes h > 0)
                  then ''Hardware snapshot available with real RAM/CPU data''
                  else ''Hardware snapshot partial; verify detection limits'') ''low'' ''high'' (proposal_engine_reset s);
          s2 = add_proposal ''review_audit_status'' ''Review audit status / Revisar estado de auditoria''
                 (if audit_ready then ''Persistent SQLite backend is active'' else ''Audit backend is not active'')
                 (if audit_ready then ''low'' else ''high'') ''high'' s1;
          s3 = add_proposal ''enter_guided_emergency_mode'' ''Enter guided emergency mode / Entrar en modo emergencia guiado''
                 ''Provides structured questions and immediate actions'' ''medium'' ''high'' s2;
          s4 = add_proposal ''inspect_cooperative_node_readiness''
                 ''Inspect cooperative node readiness / Revisar nodos cooperativos''
                 (if eqs mode ''hosted'' then ''Boot mode hosted: validate node readiness stubs''
                  else ''UEFI mode: verify cooperative stack prerequisites'') ''medium'' ''medium'' s3
      in audit_emit ''AI_PROPOSALS_READY'' ''initial proposals generated'' s4)"

definition show_proposal :: "proposal_slot \<Rightarrow> 'a prop_sys_scheme \<Rightarrow> 'a prop_sys_scheme" where
  "show_proposal p s =
     audit_emit ''AI_PROPOSAL_SHOWN'' (sl_proposal_id p)
       (say_all [''--- Proposal / Propuesta ---'', sl_proposal_id p, ''1. Resumen / Summary:'', sl_summary p,
          ''2. Riesgos inmediatos / Immediate risks:'', sl_risk_level p,
          ''3. Preguntas criticas / Critical questions:'', ''Is human approval required?'',
          ''4. Acciones inmediatas sugeridas / Suggested actions:'', ''approve <id> | reject <id>'',
          ''5. Recursos del sistema / System resources:'', sl_benefit_level p,
          ''6. Propuesta del sistema / System proposal:'', sl_rationale p,
          ''7. Estado de auditoria / Audit state:'', sl_status p] s)"

definition proposal_show_all :: "'a prop_sys_scheme \<Rightarrow> 'a prop_sys_scheme" where
  "proposal_show_all s = fold show_proposal (prp s) s"

text \<open>The index of the first slot with the id.\<close>

fun find_by_id :: "string \<Rightarrow> proposal_slot list \<Rightarrow> nat option" where
  "find_by_id id0 [] = None"
| "find_by_id id0 (p # ps) = (if eqs (sl_proposal_id p) id0 then Some 0 else map_option Suc (find_by_id id0 ps))"

text \<open>The two branches \<open>approve\<close> and \<open>reject\<close>, which differ in their texts only.\<close>

definition answer_proposal :: "bool \<Rightarrow> string \<Rightarrow> 'a prop_sys_scheme \<Rightarrow> 'a prop_sys_scheme" where
  "answer_proposal approve id0 s =
     (let verb = (if approve then ''approve'' else ''reject'');
          done = (if approve then ''approved'' else ''rejected'');
          (link, s1) = node_core_handle_link_response (Some id0) approve s
      in if link then say done (snd (audit_persist_human_response (Some id0) (Some verb) s1))
         else case find_by_id id0 (prp s1) of
           None \<Rightarrow> say ''proposal id not found'' s1
         | Some i \<Rightarrow>
             let pid = sl_proposal_id (prp s1 ! i);
                 s2 = upd_prp (\<lambda>ps. ps[i := (ps ! i)\<lparr>sl_status := (if approve then ''APPROVED'' else ''REJECTED'')\<rparr>]) s1;
                 s3 = snd (audit_persist_human_response (Some pid) (Some verb) s2);
                 s4 = audit_emit (if approve then ''AI_PROPOSAL_APPROVED'' else ''AI_PROPOSAL_REJECTED'') pid s3
             in say done s4)"

definition proposal_handle_command :: "cstr \<Rightarrow> 'a prop_sys_scheme \<Rightarrow> bool \<times> 'a prop_sys_scheme" where
  "proposal_handle_command line0 s =
     (case line0 of None \<Rightarrow> (False, s)
      | Some line \<Rightarrow>
          if pre line ''list'' \<or> pre line ''proposals'' then (True, proposal_show_all s)
          else if pre line ''help'' \<or> pre line ''helpme'' then (True, console_guided_show_help s)
          else if pre line ''approve '' then (True, answer_proposal True (drop 8 line) s)
          else if pre line ''reject '' then (True, answer_proposal False (drop 7 line) s)
          else (False, s))"

section \<open>Which commands touch which proposal\<close>

interpretation prq: mute prp
  by unfold_locales
    (simp_all add: fs_put_def ticked_def storage_set_error_def upd_jrn_def upd_trn_def upd_con_def emit_out_def)

interpretation praq: audit_quiet prp
  by unfold_locales (simp_all add: ticked_def)

declare prq.obs_talk [simp] praq.obs_audit [simp]

lemma prp_upd [simp]: "prp (upd_prp f s) = f (prp s)" "prp (ticked s) = prp s" "prp (upd_nod g s) = prp s"
  by (simp_all add: upd_prp_def ticked_def upd_nod_def)

lemma prp_network [simp]:
  "prp (send_control_message e m s) = prp s" "prp (set_link st s) = prp s" "prp (seen_now s) = prp s"
  "prp (link_done s) = prp s"
  by (simp_all add: send_control_message_def socket_open_def udp_send_def set_link_def seen_now_def link_done_def
      upd_peer_def unix_now_def Let_def case_prod_beta ticked_def split: option.splits)

lemma prp_link_response [simp]: "prp (snd (node_core_handle_link_response i a s)) = prp s"
  by (simp add: node_core_handle_link_response_def Let_def case_prod_beta)

lemma prp_help [simp]: "prp (console_guided_show_help s) = prp s"
  by (simp add: console_guided_show_help_def)

lemma prp_show_all [simp]: "prp (proposal_show_all s) = prp s"
proof -
  have "prp (fold show_proposal ps t) = prp t" for ps :: "proposal_slot list" and t :: "'a prop_sys_scheme"
    by (induction ps arbitrary: t) (simp_all add: show_proposal_def)
  then show ?thesis by (simp add: proposal_show_all_def)
qed

lemma find_by_id_Some:
  "find_by_id id0 ps = Some i \<Longrightarrow> i < length ps \<and> sl_proposal_id (ps ! i) = id0"
  by (induction ps arbitrary: i) (auto split: if_splits)

lemma find_by_id_None: "find_by_id id0 ps = None \<longleftrightarrow> (\<forall>p\<in>set ps. sl_proposal_id p \<noteq> id0)"
  by (induction ps) auto

section \<open>The hosted read loop\<close>

text \<open>Printing and answering leave at most what was waiting on the terminal.\<close>

lemma fgets_loop_rest: "length (snd (fgets_loop n t)) \<le> length t"
proof -
  have "length (fst (fgets_loop n t) @ snd (fgets_loop n t)) = length t" by (simp add: fgets_loop_append)
  then show ?thesis by simp
qed

lemma raw_stdin [simp]: "h_stdin (console_write_raw t s) = h_stdin s"
  by (simp add: console_write_raw_def host_console_write_raw_def host_console_write_def emit_out_def split: option.splits)

lemma read_line_stdin: "length (h_stdin (snd (console_read_line cap s))) \<le> length (h_stdin s)"
  by (auto simp: console_read_line_def host_console_read_line_def console_prompt_end_def console_input_style_end_def
      console_reset_style_def case_prod_beta Let_def fgets_loop_rest)

lemma pager_stdin: "length (h_stdin (console_pager_after_line s)) \<le> length (h_stdin s)"
  using read_line_stdin [of 8 "console_write_raw (Some MORE_PROMPT) (upd_con (\<lambda>c. c\<lparr>co_pager_busy := True\<rparr>)
      (upd_con (\<lambda>c. c\<lparr>co_pager_line_count := co_pager_line_count c + 1\<rparr>) s))"]
  by (simp add: console_pager_after_line_def Let_def)

lemma say_stdin: "length (h_stdin (console_write_line t s)) \<le> length (h_stdin s)"
proof (cases t)
  case (Some x)
  let ?out = "host_console_write x s"
  have "h_stdin ?out = h_stdin s" by (simp add: host_console_write_def emit_out_def)
  then show ?thesis
    using pager_stdin [of ?out]
      pager_stdin [of "upd_con (\<lambda>c. c\<lparr>co_transcript_logging := False\<rparr>)
        (session_transcript_log_system_output x False (upd_con (\<lambda>c. c\<lparr>co_transcript_logging := True\<rparr>) ?out))"] Some
    by (auto simp: console_write_line_def Let_def)
qed (simp add: console_write_line_def)

lemma say_all_stdin: "length (h_stdin (say_all ts s)) \<le> length (h_stdin s)"
proof (induction ts arbitrary: s)
  case (Cons t ts)
  then show ?case using say_stdin [of "Some t" s] le_trans by (fastforce simp: say_all_def)
qed (simp add: say_all_def)

lemma persist_stdin [simp]:
  "h_stdin (snd (audit_persist_human_response i r s)) = h_stdin s" "h_stdin (snd (audit_upsert_node_peer q s)) = h_stdin s"
  using ah.obs_persist(3) [of i r s] ah.obs_persist(4) [of q s] by simp_all

lemma link_response_stdin [simp]: "h_stdin (snd (node_core_handle_link_response i a s)) = h_stdin s"
  by (simp add: node_core_handle_link_response_def send_control_message_def socket_open_def udp_send_def set_link_def
      seen_now_def link_done_def upd_peer_def upd_nod_def unix_now_def Let_def case_prod_beta split: option.splits)

lemma upd_prp_stdin [simp]: "h_stdin (upd_prp f s) = h_stdin s"
  by (simp add: upd_prp_def)

lemma answer_stdin: "length (h_stdin (answer_proposal a i s)) \<le> length (h_stdin s)"
  by (simp add: answer_proposal_def Let_def case_prod_beta split: option.split)
    (auto intro!: order_trans [OF say_stdin])

lemma show_all_stdin: "length (h_stdin (proposal_show_all s)) \<le> length (h_stdin s)"
proof -
  have "length (h_stdin (fold show_proposal ps t)) \<le> length (h_stdin t)"
    for ps :: "proposal_slot list" and t :: "'a prop_sys_scheme"
  proof (induction ps arbitrary: t)
    case (Cons p ps)
    have "length (h_stdin (show_proposal p t)) \<le> length (h_stdin t)"
      by (simp add: show_proposal_def say_all_stdin)
    with Cons.IH [of "show_proposal p t"] show ?case by simp
  qed simp
  then show ?thesis by (simp add: proposal_show_all_def)
qed

lemma handle_stdin: "length (h_stdin (snd (proposal_handle_command l s))) \<le> length (h_stdin s)"
  by (cases l) (simp_all add: proposal_handle_command_def show_all_stdin answer_stdin console_guided_show_help_def say_all_stdin)

function proposal_repl_loop :: "'a prop_sys_scheme \<Rightarrow> 'a prop_sys_scheme" where
  "proposal_repl_loop s =
     (if h_stdin s = [] then s
      else
        let (l, rest) = fgets_loop 127 (h_stdin s);
            line = rev (dropWhile (\<lambda>c. c = LF \<or> c = CR) (rev (c_string l)));
            s1 = s\<lparr>h_stdin := rest\<rparr>
        in if eqs line ''exit'' \<or> eqs line ''shutdown'' then say ''bye'' s1
           else let (ok, s2) = proposal_handle_command (Some line) s1
                in proposal_repl_loop (if ok then s2 else say ''unknown command'' s2))"
  by pat_completeness auto
termination
proof (relation "measure (\<lambda>s. length (h_stdin s))", goal_cases)
  case (2 s x l rest line s1 y ok s2)
  have "length rest < length (h_stdin s)"
    using fgets_loop_consumes [of 127 "h_stdin s"] 2(1-3) by (auto simp: prod_eq_iff)
  moreover have "length (h_stdin s2) \<le> length rest"
    using handle_stdin [of "Some line" s1] 2 by (auto simp: prod_eq_iff)
  moreover have "length (h_stdin (say ''unknown command'' s2)) \<le> length (h_stdin s2)" by (rule say_stdin)
  ultimately show ?case by auto
qed simp

declare proposal_repl_loop.simps [simp del]

definition proposal_hosted_repl :: "'a prop_sys_scheme \<Rightarrow> 'a prop_sys_scheme" where
  "proposal_hosted_repl s =
     proposal_repl_loop
       (say ''AI console ready. type: proposals | approve <id> | reject <id> | helpme | exit'' s)"

section \<open>The fate of a proposal\<close>

text \<open>The word that decides a proposal, and the status it gives.\<close>

definition decision_status :: "bool \<Rightarrow> string" where
  "decision_status a = (if a then ''APPROVED'' else ''REJECTED'')"

definition decision_line :: "bool \<Rightarrow> string \<Rightarrow> string" where
  "decision_line a id0 = (if a then ''approve '' else ''reject '') @ id0"

lemma answer_slots:
  "prp (answer_proposal a id0 s) = prp s \<or>
   (\<exists>i<length (prp s). sl_proposal_id (prp s ! i) = id0 \<and>
      prp (answer_proposal a id0 s) = (prp s)[i := (prp s ! i)\<lparr>sl_status := decision_status a\<rparr>])"
proof (cases "find_by_id id0 (prp s)")
  case None
  then show ?thesis by (simp add: answer_proposal_def Let_def case_prod_beta)
next
  case (Some i)
  from find_by_id_Some [OF this] show ?thesis
    by (auto simp: answer_proposal_def Let_def case_prod_beta Some decision_status_def)
qed

lemma handle_decision: "proposal_handle_command (Some (decision_line a i)) s = (True, answer_proposal a i s)"
  by (cases a) (simp_all add: proposal_handle_command_def starts_with_Some decision_line_def)

lemma handle_other:
  "\<not> prefix ''approve '' line \<Longrightarrow> \<not> prefix ''reject '' line \<Longrightarrow>
     prp (snd (proposal_handle_command (Some line) s)) = prp s"
  by (simp add: proposal_handle_command_def starts_with_Some)

text \<open>A command changes no slot, or the status of the slot it names.\<close>

lemma command_slots:
  obtains (kept) "prp (snd (proposal_handle_command (Some line) s)) = prp s"
  | (decided) a i where "i < length (prp s)" "line = decision_line a (sl_proposal_id (prp s ! i))"
      "prp (snd (proposal_handle_command (Some line) s)) = (prp s)[i := (prp s ! i)\<lparr>sl_status := decision_status a\<rparr>]"
proof (cases "\<exists>a i. line = decision_line a i")
  case True
  then obtain a i where l: "line = decision_line a i" by blast
  have h: "proposal_handle_command (Some line) s = (True, answer_proposal a i s)"
    unfolding l by (rule handle_decision)
  from answer_slots [of a i s] show ?thesis
    using kept decided [where a = a] h l by auto
next
  case False
  then have "line \<noteq> decision_line True i" "line \<noteq> decision_line False i" for i by blast+
  then have "\<not> prefix ''approve '' line" "\<not> prefix ''reject '' line"
    by (simp_all add: decision_line_def prefix_def)
  then show ?thesis by (intro kept handle_other)
qed

definition slot_ok :: "string list \<Rightarrow> proposal_slot \<Rightarrow> bool" where
  "slot_ok lines p \<longleftrightarrow> sl_requires_human_confirmation p \<and>
     (sl_status p = ''PENDING'' \<or>
      (\<exists>a. sl_status p = decision_status a \<and> decision_line a (sl_proposal_id p) \<in> set lines))"

lemma slot_ok_mono: "slot_ok ls p \<Longrightarrow> set ls \<subseteq> set ls' \<Longrightarrow> slot_ok ls' p"
  by (auto simp: slot_ok_def)

lemma command_slots_ok:
  fixes line :: string and s :: "'a prop_sys_scheme"
  assumes "list_all (slot_ok ls) (prp s)"
  defines "s' \<equiv> snd (proposal_handle_command (Some line) s)"
  shows "list_all (slot_ok (line # ls)) (prp s')" "map sl_proposal_id (prp s') = map sl_proposal_id (prp s)"
proof -
  have old: "slot_ok (line # ls) p" if "p \<in> set (prp s)" for p
    using assms(1) that slot_ok_mono [of ls p "line # ls"] by (auto simp: list_all_iff)
  have "list_all (slot_ok (line # ls)) (prp s') \<and> map sl_proposal_id (prp s') = map sl_proposal_id (prp s)"
  proof (cases rule: command_slots [of line s])
    case kept
    then show ?thesis using old by (simp add: s'_def list_all_iff)
  next
    case (decided a i)
    let ?p = "(prp s ! i)\<lparr>sl_status := decision_status a\<rparr>"
    have "slot_ok (line # ls) ?p"
      using old [of "prp s ! i"] decided(1,2) by (auto simp: slot_ok_def)
    moreover have "map sl_proposal_id ((prp s)[i := ?p]) = map sl_proposal_id (prp s)"
      by (simp add: map_update) (metis list_update_id map_update)
    ultimately show ?thesis using old decided(3)
      by (auto simp: s'_def list_all_iff dest!: subsetD [OF set_update_subset_insert])
  qed
  then show "list_all (slot_ok (line # ls)) (prp s')" "map sl_proposal_id (prp s') = map sl_proposal_id (prp s)"
    by blast+
qed

lemma commands_slots_ok:
  "list_all (slot_ok ls) (prp s) \<Longrightarrow>
   list_all (slot_ok (ls @ lines)) (prp (fold (\<lambda>l t. snd (proposal_handle_command (Some l) t)) lines s)) \<and>
   map sl_proposal_id (prp (fold (\<lambda>l t. snd (proposal_handle_command (Some l) t)) lines s)) = map sl_proposal_id (prp s)"
proof (induction lines arbitrary: ls s)
  case Nil
  then show ?case by simp
next
  case (Cons l lines)
  note step = command_slots_ok [OF Cons.prems, of l]
  from Cons.IH [OF step(1)] step(2) show ?case
    by (auto simp: list_all_iff intro: slot_ok_mono)
qed

lemma add_proposal_slots [simp]:
  "prp (add_proposal ty su ra ri be s) =
     (if length (prp s) \<ge> 8 then prp s
      else prp s @ [\<lparr>sl_proposal_id = id_from_index (length (prp s)), sl_proposal_type = ty, sl_summary = su,
                 sl_rationale = ra, sl_risk_level = ri, sl_benefit_level = be,
                 sl_requires_human_confirmation = True, sl_status = ''PENDING''\<rparr>])"
  by (simp add: add_proposal_def MAX_PROPOSALS_def Let_def)

lemma initial_slots:
  "map sl_proposal_id (prp (proposal_generate_initial h hw a s)) = [''P-1'', ''P-2'', ''P-3'', ''P-4''] \<and>
   list_all (slot_ok []) (prp (proposal_generate_initial h hw a s))"
  by (simp add: proposal_generate_initial_def Let_def proposal_engine_reset_def id_from_index_def slot_ok_def)

section \<open>Properties\<close>

text \<open>
  C38. Only the human decides. After the initial proposals, whatever lines the operator enters and
  whatever fails behind them, the proposals are P-1 to P-4, each requires confirmation, and one whose
  status is no longer \<open>PENDING\<close> has the status of a line that approved or rejected it by its id.
\<close>

theorem proposals_decided_by_commands:
  fixes s :: "'a prop_sys_scheme" and lines :: "string list" and h hw a
  defines "s' \<equiv> fold (\<lambda>l t. snd (proposal_handle_command (Some l) t)) lines (proposal_generate_initial h hw a s)"
  shows "map sl_proposal_id (prp s') = [''P-1'', ''P-2'', ''P-3'', ''P-4''] \<and> list_all (slot_ok lines) (prp s')"
  using commands_slots_ok [of "[]" "proposal_generate_initial h hw a s" lines] initial_slots [of h hw a s]
  by (simp add: s'_def)

text \<open>
  C39. Answering an engine proposal. When no link proposal takes the answer, a known id sets exactly its
  slot to the answered status, also when it had been answered before; an unknown id changes no slot. The ids
  of the slots must be distinct, which those of the initial proposals are and stay (C38), and \<open>N-1\<close> is the
  link proposal's.
\<close>

theorem proposal_answer_effect:
  fixes s :: "'a prop_sys_scheme" and id0 :: string and a :: bool
  assumes "distinct (map sl_proposal_id (prp s))" "id0 \<noteq> ''N-1''"
  shows "prp (snd (proposal_handle_command (Some (decision_line a id0)) s)) =
    map (\<lambda>p. if sl_proposal_id p = id0 then p\<lparr>sl_status := decision_status a\<rparr> else p) (prp s)"
proof -
  have cmd: "proposal_handle_command (Some (decision_line a id0)) s = (True, answer_proposal a id0 s)"
    by (rule handle_decision)
  have nl: "\<not> fst (node_core_handle_link_response (Some id0) a s)"
    using assms(2) by (simp add: node_core_handle_link_response_def LINK_PROPOSAL_ID_def)
  show ?thesis
  proof (cases "find_by_id id0 (prp s)")
    case None
    then show ?thesis using nl find_by_id_None [of id0 "prp s"]
      by (auto simp: cmd answer_proposal_def Let_def case_prod_beta intro!: map_idI [symmetric])
  next
    case (Some i)
    note i = find_by_id_Some [OF Some]
    have "(prp s)[i := (prp s ! i)\<lparr>sl_status := decision_status a\<rparr>] =
        map (\<lambda>p. if sl_proposal_id p = id0 then p\<lparr>sl_status := decision_status a\<rparr> else p) (prp s)"
    proof (rule nth_equalityI)
      fix j assume j: "j < length ((prp s)[i := (prp s ! i)\<lparr>sl_status := decision_status a\<rparr>])"
      then have "sl_proposal_id (prp s ! j) = id0 \<longleftrightarrow> j = i"
        using i assms(1) by (auto simp: distinct_conv_nth)
      then show "(prp s)[i := (prp s ! i)\<lparr>sl_status := decision_status a\<rparr>] ! j =
          map (\<lambda>p. if sl_proposal_id p = id0 then p\<lparr>sl_status := decision_status a\<rparr> else p) (prp s) ! j"
        using i j by (auto simp: nth_list_update)
    qed simp
    then show ?thesis using nl Some
      by (simp add: cmd answer_proposal_def Let_def case_prod_beta decision_status_def)
  qed
qed

definition demo_slot :: "string \<Rightarrow> proposal_slot" where
  "demo_slot i = \<lparr>sl_proposal_id = i, sl_proposal_type = ''t'', sl_summary = ''s'', sl_rationale = ''r'',
     sl_risk_level = ''low'', sl_benefit_level = ''high'', sl_requires_human_confirmation = True, sl_status = ''PENDING''\<rparr>"

definition demo_prop :: prop_sys where
  "demo_prop = node_sys.extend demo_node (prop_sys.fields [demo_slot ''P-1'', demo_slot ''P-2''])"

lemma proposal_answer_effect_witness:
  "map sl_status (prp (snd (proposal_handle_command (Some ''approve P-2'') demo_prop))) = [''PENDING'', ''APPROVED'']"
  using proposal_answer_effect [of demo_prop "''P-2''" True]
  by (simp add: demo_prop_def node_sys.defs prop_sys.defs decision_line_def decision_status_def demo_slot_def)

end
