(* ===== verification/Net_Connect.thy ===== *)
theory Net_Connect
  imports Proposal
begin

text \<open>
  The connection layer (kernel/net\_connect.c, hosted build): one endpoint, at most one TCP socket and
  the last status text. Sockets are numbered in the order they are opened (the code looks at the sign of
  a descriptor only); which calls succeed, how many bytes a \<open>send\<close> takes and how \<open>inet_pton\<close> reads an
  address are outcomes the code does not control. The open sockets and what was sent are recorded.
\<close>

record tcp_env =
  tc_pton :: "string \<Rightarrow> u32 option"
  tc_socket :: "nat \<Rightarrow> bool"
  tc_connect :: "nat \<Rightarrow> bool"
  tc_send :: "nat \<Rightarrow> nat option"
  tc_open :: "nat list"
  tc_next :: nat
  tc_wire :: "(nat \<times> string) list"

datatype vita_net_connect_state =
    VITA_NET_CONNECT_DISCONNECTED | VITA_NET_CONNECT_CONFIGURED | VITA_NET_CONNECT_CONNECTED | VITA_NET_CONNECT_LIMITED

record conn_state =
  cn_host :: string
  cn_port :: u16
  cn_state :: vita_net_connect_state
  cn_last_error :: string
  cn_fd :: "nat option"

record conn_sys = prop_sys +
  tcp :: tcp_env
  cnx :: conn_state

definition zero_conn :: conn_state where
  "zero_conn = \<lparr>cn_host = [], cn_port = 0, cn_state = VITA_NET_CONNECT_DISCONNECTED,
     cn_last_error = ''not connected'', cn_fd = None\<rparr>"

definition NET_CONNECT_HOST_MAX :: nat where "NET_CONNECT_HOST_MAX = 64"

definition upd_cnx :: "(conn_state \<Rightarrow> conn_state) \<Rightarrow> 'a conn_sys_scheme \<Rightarrow> 'a conn_sys_scheme" where
  "upd_cnx f s = s\<lparr>cnx := f (cnx s)\<rparr>"

definition upd_tcp :: "(tcp_env \<Rightarrow> tcp_env) \<Rightarrow> 'a conn_sys_scheme \<Rightarrow> 'a conn_sys_scheme" where
  "upd_tcp f s = s\<lparr>tcp := f (tcp s)\<rparr>"

section \<open>Socket calls\<close>

definition tcp_socket :: "'a conn_sys_scheme \<Rightarrow> nat option \<times> 'a conn_sys_scheme" where
  "tcp_socket s =
     (let fd = tc_next (tcp s)
      in if tc_socket (tcp s) (h_tick s)
         then (Some fd, upd_tcp (\<lambda>e. e\<lparr>tc_open := tc_open e @ [fd], tc_next := fd + 1\<rparr>) (ticked s))
         else (None, ticked s))"

definition tcp_close :: "nat \<Rightarrow> 'a conn_sys_scheme \<Rightarrow> 'a conn_sys_scheme" where
  "tcp_close fd = upd_tcp (\<lambda>e. e\<lparr>tc_open := removeAll fd (tc_open e)\<rparr>)"

definition tcp_connect :: "'a conn_sys_scheme \<Rightarrow> bool \<times> 'a conn_sys_scheme" where
  "tcp_connect s = (tc_connect (tcp s) (h_tick s), ticked s)"

text \<open>\<open>send\<close> takes a prefix of the bytes; the result is whether it was not negative.\<close>

definition tcp_send :: "nat \<Rightarrow> string \<Rightarrow> 'a conn_sys_scheme \<Rightarrow> bool \<times> 'a conn_sys_scheme" where
  "tcp_send fd bytes s =
     (case tc_send (tcp s) (h_tick s) of
        None \<Rightarrow> (False, ticked s)
      | Some n \<Rightarrow> (True, upd_tcp (\<lambda>e. e\<lparr>tc_wire := tc_wire e @ [(fd, take n bytes)]\<rparr>) (ticked s)))"

section \<open>The endpoint\<close>

definition conn_set_error :: "cstr \<Rightarrow> 'a conn_sys_scheme \<Rightarrow> 'a conn_sys_scheme" where
  "conn_set_error text =
     upd_cnx (\<lambda>c. c\<lparr>cn_last_error := copy_text 96 (case text of None \<Rightarrow> ''unknown error'' | Some t \<Rightarrow> t)\<rparr>)"

text \<open>The digits of the port: the value, how many there were, and what follows.\<close>

fun port_digits :: "nat \<Rightarrow> nat \<Rightarrow> string \<Rightarrow> (nat \<times> nat \<times> string) option" where
  "port_digits value digits [] = Some (value, digits, [])"
| "port_digits value digits (c # cs) =
     (if 48 \<le> uchar c \<and> uchar c \<le> 57
      then let v = value * 10 + (uchar c - 48)
           in if v > 65535 then None else port_digits v (digits + 1) cs
      else Some (value, digits, c # cs))"

definition parse_u16 :: "string \<Rightarrow> u16 option" where
  "parse_u16 text =
     (case port_digits 0 0 (skip_spaces (Some text)) of
        None \<Rightarrow> None
      | Some (value, digits, rest) \<Rightarrow>
          if \<not> list_all is_space_char rest then None
          else if digits = 0 \<or> value = 0 then None
          else Some (of_nat value))"

definition close_held :: "'a conn_sys_scheme \<Rightarrow> 'a conn_sys_scheme" where
  "close_held s =
     (case cn_fd (cnx s) of None \<Rightarrow> s | Some fd \<Rightarrow> upd_cnx (\<lambda>c. c\<lparr>cn_fd := None\<rparr>) (tcp_close fd s))"

definition net_connect_reset :: "'a conn_sys_scheme \<Rightarrow> 'a conn_sys_scheme" where
  "net_connect_reset s =
     conn_set_error (Some ''not connected'')
       (upd_cnx (\<lambda>c. c\<lparr>cn_host := [], cn_port := 0, cn_state := VITA_NET_CONNECT_DISCONNECTED\<rparr>) (close_held s))"

definition net_connect_configure_endpoint :: "cstr \<Rightarrow> 'a conn_sys_scheme \<Rightarrow> bool \<times> 'a conn_sys_scheme" where
  "net_connect_configure_endpoint endpoint_text s =
     (case endpoint_text of
        None \<Rightarrow> (False, conn_set_error (Some ''missing endpoint'') s)
      | Some text \<Rightarrow>
          let p = skip_spaces (Some text);
              host = take (NET_CONNECT_HOST_MAX - 1) (takeWhile (\<lambda>c. \<not> is_space_char c \<and> c \<noteq> CHR '':'') p);
              s1 = upd_cnx (\<lambda>c. c\<lparr>cn_host := host\<rparr>) s
          in if host = [] then (False, conn_set_error (Some ''missing host'') s1)
             else
               let q = drop (length host) p;
                   r = (if q \<noteq> [] \<and> hd q = CHR '':'' then tl q else q)
               in case parse_u16 r of
                    None \<Rightarrow> (False, conn_set_error (Some ''expected endpoint format: <ipv4> <port> or <ipv4>:<port>'')
                              (upd_cnx (\<lambda>c. c\<lparr>cn_host := []\<rparr>) s1))
                  | Some port \<Rightarrow> (True, conn_set_error (Some ''configured, not connected'')
                              (upd_cnx (\<lambda>c. c\<lparr>cn_port := port, cn_state := VITA_NET_CONNECT_CONFIGURED\<rparr>) s1)))"

section \<open>Connecting and sending\<close>

definition configured :: "'a conn_sys_scheme \<Rightarrow> 'a conn_sys_scheme" where
  "configured = upd_cnx (\<lambda>c. c\<lparr>cn_state := VITA_NET_CONNECT_CONFIGURED\<rparr>)"

definition net_connect_attempt :: "'a conn_sys_scheme \<Rightarrow> bool \<times> 'a conn_sys_scheme" where
  "net_connect_attempt s =
     (if cn_host (cnx s) = [] \<or> cn_port (cnx s) = 0
      then (False, conn_set_error (Some ''endpoint not configured'') s)
      else
        let (sock, s1) = tcp_socket (close_held s) in
        case sock of
          None \<Rightarrow> (False, conn_set_error (Some ''socket failed'') (configured s1))
        | Some fd \<Rightarrow>
            if tc_pton (tcp s1) (cn_host (cnx s1)) = None
            then (False, conn_set_error (Some ''host must be an IPv4 literal in this milestone'') (configured (tcp_close fd s1)))
            else
              let (ok, s2) = tcp_connect s1 in
              if \<not> ok then (False, conn_set_error (Some ''tcp connect failed'') (configured (tcp_close fd s2)))
              else (True, conn_set_error (Some ''connected'')
                     (upd_cnx (\<lambda>c. c\<lparr>cn_fd := Some fd, cn_state := VITA_NET_CONNECT_CONNECTED\<rparr>) s2)))"

definition net_connect_disconnect :: "'a conn_sys_scheme \<Rightarrow> 'a conn_sys_scheme" where
  "net_connect_disconnect s =
     (let s1 = close_held s
      in if cn_host (cnx s1) \<noteq> [] \<and> cn_port (cnx s1) \<noteq> 0
         then conn_set_error (Some ''disconnected; endpoint still configured'') (configured s1)
         else conn_set_error (Some ''not connected'')
                (upd_cnx (\<lambda>c. c\<lparr>cn_state := VITA_NET_CONNECT_DISCONNECTED\<rparr>) s1))"

definition net_connect_send_line :: "cstr \<Rightarrow> 'a conn_sys_scheme \<Rightarrow> bool \<times> 'a conn_sys_scheme" where
  "net_connect_send_line line s =
     (case (if cn_state (cnx s) \<noteq> VITA_NET_CONNECT_CONNECTED then None else cn_fd (cnx s)) of
        None \<Rightarrow> (False, conn_set_error (Some ''not connected'') s)
      | Some fd \<Rightarrow>
          (case line of
             None \<Rightarrow> (False, conn_set_error (Some ''empty send line'') s)
           | Some l \<Rightarrow>
               let (ok, s1) = (if l \<noteq> [] then tcp_send fd l s else (True, s))
               in if \<not> ok then (False, conn_set_error (Some ''send failed'') (net_connect_disconnect s1))
                  else let (ok2, s2) = tcp_send fd [LF] s1
                       in if \<not> ok2 then (False, conn_set_error (Some ''send newline failed'') (net_connect_disconnect s2))
                          else (True, conn_set_error (Some ''line sent'') s2)))"

section \<open>Queries and the status screen\<close>

definition net_connect_is_configured :: "'a conn_sys_scheme \<Rightarrow> bool" where
  "net_connect_is_configured s = (cn_host (cnx s) \<noteq> [] \<and> cn_port (cnx s) \<noteq> 0)"

definition net_connect_is_connected :: "'a conn_sys_scheme \<Rightarrow> bool" where
  "net_connect_is_connected s = (cn_state (cnx s) = VITA_NET_CONNECT_CONNECTED)"

definition net_connect_host :: "'a conn_sys_scheme \<Rightarrow> string" where
  "net_connect_host s = (if cn_host (cnx s) \<noteq> [] then cn_host (cnx s) else ''(none)'')"

definition net_connect_port :: "'a conn_sys_scheme \<Rightarrow> u16" where
  "net_connect_port s = cn_port (cnx s)"

fun conn_state_name :: "vita_net_connect_state \<Rightarrow> string" where
  "conn_state_name VITA_NET_CONNECT_DISCONNECTED = ''disconnected''"
| "conn_state_name VITA_NET_CONNECT_CONFIGURED = ''configured''"
| "conn_state_name VITA_NET_CONNECT_CONNECTED = ''connected''"
| "conn_state_name VITA_NET_CONNECT_LIMITED = ''limited''"

definition net_connect_state_name :: "'a conn_sys_scheme \<Rightarrow> string" where
  "net_connect_state_name s = conn_state_name (cn_state (cnx s))"

definition net_connect_last_error :: "'a conn_sys_scheme \<Rightarrow> string" where
  "net_connect_last_error s = cn_last_error (cnx s)"

definition u16_to_dec :: "u16 \<Rightarrow> string" where
  "u16_to_dec v = (if v = 0 then ''0'' else rev (dec_digits 7 (unat v)))"

definition i32_to_dec :: "int \<Rightarrow> string" where
  "i32_to_dec v = (let value = (if v < 0 then 0 else nat v) in if value = 0 then ''0'' else rev (dec_digits 15 value))"

definition show_count :: "string \<Rightarrow> int \<Rightarrow> 'a conn_sys_scheme \<Rightarrow> 'a conn_sys_scheme" where
  "show_count label value = say_all [label, i32_to_dec value]"

definition net_connect_show_status ::
  "vita_handoff option \<Rightarrow> vita_hw_snapshot option \<Rightarrow> bool \<Rightarrow> 'a conn_sys_scheme \<Rightarrow> 'a conn_sys_scheme" where
  "net_connect_show_status handoff hw hw_ready s =
     (let s1 = say_all [''Network connection / Conexion de red:'', ''scope:'', ''hosted tcp validation path'', ''boot_mode:'',
                 (case handoff of None \<Rightarrow> ''unknown''
                  | Some h \<Rightarrow> if ho_firmware_type h = VITA_FIRMWARE_HOSTED then ''hosted''
                             else if ho_firmware_type h = VITA_FIRMWARE_UEFI then ''uefi'' else ''unknown'')] s;
          s2 = (case (if hw_ready then hw else None) of
                  None \<Rightarrow> say ''network hardware snapshot unavailable'' s1
                | Some w \<Rightarrow> show_count ''wifi_count:'' (hw_wifi_count w)
                             (show_count ''ethernet_count:'' (hw_ethernet_count w)
                               (show_count ''net_count:'' (hw_net_count w) s1)))
      in say_all [''state:'', net_connect_state_name s2, ''endpoint_host:'', net_connect_host s2,
           ''endpoint_port:'', u16_to_dec (cn_port (cnx s2)), ''last_status:'', net_connect_last_error s2,
           ''transport:'', ''TCP connect/send is available for IPv4 literal endpoints.'',
           ''commands:'', ''net connect <ipv4> <port>'', ''net send <text>'', ''net disconnect'', ''net status''] s2)"

section \<open>What the operations change\<close>

interpretation cxq: mute cnx
  by unfold_locales
    (simp_all add: fs_put_def ticked_def storage_set_error_def upd_jrn_def upd_trn_def upd_con_def emit_out_def)
interpretation cxaq: audit_quiet cnx by unfold_locales (simp_all add: ticked_def)
interpretation tcq: mute tcp
  by unfold_locales
    (simp_all add: fs_put_def ticked_def storage_set_error_def upd_jrn_def upd_trn_def upd_con_def emit_out_def)
interpretation tcaq: audit_quiet tcp by unfold_locales (simp_all add: ticked_def)

declare cxq.obs_talk [simp] cxaq.obs_audit [simp] tcq.obs_talk [simp] tcaq.obs_audit [simp]

lemma conn_upd [simp]:
  "cnx (upd_cnx f s) = f (cnx s)" "tcp (upd_cnx f s) = tcp s" "tcp (upd_tcp g s) = g (tcp s)" "cnx (upd_tcp g s) = cnx s"
  "cnx (ticked s) = cnx s" "tcp (ticked s) = tcp s" "h_tick (upd_cnx f s) = h_tick s" "h_tick (upd_tcp g s) = h_tick s"
  by (simp_all add: upd_cnx_def upd_tcp_def ticked_def)

lemmas conn_ops = conn_set_error_def configured_def close_held_def tcp_close_def tcp_socket_def tcp_connect_def tcp_send_def

text \<open>The only open socket is the one held, and a connection is claimed only while one is held.\<close>

definition conn_ok :: "'a conn_sys_scheme \<Rightarrow> bool" where
  "conn_ok s \<longleftrightarrow> tc_open (tcp s) = (case cn_fd (cnx s) of None \<Rightarrow> [] | Some fd \<Rightarrow> [fd]) \<and>
     (cn_state (cnx s) = VITA_NET_CONNECT_CONNECTED \<longrightarrow> cn_fd (cnx s) \<noteq> None) \<and>
     cn_state (cnx s) \<noteq> VITA_NET_CONNECT_LIMITED \<and> length (cn_host (cnx s)) < 64 \<and> length (cn_last_error (cnx s)) < 96"

lemma take_63_length [simp]: "length (take 63 w) < 64"
  by simp

lemma conn_error_sel [simp]:
  "tcp (conn_set_error e s) = tcp s" "cn_fd (cnx (conn_set_error e s)) = cn_fd (cnx s)"
  "cn_state (cnx (conn_set_error e s)) = cn_state (cnx s)" "cn_host (cnx (conn_set_error e s)) = cn_host (cnx s)"
  "cn_port (cnx (conn_set_error e s)) = cn_port (cnx s)" "length (cn_last_error (cnx (conn_set_error e s))) < 96"
  using str_copy_length [of 96 "Some (case e of None \<Rightarrow> ''unknown error'' | Some t \<Rightarrow> t)"]
  by (simp_all add: conn_set_error_def)

lemma conn_ok_intros:
  "conn_ok s \<Longrightarrow> conn_ok (conn_set_error e s)"
  "conn_ok s \<Longrightarrow> conn_ok (upd_cnx (\<lambda>c. c\<lparr>cn_host := take 63 w\<rparr>) s)"
  "conn_ok s \<Longrightarrow> conn_ok (upd_cnx (\<lambda>c. c\<lparr>cn_host := []\<rparr>) s)"
  "conn_ok s \<Longrightarrow> conn_ok (upd_cnx (\<lambda>c. c\<lparr>cn_port := p, cn_state := VITA_NET_CONNECT_CONFIGURED\<rparr>) s)"
  by (simp_all add: conn_ok_def)

lemma close_held_ok: "conn_ok s \<Longrightarrow> cn_fd (cnx (close_held s)) = None \<and> tc_open (tcp (close_held s)) = []"
  by (auto simp: conn_ok_def close_held_def tcp_close_def split: option.splits)

lemma close_held_sel [simp]:
  "cn_host (cnx (close_held s)) = cn_host (cnx s)" "cn_port (cnx (close_held s)) = cn_port (cnx s)"
  "cn_last_error (cnx (close_held s)) = cn_last_error (cnx s)" "cn_state (cnx (close_held s)) = cn_state (cnx s)"
  by (simp_all add: close_held_def tcp_close_def split: option.splits)

lemma reset_ok: "conn_ok s \<Longrightarrow> conn_ok (net_connect_reset s)"
  using close_held_ok [of s] by (simp add: net_connect_reset_def) (simp add: conn_ok_def)

lemma configure_ok: "conn_ok s \<Longrightarrow> conn_ok (snd (net_connect_configure_endpoint t s))"
  by (cases t) (auto simp: net_connect_configure_endpoint_def Let_def NET_CONNECT_HOST_MAX_def
      intro!: conn_ok_intros split: option.split)

lemma disconnect_ok: "conn_ok s \<Longrightarrow> conn_ok (net_connect_disconnect s)"
  using close_held_ok [of s]
  by (simp add: net_connect_disconnect_def Let_def configured_def) (simp add: conn_ok_def)

lemma attempt_ok: "conn_ok s \<Longrightarrow> conn_ok (snd (net_connect_attempt s))"
  using close_held_ok [of s]
  by (simp add: net_connect_attempt_def Let_def case_prod_beta configured_def tcp_socket_def tcp_connect_def tcp_close_def)
    (simp add: conn_ok_def)

lemma tcp_send_conn [simp]:
  "cnx (snd (tcp_send fd b s)) = cnx s" "tc_open (tcp (snd (tcp_send fd b s))) = tc_open (tcp s)"
  by (simp_all add: tcp_send_def split: option.splits)

lemma send_ok: "conn_ok s \<Longrightarrow> conn_ok (snd (net_connect_send_line l s))"
proof -
  assume ok: "conn_ok s"
  have sent: "conn_ok (snd (tcp_send fd b t))" if "conn_ok t" for fd b and t :: "'a conn_sys_scheme"
    using that by (simp add: conn_ok_def)
  show ?thesis using ok
    by (auto simp: net_connect_send_line_def Let_def case_prod_beta
        intro!: conn_ok_intros disconnect_ok sent split: option.splits)
qed

section \<open>Properties\<close>

text \<open>The operations as steps of the connection.\<close>

inductive conn_step :: "'a conn_sys_scheme \<Rightarrow> 'a conn_sys_scheme \<Rightarrow> bool" where
  step_reset: "conn_step s (net_connect_reset s)"
| step_configure: "conn_step s (snd (net_connect_configure_endpoint t s))"
| step_attempt: "conn_step s (snd (net_connect_attempt s))"
| step_disconnect: "conn_step s (net_connect_disconnect s)"
| step_send: "conn_step s (snd (net_connect_send_line l s))"
| step_show: "conn_step s (net_connect_show_status h w r s)"

lemma show_conn [simp]:
  "cnx (net_connect_show_status h w r s) = cnx s" "tcp (net_connect_show_status h w r s) = tcp s"
  by (simp_all add: net_connect_show_status_def show_count_def Let_def split: option.split)

lemma conn_step_ok: "conn_step s t \<Longrightarrow> conn_ok s \<Longrightarrow> conn_ok t"
  by (induction rule: conn_step.induct)
    (simp_all add: reset_ok configure_ok attempt_ok disconnect_ok send_ok, simp add: conn_ok_def)

text \<open>
  C18. No socket is left open. Whatever is configured, connected, sent and closed in any order, and
  whichever call fails, the open sockets are exactly the one the layer holds, a connection is reported
  only while one is held, and the host and the status text stay inside their arrays.
\<close>

theorem connection_holds_its_socket:
  fixes s t :: "'a conn_sys_scheme"
  assumes "cnx s = zero_conn" "tc_open (tcp s) = []" "conn_step\<^sup>*\<^sup>* s t"
  shows "tc_open (tcp t) = (case cn_fd (cnx t) of None \<Rightarrow> [] | Some fd \<Rightarrow> [fd]) \<and>
    (net_connect_is_connected t \<longrightarrow> cn_fd (cnx t) \<noteq> None) \<and>
    length (cn_host (cnx t)) < 64 \<and> length (cn_last_error (cnx t)) < 96"
proof -
  have "conn_ok s" using assms(1,2) by (simp add: conn_ok_def zero_conn_def)
  from assms(3) this have "conn_ok t"
    by (induction rule: rtranclp_induct) (auto intro: conn_step_ok)
  then show ?thesis by (simp add: conn_ok_def net_connect_is_connected_def)
qed

definition demo_tcp :: tcp_env where
  "demo_tcp = \<lparr>tc_pton = (\<lambda>h. if h = ''10.0.0.2'' then Some 0x0A000002 else None), tc_socket = (\<lambda>_. True),
     tc_connect = (\<lambda>_. True), tc_send = (\<lambda>_. Some 1), tc_open = [], tc_next = 3, tc_wire = []\<rparr>"

definition demo_conn :: conn_sys where
  "demo_conn = prop_sys.extend demo_prop (conn_sys.fields demo_tcp zero_conn)"

lemma demo_conn_sel [simp]: "cnx demo_conn = zero_conn" "tcp demo_conn = demo_tcp"
  by (simp_all add: demo_conn_def prop_sys.defs conn_sys.defs)

lemma connection_holds_its_socket_witness:
  "length (cn_host (cnx (snd (net_connect_attempt (snd (net_connect_configure_endpoint (Some ''10.0.0.2:80'') demo_conn)))))) < 64"
proof -
  have "conn_step\<^sup>*\<^sup>* demo_conn (snd (net_connect_attempt (snd (net_connect_configure_endpoint (Some ''10.0.0.2:80'') demo_conn))))"
    by (rule rtranclp.rtrancl_into_rtrancl, rule r_into_rtranclp, rule step_configure, rule step_attempt)
  from connection_holds_its_socket [OF demo_conn_sel(1) _ this] show ?thesis by (simp add: demo_tcp_def)
qed

text \<open>The digits of a number are read back.\<close>

lemma dec_digits_numeral:
  "dec_digits (numeral k) v =
     (if v = 0 then [] else char_of (48 + v mod 10) # dec_digits (pred_numeral k) (v div 10))"
  by (simp add: numeral_eq_Suc)

lemma port_digits_digits:
  "list_all (\<lambda>c. 48 \<le> uchar c \<and> uchar c \<le> 57) ds \<Longrightarrow> foldl (\<lambda>a c. 10 * a + digit_val c) v ds \<le> 65535 \<Longrightarrow>
   port_digits v n ds = Some (foldl (\<lambda>a c. 10 * a + digit_val c) v ds, n + length ds, [])"
proof (induction ds arbitrary: v n)
  case (Cons c ds)
  have mono: "w \<le> foldl (\<lambda>a c. 10 * a + digit_val c) w ds" for w
  proof (induction ds arbitrary: w)
    case (Cons d ds)
    show ?case using Cons.IH [of "10 * w + digit_val d"] by simp
  qed simp
  have "10 * v + digit_val c \<le> 65535" using Cons.prems(2) mono [of "10 * v + digit_val c"] by simp
  then show ?case using Cons by (simp add: Let_def digit_val_def mult.commute)
qed simp

lemma dec_digits_nonempty: "r \<noteq> 0 \<Longrightarrow> v \<noteq> 0 \<Longrightarrow> dec_digits r v \<noteq> []"
  by (cases r) simp_all

lemma u16_digits:
  "list_all (\<lambda>c. 48 \<le> uchar c \<and> uchar c \<le> 57) (u16_to_dec p)" "dec_value (u16_to_dec p) = unat p" "u16_to_dec p \<noteq> []"
proof -
  have "unat p < 2 ^ 16" using unsigned_less [of p, where 'a = nat] by simp
  then have lt: "unat p < 10 ^ 7" by simp
  show "list_all (\<lambda>c. 48 \<le> uchar c \<and> uchar c \<le> 57) (u16_to_dec p)"
    using dec_digits_are_digits by (auto simp: u16_to_dec_def list_all_iff)
  show "dec_value (u16_to_dec p) = unat p"
    using lt by (auto simp: u16_to_dec_def dec_value_dec_digits) (simp add: dec_value_def digit_val_def)
  show "u16_to_dec p \<noteq> []"
  proof (cases "p = 0")
    case False
    then have "unat p \<noteq> 0" by (simp add: unat_eq_0)
    then show ?thesis by (simp add: u16_to_dec_def dec_digits_nonempty)
  qed (simp add: u16_to_dec_def)
qed

lemma parse_u16_printed:
  assumes "p \<noteq> 0"
  shows "parse_u16 (u16_to_dec p) = Some p"
proof -
  have nsp: "skip_spaces (Some (u16_to_dec p)) = u16_to_dec p"
    using u16_digits(1,3) [of p] by (cases "u16_to_dec p") (auto simp: skip_spaces_def is_space_char_def)
  have "unat p < 2 ^ 16" using unsigned_less [of p, where 'a = nat] by simp
  then have "port_digits 0 0 (u16_to_dec p) = Some (unat p, length (u16_to_dec p), [])"
    using port_digits_digits [of "u16_to_dec p" 0 0] u16_digits [of p] by (simp add: dec_value_def)
  then show ?thesis using assms u16_digits(3) [of p] by (simp add: parse_u16_def nsp unat_eq_0)
qed

text \<open>
  An endpoint is read as it was written: a host of at most 63 characters without a space or a
  colon, a colon or a space, and a port other than 0 in decimal configure exactly that host and port,
  from every state.
\<close>

theorem endpoint_round_trip:
  fixes s :: "'a conn_sys_scheme" and host :: string and port :: u16 and sep :: char
  assumes "host \<noteq> []" "length host < 64" "list_all (\<lambda>c. \<not> is_space_char c \<and> c \<noteq> CHR '':'') host" "port \<noteq> 0"
    "sep = CHR '':'' \<or> sep = CHR '' ''"
  shows "\<exists>s'. net_connect_configure_endpoint (Some (host @ sep # u16_to_dec port)) s = (True, s') \<and>
    net_connect_is_configured s' \<and> net_connect_host s' = host \<and> net_connect_port s' = port \<and>
    net_connect_state_name s' = ''configured''"
proof -
  let ?t = "host @ sep # u16_to_dec port"
  have sk: "skip_spaces (Some ?t) = ?t"
    using assms(1,3) by (cases host) (auto simp: skip_spaces_def)
  have "takeWhile (\<lambda>c. \<not> is_space_char c \<and> c \<noteq> CHR '':'') ?t =
      host @ takeWhile (\<lambda>c. \<not> is_space_char c \<and> c \<noteq> CHR '':'') (sep # u16_to_dec port)"
    using assms(3) by (intro takeWhile_append2) (auto simp: list_all_iff)
  then have tw: "takeWhile (\<lambda>c. \<not> is_space_char c \<and> c \<noteq> CHR '':'') ?t = host"
    using assms(5) by (auto simp: is_space_char_def)
  have pp: "parse_u16 (CHR '' '' # u16_to_dec port) = parse_u16 (u16_to_dec port)"
    by (simp add: parse_u16_def skip_spaces_def is_space_char_def)
  have "net_connect_configure_endpoint (Some ?t) s =
      (True, conn_set_error (Some ''configured, not connected'')
        (upd_cnx (\<lambda>c. c\<lparr>cn_port := port, cn_state := VITA_NET_CONNECT_CONFIGURED\<rparr>) (upd_cnx (\<lambda>c. c\<lparr>cn_host := host\<rparr>) s)))"
  proof (cases "sep = CHR '':''")
    case True
    then show ?thesis using assms(1,2) parse_u16_printed [OF assms(4)] sk tw
      by (simp add: net_connect_configure_endpoint_def Let_def NET_CONNECT_HOST_MAX_def)
  next
    case False
    then have "sep = CHR '' ''" using assms(5) by blast
    then show ?thesis using assms(1,2) parse_u16_printed [OF assms(4)] pp sk tw
      by (simp add: net_connect_configure_endpoint_def Let_def NET_CONNECT_HOST_MAX_def)
  qed
  then show ?thesis
    using assms(1,4) by (simp add: conn_set_error_def net_connect_is_configured_def net_connect_host_def
        net_connect_port_def net_connect_state_name_def)
qed

lemma endpoint_round_trip_witness:
  "fst (net_connect_configure_endpoint (Some ''10.0.0.2:8080'') demo_conn)"
proof -
  have d: "''10.0.0.2'' @ CHR '':'' # u16_to_dec 8080 = ''10.0.0.2:8080''"
    by (simp add: u16_to_dec_def dec_digits_numeral)
  have h: "list_all (\<lambda>c. \<not> is_space_char c \<and> c \<noteq> CHR '':'') ''10.0.0.2''" by code_simp
  have "\<exists>s'. net_connect_configure_endpoint (Some (''10.0.0.2'' @ CHR '':'' # u16_to_dec 8080)) demo_conn = (True, s') \<and>
      net_connect_is_configured s' \<and> net_connect_host s' = ''10.0.0.2'' \<and> net_connect_port s' = 8080 \<and>
      net_connect_state_name s' = ''configured''"
    by (rule endpoint_round_trip [OF _ _ h]) simp_all
  then show ?thesis unfolding d by (elim exE conjE) (simp only: fst_conv)
qed

end
