(* ===== verification/Editor.thy ===== *)
theory Editor
  imports Net_Connect
begin

text \<open>
  The note editor (kernel/editor.c): note paths, the guarded and verified save, the commands of the
  line loop and the commands that open it. The static variables are the field \<open>edi\<close>; one turn of the
  loop is \<open>editor_line\<close>, which returns the result of the editor when the line ends it.
\<close>

datatype editor_result = EDITOR_SAVE | EDITOR_CANCEL | EDITOR_ERROR
datatype editor_open_mode = EDITOR_OPEN_EDIT | EDITOR_OPEN_APPEND

record editor_state =
  ed_text :: string
  ed_path :: string
  ed_saveas_path :: string
  ed_loaded_existing :: bool
  ed_destructive_change :: bool
  ed_save_confirmed :: bool
  ed_dirty :: bool
  ed_mode :: editor_open_mode

record edit_sys = conn_sys + edi :: editor_state

definition zero_editor :: editor_state where
  "zero_editor = \<lparr>ed_text = [], ed_path = [], ed_saveas_path = [], ed_loaded_existing = False,
     ed_destructive_change = False, ed_save_confirmed = False, ed_dirty = False, ed_mode = EDITOR_OPEN_EDIT\<rparr>"

definition upd_edi :: "(editor_state \<Rightarrow> editor_state) \<Rightarrow> 'a edit_sys_scheme \<Rightarrow> 'a edit_sys_scheme" where
  "upd_edi f s = s\<lparr>edi := f (edi s)\<rparr>"

definition VITA_EDITOR_TEXT_MAX :: nat where "VITA_EDITOR_TEXT_MAX = 1536"
definition VITA_EDITOR_LINE_MAX :: nat where "VITA_EDITOR_LINE_MAX = 128"

section \<open>Note paths\<close>

definition editor_path_allowed :: "string \<Rightarrow> bool" where
  "editor_path_allowed path = (if \<not> pre path ''/vita/'' then False else path_chars_allowed path)"

definition safe_note_name_char :: "char \<Rightarrow> bool" where
  "safe_note_name_char c =
     (if 97 \<le> uchar c \<and> uchar c \<le> 122 then True
      else if 65 \<le> uchar c \<and> uchar c \<le> 90 then True
      else if 48 \<le> uchar c \<and> uchar c \<le> 57 then True
      else c = CHR ''-'' \<or> c = CHR ''_'' \<or> c = CHR ''.'')"

text \<open>The scan of a note name up to a space: its length and whether it has a dot.\<close>

fun scan_note_name :: "nat \<Rightarrow> bool \<Rightarrow> string \<Rightarrow> (nat \<times> bool) option" where
  "scan_note_name i dot [] = Some (i, dot)"
| "scan_note_name i dot (c # cs) =
     (if is_space_char c then Some (i, dot)
      else if \<not> safe_note_name_char c then None
      else scan_note_name (i + 1) (dot \<or> c = CHR ''.'') cs)"

definition build_note_path :: "string \<Rightarrow> nat \<Rightarrow> string option" where
  "build_note_path name out_cap =
     (if out_cap = 0 then None
      else if name = [] then Some (copy_text out_cap ''/vita/notes/note.txt'')
      else if hd name = CHR ''/'' then
        if \<not> editor_path_allowed name then None
        else let out = copy_text out_cap name in if out \<noteq> [] then Some out else None
      else case scan_note_name 0 False name of
             None \<Rightarrow> None
           | Some (i, has_dot) \<Rightarrow>
               if i = 0 then None
               else
                 let out = str_append out_cap (copy_text out_cap ''/vita/notes/'') (Some (take (min i 63) name));
                     out' = (if \<not> has_dot then str_append out_cap out (Some ''.txt'') else out)
                 in if editor_path_allowed out' then Some out' else None)"

section \<open>Screens\<close>

definition editor_show_help :: "'a edit_sys_scheme \<Rightarrow> 'a edit_sys_scheme" where
  "editor_show_help =
     say_all [''VitaOS editor / Editor VitaOS:'', ''Write one line at a time / Escribe una linea a la vez'',
       ''.save       -> save file / guardar archivo'',
       ''.wq         -> save and exit / guardar y salir'',
       ''.exit/.quit -> exit without save / salir sin guardar'',
       ''.save!      -> force save after destructive change'',
       ''.confirm    -> confirm destructive save'',
       ''.saveas PATH-> save current text to another /vita/... path'',
       ''.cancel     -> cancel / cancelar'',
       ''.show       -> show current text / mostrar texto actual'',
       ''.clear      -> clear current text / limpiar texto actual'',
       ''.replace    -> clear text and switch to replace mode'',
       ''.append     -> switch to append-safe mode'',
       ''.path       -> show target path / mostrar destino'',
       ''.status     -> show editor state / mostrar estado'',
       ''.help       -> show editor help / mostrar ayuda'',
       ''Limit: 1536 bytes per note in this first editor slice.'']"

definition editor_show_frame :: "string \<Rightarrow> 'a edit_sys_scheme \<Rightarrow> 'a edit_sys_scheme" where
  "editor_show_frame path =
     say_all [''+--------------------------------------------------+'',
       ''| VitaOS Editor                                    |'',
       ''| Archivo / File:                                  |'',
       (if path \<noteq> [] then path else ''unknown''),
       ''+--------------------------------------------------+'',
       ''| Escribe abajo / Write below                      |'',
       ''+--------------------------------------------------+'']"

definition editor_show_command_bar :: "'a edit_sys_scheme \<Rightarrow> 'a edit_sys_scheme" where
  "editor_show_command_bar =
     say ''Comandos: .save guardar | .wq guardar y salir | .exit salir | .quit salir | .help ayuda''"

definition editor_show_current_text :: "'a edit_sys_scheme \<Rightarrow> 'a edit_sys_scheme" where
  "editor_show_current_text s =
     say_all [''--- note text / texto actual ---'',
       (if ed_text (edi s) \<noteq> [] then ed_text (edi s) else ''(empty / vacio)''), ''--- end / fin ---''] s"

definition editor_show_status :: "'a edit_sys_scheme \<Rightarrow> 'a edit_sys_scheme" where
  "editor_show_status s =
     say_all [''Editor status / Estado del editor:'', ''path:'',
       (if ed_path (edi s) \<noteq> [] then ed_path (edi s) else ''unknown''),
       (if ed_loaded_existing (edi s) then ''loaded_existing: yes'' else ''loaded_existing: no''),
       (if ed_mode (edi s) = EDITOR_OPEN_APPEND then ''mode: append'' else ''mode: edit''),
       (if ed_destructive_change (edi s) then ''destructive_change: yes'' else ''destructive_change: no''),
       (if ed_save_confirmed (edi s) then ''save_confirmed: yes'' else ''save_confirmed: no'')] s"

section \<open>The text buffer\<close>

definition editor_append_text_raw :: "string \<Rightarrow> 'a edit_sys_scheme \<Rightarrow> bool \<times> 'a edit_sys_scheme" where
  "editor_append_text_raw text s =
     (if length (ed_text (edi s)) + length text + 1 \<ge> VITA_EDITOR_TEXT_MAX
      then (False, say ''editor: text buffer full / buffer de texto lleno'' s)
      else (True, upd_edi (\<lambda>e. e\<lparr>ed_text := str_append VITA_EDITOR_TEXT_MAX (ed_text e) (Some text)\<rparr>) s))"

definition editor_ensure_newline_before_append :: "'a edit_sys_scheme \<Rightarrow> bool \<times> 'a edit_sys_scheme" where
  "editor_ensure_newline_before_append s =
     (if ed_text (edi s) = [] then (True, s)
      else if last (ed_text (edi s)) = LF then (True, s)
      else editor_append_text_raw [LF] s)"

definition editor_append_line :: "string \<Rightarrow> 'a edit_sys_scheme \<Rightarrow> bool \<times> 'a edit_sys_scheme" where
  "editor_append_line line s =
     (if length (ed_text (edi s)) + length line + 2 \<ge> VITA_EDITOR_TEXT_MAX
      then (False, say ''editor: text buffer full / buffer de texto lleno'' s)
      else (True, upd_edi (\<lambda>e. e\<lparr>ed_text :=
              str_append VITA_EDITOR_TEXT_MAX (str_append VITA_EDITOR_TEXT_MAX (ed_text e) (Some line)) (Some [LF])\<rparr>) s))"

definition text_exact_match :: "string \<Rightarrow> string \<Rightarrow> bool" where
  "text_exact_match a b = str_eq_loop a b"

section \<open>Files\<close>

definition NOTE_SEED :: string where "NOTE_SEED = ''vita_note_bootstrap_v1'' @ [LF]"

definition note_bootstrap_if_missing :: "string \<Rightarrow> 'a edit_sys_scheme \<Rightarrow> bool \<times> 'a edit_sys_scheme" where
  "note_bootstrap_if_missing path s =
     (if path = [] then (False, s)
      else
        let ((there, _), s1) = storage_read_text (Some path) VITA_STORAGE_READ_MAX s in
        if there then (True, s1)
        else
          let (w, s2) = storage_write_text (Some path) (Some NOTE_SEED) s1 in
          if \<not> w then (False, say_error (say ''note bootstrap: write failed'' s2))
          else
            let ((r, readback), s3) = storage_read_text (Some path) VITA_STORAGE_READ_MAX s2 in
            if \<not> r \<or> \<not> text_exact_match readback NOTE_SEED
            then (False, say_error (say ''note bootstrap: verify failed'' s3))
            else (True, say_all [''note bootstrap: created'', path] s3))"

definition editor_save_to_path :: "string \<Rightarrow> bool \<Rightarrow> 'a edit_sys_scheme \<Rightarrow> bool \<times> 'a edit_sys_scheme" where
  "editor_save_to_path path force s =
     (if \<not> editor_path_allowed path then (False, say ''editor: save path must be inside /vita/'' s)
      else if ed_loaded_existing (edi s) \<and> ed_destructive_change (edi s) \<and> \<not> ed_save_confirmed (edi s) \<and> \<not> force
      then (False, say_all [''editor: destructive change detected / cambio destructivo detectado'',
              ''Use .confirm then .save, or .save! to force.'',
              ''Usa .confirm y luego .save, o .save! para forzar.''] s)
      else
        let (w, s1) = storage_write_text (Some path) (Some (ed_text (edi s))) s in
        if \<not> w then (False, say_error (say ''note save: failed'' s1))
        else
          let ((r, verify), s2) = storage_read_text (Some path) VITA_STORAGE_READ_MAX s1 in
          if \<not> r \<or> \<not> text_exact_match verify (ed_text (edi s2))
          then (False, say_error (say ''note save: verify failed'' s2))
          else (True, upd_edi (\<lambda>e. e\<lparr>ed_dirty := False\<rparr>) (say_all [''editor: saved / guardado'', path] s2)))"

definition editor_saveas :: "string \<Rightarrow> 'a edit_sys_scheme \<Rightarrow> bool \<times> 'a edit_sys_scheme" where
  "editor_saveas args s =
     (let p = skip_spaces (Some args) in
      if p = [] then (False, say ''usage: .saveas /vita/notes/new-file.txt'' s)
      else
        let s1 = upd_edi (\<lambda>e. e\<lparr>ed_saveas_path := trim_right_in_place (copy_text VITA_STORAGE_PATH_MAX p)\<rparr>) s in
        if \<not> editor_path_allowed (ed_saveas_path (edi s1))
        then (False, say ''editor: .saveas path must be inside /vita/ and safe'' s1)
        else editor_save_to_path (ed_saveas_path (edi s1)) True s1)"

section \<open>The line loop\<close>

abbreviation log_editor :: "string \<Rightarrow> 'a edit_sys_scheme \<Rightarrow> 'a edit_sys_scheme" where
  "log_editor ev s \<equiv> session_transcript_log_editor_event (Some ev) (ed_path (edi s)) s"

text \<open>The memory clearing of \<open>.clear\<close> and \<open>.replace\<close>.\<close>

definition destroy_text :: "'a edit_sys_scheme \<Rightarrow> 'a edit_sys_scheme" where
  "destroy_text = upd_edi (\<lambda>e. e\<lparr>ed_text := [], ed_destructive_change := True, ed_save_confirmed := False, ed_dirty := True\<rparr>)"

definition editor_line :: "string \<Rightarrow> 'a edit_sys_scheme \<Rightarrow> editor_result option \<times> 'a edit_sys_scheme" where
  "editor_line line s =
     (if eqs line ''.save'' then
        let s1 = log_editor ''editor_save'' s in (None, snd (editor_save_to_path (ed_path (edi s1)) False s1))
      else if eqs line ''.save!'' then (None, snd (editor_save_to_path (ed_path (edi s)) True s))
      else if eqs line ''.wq'' then
        let s1 = log_editor ''editor_save'' s;
            (ok, s2) = editor_save_to_path (ed_path (edi s1)) False s1
        in if ok then (Some EDITOR_SAVE, log_editor ''editor_exit'' s2)
           else (None, log_editor ''editor_save_failed'' s2)
      else if eqs line ''.exit'' \<or> eqs line ''.quit'' \<or> eqs line ''exit'' then
        (Some EDITOR_CANCEL,
         if ed_dirty (edi s)
         then say_all [''editor: exiting without saving pending changes'', ''editor: salida sin guardar cambios pendientes''] s
         else say ''editor: exit / salir'' s)
      else if pre line ''.saveas '' then
        let (ok, s1) = editor_saveas (drop (length ''.saveas '') line) s in (if ok then Some EDITOR_SAVE else None, s1)
      else if eqs line ''.confirm'' then
        (None, say ''editor: destructive save confirmed / guardado destructivo confirmado''
                 (upd_edi (\<lambda>e. e\<lparr>ed_save_confirmed := True\<rparr>) s))
      else if eqs line ''.cancel'' then
        (Some EDITOR_CANCEL, log_editor ''editor_cancel'' (say ''editor: cancelled / cancelado'' s))
      else if eqs line ''.help'' then (None, editor_show_command_bar (editor_show_help s))
      else if eqs line ''.show'' then (None, editor_show_current_text s)
      else if eqs line ''.path'' then (None, say (if ed_path (edi s) \<noteq> [] then ed_path (edi s) else ''unknown'') s)
      else if eqs line ''.status'' then (None, editor_show_status s)
      else if eqs line ''.append'' then
        (None, say ''editor: append mode enabled / modo agregar activado''
                 (snd (editor_ensure_newline_before_append (upd_edi (\<lambda>e. e\<lparr>ed_mode := EDITOR_OPEN_APPEND\<rparr>) s))))
      else if eqs line ''.replace'' then
        (None, say_all [''editor: replace mode enabled; text cleared'', ''Use .confirm before .save, or .save! to force.'']
                 (destroy_text (upd_edi (\<lambda>e. e\<lparr>ed_mode := EDITOR_OPEN_EDIT\<rparr>) s)))
      else if eqs line ''.clear'' then
        (None, say_all [''editor: current text cleared / texto actual borrado'', ''Use .confirm before .save, or .save! to force.'']
                 (destroy_text s))
      else
        let (ok, s1) = editor_append_line line s
        in if ok then (None, upd_edi (\<lambda>e. e\<lparr>ed_dirty := True\<rparr>)
                         (session_transcript_log_user_input line (console_write_editor_text line s1)))
           else (None, s1))"

section \<open>Input only shrinks\<close>

interpretation sinq: host_quiet h_stdin
  by unfold_locales (simp_all add: upd_jrn_def upd_trn_def)

declare sinq.obs_log [simp]

lemma upd_edi_sel [simp]:
  "edi (upd_edi f s) = f (edi s)" "h_stdin (upd_edi f s) = h_stdin s" "sto (upd_edi f s) = sto s"
  "trn (upd_edi f s) = trn s" "con (upd_edi f s) = con s" "h_fs (upd_edi f s) = h_fs s"
  "h_unreadable (upd_edi f s) = h_unreadable s" "h_tick (upd_edi f s) = h_tick s"
  by (simp_all add: upd_edi_def)

lemma upd_con_stdin [simp]: "h_stdin (upd_con f s) = h_stdin s"
  by (simp add: upd_con_def)

lemma log_editor_stdin [simp]:
  "h_stdin (session_transcript_log_editor_event e t s) = h_stdin s" "h_stdin (session_transcript_log_user_input t s) = h_stdin s"
  by (simp_all add: session_transcript_log_editor_event_def session_transcript_log_user_input_def)

lemma style_stdin [simp]: "h_stdin (console_set_style st s) = h_stdin s" "h_stdin (console_reset_style s) = h_stdin s"
  by (simp_all add: console_set_style_def console_reset_style_def)

named_theorems stdin_le \<open>output leaves at most the input there was\<close>

lemma say_le [stdin_le]: "length (h_stdin s) \<le> n \<Longrightarrow> length (h_stdin (say t s)) \<le> n"
  using say_stdin le_trans by blast

lemma say_all_le [stdin_le]: "length (h_stdin s) \<le> n \<Longrightarrow> length (h_stdin (say_all ts s)) \<le> n"
  using say_all_stdin le_trans by blast

lemma say_error_le [stdin_le]: "length (h_stdin s) \<le> n \<Longrightarrow> length (h_stdin (say_error s)) \<le> n"
  by (simp add: say_error_def say_le)

lemma editor_text_le [stdin_le]: "length (h_stdin s) \<le> n \<Longrightarrow> length (h_stdin (console_write_editor_text t s)) \<le> n"
  by (simp add: console_write_editor_text_def console_write_styled_def Let_def say_le)

lemma append_le:
  "length (h_stdin (snd (editor_append_line l s))) \<le> length (h_stdin s)"
  "length (h_stdin (snd (editor_ensure_newline_before_append s))) \<le> length (h_stdin s)"
  by (auto simp: editor_append_line_def editor_ensure_newline_before_append_def editor_append_text_raw_def intro!: stdin_le)

lemma save_le: "length (h_stdin (snd (editor_save_to_path p f s))) \<le> length (h_stdin s)"
  by (auto simp: editor_save_to_path_def Let_def case_prod_beta intro!: stdin_le)

lemma saveas_le: "length (h_stdin (snd (editor_saveas a s))) \<le> length (h_stdin s)"
  by (auto simp: editor_saveas_def Let_def intro!: stdin_le order_trans [OF save_le])

lemma destroy_stdin [simp]: "h_stdin (destroy_text s) = h_stdin s"
  by (simp add: destroy_text_def)

lemma stdin_if:
  "length (h_stdin (snd a)) \<le> n \<Longrightarrow> length (h_stdin (snd b)) \<le> n \<Longrightarrow> length (h_stdin (snd (if c then a else b))) \<le> n"
  by simp

lemma editor_line_le: "length (h_stdin (snd (editor_line l s))) \<le> length (h_stdin s)"
  unfolding editor_line_def Let_def case_prod_beta
  by (intro stdin_if)
    (auto simp: editor_show_help_def editor_show_command_bar_def editor_show_current_text_def
      editor_show_status_def intro!: stdin_le order_trans [OF save_le] order_trans [OF saveas_le] order_trans [OF append_le(1)]
      order_trans [OF append_le(2)])

lemma read_line_consumes:
  assumes "console_read_line cap s = ((True, l), s')" "1 < cap"
  shows "length (h_stdin s') < length (h_stdin s)"
proof -
  have "h_stdin s \<noteq> []" "h_stdin s' = snd (fgets_loop (cap - 1) (h_stdin s))"
    using assms by (auto simp: console_read_line_def host_console_read_line_def console_prompt_end_def
        console_input_style_end_def Let_def case_prod_beta split: if_splits)
  then show ?thesis using fgets_loop_consumes [of "cap - 1" "h_stdin s"] assms(2) by simp
qed

function editor_loop :: "'a edit_sys_scheme \<Rightarrow> editor_result \<times> 'a edit_sys_scheme" where
  "editor_loop s =
     (case console_read_line VITA_EDITOR_LINE_MAX
             (console_write_raw (Some (if ed_mode (edi s) = EDITOR_OPEN_APPEND then ''append> '' else ''edit> '')) s) of
        ((False, _), s1) \<Rightarrow> (EDITOR_ERROR, say ''editor: input closed / entrada cerrada'' s1)
      | ((True, line), s1) \<Rightarrow>
          (case editor_line (trim_right_in_place line) s1 of
             (Some r, s2) \<Rightarrow> (r, s2)
           | (None, s2) \<Rightarrow> editor_loop s2))"
  by pat_completeness auto
termination
proof (relation "measure (\<lambda>s. length (h_stdin s))", goal_cases)
  case (2 s x s1 y line x2 s2)
  then have "length (h_stdin s1) < length (h_stdin s)"
    using read_line_consumes [of VITA_EDITOR_LINE_MAX _ line s1] by (fastforce simp: VITA_EDITOR_LINE_MAX_def)
  then show ?case using editor_line_le [of "trim_right_in_place line" s1] 2 by (auto dest: arg_cong [where f = snd])
qed simp

declare editor_loop.simps [simp del]

section \<open>Opening\<close>

definition editor_begin :: "string \<Rightarrow> editor_open_mode \<Rightarrow> 'a edit_sys_scheme \<Rightarrow> 'a edit_sys_scheme" where
  "editor_begin path mode s =
     (let s1 = upd_edi (\<lambda>_. zero_editor\<lparr>ed_path := copy_text VITA_STORAGE_PATH_MAX path, ed_mode := mode\<rparr>) s;
          ((r, text), s2) = storage_read_text (Some (ed_path (edi s1))) VITA_EDITOR_TEXT_MAX s1;
          s3 = upd_edi (\<lambda>e. e\<lparr>ed_text := text\<rparr>) s2;
          s4 = (if r then
                  let t1 = say ''editor: loaded existing file / archivo existente cargado''
                             (upd_edi (\<lambda>e. e\<lparr>ed_loaded_existing := True\<rparr>) s3)
                  in if ed_mode (edi t1) = EDITOR_OPEN_APPEND
                     then say ''editor: append mode / modo agregar'' (snd (editor_ensure_newline_before_append t1)) else t1
                else if ed_mode (edi s3) = EDITOR_OPEN_APPEND
                then say ''editor: append target missing, creating new file on save'' s3 else s3);
          s5 = editor_show_frame (ed_path (edi s4)) (console_pager_end s4)
      in editor_show_command_bar (log_editor ''editor_open'' s5))"

definition editor_run :: "string \<Rightarrow> editor_open_mode \<Rightarrow> 'a edit_sys_scheme \<Rightarrow> editor_result \<times> 'a edit_sys_scheme" where
  "editor_run path mode s =
     (if \<not> editor_path_allowed path
      then (EDITOR_ERROR, say (''editor: path must be inside /vita/ and cannot contain '' @ [SQ] @ ''..'' @ [SQ] @ '' or '' @ [SQ] @ '':'' @ [SQ]) s)
      else if \<not> storage_is_ready s
      then (EDITOR_ERROR, storage_show_status (say ''editor: storage is not writable / almacenamiento no escribible'' s))
      else editor_loop (editor_begin path mode s))"

definition editor_show_notes_help :: "'a edit_sys_scheme \<Rightarrow> 'a edit_sys_scheme" where
  "editor_show_notes_help =
     say_all [''Notes / Notas:'', ''notes list             -> list saved notes / listar notas'',
       ''note                   -> edit /vita/notes/note.txt'',
       ''note field.txt         -> edit /vita/notes/field.txt'',
       ''append field.txt       -> append /vita/notes/field.txt'',
       ''edit /vita/notes/a.txt -> edit an explicit /vita path'',
       ''append /vita/notes/a.txt -> append an explicit /vita path'',
       ''Inside editor use .save, .save!, .saveas PATH, .cancel, .show, .clear, .replace, .append, .status, .help'']"

definition run_ok :: "editor_result \<times> 's \<Rightarrow> bool \<times> 's" where
  "run_ok r = (fst r = EDITOR_SAVE \<or> fst r = EDITOR_CANCEL, snd r)"

definition editor_handle_command :: "cstr \<Rightarrow> 'a edit_sys_scheme \<Rightarrow> bool \<times> 'a edit_sys_scheme" where
  "editor_handle_command cmd0 s =
     (case cmd0 of None \<Rightarrow> (False, s)
      | Some cmd \<Rightarrow>
          if eqs cmd ''notes'' then (True, editor_show_notes_help s)
          else if eqs cmd ''notes list'' then storage_list_notes s
          else if eqs cmd ''note'' \<or> pre cmd ''note '' then
            let explicit_name = pre cmd ''note '';
                args = (if eqs cmd ''note'' then [] else skip_spaces (Some (drop (length ''note '') cmd)))
            in case build_note_path args VITA_STORAGE_PATH_MAX of
                 None \<Rightarrow> (False, say_all [''note: invalid note name or path'',
                           ''Use: note, note file.txt, append file.txt, or edit /vita/notes/file.txt''] s)
               | Some path \<Rightarrow>
                   let (ok, s1) = note_bootstrap_if_missing path s in
                   if \<not> ok then (False, s1)
                   else if explicit_name
                   then (True, say_all [''note: quick-create verified'', ''Use: edit /vita/notes/<file> for interactive editor''] s1)
                   else run_ok (editor_run path EDITOR_OPEN_EDIT s1)
          else if eqs cmd ''append'' \<or> pre cmd ''append '' then
            let args = (if eqs cmd ''append'' then [] else skip_spaces (Some (drop (length ''append '') cmd)))
            in case build_note_path args VITA_STORAGE_PATH_MAX of
                 None \<Rightarrow> (False, say_all [''append: invalid note name or path'',
                           ''Use: append file.txt or append /vita/notes/file.txt''] s)
               | Some path \<Rightarrow> run_ok (editor_run path EDITOR_OPEN_APPEND s)
          else if pre cmd ''edit '' then
            let args = skip_spaces (Some (drop (length ''edit '') cmd)) in
            if args = [] then (False, say ''usage: edit /vita/notes/file.txt'' s)
            else
              let path = trim_right_in_place (copy_text VITA_STORAGE_PATH_MAX args) in
              if \<not> editor_path_allowed path
              then (False, say (''edit: path must be inside /vita/ and cannot contain '' @ [SQ] @ ''..'' @ [SQ] @ '' or '' @ [SQ] @ '':'' @ [SQ]) s)
              else run_ok (editor_run path EDITOR_OPEN_EDIT s)
          else (False, s))"


section \<open>What the editor keeps\<close>

interpretation edq: mute edi
  by unfold_locales
    (simp_all add: fs_put_def ticked_def storage_set_error_def upd_jrn_def upd_trn_def upd_con_def emit_out_def)
interpretation edaq: audit_quiet edi by unfold_locales (simp_all add: ticked_def)

declare edq.obs_talk [simp] edaq.obs_audit [simp]

lemma edi_log [simp]:
  "edi (session_transcript_log_editor_event e t s) = edi s" "edi (session_transcript_log_user_input t s) = edi s"
  "edi (say_error s) = edi s" "edi (console_write_editor_text t s) = edi s"
  by (simp_all add: session_transcript_log_editor_event_def session_transcript_log_user_input_def say_error_def
      console_write_editor_text_def)

lemma edi_append [simp]:
  "edi (snd (editor_append_line l s)) =
     (if length (ed_text (edi s)) + length l + 2 \<ge> 1536 then edi s
      else (edi s)\<lparr>ed_text := ed_text (edi s) @ l @ [LF]\<rparr>)"
  "fst (editor_append_line l s) \<longleftrightarrow> length (ed_text (edi s)) + length l + 2 < 1536"
  by (auto simp: editor_append_line_def VITA_EDITOR_TEXT_MAX_def sa.app_fits)

lemma edi_newline [simp]:
  "edi (snd (editor_ensure_newline_before_append s)) =
     (if ed_text (edi s) = [] \<or> last (ed_text (edi s)) = LF \<or> length (ed_text (edi s)) + 2 \<ge> 1536 then edi s
      else (edi s)\<lparr>ed_text := ed_text (edi s) @ [LF]\<rparr>)"
  by (auto simp: editor_ensure_newline_before_append_def editor_append_text_raw_def VITA_EDITOR_TEXT_MAX_def sa.app_fits)

lemma edi_destroy [simp]:
  "edi (destroy_text s) = (edi s)\<lparr>ed_text := [], ed_destructive_change := True, ed_save_confirmed := False, ed_dirty := True\<rparr>"
  by (simp add: destroy_text_def)

lemma edi_save:
  "edi (snd (editor_save_to_path p f s)) = (if fst (editor_save_to_path p f s) then (edi s)\<lparr>ed_dirty := False\<rparr> else edi s)"
  by (simp add: editor_save_to_path_def Let_def case_prod_beta)

lemma edi_saveas [simp]:
  "ed_text (edi (snd (editor_saveas a s))) = ed_text (edi s)" "ed_path (edi (snd (editor_saveas a s))) = ed_path (edi s)"
  "ed_loaded_existing (edi (snd (editor_saveas a s))) = ed_loaded_existing (edi s)"
  "ed_destructive_change (edi (snd (editor_saveas a s))) = ed_destructive_change (edi s)"
  "ed_save_confirmed (edi (snd (editor_saveas a s))) = ed_save_confirmed (edi s)"
  by (simp_all add: editor_saveas_def Let_def edi_save)

lemma edi_screens [simp]:
  "edi (editor_show_help s) = edi s" "edi (editor_show_command_bar s) = edi s" "edi (editor_show_current_text s) = edi s"
  "edi (editor_show_status s) = edi s" "edi (editor_show_frame p s) = edi s"
  by (simp_all add: editor_show_help_def editor_show_command_bar_def editor_show_current_text_def editor_show_status_def
      editor_show_frame_def)

text \<open>A change that would lose the loaded note and is not confirmed.\<close>

definition unconfirmed :: "editor_state \<Rightarrow> bool" where
  "unconfirmed e \<longleftrightarrow> ed_loaded_existing e \<and> ed_destructive_change e \<and> \<not> ed_save_confirmed e"

lemma unconfirmed_upd [simp]:
  "unconfirmed (e\<lparr>ed_text := t\<rparr>) = unconfirmed e" "unconfirmed (e\<lparr>ed_dirty := d\<rparr>) = unconfirmed e"
  "unconfirmed (e\<lparr>ed_mode := m\<rparr>) = unconfirmed e" "unconfirmed (e\<lparr>ed_saveas_path := q\<rparr>) = unconfirmed e"
  "unconfirmed (e\<lparr>ed_destructive_change := True, ed_save_confirmed := False\<rparr>) = ed_loaded_existing e"
  by (simp_all add: unconfirmed_def)

lemma edi_if: "(c \<Longrightarrow> P (edi (snd a))) \<Longrightarrow> P (edi (snd b)) \<Longrightarrow> P (edi (snd (if c then a else b)))"
  by simp

lemma line_keeps_guard:
  assumes "unconfirmed (edi s)" "l \<noteq> ''.confirm''"
  shows "unconfirmed (edi (snd (editor_line l s)))"
  using assms unfolding editor_line_def Let_def case_prod_beta str_eq_Some
  by (intro edi_if [where P = unconfirmed]) (auto simp: edi_save unconfirmed_def)

lemma line_keeps_path: "ed_path (edi (snd (editor_line l s))) = ed_path (edi s)"
  unfolding editor_line_def Let_def case_prod_beta
  by (intro edi_if [where P = "\<lambda>e. ed_path e = ed_path (edi s)"]) (auto simp: edi_save)

lemma line_keeps_bound: "length (ed_text (edi s)) < 1536 \<Longrightarrow> length (ed_text (edi (snd (editor_line l s)))) < 1536"
  unfolding editor_line_def Let_def case_prod_beta
  by (intro edi_if [where P = "\<lambda>e. length (ed_text e) < 1536"]) (auto simp: edi_save)

text \<open>The refusal of an unconfirmed destructive save: three lines are printed, nothing is written.\<close>

definition refuse_save :: "'a edit_sys_scheme \<Rightarrow> 'a edit_sys_scheme" where
  "refuse_save = say_all [''editor: destructive change detected / cambio destructivo detectado'',
     ''Use .confirm then .save, or .save! to force.'', ''Usa .confirm y luego .save, o .save! para forzar.'']"

lemma save_refused:
  "unconfirmed (edi s) \<Longrightarrow> editor_path_allowed p \<Longrightarrow> editor_save_to_path p False s = (False, refuse_save s)"
  by (simp add: editor_save_to_path_def unconfirmed_def refuse_save_def)

lemma run_guarded:
  "unconfirmed (edi s) \<Longrightarrow> list_all (\<lambda>l. l \<noteq> ''.confirm'') lines \<Longrightarrow>
     unconfirmed (edi (fold (\<lambda>l u. snd (editor_line l u)) lines s)) \<and>
     ed_path (edi (fold (\<lambda>l u. snd (editor_line l u)) lines s)) = ed_path (edi s)"
  by (induction lines arbitrary: s) (simp_all add: line_keeps_guard line_keeps_path)

lemma destroying_line:
  "c = ''.clear'' \<or> c = ''.replace'' \<Longrightarrow> ed_loaded_existing (edi s) \<Longrightarrow>
     unconfirmed (edi (snd (editor_line c s))) \<and> ed_path (edi (snd (editor_line c s))) = ed_path (edi s)"
  by (auto simp: editor_line_def unconfirmed_def starts_with_Some)

text \<open>
  C17. A loaded note is not overwritten by accident. After \<open>.clear\<close> or \<open>.replace\<close> on an existing note,
  whatever lines follow, as long as none is \<open>.confirm\<close>, both \<open>.save\<close> and \<open>.wq\<close> only log and print the
  refusal: nothing is written to the note and the editor goes on.
\<close>

theorem editor_guards_loaded_note:
  fixes s :: "'a edit_sys_scheme" and lines :: "string list" and c :: string
  assumes "ed_loaded_existing (edi s)" "editor_path_allowed (ed_path (edi s))"
    and "c = ''.clear'' \<or> c = ''.replace''" "list_all (\<lambda>l. l \<noteq> ''.confirm'') lines"
  defines "t \<equiv> fold (\<lambda>l u. snd (editor_line l u)) (c # lines) s"
  shows "editor_line ''.save'' t = (None, refuse_save (log_editor ''editor_save'' t)) \<and>
    editor_line ''.wq'' t = (None, session_transcript_log_editor_event (Some ''editor_save_failed'') (ed_path (edi t))
      (refuse_save (log_editor ''editor_save'' t)))"
proof -
  have "unconfirmed (edi t) \<and> ed_path (edi t) = ed_path (edi s)"
    using destroying_line [OF assms(3,1)] run_guarded [OF _ assms(4), of "snd (editor_line c s)"] by (simp add: t_def)
  then have "editor_save_to_path (ed_path (edi t)) False (log_editor ''editor_save'' t) =
      (False, refuse_save (log_editor ''editor_save'' t))"
    using assms(2) by (intro save_refused) simp_all
  then show ?thesis by (simp add: editor_line_def Let_def refuse_save_def)
qed

definition demo_note :: string where "demo_note = ''/vita/notes/a.txt''"

definition demo_edit :: "string \<Rightarrow> string \<Rightarrow> edit_sys" where
  "demo_edit old input = (conn_sys.extend demo_conn (edit_sys.fields (zero_editor\<lparr>ed_path := demo_note, ed_loaded_existing := True\<rparr>)))
     \<lparr>h_fs := [([''build''], FDir), ([''build'', ''storage''], FDir), ([''build'', ''storage'', ''vita''], FDir),
        ([''build'', ''storage'', ''vita'', ''notes''], FDir), ([''build'', ''storage'', ''vita'', ''notes'', ''a.txt''], FFile old)],
      h_stdin := input, con := zero_console\<lparr>co_writer := True, co_reader := True\<rparr>\<rparr>"

lemmas demo_edit_defs = demo_edit_def conn_sys.defs edit_sys.defs demo_conn_def demo_prop_def prop_sys.defs demo_node_def
  net_sys.defs node_sys.defs demo_fresh_def transcript_sys.defs journal_sys.defs storage_sys.defs console_sys.defs
  demo_storage_def storage_init_def storage_set_error_def demo_audit_def demo_host_def host.defs audit_sys.defs

lemma demo_edit_sel:
  "storage_is_ready (demo_edit old input)" "\<not> tr_active (trn (demo_edit old input))" "co_reader (con (demo_edit old input))"
  "\<not> co_pager_enabled (con (demo_edit old input))" "h_accepted (demo_edit old input) = (\<lambda>_. None)"
  "h_survived (demo_edit old input) = (\<lambda>_. None)" "\<not> h_read_only (demo_edit old input) k"
  "\<not> h_unreadable (demo_edit old input) k" "h_stdin (demo_edit old input) = input"
  "edi (demo_edit old input) = zero_editor\<lparr>ed_path := demo_note, ed_loaded_existing := True\<rparr>"
  by (simp_all add: demo_edit_defs storage_is_ready_def zero_transcript_def zero_console_def)

lemma demo_note_path:
  "editor_path_allowed demo_note" "length demo_note < 192" "\<not> names_dir (hosted_host_path 256 demo_note)"
  "host_target demo_note = [''build'', ''storage'', ''vita'', ''notes'', ''a.txt'']"
  by code_simp+

lemma demo_note_file:
  "fs_lookup (demo_edit old input) (host_target demo_note) = Some (FFile old)"
  "parent_is_dir (demo_edit old input) (host_target demo_note)"
  unfolding demo_note_path(4) by (simp_all add: fs_lookup_def parent_is_dir_def demo_edit_def)

lemma editor_guards_loaded_note_witness:
  "fst (editor_line ''.wq'' (snd (editor_line ''x'' (snd (editor_line ''.clear'' (demo_edit ''old'' [])))))) = None"
  using editor_guards_loaded_note [of "demo_edit ''old'' []" "''.clear''" "[''x'']"] demo_note_path(1)
  by (simp add: demo_edit_sel)

section \<open>An editing session, from the keyboard to the file\<close>

text \<open>With the pager off and no transcript, printing changes the trace only.\<close>

lemma say_calm:
  assumes "\<not> co_pager_enabled (con s)" "\<not> tr_active (trn s)"
  shows "con (say t s) = con s" "h_stdin (say t s) = h_stdin s" "h_fs (say t s) = h_fs s" "sto (say t s) = sto s"
    "tr_active (trn (say t s)) = tr_active (trn s)"
proof -
  have lift: "con (session_transcript_log_system_output x r u) = con u" for x r and u :: "'a console_sys_scheme" by simp
  show "con (say t s) = con s" "h_stdin (say t s) = h_stdin s"
    using assms(1) by (simp_all add: console_write_line_def host_console_write_def console_pager_after_line_def Let_def
        upd_con_def emit_out_def)
  show "h_fs (say t s) = h_fs s" using fq.obs_line [OF assms(2), of "Some t"] by simp
  show "sto (say t s) = sto s" using stq.obs_line [OF assms(2), of "Some t"] by simp
  show "tr_active (trn (say t s)) = tr_active (trn s)" using inactive.obs_line [OF assms(2), of "Some t"] by simp
qed

text \<open>What a calm stretch of the session keeps.\<close>

definition calm :: "'a edit_sys_scheme \<Rightarrow> 'a edit_sys_scheme \<Rightarrow> bool" where
  "calm s s' \<longleftrightarrow> con s' = con s \<and> h_fs s' = h_fs s \<and> st_initialized (sto s') = st_initialized (sto s) \<and>
     st_writable (sto s') = st_writable (sto s) \<and> host_oracles s' = host_oracles s \<and> \<not> tr_active (trn s')"

lemma calm_trans [trans]: "calm s t \<Longrightarrow> calm t u \<Longrightarrow> calm s u"
  by (simp add: calm_def)

lemma calm_refl: "\<not> tr_active (trn s) \<Longrightarrow> calm s s"
  by (simp add: calm_def)

lemma event_calm [simp]: "\<not> tr_active (trn s) \<Longrightarrow> event ty a x s = s"
  by (simp add: event_def)

lemma oracles_say [simp]: "host_oracles (say t s) = host_oracles s"
  by simp

lemma calm_say: "\<not> co_pager_enabled (con s) \<Longrightarrow> \<not> tr_active (trn s) \<Longrightarrow> calm s (say t s)"
  by (simp add: calm_def say_calm)

lemma calm_say_all:
  "\<not> co_pager_enabled (con s) \<Longrightarrow> \<not> tr_active (trn s) \<Longrightarrow>
     calm s (say_all ts s) \<and> h_stdin (say_all ts s) = h_stdin s"
proof (induction ts arbitrary: s)
  case (Cons t ts)
  have "calm (say t s) (say_all ts (say t s)) \<and> h_stdin (say_all ts (say t s)) = h_stdin (say t s)"
    using Cons.prems by (intro Cons.IH) (simp_all add: say_calm)
  then show ?case using calm_say [OF Cons.prems, of t] calm_trans [of s "say t s"] Cons.prems
    by (simp add: say_all_def say_calm)
qed (simp add: say_all_def calm_refl)

lemma raw_sel [simp]:
  "con (console_write_raw t s) = con s" "h_fs (console_write_raw t s) = h_fs s" "sto (console_write_raw t s) = sto s"
  "trn (console_write_raw t s) = trn s"
  by (simp_all add: console_write_raw_def host_console_write_raw_def host_console_write_def emit_out_def split: option.split)

lemma calm_raw: "\<not> tr_active (trn s) \<Longrightarrow> calm s (console_write_raw t s) \<and> edi (console_write_raw t s) = edi s"
  by (simp add: calm_def)

text \<open>A line that fits the reader, survives the trimming and is no command.\<close>

definition plain_line :: "string \<Rightarrow> bool" where
  "plain_line l \<longleftrightarrow> length l < 127 \<and> list_all (\<lambda>c. c \<noteq> LF \<and> c \<noteq> NUL) l \<and>
     (l \<noteq> [] \<longrightarrow> hd l \<noteq> CHR ''.'' \<and> \<not> is_space_char (last l)) \<and> l \<noteq> ''exit''"

definition typed :: "string list \<Rightarrow> string" where
  "typed lines = concat (map (\<lambda>l. l @ [LF]) lines)"

lemma typed_simps [simp]: "typed [] = []" "typed (l # ls) = l @ LF # typed ls"
  by (simp_all add: typed_def)

lemma fgets_line: "list_all (\<lambda>c. c \<noteq> LF \<and> c \<noteq> NUL) l \<Longrightarrow> length l < n \<Longrightarrow> fgets_loop n (l @ LF # r) = (l @ [LF], r)"
proof (induction l arbitrary: n)
  case Nil
  then show ?case by (cases n) auto
next
  case (Cons c l)
  then show ?case by (cases n) auto
qed

lemma c_string_line: "list_all (\<lambda>c. c \<noteq> LF \<and> c \<noteq> NUL) l \<Longrightarrow> c_string (l @ [LF]) = l @ [LF]"
  by (simp add: c_string_def takeWhile_eq_all_conv list_all_iff)

lemma strip_line: "l = [] \<or> \<not> is_space_char (last l) \<Longrightarrow> rev (dropWhile (\<lambda>c. c = LF \<or> c = CR) (rev (l @ [LF]))) = l"
  by (cases l rule: rev_cases) (auto simp: is_space_char_def)

lemma trim_plain: "l = [] \<or> \<not> is_space_char (last l) \<Longrightarrow> trim_right_in_place l = l"
  by (cases l rule: rev_cases) (auto simp: trim_right_eq)

definition after_read :: "string \<Rightarrow> 'a edit_sys_scheme \<Rightarrow> 'a edit_sys_scheme" where
  "after_read rest s =
     console_prompt_end (console_input_style_end
       ((console_write_raw (Some (if ed_mode (edi s) = EDITOR_OPEN_APPEND then ''append> '' else ''edit> '')) s)\<lparr>h_stdin := rest\<rparr>))"

lemma oracles_upd_edi [simp]: "host_oracles (upd_edi f s) = host_oracles s"
  by (simp add: host_oracles_def upd_edi_def)

lemma stdin_field [simp]:
  "con (s\<lparr>h_stdin := r\<rparr>) = con s" "sto (s\<lparr>h_stdin := r\<rparr>) = sto s" "trn (s\<lparr>h_stdin := r\<rparr>) = trn s"
  "edi (s\<lparr>h_stdin := r\<rparr>) = edi s" "host_oracles (s\<lparr>h_stdin := r\<rparr>) = host_oracles s"
  by (simp_all add: host_oracles_def)

lemma style_sel [simp]:
  "con (console_reset_style s) = con s" "h_fs (console_reset_style s) = h_fs s" "sto (console_reset_style s) = sto s"
  "trn (console_reset_style s) = trn s" "con (console_set_style st s) = con s" "h_fs (console_set_style st s) = h_fs s"
  "sto (console_set_style st s) = sto s" "trn (console_set_style st s) = trn s"
  by (simp_all add: console_reset_style_def console_set_style_def)

lemma after_read_sel [simp]:
  "edi (after_read r s) = edi s" "h_stdin (after_read r s) = r" "con (after_read r s) = con s"
  "\<not> tr_active (trn s) \<Longrightarrow> calm s (after_read r s)"
  by (simp_all add: after_read_def console_prompt_end_def console_input_style_end_def calm_def)

lemma editor_loop_read:
  assumes "co_reader (con s)" "h_stdin s = l @ LF # r"
    and "length l < 127" "list_all (\<lambda>c. c \<noteq> LF \<and> c \<noteq> NUL) l" "l = [] \<or> \<not> is_space_char (last l)"
  shows "editor_loop s = (case editor_line l (after_read r s) of (Some x, s2) \<Rightarrow> (x, s2) | (None, s2) \<Rightarrow> editor_loop s2)"
proof -
  have "console_read_line VITA_EDITOR_LINE_MAX
      (console_write_raw (Some (if ed_mode (edi s) = EDITOR_OPEN_APPEND then ''append> '' else ''edit> '')) s) =
      ((True, l), after_read r s)"
    using assms(1,2) fgets_line [OF assms(4), of 127 r] assms(3)
    by (simp add: console_read_line_def host_console_read_line_def VITA_EDITOR_LINE_MAX_def after_read_def Let_def
        c_string_line [OF assms(4)] strip_line [OF assms(5), simplified])
  then show ?thesis by (simp add: editor_loop.simps [of s] trim_plain [OF assms(5)])
qed

lemma editor_line_plain:
  assumes "plain_line l" "length (ed_text (edi s)) + length l + 2 < 1536" "\<not> co_pager_enabled (con s)" "\<not> tr_active (trn s)"
  shows "\<exists>s2. editor_line l s = (None, s2) \<and> calm s s2 \<and> h_stdin s2 = h_stdin s \<and>
    edi s2 = (edi s)\<lparr>ed_text := ed_text (edi s) @ l @ [LF], ed_dirty := True\<rparr>"
proof -
  have word: "l \<noteq> CHR ''.'' # w" for w using assms(1) by (auto simp: plain_line_def)
  then have np: "\<not> prefix ''.saveas '' l" by (auto simp: prefix_def)
  let ?s1 = "snd (editor_append_line l s)"
  let ?s2 = "upd_edi (\<lambda>e. e\<lparr>ed_dirty := True\<rparr>) (session_transcript_log_user_input l (console_write_editor_text l ?s1))"
  have s1: "?s1 = upd_edi (\<lambda>e. e\<lparr>ed_text := ed_text e @ l @ [LF]\<rparr>) s"
    using assms(2) by (auto simp: editor_append_line_def VITA_EDITOR_TEXT_MAX_def sa.app_fits upd_edi_def)
  have "editor_line l s = (None, ?s2)"
    using assms(1,2) word np
    by (simp add: editor_line_def starts_with_Some plain_line_def case_prod_beta)
  moreover have "calm s ?s2"
    using assms(3,4) by (simp add: calm_def s1 console_write_editor_text_def console_write_styled_def Let_def say_calm
        session_transcript_log_user_input_def)
  moreover have "h_stdin ?s2 = h_stdin s"
    using assms(3,4) by (simp add: s1 console_write_editor_text_def console_write_styled_def Let_def say_calm
        session_transcript_log_user_input_def)
  moreover have "edi ?s2 = (edi s)\<lparr>ed_text := ed_text (edi s) @ l @ [LF], ed_dirty := True\<rparr>"
    using assms(2) by simp
  ultimately show ?thesis by blast
qed

lemma editor_loop_types:
  assumes "list_all plain_line lines" "co_reader (con s)" "\<not> co_pager_enabled (con s)" "\<not> tr_active (trn s)"
    "h_stdin s = typed lines @ r" "lines \<noteq> [] \<longrightarrow> length (ed_text (edi s)) + length (typed lines) < 1535"
  shows "\<exists>t d. editor_loop s = editor_loop t \<and> calm s t \<and> h_stdin t = r \<and>
    edi t = (edi s)\<lparr>ed_text := ed_text (edi s) @ typed lines, ed_dirty := d\<rparr>"
  using assms
proof (induction lines arbitrary: s)
  case Nil
  then show ?case by (intro exI [of _ s] exI [of _ "ed_dirty (edi s)"]) (simp add: calm_refl)
next
  case (Cons l lines)
  let ?s1 = "after_read (typed lines @ r) s"
  have pl: "plain_line l" using Cons.prems(1) by simp
  have c1: "calm s ?s1" using Cons.prems(4) by simp
  have "\<exists>s2. editor_line l ?s1 = (None, s2) \<and> calm ?s1 s2 \<and> h_stdin s2 = h_stdin ?s1 \<and>
      edi s2 = (edi ?s1)\<lparr>ed_text := ed_text (edi ?s1) @ l @ [LF], ed_dirty := True\<rparr>"
    using Cons.prems c1 by (intro editor_line_plain pl) (simp_all add: calm_def)
  then obtain s2 where s2: "editor_line l ?s1 = (None, s2)" "calm ?s1 s2" "h_stdin s2 = typed lines @ r"
      "edi s2 = (edi s)\<lparr>ed_text := ed_text (edi s) @ l @ [LF], ed_dirty := True\<rparr>"
    by auto
  have c2: "calm s s2" using c1 s2(2) by (rule calm_trans)
  have "l = [] \<or> \<not> is_space_char (last l)" using pl by (auto simp: plain_line_def)
  then have "editor_loop s = editor_loop s2"
    using editor_loop_read [of s l "typed lines @ r"] Cons.prems pl s2(1) by (simp add: plain_line_def)
  moreover have "\<exists>t d. editor_loop s2 = editor_loop t \<and> calm s2 t \<and> h_stdin t = r \<and>
      edi t = (edi s2)\<lparr>ed_text := ed_text (edi s2) @ typed lines, ed_dirty := d\<rparr>"
    using Cons.prems c2 s2 by (intro Cons.IH) (simp_all add: calm_def)
  ultimately show ?case using calm_trans [OF c2] s2(4) by auto
qed

lemma editor_path_storage: "editor_path_allowed p \<Longrightarrow> path_allowed (Some p)"
  by (auto simp: path_allowed_def editor_path_allowed_def split: if_splits)

lemma calm_upd_edi [simp]: "\<not> tr_active (trn s) \<Longrightarrow> calm s (upd_edi f s)"
  by (simp add: calm_def)

lemma calm_set_error: "\<not> tr_active (trn s) \<Longrightarrow> calm s (storage_set_error e s)"
  by (simp add: calm_def)

lemma newline_calm:
  "\<not> co_pager_enabled (con s) \<Longrightarrow> \<not> tr_active (trn s) \<Longrightarrow>
     calm s (snd (editor_ensure_newline_before_append s)) \<and> h_stdin (snd (editor_ensure_newline_before_append s)) = h_stdin s"
  by (auto simp: editor_ensure_newline_before_append_def editor_append_text_raw_def calm_refl calm_say say_calm)

lemma calm_flags: "calm s t \<Longrightarrow> \<not> tr_active (trn t) \<and> con t = con s"
  by (simp add: calm_def)

lemma calm_then_say:
  "calm s t \<Longrightarrow> \<not> co_pager_enabled (con s) \<Longrightarrow> calm s (say x t) \<and> h_stdin (say x t) = h_stdin t"
  using calm_say [of t x] say_calm(2) [of t x] calm_flags [of s t] calm_trans [of s t "say x t"] by simp

lemma calm_then_newline:
  "calm s t \<Longrightarrow> \<not> co_pager_enabled (con s) \<Longrightarrow>
     calm s (snd (editor_ensure_newline_before_append t)) \<and> h_stdin (snd (editor_ensure_newline_before_append t)) = h_stdin t"
  using newline_calm [of t] calm_flags [of s t] calm_trans [of s t "snd (editor_ensure_newline_before_append t)"] by simp

lemma pager_end_sel [simp]:
  "co_pager_enabled (con (console_pager_end s)) = False" "co_reader (con (console_pager_end s)) = co_reader (con s)"
  "trn (console_pager_end s) = trn s" "h_stdin (console_pager_end s) = h_stdin s" "h_fs (console_pager_end s) = h_fs s"
  "sto (console_pager_end s) = sto s"
  by (simp_all add: console_pager_end_def upd_con_def)

lemma calm_pager_end: "calm s t \<Longrightarrow> calm (console_pager_end s) (console_pager_end t)"
  by (simp add: calm_def) (simp add: console_pager_end_def upd_con_def)

text \<open>What opening an existing note leaves: the text read, with a newline at its end in append mode.\<close>

definition opened_text :: "editor_open_mode \<Rightarrow> string \<Rightarrow> string" where
  "opened_text mode old =
     (let t = take 1535 old
      in if mode = EDITOR_OPEN_APPEND \<and> t \<noteq> [] \<and> last t \<noteq> LF \<and> length t + 2 < 1536 then t @ [LF] else t)"

lemma editor_begin_opened:
  assumes "st_initialized (sto s)" "editor_path_allowed p" "length p < 192" "stored_text s p = Some old" "NUL \<notin> set old"
    and "\<not> co_pager_enabled (con s)" "\<not> tr_active (trn s)"
  shows "edi (editor_begin p mode s) =
      zero_editor\<lparr>ed_text := opened_text mode old, ed_path := p, ed_loaded_existing := True, ed_mode := mode\<rparr>"
    "calm (console_pager_end s) (editor_begin p mode s)" "h_stdin (editor_begin p mode s) = h_stdin s"
proof -
  have pa: "path_allowed (Some p)" using assms(2) by (rule editor_path_storage)
  have cp: "copy_text VITA_STORAGE_PATH_MAX p = p" using assms(3) by (simp add: str_copy_fits VITA_STORAGE_PATH_MAX_def)
  have cs: "c_string (take 1535 old) = take 1535 old"
    using assms(5) by (auto simp: c_string_def takeWhile_eq_all_conv dest: in_set_takeD)
  let ?s1 = "upd_edi (\<lambda>_. zero_editor\<lparr>ed_path := p, ed_mode := mode\<rparr>) s"
  let ?s3 = "upd_edi (\<lambda>e. e\<lparr>ed_loaded_existing := True\<rparr>) (upd_edi (\<lambda>e. e\<lparr>ed_text := take 1535 old\<rparr>) (storage_set_error ''ok'' ?s1))"
  let ?s4 = "say ''editor: loaded existing file / archivo existente cargado'' ?s3"
  let ?s5 = "if mode = EDITOR_OPEN_APPEND
             then say ''editor: append mode / modo agregar'' (snd (editor_ensure_newline_before_append ?s4)) else ?s4"
  have st: "stored_text ?s1 p = Some old"
    using assms(4) stored_text_obs [of ?s1 s] by simp
  have "storage_read_text (Some p) VITA_EDITOR_TEXT_MAX ?s1 = ((True, take 1535 old), storage_set_error ''ok'' ?s1)"
    using storage_read_text_eq [of ?s1 VITA_EDITOR_TEXT_MAX p] assms(1) pa st by (simp add: VITA_EDITOR_TEXT_MAX_def cs)
  then have begin_eq: "editor_begin p mode s = editor_show_command_bar (log_editor ''editor_open''
      (editor_show_frame (ed_path (edi ?s5)) (console_pager_end ?s5)))"
    by (simp add: editor_begin_def cp Let_def)
  show "edi (editor_begin p mode s) =
      zero_editor\<lparr>ed_text := opened_text mode old, ed_path := p, ed_loaded_existing := True, ed_mode := mode\<rparr>"
    unfolding begin_eq by (simp add: opened_text_def Let_def zero_editor_def) (auto simp: min_less_iff_disj)
  have q3: "calm s ?s3 \<and> h_stdin ?s3 = h_stdin s"
    using assms(7) by (simp add: calm_def)
  have off: "\<not> co_pager_enabled (con u) \<and> \<not> tr_active (trn u)" if "calm s u" for u
    using calm_flags [OF that] assms(6) by simp
  have q4: "calm s ?s4 \<and> h_stdin ?s4 = h_stdin s"
    using calm_then_say [OF conjunct1 [OF q3] assms(6)] q3 by simp
  have q5: "calm s ?s5 \<and> h_stdin ?s5 = h_stdin s"
  proof (cases "mode = EDITOR_OPEN_APPEND")
    case True
    note n = calm_then_newline [OF conjunct1 [OF q4] assms(6)]
    show ?thesis using calm_then_say [OF conjunct1 [OF n] assms(6)] n q4 True by simp
  next
    case False
    then show ?thesis using q4 by simp
  qed
  let ?e = "console_pager_end ?s5"
  let ?f = "editor_show_frame (ed_path (edi ?s5)) ?e"
  have tr: "\<not> tr_active (trn ?e)" using off q5 by simp
  have f: "calm ?e ?f \<and> h_stdin ?f = h_stdin ?e"
    unfolding editor_show_frame_def using tr by (intro calm_say_all) simp_all
  have g: "calm ?f (editor_show_command_bar ?f) \<and> h_stdin (editor_show_command_bar ?f) = h_stdin ?f"
    using calm_flags [of ?e ?f] f
    by (auto simp: editor_show_command_bar_def calm_say say_calm)
  have b: "editor_begin p mode s = editor_show_command_bar ?f"
    unfolding begin_eq using calm_flags [of ?e ?f] f by (simp add: session_transcript_log_editor_event_def)
  show "calm (console_pager_end s) (editor_begin p mode s)"
    unfolding b using calm_pager_end [of s ?s5] q5 f g calm_trans by blast
  show "h_stdin (editor_begin p mode s) = h_stdin s"
    unfolding b using g f q5 by simp
qed

text \<open>A save on a host that takes every byte and keeps it.\<close>

lemma save_stores:
  assumes "calm s0 s" "\<not> co_pager_enabled (con s)" "storage_is_ready s" "editor_path_allowed p" "\<not> names_dir (hosted_host_path 256 p)"
    and "fs_lookup s (host_target p) = Some (FFile old)" "parent_is_dir s (host_target p)"
    and "h_accepted s = (\<lambda>_. None)" "h_survived s = (\<lambda>_. None)" "\<not> h_read_only s (host_target p)" "\<not> h_unreadable s (host_target p)"
    and "ed_text (edi s) \<noteq> []" "length (ed_text (edi s)) < 1536" "NUL \<notin> set (ed_text (edi s))" "\<not> unconfirmed (edi s)"
  shows "\<exists>s'. editor_save_to_path p False s = (True, s') \<and> stored_text s' p = Some (ed_text (edi s)) \<and>
    h_stdin s' = h_stdin s \<and> \<not> tr_active (trn s') \<and> edi s' = (edi s)\<lparr>ed_dirty := False\<rparr>"
proof -
  let ?t = "ed_text (edi s)"
  have pa: "path_allowed (Some p)" using assms(4) by (rule editor_path_storage)
  let ?m = "hosted_ensure_parent_dirs (hosted_host_path 256 p) s"
  have there: "fs_lookup ?m (host_target p) = Some (FFile old)" using assms(6) by (rule ensure_parent_dirs_keeps)
  have par: "parent_is_dir ?m (host_target p)"
    using assms(7) unfolding parent_is_dir_def by (rule ensure_parent_dirs_keeps)
  let ?w = "storage_write_text (Some p) (Some ?t) s"
  have w: "fst ?w" "stored_text (snd ?w) p = Some ?t" "st_initialized (sto (snd ?w))"
    using cooperative_write [OF assms(3) pa assms(5,12) _ par assms(10) _ _ assms(11)] there assms(8,9) by simp_all
  have cs: "c_string (take 2047 ?t) = ?t"
    using assms(13,14) by (auto simp: c_string_def takeWhile_eq_all_conv)
  have r: "storage_read_text (Some p) VITA_STORAGE_READ_MAX (snd ?w) = ((True, ?t), storage_set_error ''ok'' (snd ?w))"
    using storage_read_text_eq [of "snd ?w" VITA_STORAGE_READ_MAX p] w pa by (simp add: VITA_STORAGE_READ_MAX_def cs)
  let ?u = "storage_set_error ''ok'' (snd ?w)"
  have w_eq: "?w = (True, snd ?w)" using w(1) by (simp add: prod_eq_iff)
  have save: "editor_save_to_path p False s =
      (True, upd_edi (\<lambda>e. e\<lparr>ed_dirty := False\<rparr>) (say_all [''editor: saved / guardado'', p] ?u))"
    using assms(4,15) r w(1) by (simp add: editor_save_to_path_def Let_def case_prod_beta text_exact_match_def unconfirmed_def)
  have off: "\<not> co_pager_enabled (con ?u)" "\<not> tr_active (trn ?u)"
    using assms(1,2) calm_flags [of s0 s] by simp_all
  have say: "calm ?u (say_all [''editor: saved / guardado'', p] ?u)" "h_stdin (say_all [''editor: saved / guardado'', p] ?u) = h_stdin s"
    using calm_say_all [OF off, of "[''editor: saved / guardado'', p]"] by simp_all
  have "stored_text (say_all [''editor: saved / guardado'', p] ?u) p = Some ?t"
    using w(2) stored_text_obs [OF fq.obs_say_all [OF off(2), of "[''editor: saved / guardado'', p]"]] by simp
  then have "stored_text (upd_edi (\<lambda>e. e\<lparr>ed_dirty := False\<rparr>) (say_all [''editor: saved / guardado'', p] ?u)) p = Some ?t"
    by (subst stored_text_obs [of _ "say_all [''editor: saved / guardado'', p] ?u"]) simp_all
  then show ?thesis using save say calm_flags [OF say(1)] by simp
qed

lemma opened_text_props:
  "length (opened_text mode old) < 1536" "NUL \<notin> set old \<Longrightarrow> NUL \<notin> set (opened_text mode old)"
  by (auto simp: opened_text_def Let_def dest: in_set_takeD)

lemma typed_no_NUL: "list_all plain_line lines \<Longrightarrow> NUL \<notin> set (typed lines)"
  by (induction lines) (auto simp: plain_line_def list_all_iff)

lemma editor_loop_wq:
  assumes "co_reader (con s)" "h_stdin s = ''.wq'' @ LF # r" "editor_save_to_path (ed_path (edi s)) False (after_read r s) = (True, s2)"
    "\<not> tr_active (trn s)" "\<not> tr_active (trn s2)"
  shows "editor_loop s = (EDITOR_SAVE, s2)"
proof -
  have "editor_line ''.wq'' (after_read r s) = (Some EDITOR_SAVE, s2)"
    using assms(3-5) calm_flags [OF after_read_sel(4) [OF assms(4), of r]]
    by (simp add: editor_line_def Let_def session_transcript_log_editor_event_def)
  then show ?thesis
    using editor_loop_read [OF assms(1,2)] by (simp add: is_space_char_def)
qed

lemma session_saves:
  fixes s :: "'a edit_sys_scheme"
  assumes "storage_is_ready s" "\<not> tr_active (trn s)" "co_reader (con s)" "\<not> co_pager_enabled (con s)"
    and "editor_path_allowed p" "length p < 192" "\<not> names_dir (hosted_host_path 256 p)"
    and "fs_lookup s (host_target p) = Some (FFile old)" "parent_is_dir s (host_target p)" "NUL \<notin> set old"
    and "h_accepted s = (\<lambda>_. None)" "h_survived s = (\<lambda>_. None)" "\<not> h_read_only s (host_target p)" "\<not> h_unreadable s (host_target p)"
    and "list_all plain_line lines" "h_stdin s = typed lines @ ''.wq'' @ LF # rest"
    and "lines \<noteq> [] \<longrightarrow> length (opened_text mode old) + length (typed lines) < 1535" "opened_text mode old @ typed lines \<noteq> []"
  shows "\<exists>s'. editor_run p mode s = (EDITOR_SAVE, s') \<and> stored_text s' p = Some (opened_text mode old @ typed lines) \<and> h_stdin s' = rest"
proof -
  have pa: "path_allowed (Some p)" using assms(5) by (rule editor_path_storage)
  have root: "host_target p \<noteq> []" using host_path_comps [OF pa] by auto
  have st: "stored_text s p = Some old"
    using pa assms(7,8,14) by (simp add: stored_text_def fopen_rb_def Let_def)
  have ini: "st_initialized (sto s)" using assms(1) by (simp add: storage_is_ready_def)
  let ?b = "editor_begin p mode s"
  note b = editor_begin_opened [OF ini assms(5,6) st assms(10,4,2), of mode]
  have bc: "con ?b = con (console_pager_end s)" "\<not> tr_active (trn ?b)" using calm_flags [OF b(2)] by simp_all
  have "\<exists>t d. editor_loop ?b = editor_loop t \<and> calm ?b t \<and> h_stdin t = ''.wq'' @ LF # rest \<and>
      edi t = (edi ?b)\<lparr>ed_text := ed_text (edi ?b) @ typed lines, ed_dirty := d\<rparr>"
    using assms(3,16,17) bc b(1,3) by (intro editor_loop_types assms(15)) simp_all
  then obtain t d where t: "editor_loop ?b = editor_loop t" "calm ?b t" "h_stdin t = ''.wq'' @ LF # rest"
      "edi t = zero_editor\<lparr>ed_text := opened_text mode old @ typed lines, ed_path := p, ed_loaded_existing := True,
         ed_mode := mode, ed_dirty := d\<rparr>"
    using b(1) by (auto simp: zero_editor_def)
  let ?u = "after_read rest t"
  have tc: "con t = con (console_pager_end s)" "\<not> tr_active (trn t)" using calm_flags [OF t(2)] bc by simp_all
  have u: "calm (console_pager_end s) ?u"
    using calm_trans [OF calm_trans [OF b(2) t(2)] after_read_sel(4) [OF tc(2)]] .
  have same: "h_fs ?u = h_fs s" "host_oracles ?u = host_oracles s"
    "st_initialized (sto ?u)" "st_writable (sto ?u)"
    using u assms(1) by (simp_all add: calm_def storage_is_ready_def)
  have oracles: "h_accepted ?u = h_accepted s" "h_survived ?u = h_survived s" "h_read_only ?u = h_read_only s"
    "h_unreadable ?u = h_unreadable s" using same(2) by (simp_all add: host_oracles_def)
  have lookup: "fs_lookup ?u k = fs_lookup s k" for k using same(1) by (simp add: fs_lookup_def)
  have len: "length (opened_text mode old @ typed lines) < 1536"
    using assms(17) opened_text_props(1) [of mode old] by (cases "lines = []") auto
  have "\<exists>s'. editor_save_to_path p False ?u = (True, s') \<and> stored_text s' p = Some (ed_text (edi ?u)) \<and>
      h_stdin s' = h_stdin ?u \<and> \<not> tr_active (trn s') \<and> edi s' = (edi ?u)\<lparr>ed_dirty := False\<rparr>"
  proof (rule save_stores [OF u])
    show "\<not> co_pager_enabled (con ?u)" by (simp add: tc)
    show "fs_lookup ?u (host_target p) = Some (FFile old)" "parent_is_dir ?u (host_target p)"
      using assms(8,9) by (simp_all add: lookup parent_is_dir_def)
    show "NUL \<notin> set (ed_text (edi ?u))"
      using opened_text_props(2) [OF assms(10), of mode] typed_no_NUL [OF assms(15)] by (simp add: t(4))
  qed (use assms len same oracles in \<open>simp_all add: storage_is_ready_def t(4) unconfirmed_def zero_editor_def\<close>)
  then obtain s' where s': "editor_save_to_path p False ?u = (True, s')" "stored_text s' p = Some (opened_text mode old @ typed lines)"
      "h_stdin s' = rest" "\<not> tr_active (trn s')"
    by (auto simp: t(4))
  have "editor_loop t = (EDITOR_SAVE, s')"
    using assms(3) t(3,4) tc s' by (intro editor_loop_wq) (simp_all add: zero_editor_def)
  then show ?thesis using s' t(1) assms(1,5) by (simp add: editor_run_def)
qed

text \<open>
  C16. What is typed is what is stored, within the editor's limits. The host takes and keeps every byte and can
  read and write the file; storage is ready, no transcript is active and the pager is off; the path has fewer than
  192 characters and the note exists. Then opening the note, typing lines and entering \<open>.wq\<close> ends the editor
  with success and leaves in the file exactly the opened text followed by the lines with their line ends, and the
  input after \<open>.wq\<close> is left for the console. The lines have fewer than 127 characters, do not begin with a
  dot, are not \<open>exit\<close>, and end in no blank, since the editor trims blanks there; the opened text is the
  first 1535 characters of the note, with a line end added when it is opened for appending and lacks one; and the
  whole has at least one and fewer than 1535 characters, since the editor cuts what is longer
  (\<open>saving_cuts_a_long_note\<close>).
\<close>

theorem editing_session_stores_what_was_typed:
  fixes s :: "'a edit_sys_scheme" and p old rest :: string and lines :: "string list"
  assumes "storage_is_ready s" "\<not> tr_active (trn s)" "co_reader (con s)" "\<not> co_pager_enabled (con s)"
    and "editor_path_allowed p" "length p < 192" "\<not> names_dir (hosted_host_path 256 p)"
    and "fs_lookup s (host_target p) = Some (FFile old)" "parent_is_dir s (host_target p)" "NUL \<notin> set old"
    and "h_accepted s = (\<lambda>_. None)" "h_survived s = (\<lambda>_. None)" "\<not> h_read_only s (host_target p)" "\<not> h_unreadable s (host_target p)"
    and "list_all plain_line lines" "h_stdin s = typed lines @ ''.wq'' @ LF # rest"
    and "length (opened_text mode old) + length (typed lines) < 1535" "opened_text mode old @ typed lines \<noteq> []"
  shows "\<exists>s'. editor_run p mode s = (EDITOR_SAVE, s') \<and> stored_text s' p = Some (opened_text mode old @ typed lines) \<and> h_stdin s' = rest"
  using session_saves [OF assms(1-16)] assms(17,18) by blast

lemma editing_session_stores_what_was_typed_witness:
  "\<exists>s'. editor_run demo_note EDITOR_OPEN_APPEND (demo_edit ''old'' (''new'' @ LF # ''.wq'' @ [LF])) = (EDITOR_SAVE, s') \<and>
     stored_text s' demo_note = Some (''old'' @ LF # ''new'' @ [LF])"
proof -
  have pl: "list_all plain_line [''new'']" by (simp add: plain_line_def is_space_char_def)
  have o: "opened_text EDITOR_OPEN_APPEND ''old'' = ''old'' @ [LF]" by (simp add: opened_text_def)
  let ?s = "demo_edit ''old'' (''new'' @ LF # ''.wq'' @ [LF])"
  have "\<exists>s'. editor_run demo_note EDITOR_OPEN_APPEND ?s = (EDITOR_SAVE, s') \<and>
      stored_text s' demo_note = Some (opened_text EDITOR_OPEN_APPEND ''old'' @ typed [''new'']) \<and> h_stdin s' = []"
    by (rule editing_session_stores_what_was_typed [OF demo_edit_sel(1-4) demo_note_path(1-3) demo_note_file _
        demo_edit_sel(5-8) pl]) (simp_all add: demo_edit_sel o)
  then show ?thesis by (auto simp: o)
qed

text \<open>
  A long note is cut by saving it. A note of more than 1535 characters is opened without a warning
  that it does not fit; saving it at once, with no edit and no confirmation, leaves its first 1535
  characters in the file.
\<close>

theorem saving_cuts_a_long_note:
  fixes s :: "'a edit_sys_scheme" and p old rest :: string
  assumes "storage_is_ready s" "\<not> tr_active (trn s)" "co_reader (con s)" "\<not> co_pager_enabled (con s)"
    and "editor_path_allowed p" "length p < 192" "\<not> names_dir (hosted_host_path 256 p)"
    and "fs_lookup s (host_target p) = Some (FFile old)" "parent_is_dir s (host_target p)" "NUL \<notin> set old"
    and "h_accepted s = (\<lambda>_. None)" "h_survived s = (\<lambda>_. None)" "\<not> h_read_only s (host_target p)" "\<not> h_unreadable s (host_target p)"
    and "h_stdin s = ''.wq'' @ LF # rest" "1535 < length old"
  shows "\<exists>s'. editor_run p EDITOR_OPEN_EDIT s = (EDITOR_SAVE, s') \<and> stored_text s' p = Some (take 1535 old)"
proof -
  have o: "opened_text EDITOR_OPEN_EDIT old = take 1535 old" by (simp add: opened_text_def)
  have "take 1535 old \<noteq> []" using assms(16) by auto
  then show ?thesis
    using session_saves [OF assms(1-14), of "[]" rest EDITOR_OPEN_EDIT] assms(15) by (auto simp: o)
qed
lemma saving_cuts_a_long_note_witness:
  "\<exists>s'. editor_run demo_note EDITOR_OPEN_EDIT (demo_edit (replicate 2000 (CHR ''x'')) (''.wq'' @ [LF])) = (EDITOR_SAVE, s') \<and>
     stored_text s' demo_note = Some (replicate 1535 (CHR ''x''))"
proof -
  let ?s = "demo_edit (replicate 2000 (CHR ''x'')) (''.wq'' @ [LF])"
  have "\<exists>s'. editor_run demo_note EDITOR_OPEN_EDIT ?s = (EDITOR_SAVE, s') \<and>
      stored_text s' demo_note = Some (take 1535 (replicate 2000 (CHR ''x'')))"
    by (rule saving_cuts_a_long_note [OF demo_edit_sel(1-4) demo_note_path(1-3) demo_note_file _ demo_edit_sel(5-8), where rest = "[]"])
      (simp_all add: demo_edit_sel)
  then show ?thesis by simp
qed

lemma path_chars_take: "path_chars_allowed p \<Longrightarrow> path_chars_allowed (take n p)"
  using sublist_order.order_trans [of "''..''" "take n p" p]
  by (auto simp: path_chars_allowed_iff dest: in_set_takeD)

lemma editor_path_take: "editor_path_allowed p \<Longrightarrow> editor_path_allowed (take 191 p)"
  by (auto simp: editor_path_allowed_def starts_with_Some path_chars_take prefix_def split: if_splits)

text \<open>
  Note names stay in the tree. A path built for a note is one storage accepts, fits the path array,
  and lies below \<open>/vita/notes/\<close> unless the operator gave an absolute path; then it is that path, cut to
  the array.
\<close>

theorem note_path_confined:
  assumes "build_note_path name 192 = Some p"
  shows "path_allowed (Some p) \<and> length p < 192 \<and>
    (if name \<noteq> [] \<and> hd name = CHR ''/'' then p = take 191 name else prefix ''/vita/notes/'' p)"
proof -
  consider "name = []" | "name \<noteq> []" "hd name = CHR ''/''" | "name \<noteq> []" "hd name \<noteq> CHR ''/''" by blast
  then show ?thesis
  proof cases
    case 1
    then have "p = ''/vita/notes/note.txt''" using assms by (simp add: build_note_path_def str_copy_fits)
    moreover have "path_allowed (Some ''/vita/notes/note.txt'')" by code_simp
    ultimately show ?thesis using 1 by simp
  next
    case 2
    then have "editor_path_allowed name" "p = take 191 name"
      using assms by (auto simp: build_note_path_def str_copy_take Let_def split: if_splits)
    then show ?thesis using 2 editor_path_take editor_path_storage by auto
  next
    case 3
    let ?d = "copy_text 192 ''/vita/notes/''"
    obtain i dot where sc: "scan_note_name 0 False name = Some (i, dot)" "i \<noteq> 0"
      and p: "p = (if \<not> dot then str_append 192 (str_append 192 ?d (Some (take (min i 63) name))) (Some ''.txt'')
                 else str_append 192 ?d (Some (take (min i 63) name)))" "editor_path_allowed p"
      using assms 3 by (auto simp: build_note_path_def Let_def split: if_splits option.splits)
    have d: "?d = ''/vita/notes/''" by (simp add: str_copy_fits)
    have o: "prefix ''/vita/notes/'' (str_append 192 ?d (Some w)) \<and> length (str_append 192 ?d (Some w)) < 192" for w
      unfolding d using sa.app_prefix [of "''/vita/notes/''" 192 w] sa.app_length [of "''/vita/notes/''" 192 w] by simp
    let ?w = "str_append 192 ?d (Some (take (min i 63) name))"
    note w = o [of "take (min i 63) name"]
    have x: "prefix ?w (str_append 192 ?w (Some ''.txt''))" "length (str_append 192 ?w (Some ''.txt'')) < 192"
      using w sa.app_prefix [of ?w 192 "''.txt''"] sa.app_length [of ?w 192 "''.txt''"] by simp_all
    have "prefix ''/vita/notes/'' p \<and> length p < 192"
    proof (cases dot)
      case True
      then show ?thesis using w p(1) by simp
    next
      case False
      then show ?thesis using w x prefix_order.order_trans [OF conjunct1 [OF w] x(1)] p(1) by simp
    qed
    then show ?thesis using 3 editor_path_storage [OF p(2)] by simp
  qed
qed

lemma note_path_confined_witness: "prefix ''/vita/notes/'' ''/vita/notes/field.txt''"
proof -
  have "build_note_path ''field'' 192 = Some ''/vita/notes/field.txt''" by code_simp
  from note_path_confined [OF this] show ?thesis by simp
qed

end
