(* ===== verification/Ai_Gateway.thy ===== *)
theory Ai_Gateway
  imports Editor
begin

text \<open>
  The remote assistant commands (kernel/ai\_gateway.c) and the start event of kernel/ai\_core.c: an
  endpoint kept in memory, status screens and the local answer. The statics are the field \<open>aig\<close>.
\<close>

record ai_state =
  ai_host :: string
  ai_port :: u32
  ai_endpoint_configured :: bool

record ai_sys = edit_sys + aig :: ai_state

definition zero_ai :: ai_state where
  "zero_ai = \<lparr>ai_host = [], ai_port = 0, ai_endpoint_configured = False\<rparr>"

definition AI_GATEWAY_HOST_MAX :: nat where "AI_GATEWAY_HOST_MAX = 64"

definition upd_aig :: "(ai_state \<Rightarrow> ai_state) \<Rightarrow> 'a ai_sys_scheme \<Rightarrow> 'a ai_sys_scheme" where
  "upd_aig f s = s\<lparr>aig := f (aig s)\<rparr>"

definition ai_core_init :: "'a ai_sys_scheme \<Rightarrow> 'a ai_sys_scheme" where
  "ai_core_init = audit_emit ''AI_CORE_ONLINE'' ''AI decision core initialized''"

text \<open>The digits up to the next space: the value and their number.\<close>

fun uint_port_loop :: "nat \<Rightarrow> nat \<Rightarrow> string \<Rightarrow> (nat \<times> nat) option" where
  "uint_port_loop value digits [] = Some (value, digits)"
| "uint_port_loop value digits (c # cs) =
     (if is_space_char c then Some (value, digits)
      else if uchar c < 48 \<or> uchar c > 57 then None
      else let v = value * 10 + (uchar c - 48)
           in if v > 65535 then None else uint_port_loop v (digits + 1) cs)"

definition parse_uint_port :: "string \<Rightarrow> u32 option" where
  "parse_uint_port s =
     (case uint_port_loop 0 0 (skip_spaces (Some s)) of
        None \<Rightarrow> None
      | Some (value, digits) \<Rightarrow> if digits = 0 \<or> value = 0 then None else Some (of_nat value))"

definition parse_host_port :: "string \<Rightarrow> (string \<times> u32) option" where
  "parse_host_port args =
     (let p = skip_spaces (Some args) in
      if p = [] then None
      else
        let host = take (AI_GATEWAY_HOST_MAX - 1) (takeWhile (\<lambda>c. \<not> is_space_char c) p);
            q = drop (length host) p
        in if host = [] \<or> (q \<noteq> [] \<and> \<not> is_space_char (hd q)) then None
           else map_option (\<lambda>port. (host, port)) (parse_uint_port (skip_spaces (Some q))))"

definition write_endpoint_line :: "'a ai_sys_scheme \<Rightarrow> 'a ai_sys_scheme" where
  "write_endpoint_line s =
     (if \<not> ai_endpoint_configured (aig s) then say ''Endpoint: not configured / no configurado'' s
      else say (fold (\<lambda>t b. str_append 128 b (Some t)) [ai_host (aig s), '':'', u32_to_dec (ai_port (aig s))]
                 (copy_text 128 ''Endpoint: '')) s)"

definition ai_gateway_show_help :: "'a ai_sys_scheme \<Rightarrow> 'a ai_sys_scheme" where
  "ai_gateway_show_help =
     say_all [''AI gateway / Puerta de IA remota:'',
       ''ai status                 -> show remote assistant readiness'',
       ''ai connect <host> <port>  -> store target endpoint in memory'',
       ''ai disconnect             -> clear target endpoint'',
       ''ai ask <text>             -> local structured fallback until network transport exists'',
       ''Scope: status/stub only; no DHCP/TCP/DNS/TLS or Wi-Fi auth yet.'']"

definition ai_gateway_show_status :: "'a ai_sys_scheme \<Rightarrow> 'a ai_sys_scheme" where
  "ai_gateway_show_status s =
     say_all [''Transport: not connected / no conectado'', ''Network backend: pending patch / backend de red pendiente'',
       ''Security: TLS not implemented yet / TLS no implementado todavia'', ''Mode: local audited stub / modo: stub local auditable'']
       (write_endpoint_line (say ''Remote AI gateway / Puerta de IA remota:'' s))"

definition ai_gateway_connect :: "string \<Rightarrow> 'a ai_sys_scheme \<Rightarrow> 'a ai_sys_scheme" where
  "ai_gateway_connect args s =
     (case parse_host_port args of
        None \<Rightarrow> say_all [''Usage / Uso: ai connect <host> <port>'', ''Example / Ejemplo: ai connect 192.168.1.10 8080''] s
      | Some (host, port) \<Rightarrow>
          let s1 = upd_aig (\<lambda>_. \<lparr>ai_host = copy_text AI_GATEWAY_HOST_MAX host, ai_port = port, ai_endpoint_configured = True\<rparr>) s
          in write_endpoint_line
               (say_all [''AI endpoint stored in memory / Endpoint IA guardado en memoria'',
                  ''No network connection was attempted in this patch.'']
                 (audit_emit ''AI_GATEWAY_ENDPOINT_SET'' (ai_host (aig s1)) s1)))"

definition ai_gateway_disconnect :: "'a ai_sys_scheme \<Rightarrow> 'a ai_sys_scheme" where
  "ai_gateway_disconnect s =
     say ''AI endpoint cleared / Endpoint IA limpiado''
       (audit_emit ''AI_GATEWAY_ENDPOINT_CLEARED'' ''ai disconnect'' (upd_aig (\<lambda>_. zero_ai) s))"

definition ai_gateway_ask :: "string \<Rightarrow> 'a ai_sys_scheme \<Rightarrow> 'a ai_sys_scheme" where
  "ai_gateway_ask text s =
     (let prompt = skip_spaces (Some text) in
      if prompt = [] then say ''Usage / Uso: ai ask <text>'' s
      else
        let s1 = say ''Remote assistant request / Solicitud a IA remota:'' (audit_emit ''AI_GATEWAY_ASK_STUB'' prompt s);
            s2 = (if ai_endpoint_configured (aig s1) then write_endpoint_line s1
                  else say_all [''Endpoint: not configured; using local fallback.'',
                         ''Endpoint no configurado; usando respuesta local.''] s1)
        in say_all [''Transport result / Resultado de transporte:'',
             ''Not sent yet. Network transport is planned for the next patches.'',
             ''Aun no se envia. El transporte de red queda para los siguientes parches.'', '''',
             ''Local structured fallback / Respuesta local estructurada:'',
             ''1. Resumen entendido / Understood summary:'', prompt,
             ''2. Riesgos inmediatos / Immediate risks:'',
             ''Do not treat remote AI as available until network and audit are ready.'',
             ''No trates la IA remota como disponible hasta tener red y auditoria listas.'',
             ''3. Preguntas criticas / Critical questions:'',
             ''Is Ethernet present? Is audit persistent? Is the remote endpoint trusted?'',
             ''Hay Ethernet? La auditoria es persistente? El endpoint remoto es confiable?'',
             ''4. Acciones inmediatas sugeridas / Suggested immediate actions:'',
             ''Use '' @ [SQ] @ ''net status'' @ [SQ] @ '', configure endpoint with '' @ [SQ] @ ''ai connect'' @ [SQ] @
               '', then retry when network transport exists.'',
             ''Usa '' @ [SQ] @ ''net status'' @ [SQ] @ '', configura endpoint con '' @ [SQ] @ ''ai connect'' @ [SQ] @
               '' y reintenta cuando exista transporte de red.'',
             ''5. Recursos del sistema disponibles / Available system resources:'',
             ''Local console, proposal engine, hardware snapshot, audit state reporting.'',
             ''6. Propuesta del sistema / System proposal:'',
             ''Keep this as an auditable stub until Ethernet/DHCP and secure transport are implemented.'',
             ''7. Estado de auditoria / Audit state:'',
             ''AI gateway command emitted an audit event when the backend is available.''] s2)"

definition ai_gateway_handle_command :: "cstr \<Rightarrow> 'a ai_sys_scheme \<Rightarrow> bool \<times> 'a ai_sys_scheme" where
  "ai_gateway_handle_command line s =
     (case line of None \<Rightarrow> (False, s)
      | Some l \<Rightarrow>
          let cmd = skip_spaces (Some l) in
          if eqs cmd ''ai'' \<or> eqs cmd ''ai status'' then
            (True, ai_gateway_show_status (audit_emit ''COMMAND_AI_STATUS'' ''ai status'' s))
          else if eqs cmd ''ai help'' then (True, ai_gateway_show_help (audit_emit ''COMMAND_AI_HELP'' ''ai help'' s))
          else if pre cmd ''ai connect '' then (True, ai_gateway_connect (drop 11 cmd) s)
          else if eqs cmd ''ai disconnect'' then (True, ai_gateway_disconnect s)
          else if pre cmd ''ai ask '' then (True, ai_gateway_ask (drop 7 cmd) s)
          else (False, s))"

end
