(* ===== verification/Vitair.thy ===== *)
theory Vitair
  imports Vita_Prelude
begin

text \<open>
  The VitaIR-Tri vocabulary (kernel/vitair.c, include/vita/vitair.h) and the claims that
  kernel/vitair_audit.c derives from the audit runtime status of include/vita/console.h. A C enum
  can hold any int, and the printers have a default branch for that, so each enum has a
  constructor for the values outside its enumerators.
\<close>

datatype vita_tri = TRI_NO | TRI_UNKNOWN | TRI_YES | TRI_OTHER int

datatype vita_ir_severity =
  SEVERITY_INFO | SEVERITY_WARN | SEVERITY_ERROR | SEVERITY_CRITICAL | SEVERITY_OTHER int

datatype vita_status = STATUS_UNKNOWN | STATUS_OK | STATUS_WARN | STATUS_FAIL | STATUS_UNAVAILABLE

record vita_ir_claim =
  ic_ir_version :: string
  ic_claim :: string
  ic_state :: vita_tri
  ic_severity :: vita_ir_severity
  ic_actor :: string
  ic_target :: string
  ic_meaning :: string
  ic_effect :: string

record vita_audit_runtime_status =
  rt_storage_status :: vita_status
  rt_journal_txt_status :: vita_status
  rt_journal_jsonl_status :: vita_status
  rt_transcript_txt_status :: vita_status
  rt_transcript_jsonl_status :: vita_status
  rt_sqlite_status :: vita_status
  rt_persistent_storage_writable :: bool
  rt_restricted_mode :: bool

definition vita_tri_is_valid :: "vita_tri \<Rightarrow> bool" where
  "vita_tri_is_valid state = (state = TRI_NO \<or> state = TRI_UNKNOWN \<or> state = TRI_YES)"

definition vita_ir_severity_is_valid :: "vita_ir_severity \<Rightarrow> bool" where
  "vita_ir_severity_is_valid severity =
     (severity = SEVERITY_INFO \<or> severity = SEVERITY_WARN \<or>
      severity = SEVERITY_ERROR \<or> severity = SEVERITY_CRITICAL)"

fun vita_tri_to_symbol :: "vita_tri \<Rightarrow> string" where
  "vita_tri_to_symbol TRI_YES = ''+1''"
| "vita_tri_to_symbol TRI_UNKNOWN = ''0''"
| "vita_tri_to_symbol TRI_NO = ''-1''"
| "vita_tri_to_symbol _ = ''0''"

fun vita_tri_to_json_number :: "vita_tri \<Rightarrow> string" where
  "vita_tri_to_json_number TRI_YES = ''1''"
| "vita_tri_to_json_number TRI_UNKNOWN = ''0''"
| "vita_tri_to_json_number TRI_NO = ''-1''"
| "vita_tri_to_json_number _ = ''0''"

fun vita_tri_to_word :: "vita_tri \<Rightarrow> string" where
  "vita_tri_to_word TRI_YES = ''yes''"
| "vita_tri_to_word TRI_UNKNOWN = ''unknown''"
| "vita_tri_to_word TRI_NO = ''no''"
| "vita_tri_to_word _ = ''unknown''"

fun vita_ir_severity_to_string :: "vita_ir_severity \<Rightarrow> string" where
  "vita_ir_severity_to_string SEVERITY_INFO = ''info''"
| "vita_ir_severity_to_string SEVERITY_WARN = ''warn''"
| "vita_ir_severity_to_string SEVERITY_ERROR = ''error''"
| "vita_ir_severity_to_string SEVERITY_CRITICAL = ''critical''"
| "vita_ir_severity_to_string _ = ''unknown''"

section \<open>Claims of the audit runtime\<close>

definition VITA_IR_VERSION :: string where "VITA_IR_VERSION = ''vitair-tri/0.1''"

definition VITA_IR_AUDIT_CLAIM_MAX :: nat where "VITA_IR_AUDIT_CLAIM_MAX = 8"

fun map_status_to_claim :: "vita_status \<Rightarrow> vita_tri \<times> vita_ir_severity" where
  "map_status_to_claim STATUS_OK = (TRI_YES, SEVERITY_INFO)"
| "map_status_to_claim STATUS_FAIL = (TRI_NO, SEVERITY_ERROR)"
| "map_status_to_claim STATUS_UNAVAILABLE = (TRI_NO, SEVERITY_WARN)"
| "map_status_to_claim _ = (TRI_UNKNOWN, SEVERITY_WARN)"

text \<open>The array filled so far is the list; a full array refuses the entry.\<close>

definition append_claim ::
  "nat \<Rightarrow> string \<Rightarrow> vita_tri \<times> vita_ir_severity \<Rightarrow> string \<Rightarrow> string \<Rightarrow> string \<Rightarrow> string
    \<Rightarrow> vita_ir_claim list \<Rightarrow> vita_ir_claim list" where
  "append_claim max_claims claim ss actor target meaning effect out_claims =
     (if length out_claims \<ge> max_claims then out_claims
      else out_claims @
        [\<lparr>ic_ir_version = VITA_IR_VERSION, ic_claim = claim, ic_state = fst ss, ic_severity = snd ss,
          ic_actor = actor, ic_target = target, ic_meaning = meaning, ic_effect = effect\<rparr>])"

text \<open>
  \<open>runtime\<close> may be NULL. The output array is the result; the source also tests its pointer, which
  every caller passes.
\<close>

definition vita_ir_claims_from_audit_runtime ::
  "vita_audit_runtime_status option \<Rightarrow> nat \<Rightarrow> vita_ir_claim list" where
  "vita_ir_claims_from_audit_runtime runtime max_claims =
     (case runtime of None \<Rightarrow> []
      | Some r \<Rightarrow>
        if max_claims = 0 then []
        else
          let w = rt_persistent_storage_writable r;
              rs = rt_restricted_mode r;
              c1 = append_claim max_claims ''storage.persistent.writable''
                (if w then TRI_YES else TRI_NO, if w then SEVERITY_INFO else SEVERITY_WARN)
                ''storage'' ''/vita''
                (if w then ''Persistent storage writable'' else ''Persistent storage not writable'')
                (if w then ''audit persistence path enabled'' else ''runtime remains restricted'') [];
              c2 = append_claim max_claims ''audit.journal_txt.available''
                (map_status_to_claim (rt_journal_txt_status r))
                ''audit.journal'' ''/vita/audit/session-journal.txt''
                ''TXT session journal runtime status'' ''text audit journaling capability'' c1;
              c3 = append_claim max_claims ''audit.journal_jsonl.available''
                (map_status_to_claim (rt_journal_jsonl_status r))
                ''audit.journal'' ''/vita/audit/session-journal.jsonl''
                ''JSONL session journal runtime status'' ''JSONL audit stream capability'' c2;
              c4 = append_claim max_claims ''audit.transcript_txt.available''
                (map_status_to_claim (rt_transcript_txt_status r))
                ''audit.transcript'' ''/vita/audit/transcript.txt''
                ''TXT transcript runtime status'' ''text transcript export capability'' c3;
              c5 = append_claim max_claims ''audit.transcript_jsonl.available''
                (map_status_to_claim (rt_transcript_jsonl_status r))
                ''audit.transcript'' ''/vita/audit/transcript.jsonl''
                ''JSONL transcript runtime status'' ''JSONL transcript export capability'' c4;
              c6 = append_claim max_claims ''audit.sqlite.available''
                (map_status_to_claim (rt_sqlite_status r))
                ''audit.sqlite'' ''/vita/audit/audit.db''
                ''SQLite audit runtime status'' ''structured audit backend availability'' c5;
              c7 = append_claim max_claims ''operational.restricted''
                (if rs then TRI_YES else TRI_NO, SEVERITY_INFO)
                ''runtime.mode'' ''operational''
                (if rs then ''Restricted operational mode enabled'' else ''Restricted operational mode disabled'')
                (if rs then ''limited feature set active'' else ''full feature path permitted'') c6
          in append_claim max_claims ''operational.full''
                (if rs then TRI_NO else TRI_YES, if rs then SEVERITY_WARN else SEVERITY_INFO)
                ''runtime.mode'' ''operational''
                (if rs then ''Full operational mode unavailable'' else ''Full operational mode enabled'')
                (if rs then ''remain in restricted diagnostics'' else ''full audited operation'') c7)"

lemma append_claim_take:
  "length xs < N \<Longrightarrow> append_claim n c ss a t m e (take n xs) = take n (append_claim N c ss a t m e xs)"
  by (auto simp: append_claim_def min_def)

lemma append_claim_Nil_take:
  "0 < N \<Longrightarrow> append_claim n c ss a t m e [] = take n (append_claim N c ss a t m e [])"
  by (auto simp: append_claim_def)

lemma length_append_claim_room:
  "length xs < N \<Longrightarrow> length (append_claim N c ss a t m e xs) = Suc (length xs)"
  by (simp add: append_claim_def)

text \<open>A smaller output array receives a prefix of the full claim list.\<close>

lemma claims_take:
  "vita_ir_claims_from_audit_runtime (Some r) n = take n (vita_ir_claims_from_audit_runtime (Some r) 8)"
proof (cases "n = 0")
  case True
  then show ?thesis by (simp add: vita_ir_claims_from_audit_runtime_def)
next
  case False
  note base = append_claim_Nil_take [of 8 n, simplified]
  note step = append_claim_take [of _ 8 n]
  from False show ?thesis
    by (simp add: vita_ir_claims_from_audit_runtime_def Let_def base step length_append_claim_room
        del: take_all take_all_iff split del: if_split)
qed

lemma status_claim_consistent:
  "map_status_to_claim st = (t, v) \<Longrightarrow>
     vita_tri_is_valid t \<and> vita_ir_severity_is_valid v \<and> (t = TRI_YES \<longleftrightarrow> v = SEVERITY_INFO)"
  by (cases st) (auto simp: vita_tri_is_valid_def vita_ir_severity_is_valid_def)

lemma claim_status_valid:
  "vita_tri_is_valid (fst (map_status_to_claim st))" "vita_ir_severity_is_valid (snd (map_status_to_claim st))"
  by (cases st; simp add: vita_tri_is_valid_def vita_ir_severity_is_valid_def)+

section \<open>Properties\<close>

text \<open>
  Claims of the audit runtime. Whatever the runtime reports, the call fills the array up to the
  smaller of its capacity and eight claims, a smaller array gets a prefix of the same claims, every
  claim carries the version and valid codes, and the two claims on the operational mode never agree.
\<close>

theorem vitair_claims_complete:
  fixes r :: vita_audit_runtime_status and n :: nat
  defines "cs \<equiv> vita_ir_claims_from_audit_runtime (Some r) n"
    and "all \<equiv> vita_ir_claims_from_audit_runtime (Some r) VITA_IR_AUDIT_CLAIM_MAX"
  shows "length cs = min n 8 \<and> cs = take n all \<and>
    list_all (\<lambda>c. ic_ir_version c = VITA_IR_VERSION \<and> vita_tri_is_valid (ic_state c) \<and>
                  vita_ir_severity_is_valid (ic_severity c)) cs \<and>
    (ic_state (all ! 6) = TRI_YES \<longleftrightarrow> ic_state (all ! 7) = TRI_NO)"
proof -
  let ?ok = "\<lambda>c. ic_ir_version c = VITA_IR_VERSION \<and> vita_tri_is_valid (ic_state c) \<and>
                  vita_ir_severity_is_valid (ic_severity c)"
  have all: "length all = 8" "list_all ?ok all" "ic_state (all ! 6) = TRI_YES \<longleftrightarrow> ic_state (all ! 7) = TRI_NO"
    by (simp_all add: all_def vita_ir_claims_from_audit_runtime_def append_claim_def Let_def VITA_IR_AUDIT_CLAIM_MAX_def
        claim_status_valid) (simp_all add: vita_tri_is_valid_def vita_ir_severity_is_valid_def)
  have cs: "cs = take n all" unfolding cs_def all_def VITA_IR_AUDIT_CLAIM_MAX_def by (rule claims_take)
  have "list_all ?ok cs" using all(2) in_set_takeD [of _ n all] by (auto simp: cs list_all_iff)
  then show ?thesis using all cs by auto
qed

end
