(* ===== verification/Session_Export.thy ===== *)
theory Session_Export
  imports Ai_Gateway Vitair
begin

text \<open>
  The command context (include/vita/command.h), the two session reports (kernel/session\_export.c and
  kernel/session\_jsonl\_export.c) and the power requests (kernel/power.c, hosted branch). A report builder
  is the text in its buffer of 4096 characters.
\<close>

record vita_command_context =
  cx_handoff :: "vita_handoff option"
  cx_boot_status :: vita_boot_status
  cx_console_state :: vita_console_state
  cx_hw_snapshot :: vita_hw_snapshot
  cx_hw_ready :: bool
  cx_proposal_ready :: bool
  cx_node_ready :: bool

definition boot_mode_name :: "vita_handoff option \<Rightarrow> string" where
  "boot_mode_name handoff =
     (case handoff of None \<Rightarrow> ''unknown''
      | Some h \<Rightarrow> if ho_firmware_type h = VITA_FIRMWARE_HOSTED then ''hosted''
                 else if ho_firmware_type h = VITA_FIRMWARE_UEFI then ''uefi'' else ''unknown'')"

definition yes_no :: "bool \<Rightarrow> string" where "yes_no v = (if v then ''yes'' else ''no'')"

text \<open>The number a negative count is printed as.\<close>

definition i32_u64 :: "int \<Rightarrow> u64" where "i32_u64 v = of_int (if v < 0 then 0 else v)"

section \<open>The text report\<close>

definition SESSION_EXPORT_PATH :: string where "SESSION_EXPORT_PATH = ''/vita/export/reports/last-session.txt''"
definition SESSION_EXPORT_BUFFER_MAX :: nat where "SESSION_EXPORT_BUFFER_MAX = 4096"

definition rb_append :: "string \<Rightarrow> string \<Rightarrow> string" where
  "rb_append t b = b @ copy_loop SESSION_EXPORT_BUFFER_MAX (length b) t"

definition rb_line :: "string \<Rightarrow> string \<Rightarrow> string" where "rb_line t b = rb_append [LF] (rb_append t b)"

definition rb_kv :: "string \<Rightarrow> string \<Rightarrow> string \<Rightarrow> string" where
  "rb_kv key val b = rb_append [LF] (rb_append val (rb_append key b))"

definition rb_kv_u64 :: "string \<Rightarrow> u64 \<Rightarrow> string \<Rightarrow> string" where "rb_kv_u64 key val = rb_kv key (u64_to_dec val)"
definition rb_kv_i32 :: "string \<Rightarrow> int \<Rightarrow> string \<Rightarrow> string" where "rb_kv_i32 key val = rb_kv_u64 key (i32_u64 val)"
definition rb_kv_bool :: "string \<Rightarrow> bool \<Rightarrow> string \<Rightarrow> string" where "rb_kv_bool key val = rb_kv key (yes_no val)"

definition append_storage_status :: "storage_state \<Rightarrow> string \<Rightarrow> string" where
  "append_storage_status st b =
     fold (\<lambda>f. f)
       [rb_line [], rb_line ''[storage]'', rb_kv_bool ''initialized: '' (st_initialized st),
        rb_kv_bool ''writable: '' (st_writable st), rb_kv_bool ''bootstrap_attempted: '' (st_bootstrap_attempted st),
        rb_kv_bool ''bootstrap_verified: '' (st_bootstrap_verified st),
        rb_kv ''backend: '' (or_text (st_backend_name st) ''none''), rb_kv ''root_hint: '' (or_text (st_root_hint st) ''/vita''),
        rb_kv ''last_error: '' (or_text (st_last_error st) ''none'')] b"

definition append_hardware :: "vita_command_context \<Rightarrow> string \<Rightarrow> string" where
  "append_hardware ctx b0 =
     (let b = rb_line ''[hardware]'' (rb_line [] b0) in
      if \<not> cx_hw_ready ctx then rb_line ''available: no'' b
      else
        let hw = cx_hw_snapshot ctx in
        fold (\<lambda>f. f)
          [rb_line ''available: yes'', rb_kv ''cpu_arch: '' (or_text (hw_cpu_arch hw) ''unknown''),
           rb_kv ''cpu_model: '' (or_text (hw_cpu_model hw) ''unavailable''), rb_kv_u64 ''ram_bytes: '' (hw_ram_bytes hw),
           rb_kv ''firmware_type: '' (or_text (hw_firmware_type hw) ''unknown''),
           rb_kv ''console_type: '' (or_text (hw_console_type hw) ''unknown''),
           rb_kv_i32 ''display_count: '' (hw_display_count hw), rb_kv_i32 ''keyboard_count: '' (hw_keyboard_count hw),
           rb_kv_i32 ''mouse_count: '' (hw_mouse_count hw), rb_kv_i32 ''audio_count: '' (hw_audio_count hw),
           rb_kv_i32 ''microphone_count: '' (hw_microphone_count hw), rb_kv_i32 ''net_count: '' (hw_net_count hw),
           rb_kv_i32 ''ethernet_count: '' (hw_ethernet_count hw), rb_kv_i32 ''wifi_count: '' (hw_wifi_count hw),
           rb_kv_i32 ''storage_count: '' (hw_storage_count hw), rb_kv_i32 ''usb_count: '' (hw_usb_count hw),
           rb_kv_i32 ''usb_controller_count: '' (hw_usb_controller_count hw),
           rb_kv_u64 ''detected_at_unix: '' (hw_detected_at_unix hw)] b)"

definition append_network_summary :: "vita_command_context \<Rightarrow> string \<Rightarrow> string" where
  "append_network_summary ctx b0 =
     (let b = rb_line ''[network]'' (rb_line [] b0) in
      if \<not> cx_hw_ready ctx then rb_line ''note: hardware snapshot unavailable'' (rb_line ''available: unknown'' b)
      else
        let hw = cx_hw_snapshot ctx in
        fold (\<lambda>f. f)
          [rb_kv_i32 ''net_count: '' (hw_net_count hw), rb_kv_i32 ''ethernet_count: '' (hw_ethernet_count hw),
           rb_kv_i32 ''wifi_count: '' (hw_wifi_count hw),
           rb_line (if boot_mode_name (cx_handoff ctx) = ''hosted''
                    then ''transport_stage: hosted TCP test path may be available''
                    else ''transport_stage: UEFI diagnostic/status only for now''),
           rb_line ''next_step: DHCP/TCP/remote AI transport remains staged work''] b)"

definition append_ai_summary :: "string \<Rightarrow> string" where
  "append_ai_summary b =
     fold (\<lambda>f. f)
       [rb_line [], rb_line ''[ai_gateway]'', rb_line ''stage: command stub / local fallback'',
        rb_line ''commands: ai status, ai connect, ai ask, ai disconnect'',
        rb_line ''remote_call: not implemented in UEFI yet'',
        rb_line ''audit_policy: future remote decisions must produce auditable proposals''] b"

definition append_notes :: "'a transcript_sys_scheme \<Rightarrow> string \<Rightarrow> string" where
  "append_notes s b =
     fold (\<lambda>f. f)
       [rb_line [], rb_line ''[notes]'', rb_line ''notes_path: /vita/notes/'', rb_line ''messages_path: /vita/messages/'',
        rb_line ''emergency_reports_path: /vita/emergency/reports/'',
        rb_line ''manual_review: use notes list and cat /vita/notes/<file>'',
        rb_kv ''transcript_txt_path: '' (session_transcript_txt_path s),
        rb_kv ''transcript_jsonl_path: '' (session_transcript_jsonl_path s),
        rb_kv ''transcript_state: '' (session_transcript_state s)] b"

text \<open>The identity of the boot, \<open>unknown\<close> when the audit core has none.\<close>

definition identity_texts :: "'a audit_sys_scheme \<Rightarrow> string \<times> string" where
  "identity_texts s =
     (case audit_get_identity 64 64 s of
        None \<Rightarrow> (''unknown'', ''unknown'')
      | Some (boot_id, node_id) \<Rightarrow> (or_text boot_id ''unknown'', or_text node_id ''unknown''))"

definition report_text :: "vita_command_context \<Rightarrow> 'a transcript_sys_scheme \<Rightarrow> string" where
  "report_text ctx s =
     (let st = storage_get_status s; (boot_id, node_id) = identity_texts s; mode = boot_mode_name (cx_handoff ctx) in
      fold (\<lambda>f. f)
        [rb_line ''Resumen de sesion VitaOS / VitaOS session summary'', rb_line ''version: f1a-f1b-session-export-v1'',
         rb_line [], rb_line ''[boot]'', rb_kv ''arch: '' (safe_text (bs_arch_name (cx_boot_status ctx)) ''unknown''),
         rb_kv ''firmware: '' mode, rb_kv ''boot_mode: '' mode, rb_kv ''boot_id: '' boot_id, rb_kv ''node_id: '' node_id,
         rb_kv ''host_id: '' ''unknown'', rb_kv ''storage_backend: '' (or_text (st_backend_name st) ''unknown''),
         rb_kv ''storage_state: '' (if st_bootstrap_verified st then ''verified'' else ''degraded''),
         rb_kv ''boot_mode: '' mode, rb_kv_bool ''console_ready: '' (bs_console_ready (cx_boot_status ctx)),
         rb_kv_bool ''audit_ready: '' (bs_audit_ready (cx_boot_status ctx)),
         rb_kv_bool ''restricted_diagnostic: '' (\<not> bs_audit_ready (cx_boot_status ctx)),
         rb_kv_bool ''proposal_engine_ready: '' (cx_proposal_ready ctx), rb_kv_bool ''node_core_ready: '' (cx_node_ready ctx),
         rb_kv_u64 ''peers_discovered: '' (ucast (cs_peer_count (cx_console_state ctx))),
         rb_kv_u64 ''pending_proposals: '' (ucast (cs_pending_proposal_count (cx_console_state ctx))),
         append_hardware ctx, append_storage_status st, append_network_summary ctx, append_ai_summary, append_notes s,
         rb_line [], rb_line ''[limitaciones]'', rb_line ''- UEFI SQLite persistence: no implementado completo.'',
         rb_line ''- Transporte de red UEFI: no disponible fuera de diagnostico.'',
         rb_line ''- Este reporte TXT es un punto de control para revision humana.'', rb_line [],
         rb_kv ''saved_to: '' SESSION_EXPORT_PATH] [])"

text \<open>Write, read into a buffer of \<open>cap\<close> characters and compare, stopping at the first failure.\<close>

definition write_read_match :: "nat \<Rightarrow> string \<Rightarrow> string \<Rightarrow> 'a storage_sys_scheme \<Rightarrow> bool \<times> 'a storage_sys_scheme" where
  "write_read_match cap path body s =
     (let (w, s1) = storage_write_text (Some path) (Some body) s in
      if \<not> w then (False, s1)
      else let ((r, readback), s2) = storage_read_text (Some path) cap s1
           in (r \<and> text_exact_match body readback, s2))"

definition session_export_write_report ::
  "vita_command_context option \<Rightarrow> 'a ai_sys_scheme \<Rightarrow> bool \<times> 'a ai_sys_scheme" where
  "session_export_write_report ctx0 s =
     (case ctx0 of None \<Rightarrow> (False, say ''export session: missing command context'' s)
      | Some ctx \<Rightarrow>
          let (ok, s1) = write_read_match VITA_STORAGE_READ_MAX SESSION_EXPORT_PATH (report_text ctx s)
                           (audit_emit ''SESSION_EXPORT_REQUESTED'' SESSION_EXPORT_PATH s) in
          if ok then (True, audit_emit ''SESSION_EXPORT_WRITTEN'' SESSION_EXPORT_PATH
                              (say_all [''export session: written'', SESSION_EXPORT_PATH] s1))
          else
            let why = or_text (st_last_error (storage_get_status s1)) ''write/read verify failed''
            in (False, audit_emit ''SESSION_EXPORT_FAILED'' why (say_all [''export session: failed'', why] s1)))"

section \<open>The JSONL report\<close>

definition SESSION_JSONL_EXPORT_PATH :: string where
  "SESSION_JSONL_EXPORT_PATH = ''/vita/export/reports/last-session.jsonl''"
definition SESSION_JSONL_EXPORT_BUFFER_MAX :: nat where "SESSION_JSONL_EXPORT_BUFFER_MAX = 4096"

definition jb_putc :: "char \<Rightarrow> string \<Rightarrow> string" where
  "jb_putc c b = (if length b + 1 \<ge> SESSION_JSONL_EXPORT_BUFFER_MAX then b else b @ [c])"

definition jb_append :: "string \<Rightarrow> string \<Rightarrow> string" where "jb_append t b = fold jb_putc t b"

definition json_char :: "char \<Rightarrow> string" where
  "json_char c =
     (if c = DQ \<or> c = BSL then [BSL, c]
      else if c = LF then [BSL, CHR ''n'']
      else if c = CR then [BSL, CHR ''r'']
      else if c = TAB then [BSL, CHR ''t'']
      else if uchar c < 32 then ''?''
      else [c])"

definition jb_json_string :: "string \<Rightarrow> string \<Rightarrow> string" where
  "jb_json_string t b = jb_putc DQ (fold (\<lambda>c. jb_append (json_char c)) t (jb_putc DQ b))"

definition json_begin :: "string \<Rightarrow> string \<Rightarrow> string" where
  "json_begin type b = jb_json_string type (jb_putc (CHR '':'') (jb_json_string ''type'' (jb_putc (CHR ''{'') b)))"

definition json_prop_name :: "string \<Rightarrow> string \<Rightarrow> string" where
  "json_prop_name name b = jb_putc (CHR '':'') (jb_json_string name (jb_putc (CHR '','') b))"

definition json_prop_str :: "string \<Rightarrow> string \<Rightarrow> string \<Rightarrow> string" where
  "json_prop_str name val b = jb_json_string val (json_prop_name name b)"
definition json_prop_bool :: "string \<Rightarrow> bool \<Rightarrow> string \<Rightarrow> string" where
  "json_prop_bool name val b = jb_append (if val then ''true'' else ''false'') (json_prop_name name b)"
definition json_prop_u64 :: "string \<Rightarrow> u64 \<Rightarrow> string \<Rightarrow> string" where
  "json_prop_u64 name val b = jb_append (u64_to_dec val) (json_prop_name name b)"
definition json_prop_i32 :: "string \<Rightarrow> int \<Rightarrow> string \<Rightarrow> string" where
  "json_prop_i32 name val = json_prop_u64 name (i32_u64 val)"
definition json_end :: "string \<Rightarrow> string" where "json_end b = jb_putc LF (jb_putc (CHR ''}'') b)"

definition path_has_jsonl_suffix :: "string \<Rightarrow> bool" where
  "path_has_jsonl_suffix path = (length path \<ge> 6 \<and> drop (length path - 6) path = ''.jsonl'')"

definition part_digits :: "nat \<Rightarrow> string" where
  "part_digits n = map (\<lambda>d. char_of (48 + (n div d) mod 10)) [1000, 100, 10, 1]"

definition export_part_path :: "string \<Rightarrow> nat \<Rightarrow> nat \<Rightarrow> string" where
  "export_part_path base part_number cap =
     (if cap = 0 \<or> \<not> path_has_jsonl_suffix base then []
      else
        let stem = take (min (length base - 6) (cap - 1)) base
        in if part_number \<le> 1 then stem @ ''.jsonl''
           else if length stem + 17 \<ge> cap then []
           else stem @ ''.part-'' @ part_digits part_number @ ''.jsonl'')"

definition append_session_line :: "vita_command_context \<Rightarrow> 'a storage_sys_scheme \<Rightarrow> string \<Rightarrow> string" where
  "append_session_line ctx s b =
     (let st = storage_get_status s; (boot_id, node_id) = identity_texts s; mode = boot_mode_name (cx_handoff ctx) in
      fold (\<lambda>f. f)
        [json_begin ''session'', json_prop_str ''version'' ''f1a-f1b-session-jsonl-v1'',
         json_prop_str ''arch'' (safe_text (bs_arch_name (cx_boot_status ctx)) ''unknown''), json_prop_str ''boot_mode'' mode,
         json_prop_str ''boot_id'' boot_id, json_prop_str ''node_id'' node_id, json_prop_str ''host_id'' ''unknown'',
         json_prop_str ''firmware'' mode, json_prop_str ''storage_backend'' (or_text (st_backend_name st) ''unknown''),
         json_prop_str ''storage_state'' (if st_bootstrap_verified st then ''verified'' else ''degraded''),
         json_prop_bool ''console_ready'' (bs_console_ready (cx_boot_status ctx)),
         json_prop_bool ''audit_ready'' (bs_audit_ready (cx_boot_status ctx)),
         json_prop_bool ''restricted_diagnostic'' (\<not> bs_audit_ready (cx_boot_status ctx)),
         json_prop_bool ''proposal_engine_ready'' (cx_proposal_ready ctx), json_prop_bool ''node_core_ready'' (cx_node_ready ctx),
         json_prop_u64 ''peers_discovered'' (ucast (cs_peer_count (cx_console_state ctx))),
         json_prop_u64 ''pending_proposals'' (ucast (cs_pending_proposal_count (cx_console_state ctx))), json_end] b)"

definition append_hardware_line :: "vita_command_context \<Rightarrow> string \<Rightarrow> string" where
  "append_hardware_line ctx b =
     (let hw = cx_hw_snapshot ctx in
      json_end (fold (\<lambda>f. f)
        (if \<not> cx_hw_ready ctx then []
         else [json_prop_str ''cpu_arch'' (or_text (hw_cpu_arch hw) ''unknown''),
           json_prop_str ''cpu_model'' (or_text (hw_cpu_model hw) ''unavailable''), json_prop_u64 ''ram_bytes'' (hw_ram_bytes hw),
           json_prop_str ''firmware_type'' (or_text (hw_firmware_type hw) ''unknown''),
           json_prop_str ''console_type'' (or_text (hw_console_type hw) ''unknown''),
           json_prop_i32 ''display_count'' (hw_display_count hw), json_prop_i32 ''keyboard_count'' (hw_keyboard_count hw),
           json_prop_i32 ''mouse_count'' (hw_mouse_count hw), json_prop_i32 ''audio_count'' (hw_audio_count hw),
           json_prop_i32 ''microphone_count'' (hw_microphone_count hw), json_prop_i32 ''net_count'' (hw_net_count hw),
           json_prop_i32 ''ethernet_count'' (hw_ethernet_count hw), json_prop_i32 ''wifi_count'' (hw_wifi_count hw),
           json_prop_i32 ''storage_count'' (hw_storage_count hw), json_prop_i32 ''usb_count'' (hw_usb_count hw),
           json_prop_i32 ''usb_controller_count'' (hw_usb_controller_count hw),
           json_prop_u64 ''detected_at_unix'' (hw_detected_at_unix hw)])
        (json_prop_bool ''available'' (cx_hw_ready ctx) (json_begin ''hardware'' b))))"

definition append_storage_line :: "storage_state \<Rightarrow> string \<Rightarrow> string" where
  "append_storage_line st b =
     fold (\<lambda>f. f)
       [json_begin ''storage'', json_prop_bool ''initialized'' (st_initialized st), json_prop_bool ''writable'' (st_writable st),
        json_prop_bool ''bootstrap_attempted'' (st_bootstrap_attempted st),
        json_prop_bool ''bootstrap_verified'' (st_bootstrap_verified st),
        json_prop_str ''backend'' (or_text (st_backend_name st) ''none''),
        json_prop_str ''root_hint'' (or_text (st_root_hint st) ''/vita''),
        json_prop_str ''last_error'' (or_text (st_last_error st) ''none''), json_end] b"

definition append_network_line :: "vita_command_context \<Rightarrow> string \<Rightarrow> string" where
  "append_network_line ctx b =
     (let n = (\<lambda>f. if cx_hw_ready ctx then f (cx_hw_snapshot ctx) else 0) in
      fold (\<lambda>f. f)
        [json_begin ''network'', json_prop_bool ''hardware_snapshot_available'' (cx_hw_ready ctx),
         json_prop_i32 ''net_count'' (n hw_net_count), json_prop_i32 ''ethernet_count'' (n hw_ethernet_count),
         json_prop_i32 ''wifi_count'' (n hw_wifi_count),
         json_prop_str ''transport_stage'' (if boot_mode_name (cx_handoff ctx) = ''hosted'' then ''hosted_tcp_test_path''
                                           else ''uefi_diagnostic_status_only''),
         json_prop_bool ''dhcp_ready'' False, json_prop_bool ''wifi_credentials_ready'' False, json_end] b)"

definition append_ai_line :: "string \<Rightarrow> string" where
  "append_ai_line b =
     fold (\<lambda>f. f)
       [json_begin ''ai_gateway'', json_prop_str ''stage'' ''command_stub_local_fallback'',
        json_prop_bool ''remote_call_ready'' False,
        json_prop_str ''commands'' ''ai status, ai connect, ai ask, ai disconnect'',
        json_prop_str ''audit_policy'' ''future remote decisions must produce auditable proposals'', json_end] b"

text \<open>The parts after the first that can be read, up to the eighth: the number of the last one.\<close>

fun count_parts :: "nat \<Rightarrow> string \<Rightarrow> nat \<Rightarrow> nat \<Rightarrow> 'a storage_sys_scheme \<Rightarrow> nat \<times> 'a storage_sys_scheme" where
  "count_parts 0 base part count s = (count, s)"
| "count_parts (Suc k) base part count s =
     (let p = export_part_path base part VITA_STORAGE_PATH_MAX in
      if p = [] then (count, s)
      else let ((r, _), s1) = storage_read_text (Some p) VITA_STORAGE_READ_MAX s
           in if \<not> r then (count, s1) else count_parts k base (part + 1) part s1)"

definition append_paths_line :: "'a transcript_sys_scheme \<Rightarrow> string \<Rightarrow> string \<times> 'a transcript_sys_scheme" where
  "append_paths_line s b =
     (let base = session_transcript_jsonl_path s;
          b1 = fold (\<lambda>f. f)
            [json_begin ''paths'', json_prop_str ''notes'' ''/vita/notes/'', json_prop_str ''messages'' ''/vita/messages/'',
             json_prop_str ''emergency_reports'' ''/vita/emergency/reports/'', json_prop_str ''exports'' ''/vita/export/'',
             json_prop_str ''jsonl_report'' SESSION_JSONL_EXPORT_PATH,
             json_prop_str ''transcript_txt_path'' (session_transcript_txt_path s),
             json_prop_str ''transcript_jsonl_path'' base] b;
          (part_count, s1) = (if path_has_jsonl_suffix base then count_parts 7 base 2 1 s else (0, s));
          b2 = (if part_count > 1
                then
                  let parts = map (\<lambda>k. export_part_path base k VITA_STORAGE_PATH_MAX) [1..<Suc part_count]
                  in jb_putc (CHR '']'')
                       (fold (\<lambda>p t. jb_json_string p (jb_putc (CHR '','') t)) (tl parts)
                         (jb_json_string (hd parts)
                           (jb_putc (CHR ''['') (json_prop_name ''transcript_jsonl_parts''
                             (json_prop_u64 ''transcript_jsonl_part_count'' (of_nat part_count) b1)))))
                else b1)
      in (json_end (json_prop_str ''transcript_state'' (session_transcript_state s1) b2), s1))"

definition append_limitations_line :: "string \<Rightarrow> string" where
  "append_limitations_line b =
     fold (\<lambda>f. f)
       [json_begin ''limitations'', json_prop_bool ''uefi_sqlite_persistence_complete'' False,
        json_prop_bool ''uefi_network_transport_complete'' False, json_prop_bool ''wifi_association_complete'' False,
        json_prop_bool ''full_vfs_complete'' False,
        json_prop_str ''note'' ''This JSONL report is a small machine-readable checkpoint, not a full SQLite audit export.'',
        json_end] b"

definition session_export_write_jsonl ::
  "vita_command_context option \<Rightarrow> 'a ai_sys_scheme \<Rightarrow> bool \<times> 'a ai_sys_scheme" where
  "session_export_write_jsonl ctx0 s =
     (case ctx0 of None \<Rightarrow> (False, say ''export jsonl: missing command context'' s)
      | Some ctx \<Rightarrow>
          let b1 = append_ai_line (append_network_line ctx (append_storage_line (storage_get_status s)
                     (append_hardware_line ctx (append_session_line ctx s []))));
              (b2, s1) = append_paths_line s b1;
              (ok, s2) = write_read_match SESSION_JSONL_EXPORT_BUFFER_MAX SESSION_JSONL_EXPORT_PATH (append_limitations_line b2)
                           (audit_emit ''SESSION_JSONL_EXPORT_REQUESTED'' SESSION_JSONL_EXPORT_PATH s1) in
          if ok then (True, audit_emit ''SESSION_JSONL_EXPORT_WRITTEN'' SESSION_JSONL_EXPORT_PATH
                              (say_all [''export jsonl: written'', SESSION_JSONL_EXPORT_PATH] s2))
          else
            let why = or_text (st_last_error (storage_get_status s2)) ''write/read verify failed''
            in (False, audit_emit ''SESSION_JSONL_EXPORT_FAILED'' why (say_all [''export jsonl: failed'', why] s2)))"

section \<open>Power requests\<close>

datatype vita_power_action = VITA_POWER_ACTION_NONE | VITA_POWER_ACTION_SHUTDOWN | VITA_POWER_ACTION_RESTART

fun power_action_name :: "vita_power_action \<Rightarrow> string" where
  "power_action_name VITA_POWER_ACTION_SHUTDOWN = ''shutdown''"
| "power_action_name VITA_POWER_ACTION_RESTART = ''restart''"
| "power_action_name VITA_POWER_ACTION_NONE = ''none''"

definition storage_ready_now :: "'a storage_sys_scheme \<Rightarrow> bool" where
  "storage_ready_now s = (let st = storage_get_status s in st_initialized st \<and> st_writable st)"

definition power_preflight :: "vita_power_action \<Rightarrow> 'a ai_sys_scheme \<Rightarrow> 'a ai_sys_scheme" where
  "power_preflight action s =
     (let name = power_action_name action;
          s1 = say_all [''Power request / Solicitud de energia:'', name,
                 ''Saving visible session state / Guardando estado visible de sesion...''] s;
          s2 = session_journal_log_system (Some ''POWER_REQUESTED'') (Some name) (audit_emit ''POWER_REQUESTED'' name s1);
          s3 = (if session_journal_is_active s2 then
                  let (ok, t) = session_journal_flush (session_journal_log_system (Some ''POWER_FLUSH_STARTED'') (Some name) s2)
                  in if ok then audit_emit ''POWER_JOURNAL_FLUSHED'' name (say ''Journal flush: OK / Bitacora guardada: OK'' t)
                     else audit_emit ''POWER_JOURNAL_FLUSH_FAILED'' name
                            (say ''Journal flush: FAILED / Bitacora no guardada completamente'' t)
                else audit_emit ''POWER_JOURNAL_INACTIVE'' name (say ''Journal: inactive / Bitacora: inactiva'' s2))
      in say_all [(if storage_ready_now s3 then ''Storage: writable / Almacenamiento: escribible''
                   else ''Storage: not writable / Almacenamiento: no escribible''),
           ''Remote AI transport: staged / Transporte IA remoto: pendiente'',
           ''No active remote AI job is being waited on in this milestone.'',
           ''No hay tarea remota de IA activa que esperar en este hito.''] s3)"

definition power_show_status :: "vita_command_context option \<Rightarrow> 'a ai_sys_scheme \<Rightarrow> 'a ai_sys_scheme" where
  "power_show_status ctx =
     say_all [''Power / Energia:'', ''stage: safe F1A/F1B power request flow'', ''boot_mode:'',
       boot_mode_name (Option.bind ctx cx_handoff), ''commands:'', ''restart | reboot'', ''shutdown | poweroff | exit'',
       ''behavior:'', ''- flush visible session journal when active'', ''- record power intent in audit buffer/journal'',
       ''- UEFI uses ResetSystem when firmware exposes it'', ''- hosted shutdown exits the command loop'']"

definition power_request :: "vita_power_action \<Rightarrow> 'a ai_sys_scheme \<Rightarrow> bool \<times> 'a ai_sys_scheme" where
  "power_request action s =
     (if action \<noteq> VITA_POWER_ACTION_SHUTDOWN \<and> action \<noteq> VITA_POWER_ACTION_RESTART
      then (False, say ''power: invalid action / accion invalida'' s)
      else
        let s1 = power_preflight action s; name = power_action_name action;
            logged = (\<lambda>ev t. snd (session_journal_flush
                       (session_journal_log_system (Some ev) (Some name) (audit_emit ev name t))))
        in if action = VITA_POWER_ACTION_RESTART
           then (False, logged ''POWER_HOSTED_RESTART_UNSUPPORTED''
                   (say_all [''Hosted restart is not implemented; command loop remains active.'',
                      ''Reinicio hosted no implementado; la consola sigue activa.''] s1))
           else (True, logged ''POWER_HOSTED_SHUTDOWN''
                   (say ''Hosted shutdown: leaving command loop / Cerrando consola hosted'' s1)))"

definition power_handle_command :: "cstr \<Rightarrow> vita_command_context option \<Rightarrow> 'a ai_sys_scheme \<Rightarrow> bool \<times> 'a ai_sys_scheme" where
  "power_handle_command cmd ctx s =
     (case cmd of None \<Rightarrow> (False, s)
      | Some c \<Rightarrow>
          if c = [] then (False, s)
          else if c = ''power'' \<or> prefix ''power '' c then (True, power_show_status ctx s)
          else (False, s))"

end
