(* ===== verification/Static_Arrays.thy ===== *)
theory Static_Arrays
  imports Session_Export
begin

text \<open>
  The character arrays of the services: \<open>g_audit\<close>, \<open>g_storage\<close>, \<open>g_journal\<close>, the transcript's \<open>g\<close>, \<open>g_peer\<close> and the
  seed endpoint, the proposal slots, the editor's buffers and the gateway's host. The model keeps the
  string an array holds; the array is written in bounds when that string and its terminator fit its
  declared size. The predicates state it module by module, with the sizes of the declarations, and the
  collection \<open>fit\<close> holds what keeps them.
\<close>

named_theorems fit \<open>texts that fit their arrays\<close>

definition fits :: "nat \<Rightarrow> string \<Rightarrow> bool" where
  "fits cap t \<longleftrightarrow> length t < cap"

definition aud_fits :: "audit_state \<Rightarrow> bool" where
  "aud_fits a \<longleftrightarrow> fits 64 (au_boot_id a) \<and> fits 64 (au_node_id a) \<and> fits 32 (au_arch_name a) \<and> fits 65 (au_prev_hash a) \<and>
     length (au_early_events a) \<le> AUDIT_EARLY_MAX_EVENTS \<and>
     (\<forall>e \<in> set (au_early_events a). fits 64 (ee_event_type e) \<and> fits 256 (ee_summary e))"

definition sto_fits :: "storage_state \<Rightarrow> bool" where
  "sto_fits t \<longleftrightarrow> fits 32 (st_backend_name t) \<and> fits 64 (st_root_hint t) \<and> fits VITA_STORAGE_ERROR_MAX (st_last_error t)"

definition jrn_fits :: "session_journal_state \<Rightarrow> bool" where
  "jrn_fits j \<longleftrightarrow> fits SESSION_JOURNAL_BUFFER_MAX (jr_jsonl j) \<and> fits SESSION_JOURNAL_BUFFER_MAX (jr_text j) \<and>
     fits VITA_STORAGE_ERROR_MAX (jr_last_error j)"

definition idn_fits :: "vita_session_identity \<Rightarrow> bool" where
  "idn_fits i \<longleftrightarrow> fits 64 (id_boot_id i) \<and> fits 64 (id_node_id i) \<and> fits 64 (id_host_id i) \<and> fits 32 (id_arch i) \<and>
     fits 16 (id_firmware i) \<and> fits 16 (id_boot_mode i) \<and> fits 128 (id_cpu_model i) \<and>
     fits 32 (id_storage_backend i) \<and> fits 32 (id_storage_state i)"

definition trn_fits :: "transcript_state \<Rightarrow> bool" where
  "trn_fits g \<longleftrightarrow> fits 64 (tr_session_id g) \<and> fits VITA_STORAGE_PATH_MAX (tr_txt_path g) \<and>
     fits VITA_STORAGE_PATH_MAX (tr_jsonl_path g) \<and> fits VITA_STORAGE_PATH_MAX (tr_jsonl_primary_path g) \<and>
     fits TRANSCRIPT_BUFFER (tr_txt g) \<and> fits TRANSCRIPT_BUFFER (tr_jsonl g) \<and>
     fits 32 (tr_state g) \<and> fits 160 (tr_last_text g) \<and> idn_fits (tr_identity g)"

definition peer_fits :: "vita_node_peer \<Rightarrow> bool" where
  "peer_fits p \<longleftrightarrow> fits 64 (np_peer_id p) \<and> fits 32 (np_transport p) \<and> fits 256 (np_capabilities_json p) \<and>
     fits 32 (np_trust_state p) \<and> fits 32 (np_link_state p)"

definition nod_fits :: "node_state \<Rightarrow> bool" where
  "nod_fits n \<longleftrightarrow> peer_fits (nd_peer n) \<and> fits 64 (nd_seed n)"

definition prp_fits :: "proposal_slot list \<Rightarrow> bool" where
  "prp_fits ps \<longleftrightarrow> length ps \<le> MAX_PROPOSALS \<and> (\<forall>p \<in> set ps. fits 16 (sl_proposal_id p))"

definition edi_fits :: "editor_state \<Rightarrow> bool" where
  "edi_fits e \<longleftrightarrow> fits VITA_EDITOR_TEXT_MAX (ed_text e) \<and> fits VITA_STORAGE_PATH_MAX (ed_path e) \<and>
     fits VITA_STORAGE_PATH_MAX (ed_saveas_path e)"

definition aig_fits :: "ai_state \<Rightarrow> bool" where
  "aig_fits a \<longleftrightarrow> fits AI_GATEWAY_HOST_MAX (ai_host a)"

text \<open>The caps of the modules as numbers.\<close>

lemmas array_sizes = VITA_STORAGE_ERROR_MAX_def VITA_STORAGE_PATH_MAX_def SESSION_JOURNAL_BUFFER_MAX_def
  TRANSCRIPT_BUFFER_def VITA_EDITOR_TEXT_MAX_def AI_GATEWAY_HOST_MAX_def

lemma array_sizes_pos [simp]:
  "0 < VITA_STORAGE_ERROR_MAX" "0 < VITA_STORAGE_PATH_MAX" "0 < SESSION_JOURNAL_BUFFER_MAX" "0 < TRANSCRIPT_BUFFER"
  "0 < VITA_EDITOR_TEXT_MAX" "0 < AI_GATEWAY_HOST_MAX"
  by (simp_all add: array_sizes)

section \<open>Bounded writers\<close>

lemma fits_nil [simp]: "fits cap [] \<longleftrightarrow> 0 < cap"
  by (simp add: fits_def)

lemma fits_copy [simp, fit]: "0 < cap \<Longrightarrow> fits cap (copy_text cap t)"
  by (simp add: fits_def str_copy_length)

lemma fits_error [simp]: "fits VITA_STORAGE_ERROR_MAX (copy_text 128 t)"
  using fits_copy [of 128 t] by (simp add: VITA_STORAGE_ERROR_MAX_def)

lemma fits_snprintf [simp]: "0 < cap \<Longrightarrow> fits cap (snprintf cap t)"
  by (simp add: fits_def snprintf_length)

lemma fits_append [simp, fit]: "fits cap d \<Longrightarrow> fits cap (str_append cap d (Some t))"
  by (simp add: fits_def sa.app_length)

lemma fits_trim [simp]: "fits cap t \<Longrightarrow> fits cap (trim_right_in_place t)"
  using trim_right_length [of t] by (simp add: fits_def)

lemma fits_ap [simp, fit]: "fits cap d \<Longrightarrow> fits cap (ap cap d t)"
  by (auto simp: fits_def ap_def copy_loop_take)

lemma fits_apc [simp, fit]: "fits cap d \<Longrightarrow> fits cap (apc cap d t)"
  by (simp add: apc_def)

lemma fits_apcs [simp, fit]: "fits cap d \<Longrightarrow> fits cap (apcs cap ts d)"
  unfolding apcs_def by (induction ts arbitrary: d) simp_all

lemma fits_fold_ap [simp]: "fits cap d \<Longrightarrow> fits cap (fold (\<lambda>t b. ap cap b t) ts d)"
  by (induction ts arbitrary: d) simp_all

lemma fits_within [simp]: "fits cap d \<Longrightarrow> fits cap (snd (append_within_cap cap d t))"
  by (simp add: fits_def append_within_cap_def)

lemma fits_part_path [simp]: "0 < cap \<Longrightarrow> fits cap (build_jsonl_part_path i n cap)"
  by (simp add: build_jsonl_part_path_def Let_def)

lemma fits_read:
  "0 < cap \<Longrightarrow> fits cap (snd (fst (storage_read_text p cap s)))"
proof -
  have "fits cap (c_string (take (cap - 1) b))" if "0 < cap" for b
  proof -
    have "length (c_string (take (cap - 1) b)) \<le> length (take (cap - 1) b)"
      unfolding c_string_def by (rule length_takeWhile_le)
    then show ?thesis using that by (auto simp: fits_def)
  qed
  then show "0 < cap \<Longrightarrow> fits cap (snd (fst (storage_read_text p cap s)))"
    by (simp add: storage_read_text_def hosted_read_text_def split: option.split)
qed

section \<open>The storage and the journal\<close>

lemma sto_fits_simps [simp]:
  "sto_fits (t\<lparr>st_bootstrap_attempted := b\<rparr>) = sto_fits t" "sto_fits (t\<lparr>st_bootstrap_verified := b\<rparr>) = sto_fits t"
  "sto_fits (t\<lparr>st_handoff := h\<rparr>) = sto_fits t"
  "sto_fits t \<Longrightarrow> sto_fits (t\<lparr>st_last_error := copy_text 128 e\<rparr>)"
  by (simp_all add: sto_fits_def)

lemma sto_kept [simp]:
  "sto (fs_put k n s) = sto s" "sto (ticked s) = sto s" "sto (snd (mkdir q s)) = sto s"
  "sto (snd (fopen_wb q s)) = sto s" "sto (snd (fwrite_close q t s)) = sto s"
  by (simp_all add: fs_put_def ticked_def mkdir_def fopen_wb_def fwrite_close_def Let_def)

lemma sto_parents [simp]: "sto (hosted_ensure_parent_dirs q s) = sto s"
proof -
  have "sto (parent_dirs_loop d cs s) = sto s" for d cs and s :: "'b storage_sys_scheme"
    by (induction d cs s rule: parent_dirs_loop.induct) simp_all
  then show ?thesis by (simp add: hosted_ensure_parent_dirs_def)
qed

lemma sto_fits_error [simp]: "sto_fits (sto s) \<Longrightarrow> sto_fits (sto (storage_set_error e s))"
  by (simp add: storage_set_error_def)

lemma sto_fits_write [simp]: "sto_fits (sto s) \<Longrightarrow> sto_fits (sto (snd (storage_write_text p x s)))"
  by (simp add: storage_write_text_def hosted_write_text_def Let_def case_prod_beta split: option.split)

lemma sto_fits_read [simp]: "sto_fits (sto s) \<Longrightarrow> sto_fits (sto (snd (storage_read_text p cap s)))"
  by (simp add: storage_read_text_def hosted_read_text_def split: option.split)

lemma sto_fits_repair [simp]: "sto_fits (sto s) \<Longrightarrow> sto_fits (sto (snd (storage_tree_repair s)))"
proof -
  have "sto_fits (sto s) \<Longrightarrow> sto_fits (sto (snd (repair_loop ds s)))" for ds and s :: "'b storage_sys_scheme"
    by (induction ds arbitrary: s)
      (simp_all add: Let_def case_prod_beta storage_ensure_directory_def hosted_ensure_dir_path_def)
  then show "sto_fits (sto s) \<Longrightarrow> ?thesis" by (simp add: storage_tree_repair_def)
qed

lemma parents_keep:
  "jrn (parent_dirs_loop d cs s) = jrn s" "trn (parent_dirs_loop d cs u) = trn u"
proof -
  show "jrn (parent_dirs_loop d cs s) = jrn s" by (induction d cs s rule: parent_dirs_loop.induct) simp_all
  show "trn (parent_dirs_loop d cs u) = trn u" by (induction d cs u rule: parent_dirs_loop.induct) simp_all
qed

lemma repair_loop_keeps:
  "jrn (snd (repair_loop ds s)) = jrn s" "trn (snd (repair_loop ds u)) = trn u"
  by (induction ds arbitrary: s u)
    (simp_all add: Let_def case_prod_beta storage_ensure_directory_def hosted_ensure_dir_path_def
      hosted_ensure_parent_dirs_def parents_keep)

lemma repair_keeps [simp]:
  "jrn (snd (storage_tree_repair s)) = jrn s" "trn (snd (storage_tree_repair u)) = trn u"
  by (simp_all add: storage_tree_repair_def repair_loop_keeps)

lemma jrn_fits_ok: "jrn_fits j \<longleftrightarrow> journal_ok j \<and> fits VITA_STORAGE_ERROR_MAX (jr_last_error j)"
  by (auto simp: jrn_fits_def journal_ok_def fits_def SESSION_JOURNAL_BUFFER_MAX_def)

lemma jrn_fits_upd [simp, fit]:
  "jrn_fits j \<Longrightarrow> jrn_fits (journal_set_error e j)" "jrn_fits j \<Longrightarrow> jrn_fits (j\<lparr>jr_seq := n\<rparr>)"
  "jrn_fits j \<Longrightarrow> jrn_fits (j\<lparr>jr_last_flush_ok := b\<rparr>)" "jrn_fits j \<Longrightarrow> jrn_fits (j\<lparr>jr_active := b\<rparr>)"
  "jrn_fits j \<Longrightarrow> jrn_fits (j\<lparr>jr_truncated := b\<rparr>)"
  by (simp_all add: jrn_fits_def journal_set_error_def)

lemma jrn_error_kept:
  "jr_last_error (append_jsonl t j) = jr_last_error j" "jr_last_error (append_jtext t j) = jr_last_error j"
  by (simp_all add: append_jsonl_def append_jtext_def case_prod_beta)

lemma jrn_fits_append [simp, fit]:
  "jrn_fits j \<Longrightarrow> jrn_fits (append_jsonl t j)" "jrn_fits j \<Longrightarrow> jrn_fits (append_jtext t j)"
  by (simp_all add: jrn_fits_ok append_jsonl_ok append_jtext_ok jrn_error_kept)

lemma jrn_fits_line [simp, fit]: "jrn_fits j \<Longrightarrow> jrn_fits (append_text_line t j)"
  by (simp add: append_text_line_def)

lemma jrn_fits_escaped [simp, fit]: "jrn_fits j \<Longrightarrow> jrn_fits (append_json_escaped t j)"
  by (induction t j rule: append_json_escaped.induct) simp_all

lemma jrn_fits_records [simp, fit]:
  "jrn_fits j \<Longrightarrow> jrn_fits (append_json_record ty t r j)" "jrn_fits j \<Longrightarrow> jrn_fits (append_text_record ty t r j)"
  "jrn_fits j \<Longrightarrow> jrn_fits (journal_header j)"
  by (simp_all add: append_json_record_def append_text_record_def journal_header_def Let_def)

section \<open>The transcript\<close>

lemma trn_fits_upd [simp, fit]:
  "trn_fits g \<Longrightarrow> trn_fits (g\<lparr>tr_error_reported := b\<rparr>)" "trn_fits g \<Longrightarrow> trn_fits (g\<lparr>tr_busy := b\<rparr>)"
  "trn_fits g \<Longrightarrow> trn_fits (g\<lparr>tr_seq := n\<rparr>)" "trn_fits g \<Longrightarrow> trn_fits (g\<lparr>tr_active := b\<rparr>)"
  "trn_fits g \<Longrightarrow> trn_fits (g\<lparr>tr_truncated_reported := b\<rparr>)" "trn_fits g \<Longrightarrow> trn_fits (g\<lparr>tr_jsonl_locked := b\<rparr>)"
  "trn_fits g \<Longrightarrow> trn_fits (g\<lparr>tr_current_jsonl_part := k\<rparr>)" "trn_fits g \<Longrightarrow> trn_fits (g\<lparr>tr_jsonl_rotation_count := k\<rparr>)"
  "trn_fits g \<Longrightarrow> trn_fits (g\<lparr>tr_state := copy_text 32 x\<rparr>)" "trn_fits g \<Longrightarrow> trn_fits (g\<lparr>tr_last_text := copy_text 160 x\<rparr>)"
  "trn_fits g \<Longrightarrow> fits TRANSCRIPT_BUFFER x \<Longrightarrow> trn_fits (g\<lparr>tr_txt := x\<rparr>)"
  "trn_fits g \<Longrightarrow> fits TRANSCRIPT_BUFFER x \<Longrightarrow> trn_fits (g\<lparr>tr_jsonl := x\<rparr>)"
  "trn_fits g \<Longrightarrow> fits VITA_STORAGE_PATH_MAX x \<Longrightarrow> trn_fits (g\<lparr>tr_jsonl_path := x\<rparr>)"
  by (simp_all add: trn_fits_def)

lemma trn_fits_bufs: "trn_fits g \<Longrightarrow> fits TRANSCRIPT_BUFFER (tr_txt g)" "trn_fits g \<Longrightarrow> fits TRANSCRIPT_BUFFER (tr_jsonl g)"
  by (simp_all add: trn_fits_def)

lemma trn_fits_truncated [simp]: "trn_fits g \<Longrightarrow> trn_fits (report_transcript_truncated_once g)"
  by (simp add: report_transcript_truncated_once_def Let_def trn_fits_bufs)

lemma trn_fits_line [simp]: "trn_fits g \<Longrightarrow> trn_fits (snd (append_jsonl_line t g))"
  by (simp add: append_jsonl_line_def case_prod_beta trn_fits_bufs)

lemma trn_fits_control [simp]: "trn_fits g \<Longrightarrow> trn_fits (snd (append_control_jsonl_event e x g))"
  by (simp add: append_control_jsonl_event_def Let_def)

lemma idn_fits_init: "idn_fits (init_identity h a)"
  by (simp add: idn_fits_def init_identity_def Let_def) (simp add: fits_def unknown_text_def)

lemma idn_fits_upd [simp]:
  "idn_fits i \<Longrightarrow> idn_fits (i\<lparr>id_boot_id := copy_text 64 b, id_node_id := copy_text 64 n\<rparr>)"
  "idn_fits i \<Longrightarrow> idn_fits (i\<lparr>id_cpu_model := copy_text 128 c, id_ram_bytes := r, id_storage_backend := copy_text 32 k,
     id_storage_state := copy_text 32 l\<rparr>)"
  by (simp_all add: idn_fits_def)

text \<open>An event touches the storage's, the journal's and the transcript's arrays.\<close>

definition logs_fit :: "'a transcript_sys_scheme \<Rightarrow> bool" where
  "logs_fit s \<longleftrightarrow> sto_fits (sto s) \<and> jrn_fits (jrn s) \<and> trn_fits (trn s)"

lemma logs_fit_upd [simp]:
  "logs_fit s \<Longrightarrow> jrn_fits (f (jrn s)) \<Longrightarrow> logs_fit (upd_jrn f s)" "logs_fit s \<Longrightarrow> trn_fits (h (trn s)) \<Longrightarrow> logs_fit (upd_trn h s)"
  "logs_fit s \<Longrightarrow> trn_fits g \<Longrightarrow> logs_fit (s\<lparr>trn := g\<rparr>)"
  by (simp_all add: logs_fit_def upd_jrn_def upd_trn_def)

lemma logs_fit_files [simp]:
  "logs_fit s \<Longrightarrow> logs_fit (snd (storage_write_text p x s))" "logs_fit s \<Longrightarrow> logs_fit (snd (storage_read_text p cap s))"
  by (simp_all add: logs_fit_def)

lemma logs_fit_sel: "logs_fit s \<Longrightarrow> jrn_fits (jrn s)" "logs_fit s \<Longrightarrow> trn_fits (trn s)"
  by (simp_all add: logs_fit_def)

lemma logs_fit_flow:
  "(c \<Longrightarrow> logs_fit a) \<Longrightarrow> (\<not> c \<Longrightarrow> logs_fit b) \<Longrightarrow> logs_fit (if c then a else b)"
  "(c \<Longrightarrow> logs_fit (snd p)) \<Longrightarrow> (\<not> c \<Longrightarrow> logs_fit (snd q)) \<Longrightarrow> logs_fit (snd (if c then p else q))"
  "logs_fit t \<Longrightarrow> (\<And>u. logs_fit u \<Longrightarrow> logs_fit (f u)) \<Longrightarrow> logs_fit (Let t f)"
  "logs_fit t \<Longrightarrow> (\<And>u. logs_fit u \<Longrightarrow> logs_fit (snd (g u))) \<Longrightarrow> logs_fit (snd (Let t g))"
  "logs_fit (snd p) \<Longrightarrow> (\<And>r u. logs_fit u \<Longrightarrow> logs_fit (h r u)) \<Longrightarrow> logs_fit (Let p (case_prod h))"
  "logs_fit (snd p) \<Longrightarrow> (\<And>r u. logs_fit u \<Longrightarrow> logs_fit (snd (k r u))) \<Longrightarrow> logs_fit (snd (Let p (case_prod k)))"
  "logs_fit t \<Longrightarrow> logs_fit (snd (r, t))"
  by (simp_all add: case_prod_beta)

lemma logs_fit_value:
  "(\<And>x. logs_fit (f x)) \<Longrightarrow> logs_fit (Let v f)" "(\<And>x. logs_fit (snd (g x))) \<Longrightarrow> logs_fit (snd (Let v g))"
  "(\<And>x y. logs_fit (h x y)) \<Longrightarrow> logs_fit (case_prod h w)" "(\<And>x y. logs_fit (snd (k x y))) \<Longrightarrow> logs_fit (snd (case_prod k w))"
  "(\<And>x y. logs_fit (snd (n x y z))) \<Longrightarrow> logs_fit (snd (case_prod n w z))"
  by (simp_all add: case_prod_beta)

lemma logs_fit_flush [simp]: "logs_fit s \<Longrightarrow> logs_fit (snd (session_journal_flush s))"
  unfolding session_journal_flush_def by (intro logs_fit_flow logs_fit_value) (simp_all add: logs_fit_sel)

lemma logs_fit_journal [simp]: "logs_fit s \<Longrightarrow> logs_fit (journal_add_event ty x b s)"
  unfolding journal_add_event_def by (intro logs_fit_flow logs_fit_value logs_fit_flush) (simp_all add: logs_fit_sel)

lemma logs_fit_flushv [simp]: "logs_fit s \<Longrightarrow> logs_fit (snd (flushv s))"
  unfolding flushv_def by (intro logs_fit_flow logs_fit_value) simp_all

lemma logs_fit_rotate [simp]:
  assumes "logs_fit s"
  shows "logs_fit (snd (rotate_jsonl_part s))"
proof -
  obtain ok s1 where f: "flushv s = (ok, s1)" by fastforce
  then have s1: "logs_fit s1" using logs_fit_flushv [OF assms] by simp
  define g where "g = (trn s1)\<lparr>tr_current_jsonl_part := tr_current_jsonl_part (trn s1) + 1,
    tr_jsonl_rotation_count := tr_jsonl_rotation_count (trn s1) + 1, tr_jsonl := []\<rparr>"
  define g2 where "g2 = g\<lparr>tr_jsonl_path := build_jsonl_part_path (tr_session_id g) (tr_current_jsonl_part g) VITA_STORAGE_PATH_MAX\<rparr>"
  have g2: "trn_fits g2" using s1 by (simp add: g2_def g_def logs_fit_sel)
  obtain c1 g3 where c1: "append_control_jsonl_event ''transcript_rotated'' ''jsonl part rotated'' g2 = (c1, g3)" by fastforce
  then have g3: "trn_fits g3" using trn_fits_control [OF g2] by (metis snd_conv)
  show ?thesis using s1 g3
    by (simp add: rotate_jsonl_part_def f Let_def g_def [symmetric] g2_def [symmetric] c1 case_prod_beta)
qed

lemma logs_fit_jsonl [simp]:
  assumes "logs_fit s"
  shows "logs_fit (snd (event_jsonl t a x s))"
proof -
  let ?g = "append_jsonl_line (build_jsonl_event_line 1024 (tr_seq (trn s) + 1) t a x (trn s)) (trn s)"
  obtain rok s2 where r: "rotate_jsonl_part (s\<lparr>trn := snd ?g\<rparr>) = (rok, s2)" by fastforce
  have s1: "logs_fit (s\<lparr>trn := snd ?g\<rparr>)" using assms by (simp add: logs_fit_sel)
  then have s2: "logs_fit s2" using logs_fit_rotate [OF s1] r by simp
  show ?thesis using assms s1 s2 by (simp add: event_jsonl_def Let_def case_prod_beta r logs_fit_sel)
qed

lemma logs_fit_error [simp]: "logs_fit s \<Longrightarrow> logs_fit (mark_transcript_error_once r s)"
  by (simp add: mark_transcript_error_once_def session_journal_log_system_def logs_fit_sel)

lemma logs_fit_event: "logs_fit s \<Longrightarrow> logs_fit (event t a x s)"
  unfolding event_def by (intro logs_fit_flow logs_fit_value logs_fit_error) (simp_all add: trn_fits_bufs logs_fit_sel)

section \<open>The audit state\<close>

lemma aud_fits_seq [simp]: "aud_fits (a\<lparr>au_event_seq := n\<rparr>) = aud_fits a"
  by (simp add: aud_fits_def)

lemma aud_fits_upd [simp]:
  "aud_fits a \<Longrightarrow> aud_fits (a\<lparr>au_prev_hash := copy_text 65 h\<rparr>)" "aud_fits a \<Longrightarrow> aud_fits (a\<lparr>au_db := d\<rparr>)"
  "aud_fits a \<Longrightarrow> aud_fits (a\<lparr>au_persistent_ready := b\<rparr>)" "aud_fits a \<Longrightarrow> aud_fits (a\<lparr>au_early_events := []\<rparr>)"
  by (simp_all add: aud_fits_def)

lemma aud_fits_zero [simp]: "aud_fits zero_audit"
  by (simp add: aud_fits_def zero_audit_def)

lemma aud_fits_append [simp]: "aud_fits (aud s) \<Longrightarrow> aud_fits (aud (snd (append_event_internal t m n s)))"
  by (simp add: append_event_internal_def insert_event_row_def unix_now_def Let_def case_prod_beta split: option.split)

lemma aud_fits_emit: "aud_fits (aud s) \<Longrightarrow> aud_fits (aud (audit_emit_boot_event t m s))"
  by (auto simp: audit_emit_boot_event_def monotonic_now_ns_def aud_fits_def [of "_\<lparr>au_early_events := _\<rparr>"])
    (auto simp: aud_fits_def)

lemma aud_fits_flush [simp]: "aud_fits (aud s) \<Longrightarrow> aud_fits (aud (flush_early evs s))"
  by (induction evs arbitrary: s) simp_all

section \<open>The other modules\<close>

lemma sto_fits_flags [fit]:
  "sto_fits t \<Longrightarrow> sto_fits (t\<lparr>st_bootstrap_attempted := b\<rparr>)" "sto_fits t \<Longrightarrow> sto_fits (t\<lparr>st_bootstrap_verified := b\<rparr>)"
  by simp_all

lemma sto_fits_init [fit]:
  "sto_fits (zero_storage\<lparr>st_handoff := h, st_initialized := b, st_writable := c, st_backend := k,
     st_backend_name := copy_text 32 x, st_root_hint := copy_text 64 y\<rparr>)"
  by (simp add: sto_fits_def zero_storage_def)

lemma peer_fits_upd [fit]:
  "peer_fits p \<Longrightarrow> peer_fits (p\<lparr>np_first_seen_unix := n\<rparr>)" "peer_fits p \<Longrightarrow> peer_fits (p\<lparr>np_last_seen_unix := n\<rparr>)"
  "peer_fits p \<Longrightarrow> peer_fits (p\<lparr>np_peer_id := copy_text 64 x\<rparr>)" "peer_fits p \<Longrightarrow> peer_fits (p\<lparr>np_link_state := copy_text 32 x\<rparr>)"
  "peer_fits p \<Longrightarrow> peer_fits (p\<lparr>np_capabilities_json := copy_text 256 x\<rparr>)"
  "peer_fits \<lparr>np_peer_id = copy_text 64 a, np_first_seen_unix = k, np_last_seen_unix = l, np_transport = copy_text 32 b,
     np_capabilities_json = copy_text 256 c, np_trust_state = copy_text 32 d, np_link_state = copy_text 32 e\<rparr>"
  by (simp_all add: peer_fits_def)

lemma nod_fits_upd [fit]:
  "nod_fits n \<Longrightarrow> nod_fits (n\<lparr>nd_peer_valid := b\<rparr>)" "nod_fits n \<Longrightarrow> nod_fits (n\<lparr>nd_link_pending := b\<rparr>)"
  "nod_fits n \<Longrightarrow> nod_fits (n\<lparr>nd_seed := copy_text 64 x\<rparr>)" "nod_fits n \<Longrightarrow> peer_fits p \<Longrightarrow> nod_fits (n\<lparr>nd_peer := p\<rparr>)"
  by (simp_all add: nod_fits_def)

lemma nod_fits_peer: "nod_fits n \<Longrightarrow> peer_fits (nd_peer n)"
  by (simp add: nod_fits_def)

lemma prp_fits_upd [fit]:
  "prp_fits []" "prp_fits ps \<Longrightarrow> prp_fits (ps[i := (ps ! i)\<lparr>sl_status := x\<rparr>])"
proof -
  show "prp_fits []" by (simp add: prp_fits_def)
  show "prp_fits (ps[i := (ps ! i)\<lparr>sl_status := x\<rparr>])" if "prp_fits ps"
  proof (cases "i < length ps")
    case True
    then show ?thesis using that by (auto simp: prp_fits_def dest!: set_update_subset_insert [THEN subsetD])
  next
    case False
    then show ?thesis using that by (simp add: list_update_beyond)
  qed
qed

lemma prp_fits_add:
  "prp_fits ps \<Longrightarrow> length ps < MAX_PROPOSALS \<Longrightarrow> sl_proposal_id p = id_from_index (length ps) \<Longrightarrow> prp_fits (ps @ [p])"
  by (simp add: prp_fits_def fits_def id_from_index_def Let_def)

lemma edi_fits_upd [fit]:
  "edi_fits e \<Longrightarrow> edi_fits (e\<lparr>ed_loaded_existing := b\<rparr>)" "edi_fits e \<Longrightarrow> edi_fits (e\<lparr>ed_destructive_change := b\<rparr>)"
  "edi_fits e \<Longrightarrow> edi_fits (e\<lparr>ed_save_confirmed := b\<rparr>)" "edi_fits e \<Longrightarrow> edi_fits (e\<lparr>ed_dirty := b\<rparr>)"
  "edi_fits e \<Longrightarrow> edi_fits (e\<lparr>ed_mode := m\<rparr>)" "edi_fits e \<Longrightarrow> edi_fits (e\<lparr>ed_text := []\<rparr>)"
  "edi_fits e \<Longrightarrow> edi_fits (e\<lparr>ed_text := str_append VITA_EDITOR_TEXT_MAX (ed_text e) (Some x)\<rparr>)"
  "edi_fits e \<Longrightarrow> edi_fits (e\<lparr>ed_text :=
     str_append VITA_EDITOR_TEXT_MAX (str_append VITA_EDITOR_TEXT_MAX (ed_text e) (Some x)) (Some y)\<rparr>)"
  "edi_fits e \<Longrightarrow> edi_fits (e\<lparr>ed_saveas_path := trim_right_in_place (copy_text VITA_STORAGE_PATH_MAX x)\<rparr>)"
  "edi_fits (zero_editor\<lparr>ed_path := copy_text VITA_STORAGE_PATH_MAX x, ed_mode := m\<rparr>)"
  by (simp_all add: edi_fits_def zero_editor_def)

lemma edi_fits_read:
  "edi_fits e \<Longrightarrow> edi_fits (e\<lparr>ed_text := snd (fst (storage_read_text p VITA_EDITOR_TEXT_MAX s))\<rparr>)"
  by (simp add: edi_fits_def fits_read)

lemma aig_fits_upd [fit]:
  "aig_fits zero_ai" "aig_fits \<lparr>ai_host = copy_text AI_GATEWAY_HOST_MAX x, ai_port = n, ai_endpoint_configured = b\<rparr>"
  by (simp_all add: aig_fits_def zero_ai_def)

lemma jrn_fits_reset [fit]:
  "jrn_fits j \<Longrightarrow> jrn_fits (journal_set_error ''ok'' \<lparr>jr_initialized = True, jr_active = b, jr_truncated = False,
     jr_last_flush_ok = False, jr_seq = 0, jr_jsonl = [], jr_text = [], jr_last_error = jr_last_error j\<rparr>)"
  by (simp add: jrn_fits_def journal_set_error_def)

section \<open>All arrays of the kernel\<close>

interpretation aiq: mute aig
  by unfold_locales (simp_all add: fs_put_def ticked_def storage_set_error_def upd_jrn_def upd_trn_def upd_con_def emit_out_def)

interpretation aiaq: audit_quiet aig by unfold_locales (simp_all add: ticked_def)

declare aiq.obs_talk [simp] aiaq.obs_audit [simp]

definition arrays_fit :: "'a ai_sys_scheme \<Rightarrow> bool" where
  "arrays_fit s \<longleftrightarrow> aud_fits (aud s) \<and> sto_fits (sto s) \<and> jrn_fits (jrn s) \<and> trn_fits (trn s) \<and>
     nod_fits (nod s) \<and> prp_fits (prp s) \<and> edi_fits (edi s) \<and> aig_fits (aig s)"

end
