(* ===== verification/Kernel_Steps.thy ===== *)
theory Kernel_Steps
  imports Static_Arrays
begin

text \<open>
  Every operation of the kernel's services is a sequence of small effects: a line on the terminal, a
  read from it, a file written through the storage facade, an audit event, a change of one module's
  statics. \<open>kernel_step\<close> lists them as a step relation; the lemmas of the collection \<open>kops\<close> show, operation
  by operation, that an operation takes its caller's state to a state reachable by steps. A property that
  every step keeps is then a property of every run of the kernel, by one rule induction.
\<close>

inductive kernel_step :: "'a ai_sys_scheme \<Rightarrow> 'a ai_sys_scheme \<Rightarrow> bool" where
  ks_out: "kernel_step s (emit_out e s)"
| ks_con: "kernel_step s (upd_con c s)"
| ks_input: "kernel_step s (s\<lparr>h_stdin := drop n (h_stdin s)\<rparr>)"
| ks_tick: "kernel_step s (ticked s)"
| ks_write: "kernel_step s (snd (storage_write_text p x s))"
| ks_repair: "kernel_step s (snd (storage_tree_repair s))"
| ks_event: "kernel_step s (event ty a x s)"
| ks_audit: "kernel_step s (audit_emit_boot_event t m s)"
| ks_sql: "(\<forall>r. q \<noteq> SqlStep (RowEvent r)) \<Longrightarrow> kernel_step s (snd (sqlite db q s))"
| ks_sto: "(sto_fits (sto s) \<longrightarrow> sto_fits st) \<Longrightarrow> kernel_step s (s\<lparr>sto := st\<rparr>)"
| ks_jrn: "(jrn_fits (jrn s) \<longrightarrow> jrn_fits j) \<Longrightarrow> kernel_step s (s\<lparr>jrn := j\<rparr>)"
| ks_trn: "(trn_fits (trn s) \<longrightarrow> trn_fits g) \<Longrightarrow> kernel_step s (s\<lparr>trn := g\<rparr>)"
| ks_net: "kernel_step s (s\<lparr>net := v\<rparr>)"
| ks_nod: "(nod_fits (nod s) \<longrightarrow> nod_fits n) \<Longrightarrow> kernel_step s (s\<lparr>nod := n\<rparr>)"
| ks_prp: "(prp_fits (prp s) \<longrightarrow> prp_fits ps) \<Longrightarrow> kernel_step s (s\<lparr>prp := ps\<rparr>)"
| ks_edi: "(edi_fits (edi s) \<longrightarrow> edi_fits ed) \<Longrightarrow> kernel_step s (s\<lparr>edi := ed\<rparr>)"
| ks_aig: "(aig_fits (aig s) \<longrightarrow> aig_fits ai) \<Longrightarrow> kernel_step s (s\<lparr>aig := ai\<rparr>)"

abbreviation runs :: "'a ai_sys_scheme \<Rightarrow> 'a ai_sys_scheme \<Rightarrow> bool" where
  "runs \<equiv> kernel_step\<^sup>*\<^sup>*"

named_theorems kops \<open>operations as sequences of steps\<close>
named_theorems kflow \<open>the control flow of an operation\<close>

lemmas runs_step = rtranclp.rtrancl_into_rtrancl [of kernel_step]

section \<open>Control flow\<close>

lemma runs_if [kflow]:
  "(c \<Longrightarrow> runs s a) \<Longrightarrow> (\<not> c \<Longrightarrow> runs s b) \<Longrightarrow> runs s (if c then a else b)"
  "(c \<Longrightarrow> runs s (snd p)) \<Longrightarrow> (\<not> c \<Longrightarrow> runs s (snd q)) \<Longrightarrow> runs s (snd (if c then p else q))"
  by simp_all

lemma runs_let [kflow]:
  "runs s t \<Longrightarrow> (\<And>u. runs s u \<Longrightarrow> runs s (f u)) \<Longrightarrow> runs s (Let t f)"
  "runs s t \<Longrightarrow> (\<And>u. runs s u \<Longrightarrow> runs s (snd (g u))) \<Longrightarrow> runs s (snd (Let t g))"
  by simp_all

lemma runs_let_pair [kflow]:
  "runs s (snd p) \<Longrightarrow> (\<And>r u. runs s u \<Longrightarrow> runs s (f r u)) \<Longrightarrow> runs s (Let p (case_prod f))"
  "runs s (snd p) \<Longrightarrow> (\<And>r u. runs s u \<Longrightarrow> runs s (snd (g r u))) \<Longrightarrow> runs s (snd (Let p (case_prod g)))"
  "runs s (snd p) \<Longrightarrow> (\<And>r u. runs s u \<Longrightarrow> runs s (f r u)) \<Longrightarrow> runs s (case_prod f p)"
  "runs s (snd p) \<Longrightarrow> (\<And>r u. runs s u \<Longrightarrow> runs s (snd (g r u))) \<Longrightarrow> runs s (snd (case_prod g p))"
  by (simp_all add: case_prod_beta)

lemma runs_let_value:
  "(\<And>x. runs s (f x)) \<Longrightarrow> runs s (Let v f)"
  "(\<And>x. runs s (snd (g x))) \<Longrightarrow> runs s (snd (Let v g))"
  "(\<And>x y. runs s (h x y)) \<Longrightarrow> runs s (case_prod h w)"
  "(\<And>x y. runs s (snd (k x y))) \<Longrightarrow> runs s (snd (case_prod k w))"
  "(\<And>x y. runs s (m x y z)) \<Longrightarrow> runs s (case_prod m w z)"
  "(\<And>x y. runs s (snd (n x y z))) \<Longrightarrow> runs s (snd (case_prod n w z))"
  by (simp_all add: case_prod_beta)

lemma runs_option [kflow]:
  "runs s a \<Longrightarrow> (\<And>x. runs s (f x)) \<Longrightarrow> runs s (case_option a f v)"
  "runs s (snd p) \<Longrightarrow> (\<And>x. runs s (snd (g x))) \<Longrightarrow> runs s (snd (case_option p g v))"
  by (simp_all split: option.split)

lemma runs_list [kflow]:
  "runs s a \<Longrightarrow> (\<And>x xs. runs s (f x xs)) \<Longrightarrow> runs s (case_list a f v)"
  "runs s (snd p) \<Longrightarrow> (\<And>x xs. runs s (snd (g x xs))) \<Longrightarrow> runs s (snd (case_list p g v))"
  by (simp_all split: list.split)

lemma runs_pair [kflow]: "runs s t \<Longrightarrow> runs s (snd (r, t))"
  by simp

lemma runs_fold [kflow]:
  "runs s t \<Longrightarrow> (\<And>x u. runs s u \<Longrightarrow> runs s (f x u)) \<Longrightarrow> runs s (fold f xs t)"
  by (induction xs arbitrary: t) simp_all

section \<open>The steps, after a run\<close>

lemma runs_prims [kops]:
  assumes "runs s t"
  shows "runs s (emit_out e t)" "runs s (upd_con c t)" "runs s (t\<lparr>h_stdin := drop k (h_stdin t)\<rparr>)" "runs s (ticked t)"
    "runs s (snd (storage_write_text p x t))" "runs s (snd (storage_tree_repair t))" "runs s (event ty a b t)"
    "runs s (audit_emit_boot_event ev m t)" "runs s (t\<lparr>net := v\<rparr>)"
  by (rule runs_step [OF assms], rule kernel_step.intros)+

lemma runs_fields [kops]:
  assumes "runs s t"
  shows "(sto_fits (sto t) \<Longrightarrow> sto_fits st) \<Longrightarrow> runs s (t\<lparr>sto := st\<rparr>)" "(jrn_fits (jrn t) \<Longrightarrow> jrn_fits j) \<Longrightarrow> runs s (t\<lparr>jrn := j\<rparr>)"
    "(trn_fits (trn t) \<Longrightarrow> trn_fits g) \<Longrightarrow> runs s (t\<lparr>trn := g\<rparr>)" "(nod_fits (nod t) \<Longrightarrow> nod_fits n) \<Longrightarrow> runs s (t\<lparr>nod := n\<rparr>)"
    "(prp_fits (prp t) \<Longrightarrow> prp_fits ps) \<Longrightarrow> runs s (t\<lparr>prp := ps\<rparr>)" "(edi_fits (edi t) \<Longrightarrow> edi_fits ed) \<Longrightarrow> runs s (t\<lparr>edi := ed\<rparr>)"
    "(aig_fits (aig t) \<Longrightarrow> aig_fits ai) \<Longrightarrow> runs s (t\<lparr>aig := ai\<rparr>)"
  by (rule runs_step [OF assms], rule kernel_step.intros, blast)+

lemma runs_sql [kops]: "runs s t \<Longrightarrow> (\<And>r. q \<noteq> SqlStep (RowEvent r)) \<Longrightarrow> runs s (snd (sqlite db q t))"
  by (rule runs_step) (auto intro: ks_sql)

lemma runs_upd [kops]:
  assumes "runs s t"
  shows "(\<And>x. sto_fits x \<Longrightarrow> sto_fits (fs x)) \<Longrightarrow> runs s (upd_sto fs t)" "(\<And>x. jrn_fits x \<Longrightarrow> jrn_fits (fj x)) \<Longrightarrow> runs s (upd_jrn fj t)"
    "(\<And>x. trn_fits x \<Longrightarrow> trn_fits (ft x)) \<Longrightarrow> runs s (upd_trn ft t)" "(\<And>x. nod_fits x \<Longrightarrow> nod_fits (fn x)) \<Longrightarrow> runs s (upd_nod fn t)"
    "(\<And>x. peer_fits x \<Longrightarrow> peer_fits (fp x)) \<Longrightarrow> runs s (upd_peer fp t)" "(\<And>x. prp_fits x \<Longrightarrow> prp_fits (fr x)) \<Longrightarrow> runs s (upd_prp fr t)"
    "(\<And>x. edi_fits x \<Longrightarrow> edi_fits (fe x)) \<Longrightarrow> runs s (upd_edi fe t)" "(\<And>x. aig_fits x \<Longrightarrow> aig_fits (fa x)) \<Longrightarrow> runs s (upd_aig fa t)"
    "runs s (storage_set_error er t)"
  unfolding upd_sto_def upd_jrn_def upd_trn_def upd_nod_def upd_peer_def upd_prp_def upd_edi_def upd_aig_def
    storage_set_error_def
  by (rule runs_fields [OF assms]; simp add: nod_fits_def)+

declare fit [kops]

section \<open>The console\<close>

lemma runs_raw [kops]: "runs s t \<Longrightarrow> runs s (console_write_raw x t)"
  unfolding console_write_raw_def host_console_write_raw_def host_console_write_def
  by (intro kops kflow) assumption+

lemma runs_style [kops]:
  "runs s t \<Longrightarrow> runs s (console_set_style st t)" "runs s t \<Longrightarrow> runs s (console_reset_style t)" "runs s t \<Longrightarrow> runs s (console_prompt_begin t)"
    "runs s t \<Longrightarrow> runs s (console_prompt_end t)" "runs s t \<Longrightarrow> runs s (console_input_style_begin t)" "runs s t \<Longrightarrow> runs s (console_input_style_end t)"
  unfolding console_set_style_def console_prompt_begin_def console_prompt_end_def console_reset_style_def
    console_input_style_begin_def console_input_style_end_def
  by (intro kops kflow; assumption)+

lemma fgets_loop_drop: "\<exists>k. snd (fgets_loop n t) = drop k t"
  using fgets_loop_append [of n t] append_eq_conv_conj [of "fst (fgets_loop n t)" "snd (fgets_loop n t)" t] by auto

lemma runs_host_read: "runs s t \<Longrightarrow> runs s (snd (host_console_read_line cap t))"
  using fgets_loop_drop [of "cap - 1" "h_stdin t"]
  by (auto simp: host_console_read_line_def Let_def case_prod_beta intro: kops)

lemma runs_read_line [kops]: "runs s t \<Longrightarrow> runs s (snd (console_read_line cap t))"
  unfolding console_read_line_def
  by (intro kops kflow runs_host_read) assumption+

lemma runs_pager [kops]:
  "runs s t \<Longrightarrow> runs s (console_pager_after_line t)" "runs s t \<Longrightarrow> runs s (console_pager_begin n t)" "runs s t \<Longrightarrow> runs s (console_pager_end t)"
  unfolding console_pager_after_line_def console_pager_begin_def console_pager_end_def
  by (intro kops kflow; assumption)+

lemma runs_log_output [kops]: "runs s t \<Longrightarrow> runs s (session_transcript_log_system_output x r t)"
  unfolding session_transcript_log_system_output_def
  by (intro kops kflow runs_let_value) assumption+

lemma runs_say [kops]: "runs s t \<Longrightarrow> runs s (console_write_line x t)"
  unfolding console_write_line_def host_console_write_def
  by (intro kops kflow) assumption+

lemma runs_say_all [kops]: "runs s t \<Longrightarrow> runs s (say_all xs t)"
  unfolding say_all_def by (intro kops kflow) assumption+

lemma runs_say_error [kops]: "runs s t \<Longrightarrow> runs s (say_error t)"
  unfolding say_error_def by (intro kops)

lemma runs_styled [kops]: "runs s t \<Longrightarrow> runs s (console_write_styled st p x t)"
  unfolding console_write_styled_def by (intro kops kflow runs_let_value) assumption+

lemma runs_writers [kops]:
  "runs s t \<Longrightarrow> runs s (console_write_en x t)" "runs s t \<Longrightarrow> runs s (console_write_es x t)" "runs s t \<Longrightarrow> runs s (console_write_error x t)"
    "runs s t \<Longrightarrow> runs s (console_write_ok x t)" "runs s t \<Longrightarrow> runs s (console_write_warning x t)" "runs s t \<Longrightarrow> runs s (console_write_editor_text x t)"
    "runs s t \<Longrightarrow> runs s (console_write_kv k v t)" "runs s t \<Longrightarrow> runs s (console_write_kv_u32 k w t)" "runs s t \<Longrightarrow> runs s (console_clear_screen t)"
  unfolding console_write_en_def console_write_es_def console_write_error_def console_write_ok_def
    console_write_warning_def console_write_editor_text_def console_write_kv_u32_def console_write_kv_def
    console_clear_screen_def host_console_clear_def
  by (intro kops kflow; assumption)+

lemma runs_screens [kops]:
  "runs s t \<Longrightarrow> runs s (console_banner bs t)" "runs s t \<Longrightarrow> runs s (console_guided_show_welcome cs t)" "runs s t \<Longrightarrow> runs s (console_guided_show_menu t)"
    "runs s t \<Longrightarrow> runs s (console_guided_show_help t)" "runs s t \<Longrightarrow> runs s (console_guided_show_status cs t)" "runs s t \<Longrightarrow> runs s (console_guided_prompt t)"
    "runs s t \<Longrightarrow> runs s (console_early_init t)"
  unfolding console_banner_def console_guided_show_welcome_def console_guided_show_menu_def
    console_guided_show_help_def console_guided_show_status_def console_guided_prompt_def console_early_init_def
  by (intro kops kflow runs_let_value; assumption)+

section \<open>Storage, journal and audit\<close>

lemma runs_storage_read [kops]:
  "runs s t \<Longrightarrow> runs s (snd (storage_read_text p cap t))"
  unfolding storage_read_text_def hosted_read_text_def
  by (intro kops kflow runs_let_value; assumption)+

lemma runs_check_loop [kops]: "runs s t \<Longrightarrow> runs s (snd (check_loop ds t))"
  by (induction ds arbitrary: t) (auto intro!: kops)

lemma runs_storage [kops]:
  "runs s t \<Longrightarrow> runs s (snd (storage_tree_check t))"
    "runs s t \<Longrightarrow> runs s (snd (storage_init h t))"
    "runs s t \<Longrightarrow> runs s (snd (storage_list_notes t))"
    "runs s t \<Longrightarrow> runs s (storage_show_status t)"
  unfolding storage_tree_check_def storage_init_def storage_list_notes_def hosted_list_notes_def
    storage_show_status_def
  by (intro kops kflow runs_let_value; assumption)+

lemma runs_bootstrap [kops]:
  "runs s t \<Longrightarrow> runs s (snd (storage_bootstrap_persistent_tree t))"
  unfolding storage_bootstrap_persistent_tree_def
  by (intro kops kflow runs_let_value; assumption)+

lemma runs_storage_commands [kops]:
  "runs s t \<Longrightarrow> runs s (snd (storage_command_test t))"
    "runs s t \<Longrightarrow> runs s (snd (storage_command_write x t))"
    "runs s t \<Longrightarrow> runs s (snd (storage_command_read x t))"
    "runs s t \<Longrightarrow> runs s (snd (storage_command_probe t))"
    "runs s t \<Longrightarrow> runs s (snd (storage_command_list_notes t))"
    "runs s t \<Longrightarrow> runs s (snd (storage_repair_command t))"
  unfolding storage_command_test_def storage_command_write_def storage_command_read_def
    storage_command_probe_def storage_command_list_notes_def storage_repair_command_def
  by (intro kops kflow runs_let_value; assumption)+

lemma runs_storage_handle [kops]:
  "runs s t \<Longrightarrow> runs s (snd (storage_handle_command cmd t))"
  unfolding storage_handle_command_def
  by (intro kops kflow runs_let_value; assumption)+

lemma runs_journal_flush [kops]:
  "runs s t \<Longrightarrow> runs s (snd (session_journal_flush t))"
  unfolding session_journal_flush_def
  by (intro kops kflow runs_let_value; assumption)+

lemma runs_journal_event [kops]:
  "runs s t \<Longrightarrow> runs s (journal_add_event ty x b t)"
    "runs s t \<Longrightarrow> runs s (session_journal_log_system e z t)"
  unfolding session_journal_log_system_def journal_add_event_def
  by (intro kops kflow runs_let_value; assumption)+

lemma runs_journal_init [kops]:
  "runs s t \<Longrightarrow> runs s (snd (session_journal_init t))"
  unfolding session_journal_init_def journal_reset_def
  by (intro kops kflow runs_let_value; assumption)+

lemma runs_print_text_loop [kops]: "runs s t \<Longrightarrow> runs s (snd (print_text_loop n i l t))"
  by (induction n arbitrary: i l t) (auto simp: Let_def kops)

lemma runs_journal_screens [kops]:
  "runs s t \<Longrightarrow> runs s (session_journal_show_status t)"
    "runs s t \<Longrightarrow> runs s (journal_print_text t)"
    "runs s t \<Longrightarrow> runs s (journal_show_last_session_file t)"
    "runs s t \<Longrightarrow> runs s (journal_recover t)"
  unfolding session_journal_show_status_def journal_print_text_def journal_recover_def
    journal_show_last_session_file_def
  by (intro kops kflow runs_let_value; assumption)+

lemma runs_journal_handle [kops]:
  "runs s t \<Longrightarrow> runs s (snd (session_journal_handle_command cmd t))"
  unfolding session_journal_handle_command_def
  by (intro kops kflow runs_let_value; assumption)+

lemma runs_clock [kops]:
  "runs s t \<Longrightarrow> runs s (snd (unix_now t))"
    "runs s t \<Longrightarrow> runs s (snd (monotonic_now_ns t))"
    "runs s t \<Longrightarrow> runs s (snd (uname_machine t))"
    "runs s t \<Longrightarrow> runs s (snd (hw_discovery_run h t))"
  unfolding hw_discovery_run_def unix_now_def monotonic_now_ns_def uname_machine_def
  by (intro kops kflow runs_let_value; assumption)+

lemma runs_audit [kops]:
  "runs s t \<Longrightarrow> runs s (snd (audit_persist_hardware_snapshot hw t))"
    "runs s t \<Longrightarrow> runs s (snd (audit_persist_ai_proposal p t))"
    "runs s t \<Longrightarrow> runs s (snd (audit_persist_human_response i r t))"
    "runs s t \<Longrightarrow> runs s (snd (audit_upsert_node_peer q t))"
    "runs s t \<Longrightarrow> runs s (snd (audit_export_recent_event_block b cap t))"
  unfolding audit_persist_hardware_snapshot_def audit_persist_ai_proposal_def audit_persist_human_response_def
    audit_upsert_node_peer_def audit_export_recent_event_block_def
  by (intro kops kflow runs_let_value; (assumption | simp))+

section \<open>Transcript, nodes and proposals\<close>

lemma runs_transcript_log [kops]:
  "runs s t \<Longrightarrow> runs s (session_transcript_log_user_input x t)"
    "runs s t \<Longrightarrow> runs s (session_transcript_log_command_executed x t)"
    "runs s t \<Longrightarrow> runs s (session_transcript_log_editor_event y x t)"
    "runs s t \<Longrightarrow> runs s (session_transcript_log_storage_status x t)"
    "runs s t \<Longrightarrow> runs s (session_transcript_log_journal_status x t)"
    "runs s t \<Longrightarrow> runs s (session_transcript_shutdown t)"
  unfolding session_transcript_log_user_input_def session_transcript_log_command_executed_def
    session_transcript_log_editor_event_def session_transcript_log_storage_status_def
    session_transcript_log_journal_status_def session_transcript_shutdown_def
  by (intro kops kflow runs_let_value; assumption)+

lemma runs_find_session [kops]: "runs s t \<Longrightarrow> runs s (snd (find_session i t))"
proof (induction "999999 - i" arbitrary: i t)
  case 0
  then show ?case by (subst find_session.simps) simp
next
  case (Suc n)
  let ?t = "snd (storage_read_text (Some (txt_path_of (u6 (of_nat i)))) 8 t)"
  have "runs s (snd (find_session (i + 1) ?t))" using Suc by (intro Suc.hyps kops) simp_all
  then show ?case
    by (subst find_session.simps) (simp add: Let_def case_prod_beta runs_storage_read Suc.prems)
qed

lemma runs_prev_parts [kops]: "runs s t \<Longrightarrow> runs s (snd (prev_parts_loop prev ks r t))"
  by (induction ks arbitrary: r t) (auto simp: Let_def case_prod_beta kops)

lemma runs_transcript_init [kops]:
  "runs s t \<Longrightarrow> runs s (check_previous_session i t)"
    "runs s t \<Longrightarrow> runs s (mark_transcript_error_once e t)"
  unfolding check_previous_session_def mark_transcript_error_once_def
  by (intro kops kflow runs_let_value; assumption)+

lemma runs_transcript_start [kops]:
  assumes "runs s t"
  shows "runs s (snd (session_transcript_init h a t))"
proof -
  define g0 where "g0 = zero_transcript\<lparr>tr_initialized := True, tr_current_jsonl_part := 1,
    tr_state := copy_text 32 ''degraded'', tr_identity := init_identity h a\<rparr>"
  define g1 where "g1 = (case audit_get_identity 64 64 t of None \<Rightarrow> g0
    | Some (b, n) \<Rightarrow> g0\<lparr>tr_identity := (tr_identity g0)\<lparr>id_boot_id := copy_text 64 b, id_node_id := copy_text 64 n\<rparr>\<rparr>)"
  obtain hw s1 where hw: "hw_discovery_run h t = (hw, s1)" by fastforce
  define g2 where "g2 = g1\<lparr>tr_identity := (tr_identity g1)\<lparr>
    id_cpu_model := copy_text 128 (if hw_cpu_model hw \<noteq> [] then hw_cpu_model hw else unknown_text),
    id_ram_bytes := hw_ram_bytes hw,
    id_storage_backend := copy_text 32 (if st_backend_name (storage_get_status s1) \<noteq> [] then st_backend_name (storage_get_status s1) else unknown_text),
    id_storage_state := copy_text 32 (if st_bootstrap_verified (storage_get_status s1) then ''verified'' else ''degraded'')\<rparr>\<rparr>"
  let ?s2 = "s1\<lparr>trn := g2\<rparr>"
  have "trn_fits g0" by (simp add: g0_def trn_fits_def zero_transcript_def idn_fits_init)
  then have "trn_fits g1" by (auto simp: g1_def trn_fits_def split: option.split)
  then have "trn_fits g2" by (simp add: g2_def trn_fits_def)
  moreover have "runs s s1" using runs_clock(4) [OF assms, of h] by (simp add: hw)
  ultimately have s2: "runs s ?s2" by (intro runs_fields)
  note start = session_transcript_init_def Let_def g0_def [symmetric] g1_def [symmetric] hw case_prod_conv g2_def [symmetric]
  show ?thesis
  proof (cases "storage_is_bootstrap_verified ?s2")
    case False
    have "runs s (mark_transcript_error_once ''storage_not_verified'' ?s2)" by (intro kops s2)
    then show ?thesis using False unfolding start by simp
  next
    case True
    obtain i found s3 where f: "find_session 1 ?s2 = ((i, found), s3)" by (metis prod.collapse)
    have s3: "runs s s3" using runs_find_session [OF s2, of 1] unfolding f by simp
    define sid where "sid = (if found then apc 64 (copy_text 64 ''session-'') (u6 (of_nat i)) else copy_text 64 ''session-boot-unknown'')"
    define g3 where "g3 = (trn s3)\<lparr>tr_session_id := sid,
      tr_txt_path := apcs VITA_STORAGE_PATH_MAX [sid, ''.txt''] (copy_text VITA_STORAGE_PATH_MAX SESSIONS_DIR),
      tr_jsonl_path := build_jsonl_part_path sid 1 VITA_STORAGE_PATH_MAX,
      tr_jsonl_primary_path := copy_text VITA_STORAGE_PATH_MAX (build_jsonl_part_path sid 1 VITA_STORAGE_PATH_MAX)\<rparr>"
    define g4 where "g4 = g3\<lparr>tr_txt := fold (\<lambda>t b. ap TRANSCRIPT_BUFFER b t) (session_header g3) (tr_txt g3),
      tr_active := True, tr_state := copy_text 32 ''active''\<rparr>"
    have "trn_fits g4" if "trn_fits (trn s3)" using that by (simp add: g4_def g3_def sid_def trn_fits_def)
    then have "runs s (check_previous_session i (event ''session_start'' ''system'' ''transcript started'' (s3\<lparr>trn := g4\<rparr>)))"
      by (intro runs_fields kops s3)
    then show ?thesis using True unfolding start
      by (simp only: f case_prod_conv sid_def [symmetric] g3_def [symmetric] g4_def [symmetric] simp_thms if_False snd_conv)
  qed
qed

lemma runs_sockets [kops]:
  "runs s t \<Longrightarrow> runs s (snd (socket_open t))"
    "runs s t \<Longrightarrow> runs s (snd (udp_send a m t))"
    "runs s t \<Longrightarrow> runs s (snd (udp_recv c t))"
    "runs s t \<Longrightarrow> runs s (send_control_message e m t)"
  unfolding send_control_message_def socket_open_def udp_send_def udp_recv_def
  by (intro kops kflow runs_let_value; assumption)+

lemma runs_peer [kops]:
  "runs s t \<Longrightarrow> runs s (ensure_peer_defaults t)"
    "runs s t \<Longrightarrow> runs s (create_link_proposal_if_needed t)"
    "runs s t \<Longrightarrow> runs s (seen_now t)"
    "runs s t \<Longrightarrow> runs s (record_peer ev t)"
    "runs s t \<Longrightarrow> runs s (set_link st t)"
    "runs s t \<Longrightarrow> runs s (link_done t)"
  unfolding ensure_peer_defaults_def create_link_proposal_if_needed_def seen_now_def record_peer_def
    set_link_def link_done_def
  by (intro kops kflow runs_let_value; assumption)+

lemma runs_message [kops]:
  "runs s t \<Longrightarrow> runs s (handle_message m t)"
  unfolding handle_message_def
  by (intro kops kflow runs_let_value; assumption)+

lemma runs_receive_loop [kops]: "runs s t \<Longrightarrow> runs s (receive_loop n t)"
  by (induction n arbitrary: t) (simp_all add: case_prod_beta kops split: option.split)

lemma runs_node_start [kops]:
  "runs s t \<Longrightarrow> runs s (snd (node_core_start h t))"
  unfolding node_core_start_def
  by (intro kops kflow runs_let_value; assumption)+

lemma runs_node_screens [kops]:
  "runs s t \<Longrightarrow> runs s (node_core_show_peers t)"
    "runs s t \<Longrightarrow> runs s (node_core_show_link_proposal t)"
    "runs s t \<Longrightarrow> runs s (snd (node_core_handle_link_response i a t))"
  unfolding node_core_show_peers_def node_core_show_link_proposal_def node_core_handle_link_response_def
  by (intro kops kflow runs_let_value; assumption)+

lemma runs_add_proposal [kops]:
  assumes "runs s t"
  shows "runs s (add_proposal ty x r k b t)"
proof (cases "length (prp t) < MAX_PROPOSALS")
  case True
  let ?p = "\<lparr>sl_proposal_id = id_from_index (length (prp t)), sl_proposal_type = ty, sl_summary = x, sl_rationale = r,
    sl_risk_level = k, sl_benefit_level = b, sl_requires_human_confirmation = True, sl_status = ''PENDING''\<rparr>"
  let ?u = "audit_emit ''AI_PROPOSAL_CREATED'' (sl_proposal_id ?p) (snd (audit_persist_ai_proposal (Some (row_of_slot ?p)) t))"
  have "runs s (?u\<lparr>prp := prp ?u @ [?p]\<rparr>)"
    using True by (intro runs_fields kops assms prp_fits_add) simp_all
  then show ?thesis using True by (simp add: add_proposal_def upd_prp_def Let_def)
next
  case False
  then show ?thesis using assms by (simp add: add_proposal_def)
qed

lemma runs_proposal [kops]:
  "runs s t \<Longrightarrow> runs s (show_proposal sl t)"
    "runs s t \<Longrightarrow> runs s (proposal_engine_reset t)"
  unfolding show_proposal_def proposal_engine_reset_def
  by (intro kops kflow runs_let_value; assumption)+

lemma runs_proposals [kops]:
  "runs s t \<Longrightarrow> runs s (proposal_generate_initial h hw a t)"
    "runs s t \<Longrightarrow> runs s (proposal_show_all t)"
    "runs s t \<Longrightarrow> runs s (answer_proposal ok i t)"
  unfolding proposal_generate_initial_def proposal_show_all_def answer_proposal_def
  by (intro kops kflow runs_let_value; assumption)+

lemma runs_proposal_handle [kops]:
  "runs s t \<Longrightarrow> runs s (snd (proposal_handle_command cmd t))"
  unfolding proposal_handle_command_def
  by (intro kops kflow runs_let_value; assumption)+

section \<open>The editor, the AI gateway and the exports\<close>

lemma runs_editor_screens [kops]:
  "runs s t \<Longrightarrow> runs s (editor_show_help t)"
    "runs s t \<Longrightarrow> runs s (editor_show_frame x t)"
    "runs s t \<Longrightarrow> runs s (editor_show_command_bar t)"
    "runs s t \<Longrightarrow> runs s (editor_show_current_text t)"
    "runs s t \<Longrightarrow> runs s (editor_show_status t)"
    "runs s t \<Longrightarrow> runs s (editor_show_notes_help t)"
  unfolding editor_show_help_def editor_show_frame_def editor_show_command_bar_def editor_show_current_text_def
    editor_show_status_def editor_show_notes_help_def
  by (intro kops kflow runs_let_value; assumption)+

lemma runs_editor_text [kops]:
  "runs s t \<Longrightarrow> runs s (snd (editor_append_text_raw x t))"
    "runs s t \<Longrightarrow> runs s (snd (editor_ensure_newline_before_append t))"
    "runs s t \<Longrightarrow> runs s (snd (editor_append_line x t))"
    "runs s t \<Longrightarrow> runs s (destroy_text t)"
  unfolding editor_ensure_newline_before_append_def editor_append_text_raw_def editor_append_line_def
    destroy_text_def
  by (intro kops kflow runs_let_value; assumption)+

lemma runs_editor_save [kops]:
  "runs s t \<Longrightarrow> runs s (snd (note_bootstrap_if_missing x t))"
    "runs s t \<Longrightarrow> runs s (snd (editor_save_to_path x f t))"
    "runs s t \<Longrightarrow> runs s (snd (editor_saveas x t))"
  unfolding note_bootstrap_if_missing_def editor_saveas_def editor_save_to_path_def
  by (intro kops kflow runs_let_value; assumption)+

lemma runs_editor_line [kops]:
  "runs s t \<Longrightarrow> runs s (snd (editor_line x t))"
  unfolding editor_line_def
  by (intro kops kflow runs_let_value; assumption)+

lemma runs_editor_loop [kops]: "runs s t \<Longrightarrow> runs s (snd (editor_loop t))"
proof (induction t rule: editor_loop.induct)
  case (1 t)
  let ?p = "if ed_mode (edi t) = EDITOR_OPEN_APPEND then ''append> '' else ''edit> ''"
  obtain ok l t1 where r: "console_read_line VITA_EDITOR_LINE_MAX (console_write_raw (Some ?p) t) = ((ok, l), t1)"
    by (metis prod.collapse)
  then have t1: "runs s t1" using runs_read_line [OF runs_raw [OF 1(2)], of VITA_EDITOR_LINE_MAX "Some ?p"] by simp
  obtain res t2 where l: "editor_line (trim_right_in_place l) t1 = (res, t2)" by fastforce
  then have t2: "runs s t2" using runs_editor_line [OF t1, of "trim_right_in_place l"] by simp
  show ?case
  proof (cases "ok \<and> res = None")
    case True
    then show ?thesis using 1(1) r l t2 by (subst editor_loop.simps) simp
  next
    case False
    then show ?thesis using r l t1 t2 by (subst editor_loop.simps) (cases ok; auto simp: runs_say)
  qed
qed

lemma runs_editor_begin [kops]:
  assumes "runs s t"
  shows "runs s (editor_begin x m t)"
proof -
  let ?s1 = "upd_edi (\<lambda>_. zero_editor\<lparr>ed_path := copy_text VITA_STORAGE_PATH_MAX x, ed_mode := m\<rparr>) t"
  let ?rd = "storage_read_text (Some (ed_path (edi ?s1))) VITA_EDITOR_TEXT_MAX ?s1"
  define s3 where "s3 = upd_edi (\<lambda>e. e\<lparr>ed_text := snd (fst ?rd)\<rparr>) (snd ?rd)"
  have "runs s s3" unfolding s3_def by (intro kops assms edi_fits_read)
  then show ?thesis unfolding editor_begin_def Let_def case_prod_beta s3_def [symmetric]
    by (intro kops kflow)
qed

lemma runs_editor_run [kops]:
  "runs s t \<Longrightarrow> runs s (snd (editor_run x m t))"
  unfolding editor_run_def
  by (intro kops kflow runs_let_value; assumption)+

lemma runs_run_ok [kflow]: "runs s (snd p) \<Longrightarrow> runs s (snd (run_ok p))"
  by (simp add: run_ok_def)

lemma runs_editor_handle [kops]:
  "runs s t \<Longrightarrow> runs s (snd (editor_handle_command cmd t))"
  unfolding editor_handle_command_def
  by (intro kops kflow runs_let_value; assumption)+

lemma runs_ai [kops]:
  "runs s t \<Longrightarrow> runs s (write_endpoint_line t)"
    "runs s t \<Longrightarrow> runs s (ai_gateway_show_help t)"
    "runs s t \<Longrightarrow> runs s (ai_gateway_show_status t)"
    "runs s t \<Longrightarrow> runs s (ai_gateway_connect x t)"
    "runs s t \<Longrightarrow> runs s (ai_gateway_disconnect t)"
    "runs s t \<Longrightarrow> runs s (ai_gateway_ask x t)"
  unfolding ai_gateway_show_status_def ai_gateway_connect_def ai_gateway_disconnect_def ai_gateway_ask_def
    write_endpoint_line_def ai_gateway_show_help_def
  by (intro kops kflow runs_let_value; assumption)+

lemma runs_ai_handle [kops]:
  "runs s t \<Longrightarrow> runs s (snd (ai_gateway_handle_command cmd t))"
  unfolding ai_gateway_handle_command_def
  by (intro kops kflow runs_let_value; assumption)+

lemma runs_count_parts [kops]: "runs s t \<Longrightarrow> runs s (snd (count_parts k b p c t))"
  by (induction k arbitrary: p c t) (simp_all add: Let_def case_prod_beta kops)

lemma runs_paths_line [kops]:
  "runs s t \<Longrightarrow> runs s (snd (append_paths_line t b))"
    "runs s t \<Longrightarrow> runs s (snd (write_read_match cap p x t))"
  unfolding append_paths_line_def write_read_match_def
  by (intro kops kflow runs_let_value; assumption)+

lemma runs_exports [kops]:
  "runs s t \<Longrightarrow> runs s (snd (session_export_write_report cx t))"
    "runs s t \<Longrightarrow> runs s (snd (session_export_write_jsonl cx t))"
  unfolding session_export_write_report_def session_export_write_jsonl_def
  by (intro kops kflow runs_let_value; assumption)+

lemma runs_power [kops]:
  "runs s t \<Longrightarrow> runs s (power_preflight a t)"
    "runs s t \<Longrightarrow> runs s (power_show_status cx t)"
  unfolding power_preflight_def power_show_status_def
  by (intro kops kflow runs_let_value; assumption)+

lemma runs_power_request [kops]:
  "runs s t \<Longrightarrow> runs s (snd (power_request a t))"
  "runs s t \<Longrightarrow> runs s (snd (power_handle_command c cx t))"
  by (simp_all add: power_request_def power_handle_command_def Let_def kops split: option.split)

section \<open>What every run keeps\<close>

inductive_cases kernel_stepE: "kernel_step s t"

lemma step_stdin: "kernel_step s t \<Longrightarrow> length (h_stdin t) \<le> length (h_stdin s)"
  by (erule kernel_stepE) (simp_all add: emit_out_def ticked_def)

lemma runs_stdin: "runs s t \<Longrightarrow> length (h_stdin t) \<le> length (h_stdin s)"
  by (induction rule: rtranclp_induct) (auto dest: step_stdin)

lemma step_outside: "kernel_step s t \<Longrightarrow> outside_files t = outside_files s"
  by (erule kernel_stepE)
    (simp_all add: outside_files_def fs_lookup_def fun_eq_iff emit_out_def upd_con_def ticked_def)

lemma runs_outside: "runs s t \<Longrightarrow> outside_files t = outside_files s"
  by (induction rule: rtranclp_induct) (auto dest: step_outside)

lemma other_row: "(\<forall>r. x \<noteq> RowEvent r) \<Longrightarrow> event_of_row x = []"
  by (cases x) auto

lemma chain_inv_same: "chain_inv db base s \<Longrightarrow> aud t = aud s \<Longrightarrow> h_db t = h_db s \<Longrightarrow> chain_inv db base t"
  by (simp add: chain_inv_def)

lemma step_chain: "kernel_step s t \<Longrightarrow> chain_inv db base s \<Longrightarrow> chain_inv db base t"
proof (induction rule: kernel_step.induct)
  case (ks_sql q s d)
  have "\<exists>extra. h_db (snd (sqlite d q s)) db = h_db s db @ extra \<and> events_of extra = []"
    using ks_sql(1) by (cases q) (auto simp: sqlite_db other_row)
  then show ?case by (rule chain_inv_frame [OF ks_sql(2) sqlite_sel(1)])
next
  case (ks_audit t m s)
  then show ?case by (rule chain_inv_emit)
qed (erule chain_inv_same; simp add: emit_out_def upd_con_def ticked_def)+

lemma runs_chain: "runs s t \<Longrightarrow> chain_inv db base s \<Longrightarrow> chain_inv db base t"
  by (induction rule: rtranclp_induct) (auto dest: step_chain)

lemma arrays_fit_logs:
  "arrays_fit s \<longleftrightarrow> logs_fit s \<and> aud_fits (aud s) \<and> nod_fits (nod s) \<and> prp_fits (prp s) \<and> edi_fits (edi s) \<and> aig_fits (aig s)"
  by (auto simp: arrays_fit_def logs_fit_def)

lemma arrays_fit_event: "arrays_fit s \<Longrightarrow> arrays_fit (event ty a x s)"
  by (simp add: arrays_fit_logs logs_fit_event)

lemma step_arrays: "kernel_step s t \<Longrightarrow> arrays_fit s \<Longrightarrow> arrays_fit t"
proof (induction rule: kernel_step.induct)
  case (ks_event ty a x s)
  then show ?case by (rule arrays_fit_event)
next
  case (ks_audit s t m)
  then show ?case by (simp add: arrays_fit_def aud_fits_emit)
next
  case (ks_sql q s db)
  then show ?case
    by (simp add: arrays_fit_def asto.obs_sqlite ajrn.obs_sqlite atrn.obs_sqlite ndaq.obs_sqlite praq.obs_sqlite
        edaq.obs_sqlite aiaq.obs_sqlite)
qed (simp_all add: arrays_fit_def emit_out_def upd_con_def ticked_def)

lemma runs_arrays: "runs s t \<Longrightarrow> arrays_fit s \<Longrightarrow> arrays_fit t"
  by (induction rule: rtranclp_induct) (auto dest: step_arrays)

end
