(* ===== verification/Autocomplete.thy ===== *)
theory Autocomplete
  imports Kernel_Steps
begin

text \<open>
  Completion of the line at a tab (kernel/console\_autocomplete.c, hosted build). The array of match
  pointers with its counter is the list of the matched texts; a full array drops further matches.
\<close>

definition VITA_AC_MATCH_MAX :: nat where "VITA_AC_MATCH_MAX = 32"
definition VITA_AC_PATH_MAX :: nat where "VITA_AC_PATH_MAX = 64"
definition VITA_CONSOLE_LINE_MAX :: nat where "VITA_CONSOLE_LINE_MAX = 128"

definition g_commands :: "string list" where
  "g_commands =
     [''status'', ''hw'', ''audit'', ''audit status'', ''audit report'', ''audit gate'', ''audit readiness'',
      ''audit verify'', ''audit verify-chain'', ''audit hash'', ''audit hash-chain'',
      ''audit export'', ''audit verify export'', ''audit export verify'', ''export audit verify'',
      ''audit events'', ''audit export events'', ''export audit events'',
      ''audit sqlite'', ''audit sqlite summary'', ''audit db'', ''audit db summary'',
      ''peers'', ''proposals'', ''list'', ''emergency'', ''helpme'', ''help'', ''menu'', ''clear'', ''cls'',
      ''note'', ''append'', ''edit'', ''notes list'',
      ''journal status'', ''journal summary'',
      ''storage status'', ''storage check'', ''storage last-error'', ''storage read'', ''storage notes'', ''storage notes list'',
      ''export session'', ''export jsonl'', ''diagnostic'', ''diag'', ''export diagnostic'',
      ''export index'', ''export manifest'', ''export list'', ''exports'', ''storage export-index'',
      ''export vitair'', ''export vitair-state'',
      ''linux countdown'', ''linux-assisted countdown'',
      ''selftest'', ''self-test'', ''boot selftest'', ''boot self-test'', ''checkup'',
      ''shutdown'', ''exit'']"

definition g_known_paths :: "string list" where
  "g_known_paths =
     [''/vita/'', ''/vita/notes/'', ''/vita/audit/'', ''/vita/audit/sessions/'', ''/vita/export/'',
      ''/vita/export/reports/'', ''/vita/tmp/'', ''/vita/notes/usb-test.txt'', ''/vita/audit/session-journal.txt'',
      ''/vita/audit/session-journal.jsonl'', ''/vita/export/reports/last-session.txt'',
      ''/vita/export/reports/last-session.jsonl'', ''/vita/export/reports/diagnostic-bundle.txt'',
      ''/vita/export/reports/self-test.txt'', ''/vita/export/reports/vitair-state.jsonl'']"

definition add_match :: "string \<Rightarrow> string list \<Rightarrow> string list" where
  "add_match candidate matches = (if length matches < VITA_AC_MATCH_MAX then matches @ [candidate] else matches)"

definition gather_command_matches :: "string \<Rightarrow> string list \<Rightarrow> string list" where
  "gather_command_matches start matches =
     fold (\<lambda>c m. if pre c start then add_match c m else m) g_commands matches"

text \<open>The \<open>readdir\<close> loop over the notes: the entries kept so far are \<open>out\<close>.\<close>

fun hosted_notes_loop :: "string \<Rightarrow> string list \<Rightarrow> string list \<Rightarrow> string list" where
  "hosted_notes_loop start [] out = out"
| "hosted_notes_loop start (d_name # ents) out =
     (if length out \<ge> VITA_AC_PATH_MAX then out
      else if d_name \<noteq> [] \<and> hd d_name = CHR ''.'' then hosted_notes_loop start ents out
      else
        let dir = copy_text VITA_STORAGE_PATH_MAX ''/vita/notes/'';
            path = dir @ copy_text (VITA_STORAGE_PATH_MAX - length dir) d_name
        in hosted_notes_loop start ents (if pre path start then out @ [path] else out))"

definition gather_hosted_note_paths :: "string \<Rightarrow> 'a host_scheme \<Rightarrow> string list" where
  "gather_hosted_note_paths start s =
     (case readdir_names ''build/storage/vita/notes'' s of None \<Rightarrow> [] | Some ents \<Rightarrow> hosted_notes_loop start ents [])"

definition gather_path_matches :: "string \<Rightarrow> 'a host_scheme \<Rightarrow> string list \<Rightarrow> string list" where
  "gather_path_matches start s matches =
     fold add_match (gather_hosted_note_paths start s)
       (fold (\<lambda>p m. if pre p start then add_match p m else m) g_known_paths matches)"

text \<open>
  The result and the line left in the array, which is cut at its first tab even when nothing was
  completed.
\<close>

definition console_autocomplete_line :: "string \<Rightarrow> nat \<Rightarrow> 'a console_sys_scheme \<Rightarrow> (bool \<times> string) \<times> 'a console_sys_scheme" where
  "console_autocomplete_line line cap s =
     (if cap = 0 \<or> TAB \<notin> set line then ((False, line), s)
      else
        let cut = takeWhile (\<lambda>c. c \<noteq> TAB) line;
            start = copy_text VITA_CONSOLE_LINE_MAX cut;
            (matches, s1) =
              (if start = [] then (gather_command_matches [] [], say ''Autocomplete:'' s)
               else if pre start ''edit '' \<or> pre start ''append '' \<or> pre start ''storage read '' then
                 (gather_path_matches (drop (if pre start ''storage read '' then 13 else 5) start) s [], s)
               else (gather_command_matches start [], s))
        in case matches of
             [] \<Rightarrow> ((False, cut), say_all [''sin coincidencias'',
                     ''Path autocomplete currently uses known VitaOS paths unless storage directory listing is available.''] s1)
           | [m] \<Rightarrow>
               let l = copy_text cap m
               in ((True, if (pre m ''storage'' \<or> pre m ''audit'' \<or> pre m ''journal'' \<or> pre m ''export'') \<and>
                             l \<noteq> [] \<and> length l + 1 < cap \<and> last l \<noteq> CHR '' '' then l @ '' '' else l), s1)
           | _ \<Rightarrow> ((False, cut), say_all matches (say ''Autocomplete options:'' s1)))"

section \<open>What the gathering collects\<close>

lemma add_matches: "length m \<le> 32 \<Longrightarrow> fold (\<lambda>c m. if P c then add_match c m else m) cs m = take 32 (m @ filter P cs)"
proof (induction cs arbitrary: m)
  case (Cons c cs)
  then show ?case by (auto simp: add_match_def VITA_AC_MATCH_MAX_def take_Cons')
qed simp

lemma gathered_commands: "gather_command_matches start [] = take 32 (filter (prefix start) g_commands)"
  using add_matches [of "[]" "prefix start" g_commands] by (simp add: gather_command_matches_def starts_with_Some)

lemma hosted_notes_prefix:
  "list_all (\<lambda>p. prefix start p \<and> prefix ''/vita/notes/'' p) out \<Longrightarrow>
     list_all (\<lambda>p. prefix start p \<and> prefix ''/vita/notes/'' p) (hosted_notes_loop start ents out)"
  by (induction start ents out rule: hosted_notes_loop.induct)
    (auto simp: starts_with_Some Let_def str_copy_take VITA_STORAGE_PATH_MAX_def)

lemma runs_autocomplete [kops]: "runs s t \<Longrightarrow> runs s (snd (console_autocomplete_line l cap t))"
  unfolding console_autocomplete_line_def
  by (intro kops kflow runs_let_value; assumption)+

section \<open>Properties\<close>

definition opens_family :: "string \<Rightarrow> bool" where
  "opens_family c = list_ex (\<lambda>w. prefix w c) [''storage'', ''audit'', ''journal'', ''export'']"

lemma commands_fit: "list_all (\<lambda>c. c \<noteq> [] \<and> length c < 127 \<and> last c \<noteq> CHR '' '') g_commands"
  by code_simp

lemma take_pair: "length xs \<noteq> 1 \<Longrightarrow> 2 \<le> n \<Longrightarrow> take n xs = [] \<or> (\<exists>x y zs. take n xs = x # y # zs)"
  by (cases xs; cases "tl xs") (auto simp: take_Cons' numeral_2_eq_2)

text \<open>
  Tab completes exactly the lines that name one command. If one command of the table begins with
  the text before the tab, the line becomes that command, with a space when it opens a family of
  commands, and nothing is printed; otherwise the line is not completed. (The two note commands and
  \<open>storage read\<close> complete paths instead.)
\<close>

theorem tab_completes_the_one_command:
  fixes s :: "'a console_sys_scheme" and start rest :: string
  assumes "TAB \<notin> set start" "start \<noteq> []" "length start < 128"
    and "\<not> prefix ''edit '' start" "\<not> prefix ''append '' start" "\<not> prefix ''storage read '' start"
  shows "(case filter (prefix start) g_commands of
      [c] \<Rightarrow> console_autocomplete_line (start @ TAB # rest) 128 s = ((True, if opens_family c then c @ '' '' else c), s)
    | _ \<Rightarrow> fst (console_autocomplete_line (start @ TAB # rest) 128 s) = (False, start))"
proof -
  let ?cs = "filter (prefix start) g_commands"
  have cut: "takeWhile (\<lambda>c. c \<noteq> TAB) (start @ TAB # rest) = start"
    using assms(1) by (simp add: takeWhile_tail) (metis takeWhile_eq_all_conv)
  have r: "console_autocomplete_line (start @ TAB # rest) 128 s =
      (case take 32 ?cs of
         [] \<Rightarrow> ((False, start), say_all [''sin coincidencias'',
                 ''Path autocomplete currently uses known VitaOS paths unless storage directory listing is available.''] s)
       | [m] \<Rightarrow> let l = copy_text 128 m in ((True, if opens_family m \<and> l \<noteq> [] \<and> length l + 1 < 128 \<and> last l \<noteq> CHR '' ''
                   then l @ '' '' else l), s)
       | _ \<Rightarrow> ((False, start), say_all (take 32 ?cs) (say ''Autocomplete options:'' s)))"
    using assms by (auto simp: console_autocomplete_line_def cut starts_with_Some gathered_commands str_copy_fits
        VITA_CONSOLE_LINE_MAX_def opens_family_def Let_def split: list.split)
  show ?thesis
  proof (cases "\<exists>c. ?cs = [c]")
    case True
    then obtain c where c: "?cs = [c]" by blast
    then have "c \<in> set (filter (prefix start) g_commands)" by simp
    then have "c \<in> set g_commands" by simp
    then have "c \<noteq> []" "length c < 127" "last c \<noteq> CHR '' ''" using commands_fit by (auto simp: list_all_iff)
    then show ?thesis using c r by (simp add: str_copy_fits Let_def)
  next
    case False
    then have "length ?cs \<noteq> 1" by (auto simp: length_Suc_conv)
    then have t: "take 32 ?cs = [] \<or> (\<exists>x y zs. take 32 ?cs = x # y # zs)" by (rule take_pair) simp
    then have "fst (console_autocomplete_line (start @ TAB # rest) 128 s) = (False, start)"
      using r by (elim disjE exE) simp_all
    then show ?thesis using False by (auto split: list.split)
  qed
qed

lemma tab_completes_the_one_command_witness:
  "fst (console_autocomplete_line (''peer'' @ [TAB]) 128 demo_fresh) = (True, ''peers'')"
proof -
  have f: "filter (prefix ''peer'') g_commands = [''peers'']" by code_simp
  show ?thesis
    using tab_completes_the_one_command [of "''peer''" "[]" demo_fresh] unfolding f
    by (simp add: opens_family_def)
qed

text \<open>
  Completion after \<open>append \<close> never works. The code skips five characters of the line, as for
  \<open>edit \<close>, so the two letters \<open>d \<close> stay in front of the path, and no known or stored path begins with them.
\<close>

theorem append_is_never_completed:
  fixes s :: "'a console_sys_scheme" and path rest :: string
  assumes "TAB \<notin> set path"
  shows "fst (console_autocomplete_line (''append '' @ path @ TAB # rest) cap s) =
    (False, if cap = 0 then ''append '' @ path @ TAB # rest else ''append '' @ path)"
proof -
  let ?l = "''append '' @ path @ TAB # rest"
  let ?start = "copy_text 128 (''append '' @ path)"
  have cut: "takeWhile (\<lambda>c. c \<noteq> TAB) ?l = ''append '' @ path"
    using assms by (simp add: takeWhile_tail) (metis takeWhile_eq_all_conv)
  have st: "?start = ''append '' @ take 120 path" by (simp add: str_copy_take)
  have known: "filter (prefix (''d '' @ x)) g_known_paths = []" for x
    by (simp add: g_known_paths_def)
  have stored: "gather_hosted_note_paths (''d '' @ x) s = []" for x
  proof -
    have "list_all (\<lambda>p. prefix (''d '' @ x) p \<and> prefix ''/vita/notes/'' p) (gather_hosted_note_paths (''d '' @ x) s)"
      using hosted_notes_prefix [of "''d '' @ x" "[]"] by (auto simp: gather_hosted_note_paths_def split: option.split)
    then show ?thesis by (cases "gather_hosted_note_paths (''d '' @ x) s") (auto simp: prefix_def)
  qed
  have none: "gather_path_matches (''d '' @ take 120 path) s [] = []"
    using add_matches [of "[]" "prefix (''d '' @ take 120 path)" g_known_paths] stored [of "take 120 path"]
    by (simp add: gather_path_matches_def starts_with_Some known [simplified])
  show ?thesis
    using none by (simp add: console_autocomplete_line_def cut [simplified] st [simplified] starts_with_Some Let_def VITA_CONSOLE_LINE_MAX_def)
qed

lemma append_is_never_completed_witness:
  "fst (console_autocomplete_line (''append /vita/no'' @ [TAB]) 128 demo_fresh) = (False, ''append /vita/no'')"
  using append_is_never_completed [of "''/vita/no''" "[]" 128 demo_fresh] by simp

end
