(* ===== verification/Screens.thy ===== *)
theory Screens
  imports Autocomplete
begin

text \<open>
  The screens and the report commands of kernel/command\_core.c (hosted build). A command context that
  the code tests for null is an option; \<open>on_ctx\<close> is the C condition \<open>ctx && ctx->...\<close>.
\<close>

definition on_ctx :: "(vita_command_context \<Rightarrow> bool) \<Rightarrow> vita_command_context option \<Rightarrow> bool" where
  "on_ctx f ctx = (case ctx of None \<Rightarrow> False | Some c \<Rightarrow> f c)"

definition audit_ready_ctx :: "vita_command_context option \<Rightarrow> bool" where
  "audit_ready_ctx = on_ctx (\<lambda>c. bs_audit_ready (cx_boot_status c))"

text \<open>The appends into an array of \<open>cap\<close> characters whose used length is kept beside it.\<close>

definition append_text :: "nat \<Rightarrow> string \<Rightarrow> string \<Rightarrow> string" where
  "append_text cap src dst = str_append cap dst (Some src)"

definition append_texts :: "nat \<Rightarrow> string list \<Rightarrow> string \<Rightarrow> string" where
  "append_texts cap srcs dst = fold (append_text cap) srcs dst"

definition console_write_i32 :: "string \<Rightarrow> int \<Rightarrow> 'a console_sys_scheme \<Rightarrow> 'a console_sys_scheme" where
  "console_write_i32 label val = say_all [label, u64_to_dec (i32_u64 val)]"

section \<open>VitaIR claims as text\<close>

definition safe_vitair_symbol :: "vita_tri \<Rightarrow> string" where
  "safe_vitair_symbol st = or_text (vita_tri_to_symbol st) ''0''"

definition safe_vitair_state_num :: "vita_tri \<Rightarrow> string" where
  "safe_vitair_state_num st = or_text (vita_tri_to_json_number st) ''0''"

definition safe_vitair_severity :: "vita_ir_severity \<Rightarrow> string" where
  "safe_vitair_severity sev = or_text (vita_ir_severity_to_string sev) ''warn''"

definition append_vitair_claim_txt_line :: "nat \<Rightarrow> string \<Rightarrow> string \<Rightarrow> string \<Rightarrow> bool \<Rightarrow> string \<Rightarrow> string" where
  "append_vitair_claim_txt_line cap claim symbol severity with_newline dst =
     (let d = append_texts cap [''- '', claim, '': '', symbol, '' '', severity] dst
      in if with_newline then append_text cap [LF] d else d)"

definition append_vitair_claim_jsonl_line :: "nat \<Rightarrow> string \<Rightarrow> string \<Rightarrow> string \<Rightarrow> string \<Rightarrow> string" where
  "append_vitair_claim_jsonl_line cap claim state_num severity dst =
     append_texts cap
       [CHR ''{'' # DQ # ''type'' @ [DQ] @ '':'' @ [DQ] @ ''vitair_claim'' @ [DQ] @ '','' @ [DQ] @ ''ir_version'' @ [DQ] @ '':'' @ [DQ],
        VITA_IR_VERSION, DQ # '','' @ [DQ] @ ''claim'' @ [DQ] @ '':'' @ [DQ], claim,
        DQ # '','' @ [DQ] @ ''state'' @ [DQ] @ '':'', state_num,
        '','' @ [DQ] @ ''severity'' @ [DQ] @ '':'' @ [DQ], severity, DQ # ''}'' @ [LF]] dst"

definition claim_name_matches :: "vita_ir_claim \<Rightarrow> string \<Rightarrow> bool" where
  "claim_name_matches claim target = eqs (ic_claim claim) target"

text \<open>The line of one claim: name, symbol and severity, built in an array of \<open>cap\<close> characters.\<close>

definition claim_txt_line :: "nat \<Rightarrow> bool \<Rightarrow> string \<Rightarrow> vita_ir_claim \<Rightarrow> string" where
  "claim_txt_line cap with_newline name c =
     append_vitair_claim_txt_line cap name (safe_vitair_symbol (ic_state c)) (safe_vitair_severity (ic_severity c)) with_newline []"

definition claim_name :: "vita_ir_claim \<Rightarrow> string" where
  "claim_name c = safe_text (Some (ic_claim c)) ''unknown.claim''"

definition resolve_audit_runtime_status ::
  "vita_command_context option \<Rightarrow> 'a journal_sys_scheme \<Rightarrow> vita_audit_runtime_status" where
  "resolve_audit_runtime_status ctx s =
     (let st = storage_get_status s;
          journal = (if session_journal_is_active s then STATUS_OK else STATUS_WARN)
      in \<lparr>rt_storage_status = (if st_bootstrap_verified st then STATUS_OK
                                 else if st_bootstrap_attempted st then STATUS_WARN else STATUS_FAIL),
          rt_journal_txt_status = journal, rt_journal_jsonl_status = journal,
          rt_transcript_txt_status = journal, rt_transcript_jsonl_status = journal,
          rt_sqlite_status = (if audit_ready_ctx ctx then STATUS_OK else STATUS_UNAVAILABLE),
          rt_persistent_storage_writable = (st_bootstrap_verified st \<and> st_writable st),
          rt_restricted_mode = (\<not> audit_ready_ctx ctx)\<rparr>)"

definition runtime_claims :: "vita_command_context option \<Rightarrow> 'a journal_sys_scheme \<Rightarrow> vita_ir_claim list" where
  "runtime_claims ctx s =
     vita_ir_claims_from_audit_runtime (Some (resolve_audit_runtime_status ctx s)) VITA_IR_AUDIT_CLAIM_MAX"

section \<open>The context\<close>

definition command_refresh_state :: "'a node_sys_scheme \<Rightarrow> vita_command_context \<Rightarrow> vita_command_context" where
  "command_refresh_state s ctx =
     ctx\<lparr>cx_console_state := (cx_console_state ctx)\<lparr>
       cs_peer_count := (if cx_node_ready ctx then of_nat (node_core_peer_count s) else 0),
       cs_pending_proposal_count := (if cx_node_ready ctx then of_nat (node_core_pending_proposal_count s) else 0),
       cs_audit_ready := bs_audit_ready (cx_boot_status ctx),
       cs_proposal_engine_ready := cx_proposal_ready ctx,
       cs_node_core_ready := cx_node_ready ctx\<rparr>\<rparr>"

definition command_context_init ::
  "vita_handoff option \<Rightarrow> vita_boot_status option \<Rightarrow> vita_hw_snapshot option \<Rightarrow> bool \<Rightarrow> bool \<Rightarrow> bool \<Rightarrow>
     'a node_sys_scheme \<Rightarrow> vita_command_context" where
  "command_context_init handoff boot_status hw_snapshot hw_ready proposal_ready node_ready s =
     (let bs = (case boot_status of Some b \<Rightarrow> b
                | None \<Rightarrow> \<lparr>bs_arch_name = Some ''unknown'', bs_console_ready = False, bs_audit_ready = False\<rparr>)
      in command_refresh_state s
           \<lparr>cx_handoff = handoff, cx_boot_status = bs,
            cx_console_state =
              \<lparr>cs_arch_name = Some (safe_text (bs_arch_name bs) ''unknown''), cs_boot_mode = Some (boot_mode_name handoff),
               cs_language_mode = Some ''es,en'', cs_console_ready = bs_console_ready bs, cs_audit_ready = bs_audit_ready bs,
               cs_proposal_engine_ready = proposal_ready, cs_node_core_ready = node_ready, cs_peer_count = 0,
               cs_pending_proposal_count = 0, cs_mode = (if bs_audit_ready bs then MODE_GUIDED else MODE_AUDIT)\<rparr>,
            cx_hw_snapshot = (case hw_snapshot of None \<Rightarrow> zero_hw | Some h \<Rightarrow> h),
            cx_hw_ready = hw_ready, cx_proposal_ready = proposal_ready, cx_node_ready = node_ready\<rparr>)"

section \<open>Screens\<close>

definition show_hw :: "vita_command_context option \<Rightarrow> 'a console_sys_scheme \<Rightarrow> 'a console_sys_scheme" where
  "show_hw ctx s =
     (let s0 = say ''HW Snapshot / Resumen de hardware:'' s in
      case ctx of
        None \<Rightarrow> say ''No hardware snapshot available / No hay resumen de hardware disponible'' s0
      | Some c \<Rightarrow>
          if \<not> cx_hw_ready c then say ''No hardware snapshot available / No hay resumen de hardware disponible'' s0
          else
            let hw = cx_hw_snapshot c;
                s1 = say_all [''cpu_arch:'', or_text (hw_cpu_arch hw) ''unknown'',
                       ''cpu_model:'', or_text (hw_cpu_model hw) ''unavailable'',
                       ''ram_bytes:'', u64_to_dec (hw_ram_bytes hw),
                       ''firmware_type:'', or_text (hw_firmware_type hw) ''unknown'',
                       ''console_type:'', or_text (hw_console_type hw) ''unknown''] s0;
                s2 = fold (\<lambda>(l, v). console_write_i32 l v)
                       [(''display_count:'', hw_display_count hw), (''keyboard_count:'', hw_keyboard_count hw),
                        (''mouse_count:'', hw_mouse_count hw), (''audio_count:'', hw_audio_count hw),
                        (''microphone_count:'', hw_microphone_count hw), (''net_count:'', hw_net_count hw),
                        (''ethernet_count:'', hw_ethernet_count hw), (''wifi_count:'', hw_wifi_count hw),
                        (''storage_count:'', hw_storage_count hw), (''usb_count:'', hw_usb_count hw),
                        (''usb_controller_count:'', hw_usb_controller_count hw)] s1
            in say_all [''detected_at_unix:'', u64_to_dec (hw_detected_at_unix hw)] s2)"

definition show_audit :: "vita_command_context option \<Rightarrow> 'a console_sys_scheme \<Rightarrow> 'a console_sys_scheme" where
  "show_audit ctx s =
     (let s0 = say ''Audit / Auditoria:'' s;
          rt = resolve_audit_runtime_status ctx s0;
          journal = (rt_journal_jsonl_status rt = STATUS_OK);
          s1 = say (if journal then ''Audit journal TXT/JSONL: OK'' else ''Audit journal TXT/JSONL: WARN'') s0;
          s2 = (if rt_sqlite_status rt = STATUS_OK then
                  say_all [''Audit SQLite: READY / Auditoria SQLite: LISTA'',
                    ''Persistent audit backend is active for this session.'',
                    ''La bitacora persistente esta activa para esta sesion.'',
                    (if journal then ''audit persistence: journal/jsonl active; sqlite hosted ready''
                     else ''audit persistence: sqlite hosted ready; journal inactive'')] s1
                else
                  say_all [''Audit SQLite: UNAVAILABLE / Auditoria SQLite: NO DISPONIBLE'',
                    (if journal then ''audit persistence: journal/jsonl active (restricted mode)''
                     else ''audit persistence: restricted diagnostic''),
                    ''Restricted diagnostic mode is active.'', ''Modo diagnostico restringido activo.'',
                    ''storage_writable:'', (if rt_persistent_storage_writable rt then ''true'' else ''false''),
                    ''UEFI physical boot can still run local console commands, but it must not claim full operational mode until persistent audit exists.'',
                    ''En UEFI fisico puedes usar comandos locales, pero el modo operativo completo requiere auditoria persistente.''] s1);
          claims = vita_ir_claims_from_audit_runtime (Some rt) VITA_IR_AUDIT_CLAIM_MAX
      in if claims = [] then say ''VitaIR-Tri runtime claims: unavailable'' s2
         else say_all (map (\<lambda>c. claim_txt_line 160 False (claim_name c) c) claims) (say ''VitaIR-Tri runtime claims:'' s2))"

text \<open>The lines of the targets that have a claim; the first claim of the name is shown.\<close>

definition summary_lines :: "string list \<Rightarrow> vita_ir_claim list \<Rightarrow> string list" where
  "summary_lines targets claims =
     concat (map (\<lambda>t. case find (\<lambda>c. claim_name_matches c t) claims of None \<Rightarrow> [] | Some c \<Rightarrow> [claim_txt_line 160 False t c]) targets)"

definition show_status_vitair_summary :: "vita_command_context option \<Rightarrow> 'a console_sys_scheme \<Rightarrow> 'a console_sys_scheme" where
  "show_status_vitair_summary ctx s =
     (let claims = runtime_claims ctx s
      in if claims = [] then say ''VitaIR-Tri status summary: unavailable'' s
         else say_all (summary_lines [''storage.persistent.writable'', ''audit.journal_jsonl.available'', ''audit.sqlite.available'',
                ''operational.restricted'', ''operational.full''] claims) (say ''VitaIR-Tri status summary:'' s))"

definition show_storage_status_vitair_summary :: "vita_command_context option \<Rightarrow> 'a console_sys_scheme \<Rightarrow> 'a console_sys_scheme" where
  "show_storage_status_vitair_summary ctx s =
     (let claims = runtime_claims ctx s
      in if claims = [] then say ''VitaIR-Tri storage summary: unavailable'' s
         else
           let ls = summary_lines [''storage.persistent.writable'', ''audit.journal_jsonl.available'',
                      ''operational.restricted'', ''operational.full''] claims;
               s1 = say_all ls (say ''VitaIR-Tri storage summary:'' s)
           in if ls = [] then say ''VitaIR-Tri storage summary: unavailable'' s1 else s1)"

definition show_peers :: "vita_command_context option \<Rightarrow> 'a node_sys_scheme \<Rightarrow> 'a node_sys_scheme" where
  "show_peers ctx s =
     (if on_ctx cx_node_ready ctx then node_core_show_peers s
      else say_all [''Peers / Nodos cooperativos:'', ''No peer transport active in this boot mode.'',
             ''No hay transporte de peers activo en este modo de arranque.''] s)"

definition show_proposals :: "vita_command_context option \<Rightarrow> 'a prop_sys_scheme \<Rightarrow> 'a prop_sys_scheme" where
  "show_proposals ctx s =
     (if \<not> on_ctx cx_proposal_ready ctx then say ''No proposals available / No hay propuestas disponibles'' s
      else
        let s1 = proposal_show_all s
        in if on_ctx cx_node_ready ctx \<and> node_core_pending_proposal_count s1 > 0 then node_core_show_link_proposal s1 else s1)"

end
