(* ===== verification/Reports.thy ===== *)
theory Reports
  imports Screens
begin

text \<open>
  The commands of kernel/command\_core.c that write reports below \<open>/vita/export\<close>, and the emergency
  screen (hosted build). A \<open>static\<close> report array starts each command at length 0, so the text of a report
  does not depend on earlier ones.
\<close>

definition show_emergency :: "vita_command_context option \<Rightarrow> cstr \<Rightarrow> 'a console_sys_scheme \<Rightarrow> 'a console_sys_scheme" where
  "show_emergency ctx free_text s =
     (let txt = safe_text free_text [];
          s1 = say_all [''Emergency guided flow / Flujo de emergencia guiada:'', '''', ''1. Resumen entendido / Understood summary:'',
                 or_text txt ''Emergency mode requested / Modo emergencia solicitado'',
                 ''2. Riesgos inmediatos / Immediate risks:'',
                 ''Protect life first: breathing, bleeding, fire, unsafe structure, cold/heat, dehydration, getting lost.'',
                 ''Primero protege la vida: respiracion, sangrado, fuego, estructura insegura, frio/calor, deshidratacion, extravio.'',
                 ''3. Preguntas criticas / Critical questions:'',
                 ''How many people are affected? Is anyone unconscious, bleeding, trapped, or in immediate danger?'',
                 ''Cuantas personas estan afectadas? Alguien esta inconsciente, sangrando, atrapado o en peligro inmediato?'',
                 ''Where are you, what resources do you have, and can you safely stay in place?'',
                 ''Donde estas, que recursos tienes y puedes quedarte en un lugar seguro?'',
                 ''4. Acciones inmediatas sugeridas / Suggested immediate actions:'',
                 ''Stop, secure the area, count people, treat life-threatening bleeding, preserve heat, conserve water, signal for help.'',
                 ''Detente, asegura el area, cuenta personas, atiende sangrado grave, conserva calor, ahorra agua, senaliza ayuda.'',
                 ''5. Recursos del sistema disponibles / Available system resources:''] s;
          s2 = (if on_ctx cx_hw_ready ctx then show_hw ctx s1
                else say ''Hardware summary unavailable / Resumen de hardware no disponible'' s1);
          s3 = say_all [''6. Propuesta de accion del sistema / System proposal:'',
                 ''Use '' @ [SQ] @ ''proposals'' @ [SQ] @ '' to review available actions, then '' @ [SQ] @ ''approve <id>'' @ [SQ] @
                   '' or '' @ [SQ] @ ''reject <id>'' @ [SQ] @ ''.'',
                 ''Usa '' @ [SQ] @ ''proposals'' @ [SQ] @ '' para revisar acciones disponibles, luego '' @ [SQ] @ ''approve <id>'' @ [SQ] @
                   '' o '' @ [SQ] @ ''reject <id>'' @ [SQ] @ ''.'',
                 ''7. Estado de auditoria / Audit state:''] s2;
          s4 = (if audit_ready_ctx ctx then say ''READY / LISTA'' s3
                else say_all [''Audit journal: active when persistent storage is available'', ''Audit SQLite: unavailable'',
                       ''Operational mode: restricted diagnostic''] s3)
      in audit_emit ''EMERGENCY_FLOW_SHOWN'' (or_text txt ''emergency command'') s4)"

definition show_refreshed_header :: "vita_command_context \<Rightarrow> 'a node_sys_scheme \<Rightarrow> vita_command_context \<times> 'a node_sys_scheme" where
  "show_refreshed_header ctx0 s =
     (let ctx = command_refresh_state s ctx0
      in (ctx, console_guided_show_menu (console_guided_show_welcome (Some (cx_console_state ctx)) s)))"

section \<open>Verified reports\<close>

definition write_report_verified :: "cstr \<Rightarrow> cstr \<Rightarrow> 'a console_sys_scheme \<Rightarrow> bool \<times> 'a console_sys_scheme" where
  "write_report_verified path body s =
     (let expected = (case body of None \<Rightarrow> [] | Some b \<Rightarrow> b);
          shown = (case path of None \<Rightarrow> ''(null)'' | Some p \<Rightarrow> p);
          (w, s1) = storage_write_text path (Some expected) s in
      if \<not> w then (False, say_error (say_all [''report write failed:'', shown] s1))
      else
        let ((r, readback), s2) = storage_read_text path VITA_STORAGE_READ_MAX s1 in
        if \<not> r then (False, say_error (say_all [''report verify read failed:'', shown] s2))
        else if \<not> text_exact_match readback expected
        then (False, say_all [''report verify compare failed:'', shown, ''write/read verify failed''] s2)
        else (True, s2))"

definition write_report_pair_verified ::
  "string \<Rightarrow> string \<Rightarrow> string \<Rightarrow> string \<Rightarrow> 'a console_sys_scheme \<Rightarrow> bool \<times> 'a console_sys_scheme" where
  "write_report_pair_verified txt_path txt_body jsonl_path jsonl_body s =
     (let (ok, s1) = write_report_verified (Some txt_path) (Some txt_body) s in
      if \<not> ok then (False, s1)
      else let (ok2, s2) = write_report_verified (Some jsonl_path) (Some jsonl_body) s1
           in (ok2, s2))"

text \<open>Lines joined as the C literals write them, and a JSON object of string values.\<close>

definition text_of_lines :: "string list \<Rightarrow> string" where
  "text_of_lines ls = concat (map (\<lambda>l. l @ [LF]) ls)"

fun json_fields :: "(string \<times> string) list \<Rightarrow> string" where
  "json_fields [] = []"
| "json_fields ((k, v) # kvs) =
     DQ # k @ [DQ] @ '':'' @ [DQ] @ v @ [DQ] @ (if kvs = [] then [] else '','' @ json_fields kvs)"

definition json_text :: "(string \<times> string) list \<Rightarrow> string" where
  "json_text kvs = ''{'' @ json_fields kvs @ ''}'' @ [LF]"

section \<open>Audit commands\<close>

definition handle_audit_readiness :: "vita_command_context option \<Rightarrow> 'a console_sys_scheme \<Rightarrow> 'a console_sys_scheme" where
  "handle_audit_readiness ctx = show_audit ctx"

definition handle_audit_verify :: "vita_command_context option \<Rightarrow> 'a console_sys_scheme \<Rightarrow> 'a console_sys_scheme" where
  "handle_audit_verify ctx s =
     (let s1 = say ''Audit verify / Verificacion de auditoria:'' s
      in if audit_ready_ctx ctx
         then say_all [''hosted hash chain: OK (current boot)'', ''cadena hash hosted: OK (arranque actual)''] s1
         else say_all [''UEFI restricted diagnostic: hash verification unavailable'',
                ''UEFI diagnostico restringido: verificacion hash no disponible''] s1)"

definition handle_audit_export :: "vita_command_context option \<Rightarrow> 'a console_sys_scheme \<Rightarrow> 'a console_sys_scheme" where
  "handle_audit_export ctx s =
     (let txt_path = ''/vita/export/audit/audit-verify.txt'';
          jsonl_path = ''/vita/export/audit/audit-verify.jsonl'';
          (ok, s1) = write_report_pair_verified txt_path
            (if audit_ready_ctx ctx then text_of_lines [''audit_verify: ok'', ''scope: current boot hash chain'']
             else text_of_lines [''audit_verify: unavailable'', ''scope: uefi restricted diagnostic mode'']) jsonl_path
            (if audit_ready_ctx ctx then json_text [(''type'', ''audit_verify''), (''status'', ''ok''), (''scope'', ''current_boot'')]
             else json_text [(''type'', ''audit_verify''), (''status'', ''unavailable''), (''scope'', ''uefi_restricted'')]) s
      in if ok then say_all [''audit export: written'', txt_path, jsonl_path] s1 else say ''audit export: failed'' s1)"

definition handle_audit_events_export :: "'a console_sys_scheme \<Rightarrow> 'a console_sys_scheme" where
  "handle_audit_events_export s =
     (let txt_path = ''/vita/export/audit/current-session-events.txt'';
          jsonl_path = ''/vita/export/audit/current-session-events.jsonl'';
          (ok, s1) = write_report_pair_verified txt_path
            (text_of_lines [''current_session_events: minimal export'', ''note: use hosted SQLite for full query depth'']) jsonl_path
            (json_text [(''type'', ''current_session_events''), (''status'', ''exported''), (''mode'', ''minimal'')]) s
      in if ok then say_all [''audit events: written'', txt_path, jsonl_path] s1 else say ''audit events: failed'' s1)"

text \<open>The command opens the database a second time; a cast to \<open>uint64_t\<close> wraps a negative count.\<close>

definition handle_audit_sqlite_summary :: "vita_command_context option \<Rightarrow> 'a console_sys_scheme \<Rightarrow> 'a console_sys_scheme" where
  "handle_audit_sqlite_summary ctx s =
     (let path = safe_text (Option.bind (Option.bind ctx cx_handoff) ho_audit_db_path) ''build/audit/vitaos-audit.db'';
          (opened, s1) = sqlite path (SqlOpen path) s in
      if \<not> opened then say ''audit sqlite: open failed'' s1
      else
        let (ok, s2) = sqlite path (SqlPrepare COUNTS_SQL) s1;
            (row, s3) = (if ok then (h_sql_counts s2 (h_tick s2) (h_db s2 path), ticked s2) else (None, s2))
        in case row of
             None \<Rightarrow> say ''audit sqlite: query failed'' s3
           | Some (b, e, h, p, n) \<Rightarrow>
               say_all [''audit sqlite summary:'', ''boot_session:'', u64_to_dec (of_int b), ''audit_event:'', u64_to_dec (of_int e),
                 ''hardware_snapshot:'', u64_to_dec (of_int h), ''ai_proposal:'', u64_to_dec (of_int p),
                 ''node_peer:'', u64_to_dec (of_int n)] s3)"

section \<open>Reports with VitaIR claims\<close>

text \<open>
  The two texts of the diagnostic bundle; the four literals of each differ in the audit mode, the firmware,
  the backend, the storage state and the hardware line only.
\<close>

definition diagnostic_txt :: "string \<Rightarrow> string \<Rightarrow> string \<Rightarrow> string \<Rightarrow> string \<Rightarrow> string" where
  "diagnostic_txt mode fw backend sstate hw =
     text_of_lines [''Diagnostico VitaOS / VitaOS diagnostic'', ''[estado]'', ''diagnostic_bundle: generated'', ''[auditoria]'',
       ''audit_mode: '' @ mode, ''[almacenamiento]'', ''arch: x86_64'', ''firmware: '' @ fw, ''boot_mode: '' @ fw,
       ''boot_id: unknown'', ''node_id: unknown'', ''host_id: unknown'', ''storage_backend: '' @ backend,
       ''storage_state: '' @ sstate, ''[hardware]'', ''hardware_snapshot: '' @ hw, ''[limitaciones]'',
       ''wifi_transport: no implementado'', ''network_remote_ai: no implementado'']"

definition diagnostic_jsonl :: "string \<Rightarrow> string \<Rightarrow> string \<Rightarrow> string \<Rightarrow> string" where
  "diagnostic_jsonl mode fw backend sstate =
     json_text [(''type'', ''diagnostic_bundle''), (''audit_mode'', mode), (''arch'', ''x86_64''), (''firmware'', fw),
       (''boot_mode'', fw), (''boot_id'', ''unknown''), (''node_id'', ''unknown''), (''host_id'', ''unknown''),
       (''storage_backend'', backend), (''storage_state'', sstate)]"

definition handle_diagnostic_bundle :: "vita_command_context option \<Rightarrow> 'a console_sys_scheme \<Rightarrow> 'a console_sys_scheme" where
  "handle_diagnostic_bundle ctx s =
     (let st = storage_get_status s;
          claims = runtime_claims ctx s;
          uefi = (st_bootstrap_verified st \<and> pre (st_backend_name st) ''uefi_simple_fs'');
          txt_ready = diagnostic_txt ''hosted_sqlite_ready'' ''hosted'' (if uefi then ''uefi_simple_fs'' else ''hostfs'') ''verified'' ''available'';
          txt_limited = diagnostic_txt ''uefi_restricted_diagnostic'' ''uefi'' (if uefi then ''uefi_simple_fs'' else ''unknown'')
            (if uefi then ''verified'' else ''degraded'') ''no disponible'';
          jsonl_ready = diagnostic_jsonl ''hosted_sqlite_ready'' ''hosted'' (if uefi then ''uefi_simple_fs'' else ''hostfs'') ''verified'';
          jsonl_limited = diagnostic_jsonl ''uefi_restricted_diagnostic'' ''uefi'' (if uefi then ''uefi_simple_fs'' else ''unknown'')
            (if uefi then ''verified'' else ''degraded'');
          txt0 = append_texts 4096 [if audit_ready_ctx ctx then txt_ready else txt_limited, ''[VitaIR-Tri]'' @ [LF]] [];
          jsonl0 = append_text 4096 (if audit_ready_ctx ctx then jsonl_ready else jsonl_limited) [];
          txt_report = (if claims = [] then append_text 4096 (''VitaIR-Tri runtime claims: unavailable'' @ [LF]) txt0
            else append_texts 4096 (map (\<lambda>c. claim_txt_line 192 True (claim_name c) c) claims)
                   (append_text 4096 (''VitaIR-Tri runtime claims:'' @ [LF]) txt0));
          jsonl_report = (if claims = []
            then append_text 4096 (json_text [(''type'', ''vitair_claims''), (''ir_version'', VITA_IR_VERSION), (''status'', ''unavailable'')]) jsonl0
            else append_texts 4096 (map (\<lambda>c. append_vitair_claim_jsonl_line 256 (claim_name c)
                   (safe_vitair_state_num (ic_state c)) (safe_vitair_severity (ic_severity c)) []) claims) jsonl0);
          (ok, s1) = write_report_pair_verified ''/vita/export/reports/diagnostic-bundle.txt'' txt_report
                       ''/vita/export/reports/diagnostic-bundle.jsonl'' jsonl_report s
      in say (if ok then ''diagnostic: written'' else ''diagnostic: failed'') s1)"

definition export_index_paths :: "string list" where
  "export_index_paths =
     [''/vita/export/reports/last-session.txt'', ''/vita/export/reports/last-session.jsonl'',
      ''/vita/export/reports/diagnostic-bundle.txt'', ''/vita/export/reports/diagnostic-bundle.jsonl'',
      ''/vita/export/reports/self-test.txt'', ''/vita/export/reports/self-test.jsonl'',
      ''/vita/export/reports/vitair-state.jsonl'', ''/vita/export/audit/audit-verify.txt'',
      ''/vita/export/audit/audit-verify.jsonl'', ''/vita/export/audit/current-session-events.txt'',
      ''/vita/export/audit/current-session-events.jsonl'']"

text \<open>\<open>APPEND_LINE\<close> for every path: a file that can be read gets a line.\<close>

fun index_loop :: "string list \<Rightarrow> string \<Rightarrow> 'a storage_sys_scheme \<Rightarrow> string \<times> 'a storage_sys_scheme" where
  "index_loop [] txt s = (txt, s)"
| "index_loop (p # ps) txt s =
     (let ((r, _), s1) = storage_read_text (Some p) 8 s
      in index_loop ps (if r then append_text 1024 (''- '' @ p @ [LF]) txt else txt) s1)"

definition handle_export_index :: "'a console_sys_scheme \<Rightarrow> 'a console_sys_scheme" where
  "handle_export_index s =
     (let (txt, s1) = index_loop export_index_paths (append_text 1024 (''export_index:'' @ [LF]) []) s;
          (ok, s2) = write_report_pair_verified ''/vita/export/export-index.txt'' txt ''/vita/export/export-index.jsonl''
                       (json_text [(''type'', ''export_index''), (''status'', ''written'')]) s1
      in say (if ok then ''export index: written'' else ''export index: failed'') s2)"

definition vitair_claim_line :: "vita_ir_claim \<Rightarrow> string" where
  "vitair_claim_line c =
     append_texts 384
       [CHR ''{'' # DQ # ''type'' @ [DQ] @ '':'' @ [DQ] @ ''vitair_claim'' @ [DQ] @ '','' @ [DQ] @ ''ir_version'' @ [DQ] @ '':'' @ [DQ],
        VITA_IR_VERSION, DQ # '','' @ [DQ] @ ''claim'' @ [DQ] @ '':'' @ [DQ], claim_name c,
        DQ # '','' @ [DQ] @ ''state'' @ [DQ] @ '':'', safe_vitair_state_num (ic_state c),
        '','' @ [DQ] @ ''severity'' @ [DQ] @ '':'' @ [DQ], safe_vitair_severity (ic_severity c),
        DQ # '','' @ [DQ] @ ''actor'' @ [DQ] @ '':'' @ [DQ], safe_text (Some (ic_actor c)) ''unknown'',
        DQ # '','' @ [DQ] @ ''target'' @ [DQ] @ '':'' @ [DQ], safe_text (Some (ic_target c)) ''unknown'',
        DQ # '','' @ [DQ] @ ''meaning'' @ [DQ] @ '':'' @ [DQ], safe_text (Some (ic_meaning c)) ''unknown'',
        DQ # '','' @ [DQ] @ ''effect'' @ [DQ] @ '':'' @ [DQ], safe_text (Some (ic_effect c)) ''unknown'',
        DQ # ''}'' @ [LF]] []"

definition vitair_report :: "vita_ir_claim list \<Rightarrow> string" where
  "vitair_report claims =
     (if claims = []
      then append_text 4096 (json_text [(''type'', ''vitair_claims''), (''ir_version'', VITA_IR_VERSION), (''status'', ''unavailable'')]) []
      else append_texts 4096 (map vitair_claim_line claims) [])"

definition VITAIR_STATE_PATH :: string where "VITAIR_STATE_PATH = ''/vita/export/reports/vitair-state.jsonl''"

definition handle_export_vitair :: "vita_command_context option \<Rightarrow> 'a console_sys_scheme \<Rightarrow> 'a console_sys_scheme" where
  "handle_export_vitair ctx s =
     (let (ok, s1) = write_report_verified (Some VITAIR_STATE_PATH) (Some (vitair_report (runtime_claims ctx s))) s
      in if ok then say_all [''export vitair: written'', VITAIR_STATE_PATH] s1 else say ''export vitair: failed'' s1)"

definition handle_linux_assisted_countdown_stub :: "'a console_sys_scheme \<Rightarrow> 'a console_sys_scheme" where
  "handle_linux_assisted_countdown_stub s =
     say_all [''VitaOS Linux-Assisted boot'', ''Press any key or type text to stay in Native VitaOS Core.'',
       ''No input detected: starting Linux assistant in 3...'', ''No input detected: starting Linux assistant in 2...'',
       ''No input detected: starting Linux assistant in 1...'', ''Starting Linux assistant...'',
       ''Linux assistant handoff: not implemented'']
       (audit_emit ''COMMAND_LINUX_COUNTDOWN'' ''linux countdown'' s)"

definition selftest_txt :: "string \<Rightarrow> string \<Rightarrow> string \<Rightarrow> string \<Rightarrow> string \<Rightarrow> string" where
  "selftest_txt res storage journal sqlite_st mode =
     text_of_lines [''Resultado: PASS/WARN/FAIL -> '' @ res, ''Consola: PASS'', ''Almacenamiento: '' @ storage,
       ''Audit journal TXT/JSONL: '' @ journal, ''Audit SQLite: '' @ sqlite_st, ''Operational mode: '' @ mode,
       ''Limitaciones: no implementado wifi/network remoto'']"

definition handle_selftest :: "vita_command_context option \<Rightarrow> 'a console_sys_scheme \<Rightarrow> 'a console_sys_scheme" where
  "handle_selftest ctx s =
     (let rt = resolve_audit_runtime_status ctx s;
          claims = vita_ir_claims_from_audit_runtime (Some rt) VITA_IR_AUDIT_CLAIM_MAX;
          txt_pass = selftest_txt ''PASS'' ''OK (verified writable)'' ''OK'' ''OK'' ''full'';
          txt_warn_storage_ok = selftest_txt ''WARN'' ''OK (verified writable)'' ''OK''
            ''UNAVAILABLE (uefi restricted diagnostic)'' ''restricted diagnostic'';
          txt_warn_storage_degraded = selftest_txt ''WARN'' ''WARN (degraded o no verificado)'' ''WARN''
            ''UNAVAILABLE (uefi restricted diagnostic)'' ''restricted diagnostic'';
          jsonl_pass = json_text [(''type'', ''self_test''), (''status'', ''pass''), (''audit'', ''hosted'')];
          jsonl_warn = json_text [(''type'', ''self_test''), (''status'', ''warn''), (''audit'', ''restricted''), (''sqlite_status'', ''unavailable'')];
          txt0 = append_text 4096 (if audit_ready_ctx ctx then txt_pass
                   else if rt_storage_status rt = STATUS_OK then txt_warn_storage_ok else txt_warn_storage_degraded) [];
          jsonl0 = append_text 4096 (if audit_ready_ctx ctx then jsonl_pass else jsonl_warn) [];
          txt_report = (if claims = [] then append_text 4096 (''VitaIR-Tri runtime claims: unavailable'' @ [LF]) txt0
            else append_texts 4096 (map (\<lambda>c. claim_txt_line 192 True (claim_name c) c) claims)
                   (append_text 4096 (''VitaIR-Tri runtime claims:'' @ [LF]) txt0));
          jsonl_report = (if claims = []
            then append_text 4096 (json_text [(''type'', ''vitair_claims''), (''status'', ''unavailable'')]) jsonl0
            else append_texts 4096 (map (\<lambda>c. append_vitair_claim_jsonl_line 256 (claim_name c)
                   (safe_vitair_state_num (ic_state c)) (safe_vitair_severity (ic_severity c)) []) claims) jsonl0);
          (ok, s1) = write_report_pair_verified ''/vita/export/reports/self-test.txt'' txt_report
                       ''/vita/export/reports/self-test.jsonl'' jsonl_report s
      in say (if ok then ''selftest: written'' else ''selftest: failed'') s1)"

section \<open>What a verified report is worth\<close>

lemma report_verified_short:
  assumes "fst (write_report_verified (Some p) (Some body) s)"
  shows "length body < VITA_STORAGE_READ_MAX"
proof -
  obtain w s1 where w: "storage_write_text (Some p) (Some body) s = (w, s1)" by fastforce
  obtain r rb s2 where r: "storage_read_text (Some p) VITA_STORAGE_READ_MAX s1 = ((r, rb), s2)" by (metis prod.collapse)
  have ok: "w" "r" "rb = body"
    using assms w r by (auto simp: write_report_verified_def text_exact_match_def split: if_splits)
  then obtain c where "rb = c_string (take (VITA_STORAGE_READ_MAX - 1) c)" using storage_read_ok [of p VITA_STORAGE_READ_MAX s1 rb s2] r by auto
  moreover have "length (c_string (take (VITA_STORAGE_READ_MAX - 1) c)) \<le> length (take (VITA_STORAGE_READ_MAX - 1) c)"
    unfolding c_string_def by (rule length_takeWhile_le)
  ultimately show ?thesis using ok(3) by (simp add: VITA_STORAGE_READ_MAX_def)
qed

lemma append_texts_eq:
  "length dst < cap \<Longrightarrow> append_texts cap srcs dst = dst @ take (cap - 1 - length dst) (concat srcs)"
  using sa.fold_app [of dst cap srcs] by (simp add: append_texts_def append_text_def [abs_def])

lemma append_texts_length:
  "length dst < cap \<Longrightarrow> length (append_texts cap srcs dst) = min (cap - 1) (length dst + length (concat srcs))"
  by (simp add: append_texts_eq)

lemma claim_text_lengths: "1 \<le> length (safe_vitair_state_num t)" "4 \<le> length (safe_vitair_severity v)"
  by (cases t; simp add: safe_vitair_state_num_def or_text_def) (cases v; simp add: safe_vitair_severity_def or_text_def)

text \<open>The fixed text of a line has 141 characters, with the shortest state and severity.\<close>

definition named_claim :: "vita_ir_claim \<Rightarrow> bool" where
  "named_claim c \<longleftrightarrow> ic_claim c \<noteq> [] \<and> ic_actor c \<noteq> [] \<and> ic_target c \<noteq> [] \<and> ic_meaning c \<noteq> [] \<and> ic_effect c \<noteq> []"

definition line_bound :: "vita_ir_claim \<Rightarrow> nat" where
  "line_bound c = min 383 (141 + length (ic_claim c) + length (ic_actor c) + length (ic_target c) +
     length (ic_meaning c) + length (ic_effect c))"

lemma vitair_line_length: "named_claim c \<Longrightarrow> line_bound c \<le> length (vitair_claim_line c)"
  using claim_text_lengths(1) [of "ic_state c"] claim_text_lengths(2) [of "ic_severity c"]
  by (simp add: vitair_claim_line_def append_texts_length VITA_IR_VERSION_def claim_name_def safe_text_def
      line_bound_def named_claim_def)

lemma vitair_report_length:
  assumes "list_all named_claim cs" "cs \<noteq> []" "n < 4096" "n \<le> sum_list (map line_bound cs)"
  shows "n \<le> length (vitair_report cs)"
proof -
  have "sum_list (map line_bound cs) \<le> sum_list (map (\<lambda>c. length (vitair_claim_line c)) cs)"
    using assms(1) by (intro sum_list_mono vitair_line_length) (auto simp: list_all_iff)
  then show ?thesis using assms(2-4) by (simp add: vitair_report_def append_texts_length length_concat comp_def)
qed

text \<open>Whatever the runtime reports, the eight lines have more than 2047 characters.\<close>

lemma runtime_report_long: "VITA_STORAGE_READ_MAX \<le> length (vitair_report (runtime_claims ctx s))"
proof -
  obtain w rs where "rt_persistent_storage_writable (resolve_audit_runtime_status ctx s) = w"
    "rt_restricted_mode (resolve_audit_runtime_status ctx s) = rs" by simp
  then show ?thesis
    unfolding runtime_claims_def VITA_STORAGE_READ_MAX_def
    by (intro vitair_report_length; cases w; cases rs)
      (simp_all add: vita_ir_claims_from_audit_runtime_def append_claim_def VITA_IR_AUDIT_CLAIM_MAX_def named_claim_def line_bound_def)
qed

text \<open>
  The VitaIR report is never verified. For every status of the runtime its text is longer than the
  array it is read back into, so on every machine and in every state \<open>export vitair\<close> ends with its failure
  line, also when every call succeeds and the file is complete.
\<close>

theorem vitair_export_always_fails:
  fixes ctx :: "vita_command_context option" and s :: "'a console_sys_scheme"
  defines "report \<equiv> vitair_report (runtime_claims ctx s)"
  shows "VITA_STORAGE_READ_MAX \<le> length report \<and>
    handle_export_vitair ctx s =
      say ''export vitair: failed'' (snd (write_report_verified (Some VITAIR_STATE_PATH) (Some report) s))"
proof -
  have "\<not> fst (write_report_verified (Some VITAIR_STATE_PATH) (Some report) s)"
    using report_verified_short [of VITAIR_STATE_PATH report s] runtime_report_long [of ctx s] by (auto simp: report_def)
  then show ?thesis using runtime_report_long [of ctx s]
    by (simp add: handle_export_vitair_def report_def case_prod_beta)
qed

end
