(* ===== verification/Commands.thy ===== *)
theory Commands
  imports Reports
begin

text \<open>
  The command dispatcher and the read loop of kernel/command\_core.c. A command changes the context and the
  kernel state; the loop ends when the terminal is closed or at \<open>shutdown\<close>, so each turn reads a line and
  the input left is a measure.
\<close>

datatype vita_command_result = VITA_COMMAND_CONTINUE | VITA_COMMAND_SHUTDOWN

section \<open>The screens and reports as steps\<close>

lemma runs_command_screens [kops]:
  "runs s t \<Longrightarrow> runs s (console_write_i32 l v t)"
  "runs s t \<Longrightarrow> runs s (show_audit ctx t)"
  "runs s t \<Longrightarrow> runs s (show_status_vitair_summary ctx t)"
  "runs s t \<Longrightarrow> runs s (show_storage_status_vitair_summary ctx t)"
  "runs s t \<Longrightarrow> runs s (show_peers ctx t)"
  "runs s t \<Longrightarrow> runs s (show_proposals ctx t)"
  unfolding console_write_i32_def show_audit_def show_status_vitair_summary_def show_storage_status_vitair_summary_def
    show_peers_def show_proposals_def
  by (intro kops kflow runs_let_value; assumption)+

lemma runs_show_hw [kops]: "runs s t \<Longrightarrow> runs s (show_hw ctx t)"
  unfolding show_hw_def
  by (intro kops kflow runs_let_value; assumption)

lemma runs_emergency [kops]: "runs s t \<Longrightarrow> runs s (show_emergency ctx x t)"
  unfolding show_emergency_def by (intro kops kflow runs_let_value; assumption)

lemma runs_header [kops]: "runs s t \<Longrightarrow> runs s (snd (show_refreshed_header c t))"
  unfolding show_refreshed_header_def by (intro kops kflow runs_let_value; assumption)

lemma runs_report_writes [kops]:
  "runs s t \<Longrightarrow> runs s (snd (write_report_verified p b t))"
  "runs s t \<Longrightarrow> runs s (snd (write_report_pair_verified p1 b1 p2 b2 t))"
  unfolding write_report_pair_verified_def write_report_verified_def
  by (intro kops kflow runs_let_value; assumption)+

lemma runs_index_loop [kops]: "runs s t \<Longrightarrow> runs s (snd (index_loop ps x t))"
  by (induction ps arbitrary: x t) (simp_all add: Let_def case_prod_beta kops)

lemma runs_audit_commands [kops]:
  "runs s t \<Longrightarrow> runs s (handle_audit_readiness ctx t)"
  "runs s t \<Longrightarrow> runs s (handle_audit_verify ctx t)"
  "runs s t \<Longrightarrow> runs s (handle_audit_export ctx t)"
  "runs s t \<Longrightarrow> runs s (handle_audit_events_export t)"
  unfolding handle_audit_readiness_def handle_audit_verify_def handle_audit_export_def handle_audit_events_export_def
  by (intro kops kflow runs_let_value; assumption)+

lemma runs_sqlite_summary [kops]: "runs s t \<Longrightarrow> runs s (handle_audit_sqlite_summary ctx t)"
  unfolding handle_audit_sqlite_summary_def
  by (intro kops kflow runs_let_value; (assumption | simp))+

lemma runs_report_commands [kops]:
  "runs s t \<Longrightarrow> runs s (handle_diagnostic_bundle ctx t)"
  "runs s t \<Longrightarrow> runs s (handle_export_index t)"
  "runs s t \<Longrightarrow> runs s (handle_export_vitair ctx t)"
  "runs s t \<Longrightarrow> runs s (handle_linux_assisted_countdown_stub t)"
  "runs s t \<Longrightarrow> runs s (handle_selftest ctx t)"
  unfolding handle_diagnostic_bundle_def handle_export_index_def handle_export_vitair_def
    handle_linux_assisted_countdown_stub_def handle_selftest_def
  by (intro kops kflow runs_let_value; assumption)+

section \<open>One command\<close>

definition one_of :: "string \<Rightarrow> string list \<Rightarrow> bool" where
  "one_of cmd ws = list_ex (eqs cmd) ws"

abbreviation continue_with :: "vita_command_context \<Rightarrow> 's \<Rightarrow> (vita_command_result \<times> vita_command_context) \<times> 's" where
  "continue_with ctx s \<equiv> ((VITA_COMMAND_CONTINUE, ctx), s)"

text \<open>
  The commands behind the service handlers, in the second half of \<open>command_handle_line\<close>. A line that is no
  command describes an emergency.
\<close>

definition report_commands ::
  "string \<Rightarrow> vita_command_context \<Rightarrow> 'a ai_sys_scheme \<Rightarrow> (vita_command_result \<times> vita_command_context) \<times> 'a ai_sys_scheme" where
  "report_commands cmd ctx s =
     (if eqs cmd ''export session'' then continue_with ctx (snd (session_export_write_report (Some ctx) s))
      else if eqs cmd ''export session jsonl'' then
        continue_with ctx (snd (session_export_write_jsonl (Some ctx) (snd (session_export_write_report (Some ctx) s))))
      else if eqs cmd ''export jsonl'' then continue_with ctx (snd (session_export_write_jsonl (Some ctx) s))
      else if one_of cmd [''export vitair'', ''export vitair-state''] then continue_with ctx (handle_export_vitair (Some ctx) s)
      else if one_of cmd [''diagnostic'', ''diag'', ''export diagnostic''] then continue_with ctx (handle_diagnostic_bundle (Some ctx) s)
      else if one_of cmd [''export index'', ''export manifest'', ''export list'', ''exports'', ''storage export-index'']
      then continue_with ctx (handle_export_index s)
      else if one_of cmd [''selftest'', ''self-test'', ''boot selftest'', ''boot self-test'', ''checkup'']
      then continue_with ctx (handle_selftest (Some ctx) s)
      else if one_of cmd [''linux countdown'', ''linux-assisted countdown'']
      then continue_with ctx (handle_linux_assisted_countdown_stub s)
      else if one_of cmd [''shutdown'', ''exit''] then
        ((VITA_COMMAND_SHUTDOWN, ctx),
          say ''Shutting down command session / Cerrando sesion de comandos''
            (snd (session_journal_flush (audit_emit ''COMMAND_SHUTDOWN'' ''shutdown'' s))))
      else continue_with ctx (show_emergency (Some ctx) (Some cmd) s))"

text \<open>The service handlers, each asked in turn; one that refuses the line may have printed already.\<close>

definition service_commands ::
  "string \<Rightarrow> vita_command_context \<Rightarrow> 'a ai_sys_scheme \<Rightarrow> (vita_command_result \<times> vita_command_context) \<times> 'a ai_sys_scheme" where
  "service_commands cmd ctx s =
     (let (ai, s1) = ai_gateway_handle_command (Some cmd) s in
      if ai then continue_with ctx s1
      else if eqs cmd ''storage status''
      then continue_with ctx (show_storage_status_vitair_summary (Some ctx) (storage_show_status s1))
      else let (st, s2) = storage_handle_command (Some cmd) s1 in
      if st then continue_with ctx s2
      else let (ed, s3) = editor_handle_command (Some cmd) s2 in
      if ed then continue_with ctx s3
      else let (jr, s4) = session_journal_handle_command (Some cmd) s3 in
      if jr then continue_with ctx s4
      else report_commands cmd ctx s4)"

definition command_dispatch ::
  "string \<Rightarrow> vita_command_context \<Rightarrow> 'a ai_sys_scheme \<Rightarrow> (vita_command_result \<times> vita_command_context) \<times> 'a ai_sys_scheme" where
  "command_dispatch cmd ctx s =
     (if eqs cmd ''status'' then
        continue_with ctx (show_status_vitair_summary (Some ctx)
          (console_guided_show_status (Some (cx_console_state ctx)) (audit_emit ''COMMAND_STATUS'' ''status'' s)))
      else if eqs cmd ''hw'' then continue_with ctx (show_hw (Some ctx) (audit_emit ''COMMAND_HW'' ''hw'' s))
      else if eqs cmd ''audit'' then continue_with ctx (show_audit (Some ctx) (audit_emit ''COMMAND_AUDIT'' ''audit'' s))
      else if one_of cmd [''audit status'', ''audit report'', ''audit gate'', ''audit readiness'']
      then continue_with ctx (handle_audit_readiness (Some ctx) s)
      else if one_of cmd [''audit verify'', ''audit verify-chain'', ''audit hash'', ''audit hash-chain'']
      then continue_with ctx (handle_audit_verify (Some ctx) s)
      else if one_of cmd [''audit export'', ''audit verify export'', ''audit export verify'', ''export audit verify'']
      then continue_with ctx (handle_audit_export (Some ctx) s)
      else if one_of cmd [''audit events'', ''audit export events'', ''export audit events'']
      then continue_with ctx (handle_audit_events_export s)
      else if one_of cmd [''audit sqlite'', ''audit sqlite summary'', ''audit db'', ''audit db summary'']
      then continue_with ctx (handle_audit_sqlite_summary (Some ctx) s)
      else if eqs cmd ''peers'' then continue_with ctx (show_peers (Some ctx) (audit_emit ''COMMAND_PEERS'' ''peers'' s))
      else if one_of cmd [''proposals'', ''list'']
      then continue_with ctx (show_proposals (Some ctx) (audit_emit ''COMMAND_PROPOSALS'' ''proposals'' s))
      else if eqs cmd ''emergency'' then
        let ctx1 = ctx\<lparr>cx_console_state := (cx_console_state ctx)\<lparr>cs_mode := MODE_EMERGENCY\<rparr>\<rparr>
        in continue_with ctx1 (show_emergency (Some ctx1) None s)
      else if one_of cmd [''helpme'', ''help'', ''menu'']
      then continue_with ctx (console_guided_show_menu (console_guided_show_help (audit_emit ''COMMAND_HELPME'' ''helpme'' s)))
      else if one_of cmd [''clear'', ''cls''] then
        let (ctx1, s1) = show_refreshed_header ctx (console_clear_screen (audit_emit ''COMMAND_CLEAR'' ''clear'' s))
        in continue_with ctx1 s1
      else if pre cmd ''approve '' \<or> pre cmd ''reject '' then
        if \<not> cx_proposal_ready ctx
        then continue_with ctx (say ''Proposal engine unavailable / Motor de propuestas no disponible'' s)
        else let (ok, s1) = proposal_handle_command (Some cmd) s
             in continue_with ctx (if ok then s1 else say ''proposal command failed / comando de propuesta no ejecutado'' s1)
      else service_commands cmd ctx s)"

text \<open>The command of a line: at most 127 characters of it, without the spaces around.\<close>

definition command_of_line :: "string \<Rightarrow> string" where
  "command_of_line line = skip_spaces (Some (trim_right_in_place (copy_text VITA_CONSOLE_LINE_MAX line)))"

definition command_handle_line ::
  "vita_command_context \<Rightarrow> cstr \<Rightarrow> 'a ai_sys_scheme \<Rightarrow> (vita_command_result \<times> vita_command_context) \<times> 'a ai_sys_scheme" where
  "command_handle_line ctx line s =
     (case line of None \<Rightarrow> continue_with ctx s
      | Some l \<Rightarrow>
          let cmd = command_of_line l in
          if cmd = [] then continue_with ctx s
          else
            let s1 = session_transcript_log_command_executed cmd (session_transcript_log_user_input cmd s)
            in command_dispatch cmd (command_refresh_state s1 ctx) s1)"

lemma runs_report_command [kops]: "runs s t \<Longrightarrow> runs s (snd (report_commands cmd ctx t))"
  unfolding report_commands_def by (intro kops kflow runs_let_value; assumption)

lemma runs_service_command [kops]: "runs s t \<Longrightarrow> runs s (snd (service_commands cmd ctx t))"
  unfolding service_commands_def by (intro kops kflow runs_let_value; assumption)

lemma runs_dispatch [kops]: "runs s t \<Longrightarrow> runs s (snd (command_dispatch cmd ctx t))"
  unfolding command_dispatch_def by (intro kops kflow runs_let_value; assumption)

lemma runs_handle_line [kops]: "runs s t \<Longrightarrow> runs s (snd (command_handle_line ctx line t))"
  unfolding command_handle_line_def by (intro kops kflow runs_let_value; assumption)

section \<open>The loop\<close>

text \<open>One turn after a line was read: \<open>None\<close> when a tab did not complete it.\<close>

definition command_turn ::
  "vita_command_context \<Rightarrow> string \<Rightarrow> 'a ai_sys_scheme \<Rightarrow> (vita_command_result \<times> vita_command_context) \<times> 'a ai_sys_scheme" where
  "command_turn ctx line s =
     (let ((completed, line1), s1) =
            (if TAB \<in> set line then console_autocomplete_line line VITA_CONSOLE_LINE_MAX s else ((True, line), s))
      in if \<not> completed then continue_with ctx s1
         else
           let (r, s2) = command_handle_line ctx (Some line1) (console_pager_begin PAGE_LINES_DEFAULT s1)
           in (r, console_pager_end s2))"

lemma runs_turn [kops]: "runs s t \<Longrightarrow> runs s (snd (command_turn ctx line t))"
  unfolding command_turn_def by (intro kops kflow runs_let_value; assumption)

lemma turn_consumes:
  assumes "console_read_line VITA_CONSOLE_LINE_MAX (console_guided_prompt s) = ((True, line), s1)"
  shows "length (h_stdin (snd (command_turn ctx line s1))) < length (h_stdin s)"
proof -
  have "length (h_stdin s1) < length (h_stdin (console_guided_prompt s))"
    using assms by (rule read_line_consumes) (simp add: VITA_CONSOLE_LINE_MAX_def)
  also have "length (h_stdin (console_guided_prompt s)) \<le> length (h_stdin s)"
    by (rule runs_stdin) (intro kops rtranclp.rtrancl_refl)
  moreover have "length (h_stdin (snd (command_turn ctx line s1))) \<le> length (h_stdin s1)"
    by (rule runs_stdin) (intro kops rtranclp.rtrancl_refl)
  ultimately show ?thesis by simp
qed

function command_loop :: "vita_command_context \<Rightarrow> 'a ai_sys_scheme \<Rightarrow> vita_command_context \<times> 'a ai_sys_scheme" where
  "command_loop ctx s =
     (case console_read_line VITA_CONSOLE_LINE_MAX (console_guided_prompt s) of
        ((False, _), s1) \<Rightarrow>
          (ctx, audit_emit ''COMMAND_REPL_INPUT_CLOSED'' ''console input unavailable or closed''
                  (say ''Console input unavailable or closed / Entrada de consola no disponible o cerrada'' s1))
      | ((True, line), s1) \<Rightarrow>
          (case command_turn ctx line s1 of
             ((VITA_COMMAND_SHUTDOWN, ctx2), s2) \<Rightarrow> (ctx2, s2)
           | ((VITA_COMMAND_CONTINUE, ctx2), s2) \<Rightarrow> command_loop ctx2 s2))"
  by pat_completeness auto
termination
proof (relation "measure (\<lambda>(ctx, s). length (h_stdin s))", goal_cases)
  case (2 ctx s x s1 ok line r s2 res ctx2)
  have "console_read_line VITA_CONSOLE_LINE_MAX (console_guided_prompt s) = ((True, line), s1)" using 2(1-3) by simp
  moreover have "s2 = snd (command_turn ctx line s1)" using 2(4) by (metis snd_conv)
  ultimately show ?case using turn_consumes by simp
qed simp

declare command_loop.simps [simp del]

definition command_loop_run :: "vita_command_context \<Rightarrow> 'a ai_sys_scheme \<Rightarrow> vita_command_context \<times> 'a ai_sys_scheme" where
  "command_loop_run ctx s =
     (let s1 = say_all [''Interactive console ready / Consola interactiva lista'', ''Type helpme for commands / Escribe helpme para comandos''] s;
          s2 = audit_emit ''COMMAND_REPL_STARTED'' ''interactive command loop started''
                 (session_transcript_log_system_output ''interactive_console_ready'' False s1);
          (ctx1, s3) = command_loop ctx s2
      in (ctx1, audit_emit ''COMMAND_REPL_STOPPED'' ''interactive command loop stopped'' s3))"

lemma runs_command_loop [kops]: "runs s t \<Longrightarrow> runs s (snd (command_loop ctx t))"
proof (induction ctx t rule: command_loop.induct)
  case (1 ctx t)
  obtain ok l t1 where r: "console_read_line VITA_CONSOLE_LINE_MAX (console_guided_prompt t) = ((ok, l), t1)"
    by (metis prod.collapse)
  have "runs s (snd (console_read_line VITA_CONSOLE_LINE_MAX (console_guided_prompt t)))"
    using 1(2) by (intro kops)
  then have t1: "runs s t1" using r by simp
  obtain res ctx2 t2 where l: "command_turn ctx l t1 = ((res, ctx2), t2)" by (metis prod.collapse)
  then have t2: "runs s t2" using runs_turn [OF t1, of ctx l] by simp
  show ?case
  proof (cases "ok \<and> res = VITA_COMMAND_CONTINUE")
    case True
    then show ?thesis using 1(1) r l t2 by (subst command_loop.simps) simp
  next
    case False
    then show ?thesis using r l t1 t2 by (subst command_loop.simps) (cases ok; cases res; simp add: kops)
  qed
qed

lemma runs_command_loop_run [kops]: "runs s t \<Longrightarrow> runs s (snd (command_loop_run ctx t))"
  unfolding command_loop_run_def by (intro kops kflow runs_let_value; assumption)

section \<open>The loop ends\<close>

text \<open>The same loop with a bound on its turns; \<open>None\<close> when the turns do not suffice.\<close>

fun command_turns :: "nat \<Rightarrow> vita_command_context \<Rightarrow> 'a ai_sys_scheme \<Rightarrow> (vita_command_context \<times> 'a ai_sys_scheme) option" where
  "command_turns 0 ctx s = None"
| "command_turns (Suc n) ctx s =
     (case console_read_line VITA_CONSOLE_LINE_MAX (console_guided_prompt s) of
        ((False, _), s1) \<Rightarrow>
          Some (ctx, audit_emit ''COMMAND_REPL_INPUT_CLOSED'' ''console input unavailable or closed''
                  (say ''Console input unavailable or closed / Entrada de consola no disponible o cerrada'' s1))
      | ((True, line), s1) \<Rightarrow>
          (case command_turn ctx line s1 of
             ((VITA_COMMAND_SHUTDOWN, ctx2), s2) \<Rightarrow> Some (ctx2, s2)
           | ((VITA_COMMAND_CONTINUE, ctx2), s2) \<Rightarrow> command_turns n ctx2 s2))"

text \<open>
  C9. The command loop ends. Whatever is typed and whatever the commands do, one turn more than there are
  characters left in the input is enough: the loop bounded to that many turns, or to more, returns what the
  unbounded loop returns.
\<close>

theorem command_loop_ends:
  fixes s :: "'a ai_sys_scheme"
  shows "command_turns (Suc (length (h_stdin s)) + extra) ctx s = Some (command_loop ctx s)"
proof (induction ctx s arbitrary: extra rule: command_loop.induct)
  case (1 ctx s)
  obtain ok l s1 where r: "console_read_line VITA_CONSOLE_LINE_MAX (console_guided_prompt s) = ((ok, l), s1)"
    by (metis prod.collapse)
  obtain res ctx2 s2 where t: "command_turn ctx l s1 = ((res, ctx2), s2)" by (metis prod.collapse)
  show ?case
  proof (cases "ok \<and> res = VITA_COMMAND_CONTINUE")
    case True
    have less: "length (h_stdin s2) < length (h_stdin s)" using turn_consumes [of s l s1 ctx] r t True by simp
    then have turns: "length (h_stdin s) + extra = Suc (length (h_stdin s2)) + (length (h_stdin s) - Suc (length (h_stdin s2)) + extra)"
      by simp
    have "command_turns (length (h_stdin s) + extra) ctx2 s2 =
        command_turns (Suc (length (h_stdin s2)) + (length (h_stdin s) - Suc (length (h_stdin s2)) + extra)) ctx2 s2"
      by (rule arg_cong [OF turns])
    also have "\<dots> = Some (command_loop ctx2 s2)" using 1 r t True by simp
    finally show ?thesis using r t True by (subst command_loop.simps) simp
  next
    case False
    then show ?thesis using r t by (subst command_loop.simps) (cases ok; cases res; simp)
  qed
qed

section \<open>The way out\<close>

definition goes_on :: "((vita_command_result \<times> vita_command_context) \<times> 's) \<Rightarrow> bool" where
  "goes_on p \<longleftrightarrow> fst (fst p) = VITA_COMMAND_CONTINUE"

lemma goes_on_flow:
  "goes_on (continue_with c t)"
  "(b \<Longrightarrow> goes_on p) \<Longrightarrow> (\<not> b \<Longrightarrow> goes_on q) \<Longrightarrow> goes_on (if b then p else q)"
  "(\<And>x. goes_on (f x)) \<Longrightarrow> goes_on (Let v f)"
  "(\<And>x y. goes_on (g x y)) \<Longrightarrow> goes_on (case_prod g w)"
  by (auto simp: goes_on_def split: prod.split)

lemma report_goes_on: "\<not> one_of cmd [''shutdown'', ''exit''] \<Longrightarrow> goes_on (report_commands cmd ctx s)"
  unfolding report_commands_def by (intro goes_on_flow) simp

lemma dispatch_goes_on: "\<not> one_of cmd [''shutdown'', ''exit''] \<Longrightarrow> goes_on (command_dispatch cmd ctx s)"
  unfolding command_dispatch_def service_commands_def by (intro goes_on_flow report_goes_on)

text \<open>No handler in front of the two words takes them.\<close>

lemma exit_refused_ai: "ai_gateway_handle_command (Some ''shutdown'') s = (False, s)" "ai_gateway_handle_command (Some ''exit'') s = (False, s)"
  by (simp_all add: ai_gateway_handle_command_def skip_spaces_def is_space_char_def starts_with_Some Let_def)

lemma exit_refused_storage: "storage_handle_command (Some ''shutdown'') s = (False, s)" "storage_handle_command (Some ''exit'') s = (False, s)"
  by (simp_all add: storage_handle_command_def starts_with_Some)

lemma exit_refused_editor: "editor_handle_command (Some ''shutdown'') s = (False, s)" "editor_handle_command (Some ''exit'') s = (False, s)"
  by (simp_all add: editor_handle_command_def starts_with_Some)

lemma exit_refused_journal: "session_journal_handle_command (Some ''shutdown'') s = (False, s)" "session_journal_handle_command (Some ''exit'') s = (False, s)"
  by (simp_all add: session_journal_handle_command_def starts_with_Some)

lemma dispatch_exits:
  "fst (fst (command_dispatch ''shutdown'' ctx s)) = VITA_COMMAND_SHUTDOWN" "fst (fst (command_dispatch ''exit'' ctx s)) = VITA_COMMAND_SHUTDOWN"
  by (simp_all add: command_dispatch_def one_of_def starts_with_Some service_commands_def exit_refused_ai exit_refused_storage
    exit_refused_editor exit_refused_journal report_commands_def)

text \<open>
  C8. The way out of the loop, hosted build. In every state and context, a line ends the command session exactly
  when it is \<open>shutdown\<close> or \<open>exit\<close>, with spaces around it if any: none of the handlers asked before takes
  the two words, and nothing else, a failed command or a broken service included, ends the session. In
  particular \<open>poweroff\<close> does not, although docs/power/safe-power-flow.md says it leaves the loop and power.c
  lists it on the screen of \<open>power\<close>: the dispatcher knows no such command and treats it as free text.
\<close>

theorem only_exit_ends_the_session:
  fixes s :: "'a ai_sys_scheme"
  shows "fst (fst (command_handle_line ctx (Some line) s)) = VITA_COMMAND_SHUTDOWN \<longleftrightarrow>
    command_of_line line \<in> {''shutdown'', ''exit''}"
proof (cases "one_of (command_of_line line) [''shutdown'', ''exit'']")
  case True
  then have "command_of_line line = ''shutdown'' \<or> command_of_line line = ''exit''" by (simp add: one_of_def)
  then show ?thesis by (elim disjE) (simp_all add: command_handle_line_def Let_def dispatch_exits)
next
  case False
  then have "goes_on (command_handle_line ctx (Some line) s)"
    unfolding command_handle_line_def option.case Let_def by (intro goes_on_flow dispatch_goes_on)
  then show ?thesis using False by (simp add: goes_on_def one_of_def)
qed

end
