(* ===== verification/Kernel_Main.thy ===== *)
theory Kernel_Main
  imports Commands
begin

text \<open>
  The boot of kernel/kmain.c, hosted build: handoff check, audit gate, hardware, storage, journal,
  transcript, proposals, node core, the guided screens and the command loop, in the order of the code.
\<close>

definition VITA_BOOT_MAGIC :: u64 where "VITA_BOOT_MAGIC = 0x56495441424F4F54"

text \<open>\<open>sizeof(vita_handoff_t)\<close> with 8-byte pointers.\<close>

definition HANDOFF_SIZE :: u32 where "HANDOFF_SIZE = 64"

definition handoff_valid :: "vita_handoff option \<Rightarrow> bool" where
  "handoff_valid handoff =
     (case handoff of None \<Rightarrow> False | Some h \<Rightarrow> ho_magic h = VITA_BOOT_MAGIC \<and> \<not> ho_size h < HANDOFF_SIZE)"

definition console_show_hw :: "vita_hw_snapshot \<Rightarrow> 'a console_sys_scheme \<Rightarrow> 'a console_sys_scheme" where
  "console_show_hw hw s =
     (let s1 = say_all [''HW Snapshot / Resumen de hardware:'', ''cpu_arch:'', or_text (hw_cpu_arch hw) ''unknown'',
                 ''cpu_model:'', or_text (hw_cpu_model hw) ''unavailable'', ''ram_bytes:'', u64_to_dec (hw_ram_bytes hw),
                 ''firmware_type:'', or_text (hw_firmware_type hw) ''unknown'',
                 ''console_type:'', or_text (hw_console_type hw) ''unknown''] s;
          s2 = fold (\<lambda>(l, v). console_write_i32 l v)
                 [(''display_count:'', hw_display_count hw), (''keyboard_count:'', hw_keyboard_count hw),
                  (''mouse_count:'', hw_mouse_count hw), (''audio_count:'', hw_audio_count hw),
                  (''microphone_count:'', hw_microphone_count hw), (''net_count:'', hw_net_count hw),
                  (''ethernet_count:'', hw_ethernet_count hw), (''wifi_count:'', hw_wifi_count hw),
                  (''storage_count:'', hw_storage_count hw), (''usb_count:'', hw_usb_count hw),
                  (''usb_controller_count:'', hw_usb_controller_count hw)] s1
      in say_all [''detected_at_unix:'', u64_to_dec (hw_detected_at_unix hw)] s2)"

definition kernel_operational :: "vita_boot_status \<Rightarrow> 'a journal_sys_scheme \<Rightarrow> bool" where
  "kernel_operational bs s = (bs_audit_ready bs \<and> storage_is_bootstrap_verified s \<and> session_journal_is_active s)"

definition console_fill_state ::
  "vita_handoff option \<Rightarrow> vita_boot_status \<Rightarrow> bool \<Rightarrow> bool \<Rightarrow> 'a node_sys_scheme \<Rightarrow> vita_console_state" where
  "console_fill_state handoff bs proposal_ready node_ready s =
     \<lparr>cs_arch_name = Some (case bs_arch_name bs of None \<Rightarrow> ''unknown'' | Some a \<Rightarrow> a), cs_boot_mode = Some (boot_mode_name handoff),
      cs_language_mode = Some ''es,en'', cs_console_ready = bs_console_ready bs, cs_audit_ready = bs_audit_ready bs,
      cs_proposal_engine_ready = proposal_ready, cs_node_core_ready = node_ready,
      cs_peer_count = (if node_ready then of_nat (node_core_peer_count s) else 0),
      cs_pending_proposal_count = (if node_ready then of_nat (node_core_pending_proposal_count s) else 0),
      cs_mode = (if kernel_operational bs s then MODE_GUIDED else MODE_AUDIT)\<rparr>"

section \<open>The stages\<close>

text \<open>How a run ends: the process exits, \<open>kmain\<close> returns to the hosted entry, or the processor is halted.\<close>

datatype kernel_end = PROCESS_EXIT nat | KMAIN_RETURNS | KERNEL_HALTS

definition panic_fatal :: "cstr \<Rightarrow> 'a ai_sys_scheme \<Rightarrow> kernel_end \<times> 'a ai_sys_scheme" where
  "panic_fatal reason s =
     (PROCESS_EXIT 1,
      say (safe_text reason ''unknown'')
        (say ''PANIC: fatal boot error''
          (audit_emit ''PANIC_FATAL'' (case reason of None \<Rightarrow> ''unknown'' | Some r \<Rightarrow> r) s)))"

definition boot_start :: "'a ai_sys_scheme \<Rightarrow> 'a ai_sys_scheme" where
  "boot_start s = audit_emit ''BOOT_STARTED'' ''boot started'' (audit_early_buffer_init (console_early_init s))"

definition boot_audit :: "vita_handoff \<Rightarrow> 'a ai_sys_scheme \<Rightarrow> bool \<times> 'a ai_sys_scheme" where
  "boot_audit h s =
     (let s1 = audit_emit ''CONSOLE_READY'' ''console ready'' (audit_emit ''HANDOFF_TO_KMAIN'' ''handoff to kmain'' s);
          (ready, s2) = audit_init_persistent_backend (Some h) s1
      in (ready, if ready then audit_emit ''AUDIT_BACKEND_READY'' ''audit backend ready'' s2
                 else console_write_es ''Entrando en modo diagnostico restringido.''
                        (console_write_warning ''Audit persistence unavailable.'' s2)))"

definition boot_hardware :: "vita_handoff \<Rightarrow> bool \<Rightarrow> 'a ai_sys_scheme \<Rightarrow> vita_hw_snapshot \<times> 'a ai_sys_scheme" where
  "boot_hardware h audit_ready s =
     (let (hw, s1) = hw_discovery_run (Some h) (audit_emit ''HW_DISCOVERY_STARTED'' ''hardware discovery started'' s);
          s2 = audit_emit ''HW_DISCOVERY_COMPLETED'' ''hardware discovery completed'' s1;
          (persisted, s3) = (if audit_ready then audit_persist_hardware_snapshot (Some hw) s2 else (False, s2));
          s4 = (if persisted then audit_emit ''HW_SNAPSHOT_PERSISTED'' ''hardware snapshot persisted'' s3 else s3)
      in (hw, console_show_hw hw s4))"

definition boot_storage :: "vita_handoff \<Rightarrow> 'a ai_sys_scheme \<Rightarrow> 'a ai_sys_scheme" where
  "boot_storage h s =
     (let (init, s1) = storage_init (Some h) s in
      if \<not> init then audit_emit ''STORAGE_UNAVAILABLE'' ''storage not initialized'' s1
      else
        let (ok, s2) = storage_bootstrap_persistent_tree (audit_emit ''STORAGE_READY'' ''storage initialized'' s1)
        in if ok then audit_emit ''STORAGE_BOOTSTRAP_VERIFIED'' ''storage bootstrap verified'' s2
           else let s3 = console_write_error ''storage bootstrap: failed''
                           (audit_emit ''STORAGE_BOOTSTRAP_FAILED'' (storage_last_error s2) s2)
                in console_write_error (storage_last_error s3) s3)"

definition boot_logs :: "vita_handoff \<Rightarrow> cstr \<Rightarrow> 'a ai_sys_scheme \<Rightarrow> 'a ai_sys_scheme" where
  "boot_logs h arch s =
     (let (journal, s1) = session_journal_init s;
          s2 = (if journal then audit_emit ''SESSION_JOURNAL_READY'' ''session journal initialized'' s1
                else audit_emit ''SESSION_JOURNAL_UNAVAILABLE'' ''session journal not active'' s1);
          (transcript, s3) = session_transcript_init (Some h) arch s2
      in if transcript then session_transcript_log_journal_status ''active'' (session_transcript_log_storage_status ''verified'' s3)
         else session_transcript_log_journal_status ''inactive_or_unavailable''
                (session_transcript_log_storage_status ''degraded'' s3))"

definition boot_nodes :: "vita_handoff \<Rightarrow> bool \<Rightarrow> 'a ai_sys_scheme \<Rightarrow> bool \<times> 'a ai_sys_scheme" where
  "boot_nodes h audit_ready s =
     (if audit_ready \<and> ho_firmware_type h = VITA_FIRMWARE_HOSTED
      then let (node, s1) = node_core_start (Some h) s
           in (node, if node then audit_emit ''NODE_CORE_READY'' ''hosted node core ready'' s1
                     else audit_emit ''NODE_CORE_LIMITED'' ''hosted node core limited'' s1)
      else (False, s))"

definition boot_screens :: "vita_console_state \<Rightarrow> bool \<Rightarrow> 'a ai_sys_scheme \<Rightarrow> 'a ai_sys_scheme" where
  "boot_screens cs operational s =
     (let s1 = console_guided_show_status (Some cs) (console_guided_show_menu (console_guided_show_welcome (Some cs) s))
      in if \<not> operational then
           say_all [''Operational mode: restricted diagnostic because SQLite audit is unavailable.'',
             ''Persistent audit is required before full guided operation.'',
             ''La auditoria persistente es obligatoria antes del modo operativo completo.'',
             ''Local diagnostic commands remain available / Los comandos locales de diagnostico siguen disponibles.''] s1
         else
           let s2 = proposal_show_all s1;
               s3 = (if node_core_pending_proposal_count s2 > 0 then node_core_show_link_proposal s2 else s2)
           in if node_core_peer_count s3 > 0 then node_core_show_peers s3 else s3)"

text \<open>Everything after the audit gate, up to the command loop: the boot status decides, the context is the result.\<close>

definition boot_services :: "vita_handoff \<Rightarrow> vita_boot_status \<Rightarrow> 'a ai_sys_scheme \<Rightarrow> vita_command_context \<times> 'a ai_sys_scheme" where
  "boot_services h bs s =
     (let (hw, s1) = boot_hardware h (bs_audit_ready bs) s;
          s2 = boot_logs h (bs_arch_name bs) (boot_storage h s1);
          operational = kernel_operational bs s2;
          s3 = proposal_generate_initial (Some h) (Some hw) (bs_audit_ready bs) (console_banner (Some bs) s2);
          s4 = audit_emit (if bs_audit_ready bs then ''PROPOSAL_ENGINE_READY'' else ''PROPOSAL_ENGINE_RESTRICTED_READY'')
                 (if bs_audit_ready bs then ''initial proposals generated'' else ''initial proposals generated in restricted mode'') s3;
          (node_ready, s5) = boot_nodes h (bs_audit_ready bs) s4;
          s6 = boot_screens (console_fill_state (Some h) bs True node_ready s5) operational s5
      in (command_context_init (Some h) (Some bs) (Some hw) True True node_ready s6, s6))"

definition kmain :: "vita_handoff option \<Rightarrow> 'a ai_sys_scheme \<Rightarrow> kernel_end \<times> 'a ai_sys_scheme" where
  "kmain handoff s =
     (let s0 = boot_start s in
      if \<not> handoff_valid handoff then panic_fatal (Some ''invalid boot handoff'') s0
      else
        let h = the handoff;
            (ready, s1) = boot_audit h s0;
            bs = \<lparr>bs_arch_name = Some (case ho_arch_name h of None \<Rightarrow> ''unknown'' | Some a \<Rightarrow> a), bs_console_ready = True,
                  bs_audit_ready = ready\<rparr>;
            (ctx, s2) = boot_services h bs s1;
            s3 = session_transcript_shutdown (snd (command_loop_run ctx s2))
        in (if ho_firmware_type h = VITA_FIRMWARE_HOSTED then KMAIN_RETURNS else KERNEL_HALTS, s3))"

section \<open>The hosted entry\<close>

text \<open>\<open>argv[1]\<close> and the environment variable are parameters; \<open>main\<close> binds its writers and its reader first.\<close>

definition host_handoff :: "cstr \<Rightarrow> cstr \<Rightarrow> vita_handoff" where
  "host_handoff argv1 seed =
     \<lparr>ho_magic = VITA_BOOT_MAGIC, ho_version = 1, ho_size = HANDOFF_SIZE, ho_arch_name = Some ''x86_64'',
      ho_firmware_type = VITA_FIRMWARE_HOSTED,
      ho_audit_db_path = Some (case argv1 of None \<Rightarrow> ''build/audit/vitaos-audit.db'' | Some p \<Rightarrow> p),
      ho_vitanet_seed_endpoint = Some (safe_text seed ''127.0.0.1:47001'')\<rparr>"

definition host_main :: "cstr \<Rightarrow> cstr \<Rightarrow> 'a ai_sys_scheme \<Rightarrow> nat \<times> 'a ai_sys_scheme" where
  "host_main argv1 seed s =
     (let (e, s1) = kmain (Some (host_handoff argv1 seed))
            (console_bind_clear True (console_bind_reader True (console_bind_raw_writer True (console_bind_writer True s))))
      in (case e of PROCESS_EXIT c \<Rightarrow> c | _ \<Rightarrow> 0, s1))"

section \<open>The boot as steps\<close>

lemma runs_console_show_hw [kops]: "runs s t \<Longrightarrow> runs s (console_show_hw hw t)"
  unfolding console_show_hw_def by (intro kops kflow runs_let_value; assumption)

lemma runs_boot_stages [kops]:
  "runs s t \<Longrightarrow> runs s (snd (boot_hardware h a t))"
  "runs s t \<Longrightarrow> runs s (boot_storage h t)"
  "runs s t \<Longrightarrow> runs s (boot_logs h arch t)"
  "runs s t \<Longrightarrow> runs s (snd (boot_nodes h a t))"
  "runs s t \<Longrightarrow> runs s (boot_screens cs b t)"
  unfolding boot_hardware_def boot_storage_def boot_logs_def boot_nodes_def boot_screens_def
  by (intro kops kflow runs_let_value; assumption)+

lemma runs_boot_services [kops]: "runs s t \<Longrightarrow> runs s (snd (boot_services h bs t))"
  unfolding boot_services_def by (intro kops kflow runs_let_value; assumption)

lemma runs_panic [kops]: "runs s t \<Longrightarrow> runs s (snd (panic_fatal r t))"
  unfolding panic_fatal_def by (intro kops kflow; assumption)

section \<open>Runs without an audit backend\<close>

definition unlogged :: "(string \<Rightarrow> sql_row list) \<Rightarrow> 'a audit_sys_scheme \<Rightarrow> bool" where
  "unlogged base s \<longleftrightarrow> \<not> au_persistent_ready (aud s) \<and> (\<forall>db. \<exists>rows. h_db s db = base db @ rows \<and> events_of rows = [])"

lemma unlogged_same: "unlogged base s \<Longrightarrow> aud t = aud s \<Longrightarrow> h_db t = h_db s \<Longrightarrow> unlogged base t"
  by (simp add: unlogged_def)

lemma unlogged_frame:
  assumes "unlogged base s" "au_persistent_ready (aud t) = au_persistent_ready (aud s)"
    and "\<And>db. \<exists>rows. h_db t db = h_db s db @ rows \<and> events_of rows = []"
  shows "unlogged base t"
  unfolding unlogged_def
proof (intro conjI allI)
  show "\<not> au_persistent_ready (aud t)" using assms(1,2) by (simp add: unlogged_def)
  fix db
  obtain r where r: "h_db s db = base db @ r" "events_of r = []" using assms(1) unfolding unlogged_def by blast
  obtain r' where r': "h_db t db = h_db s db @ r'" "events_of r' = []" using assms(3) by blast
  show "\<exists>rows. h_db t db = base db @ rows \<and> events_of rows = []"
    using r r' by (intro exI [of _ "r @ r'"]) simp
qed

lemma sqlite_no_event:
  "(\<forall>r. q \<noteq> SqlStep (RowEvent r)) \<Longrightarrow> \<exists>rows. h_db (snd (sqlite d q s)) db = h_db s db @ rows \<and> events_of rows = []"
  by (cases q) (auto simp: sqlite_db other_row)

lemma step_unlogged: "kernel_step s t \<Longrightarrow> unlogged base s \<Longrightarrow> unlogged base t"
proof (induction rule: kernel_step.induct)
  case (ks_sql q s d)
  then show ?case by (intro unlogged_frame [OF ks_sql(2)] sqlite_no_event) simp_all
next
  case (ks_audit s t m)
  then show ?case by (simp add: unlogged_def emit_not_ready(1,3))
qed (erule unlogged_same; simp add: emit_out_def upd_con_def ticked_def)+

lemma runs_unlogged: "runs s t \<Longrightarrow> unlogged base s \<Longrightarrow> unlogged base t"
  by (induction rule: rtranclp_induct) (auto dest: step_unlogged)

lemma init_failed:
  assumes "audit_init_persistent_backend ho s = (False, s')" "unlogged base s"
  shows "unlogged base s'"
proof -
  have ins: "h_db u = h_db s \<Longrightarrow> \<exists>rows. h_db (snd (insert_boot_session u)) db = h_db s db @ rows \<and> events_of rows = []" for u and db
    by (auto simp: insert_boot_session_def Let_def case_prod_beta sqlite_db split: option.split)
  have "\<not> au_persistent_ready (aud s)" using assms(2) by (simp add: unlogged_def)
  then have "\<not> au_persistent_ready (aud s') \<and> (\<forall>db. \<exists>rows. h_db s' db = h_db s db @ rows \<and> events_of rows = [])"
    using assms(1) by (auto simp: audit_init_persistent_backend_def Let_def case_prod_beta insert_boot_session_sel
        intro!: ins split: if_splits)
  then show ?thesis using unlogged_frame [OF assms(2), of s'] assms(2) by (simp add: unlogged_def)
qed

context audit_quiet
begin

lemma obs_set_db: "obs (set_db d s) = obs s"
  by (simp add: set_db_def obs_aud)

lemma obs_exec_file: "obs (snd (exec_sql_file db f s)) = obs s"
  by (simp add: exec_sql_file_def malloc_ok_def Let_def obs_tick obs_sqlite split: option.split)

lemma obs_column: "obs (snd (ensure_hardware_snapshot_column c d s)) = obs s"
  by (simp add: ensure_hardware_snapshot_column_def hardware_snapshot_has_column_def Let_def case_prod_beta obs_tick
      obs_sqlite split: option.split)

lemma obs_columns: "obs (snd (ensure_columns cs s)) = obs s"
  by (induction cs arbitrary: s) (simp_all add: Let_def case_prod_beta obs_column)

lemma obs_boot_row: "obs (snd (insert_boot_session s)) = obs s"
  by (simp add: insert_boot_session_def monotonic_now_ns_def Let_def case_prod_beta obs_tick obs_sqlite split: option.split)

lemma obs_flush_early: "obs (flush_early evs s) = obs s"
  by (induction evs arbitrary: s) (simp_all add: obs_append)

lemma obs_flow:
  "(c \<Longrightarrow> obs (snd p) = v) \<Longrightarrow> (\<not> c \<Longrightarrow> obs (snd q) = v) \<Longrightarrow> obs (snd (if c then p else q)) = v"
  "obs (snd p) = v \<Longrightarrow> (\<And>r u. obs u = v \<Longrightarrow> obs (snd (g r u)) = v) \<Longrightarrow> obs (snd (Let p (case_prod g))) = v"
  "obs t = v \<Longrightarrow> (\<And>u. obs u = v \<Longrightarrow> obs (snd (f u)) = v) \<Longrightarrow> obs (snd (Let t f)) = v"
  by (simp_all add: case_prod_beta)

lemma obs_let_value: "(\<And>x. obs (snd (f x)) = v) \<Longrightarrow> obs (snd (Let w f)) = v"
  by simp

lemma obs_init: "obs (snd (audit_init_persistent_backend h s)) = obs s"
  unfolding audit_init_persistent_backend_def ensure_hardware_snapshot_schema_def unix_now_def
  by (intro obs_flow obs_let_value)
    (simp_all add: obs_set_db obs_exec_file obs_columns obs_boot_row obs_flush_early obs_aud obs_tick obs_sqlite
      del: ensure_columns.simps)

end

lemma outside_init: "outside_files (snd (audit_init_persistent_backend h s)) = outside_files s"
  using ah.obs_init [of h s] by (simp add: outside_files_def fs_lookup_def fun_eq_iff)

section \<open>The arrays at the start\<close>

text \<open>The statics as the program image holds them, before \<open>main\<close>.\<close>

definition static_init :: "'a ai_sys_scheme \<Rightarrow> 'a ai_sys_scheme" where
  "static_init s = s\<lparr>aud := zero_audit, sto := zero_storage, jrn := zero_journal, trn := zero_transcript, nod := zero_node,
     prp := [], edi := zero_editor, aig := zero_ai\<rparr>"

lemma arrays_fit_static: "arrays_fit (static_init s)"
  by (simp add: arrays_fit_def static_init_def sto_fits_def zero_storage_def jrn_fits_def zero_journal_def trn_fits_def
      zero_transcript_def idn_fits_def zero_identity_def nod_fits_def peer_fits_def zero_node_def zero_peer_def
      prp_fits_def edi_fits_def zero_editor_def aig_fits_def zero_ai_def) (simp add: fits_def)

lemma aud_fits_flow:
  "(c \<Longrightarrow> aud_fits (aud (snd p))) \<Longrightarrow> (\<not> c \<Longrightarrow> aud_fits (aud (snd q))) \<Longrightarrow> aud_fits (aud (snd (if c then p else q)))"
  "aud_fits (aud (snd p)) \<Longrightarrow> (\<And>r u. aud_fits (aud u) \<Longrightarrow> aud_fits (aud (snd (g r u)))) \<Longrightarrow> aud_fits (aud (snd (Let p (case_prod g))))"
  "aud_fits (aud t) \<Longrightarrow> (\<And>u. aud_fits (aud u) \<Longrightarrow> aud_fits (aud (snd (f u)))) \<Longrightarrow> aud_fits (aud (snd (Let t f)))"
  by (simp_all add: case_prod_beta)

lemma aud_fits_let_value: "(\<And>x. aud_fits (aud (snd (f x)))) \<Longrightarrow> aud_fits (aud (snd (Let w f)))"
  by simp

lemma aud_fits_schema [simp]: "aud (snd (ensure_columns cs s)) = aud s" "aud (snd (exec_sql_file db f s)) = aud s"
    "aud (snd (insert_boot_session s)) = aud s"
proof -
  show "aud (snd (ensure_columns cs s)) = aud s"
    by (induction cs arbitrary: s) (simp_all add: Let_def case_prod_beta ensure_hardware_snapshot_column_def
        hardware_snapshot_has_column_def split: option.split)
qed (simp_all add: exec_sql_file_def malloc_ok_def insert_boot_session_def monotonic_now_ns_def Let_def case_prod_beta split: option.split)

lemma aud_fits_boot [simp]:
  "aud_fits a \<Longrightarrow> aud_fits (a\<lparr>au_boot_started_unix := n, au_boot_id := snprintf 64 b, au_node_id := copy_text 64 c,
     au_arch_name := copy_text 32 d\<rparr>)"
  by (simp add: aud_fits_def)

lemma aud_fits_init: "aud_fits (aud s) \<Longrightarrow> aud_fits (aud (snd (audit_init_persistent_backend h s)))"
  unfolding audit_init_persistent_backend_def ensure_hardware_snapshot_schema_def unix_now_def
  by (intro aud_fits_flow aud_fits_let_value) (simp_all add: set_db_def del: ensure_columns.simps)

lemma arrays_fit_boot_audit:
  assumes "arrays_fit s"
  shows "arrays_fit (snd (boot_audit h s))"
proof -
  let ?s1 = "audit_emit ''CONSOLE_READY'' ''console ready'' (audit_emit ''HANDOFF_TO_KMAIN'' ''handoff to kmain'' s)"
  let ?s2 = "snd (audit_init_persistent_backend (Some h) ?s1)"
  have "runs s ?s1" by (intro kops rtranclp.rtrancl_refl)
  then have "arrays_fit ?s1" using assms by (rule runs_arrays)
  then have "arrays_fit ?s2"
    by (simp add: arrays_fit_def aud_fits_init asto.obs_init ajrn.obs_init atrn.obs_init ndaq.obs_init praq.obs_init
        edaq.obs_init aiaq.obs_init)
  moreover have "runs ?s2 (snd (boot_audit h s))"
    unfolding boot_audit_def Let_def case_prod_beta by (intro kops kflow rtranclp.rtrancl_refl; simp)
  ultimately show ?thesis by (rule runs_arrays [rotated])
qed

section \<open>Whole runs\<close>

lemma kmain_start:
  "\<not> au_persistent_ready (aud (boot_start s))" "au_event_seq (aud (boot_start s)) = 0"
  "au_prev_hash (aud (boot_start s)) = []" "h_db (boot_start s) = h_db s" "outside_files (boot_start s) = outside_files s"
  by (simp_all add: boot_start_def audit_early_buffer_init_def zero_audit_def audit_emit_boot_event_def
      monotonic_now_ns_def console_early_init_def upd_con_def outside_files_def fs_lookup_def fun_eq_iff)

lemma chain_to_end:
  assumes "chain_inv db base s" "runs s t"
  shows "\<exists>rows. au_db (aud t) = Some db \<and> au_persistent_ready (aud t) \<and> h_db t db = base @ rows \<and>
    session_rows (aud t) (events_of rows)"
  using runs_chain [OF assms(2,1)] by (auto simp: chain_inv_def)

lemma boot_audit_ready:
  assumes "boot_audit h s = (True, s')" "\<not> au_persistent_ready (aud s)" "au_event_seq (aud s) = 0" "au_prev_hash (aud s) = []"
  shows "\<exists>db. chain_inv db (h_db s db) s'"
proof -
  define s1 where "s1 = audit_emit ''CONSOLE_READY'' ''console ready'' (audit_emit ''HANDOFF_TO_KMAIN'' ''handoff to kmain'' s)"
  have s1: "au_event_seq (aud s1) = 0" "au_prev_hash (aud s1) = []" "h_db s1 = h_db s"
    using assms(2-4) by (simp_all add: s1_def audit_emit_boot_event_def monotonic_now_ns_def)
  obtain ready s2 where r: "audit_init_persistent_backend (Some h) s1 = (ready, s2)" by fastforce
  have "boot_audit h s = (ready, if ready then audit_emit ''AUDIT_BACKEND_READY'' ''audit backend ready'' s2
      else console_write_es ''Entrando en modo diagnostico restringido.'' (console_write_warning ''Audit persistence unavailable.'' s2))"
    unfolding boot_audit_def Let_def s1_def [symmetric] r by simp
  then have s2: "audit_init_persistent_backend (Some h) s1 = (True, s2)" "s' = audit_emit ''AUDIT_BACKEND_READY'' ''audit backend ready'' s2"
    using assms(1) r by simp_all
  obtain db where db: "au_db (aud s2) = Some db"
    by (rule init_stages [OF s2(1)]) (auto simp: flush_early_keeps_db)
  show ?thesis using chain_inv_emit [OF chain_inv_init [OF s2(1) s1(1,2) db]] s2(2) s1(3) by auto
qed

lemma boot_audit_refused:
  assumes "boot_audit h s = (False, s')" "unlogged base s"
  shows "unlogged base s'"
proof -
  define s1 where "s1 = audit_emit ''CONSOLE_READY'' ''console ready'' (audit_emit ''HANDOFF_TO_KMAIN'' ''handoff to kmain'' s)"
  have "runs s s1" unfolding s1_def by (intro kops rtranclp.rtrancl_refl)
  then have u1: "unlogged base s1" using assms(2) by (rule runs_unlogged)
  obtain ready s2 where r: "audit_init_persistent_backend (Some h) s1 = (ready, s2)" by fastforce
  let ?t = "console_write_es ''Entrando en modo diagnostico restringido.'' (console_write_warning ''Audit persistence unavailable.'' s2)"
  have "boot_audit h s = (ready, if ready then audit_emit ''AUDIT_BACKEND_READY'' ''audit backend ready'' s2 else ?t)"
    unfolding boot_audit_def Let_def s1_def [symmetric] r by simp
  then have s2: "audit_init_persistent_backend (Some h) s1 = (False, s2)" "s' = ?t" using assms(1) r by simp_all
  have "runs s2 ?t" by (intro kops rtranclp.rtrancl_refl)
  then show ?thesis using init_failed [OF s2(1) u1] unfolding s2(2) by (rule runs_unlogged)
qed

lemma boot_audit_outside: "outside_files (snd (boot_audit h s)) = outside_files s"
proof -
  let ?s1 = "audit_emit ''CONSOLE_READY'' ''console ready'' (audit_emit ''HANDOFF_TO_KMAIN'' ''handoff to kmain'' s)"
  have "runs s ?s1" by (intro kops rtranclp.rtrancl_refl)
  moreover have "runs (snd (audit_init_persistent_backend (Some h) ?s1)) (snd (boot_audit h s))"
    unfolding boot_audit_def Let_def case_prod_beta by (intro kops kflow rtranclp.rtrancl_refl; simp)
  ultimately show ?thesis using runs_outside outside_init [of "Some h" ?s1] by metis
qed

lemma kmain_after_audit:
  assumes "handoff_valid (Some h)"
  shows "runs (snd (boot_audit h (boot_start s))) (snd (kmain (Some h) s))"
  unfolding kmain_def Let_def using assms
  by (simp add: case_prod_beta) (intro kops rtranclp.rtrancl_refl)

text \<open>
  C1. The audit trail of a whole run. Boot the kernel with any handoff on any machine and let it run to its
  end, whatever is typed and whatever fails: either the run has an open audit backend, and then what it
  added to the database holds events numbered from 1, with its boot id, each row holding the hash of the
  one before, and the state holds the last number and hash; or it has none, and no event row was added to
  any database.
\<close>

theorem kernel_run_audit_trail:
  fixes handoff :: "vita_handoff option" and s :: "'a ai_sys_scheme"
  defines "t \<equiv> snd (kmain handoff s)"
  shows "if au_persistent_ready (aud t)
    then \<exists>db rows. au_db (aud t) = Some db \<and> h_db t db = h_db s db @ rows \<and> session_rows (aud t) (events_of rows)
    else \<forall>db. \<exists>rows. h_db t db = h_db s db @ rows \<and> events_of rows = []"
proof -
  let ?s0 = "boot_start s"
  have u0: "unlogged (h_db s) ?s0" using kmain_start [of s] by (simp add: unlogged_def)
  show ?thesis
  proof (cases "handoff_valid handoff")
    case False
    then have "t = snd (panic_fatal (Some ''invalid boot handoff'') ?s0)" by (simp add: t_def kmain_def)
    then have "unlogged (h_db s) t" using runs_unlogged [OF runs_panic [OF rtranclp.rtrancl_refl] u0] by simp
    then show ?thesis by (simp add: unlogged_def)
  next
    case True
    then obtain h where h: "handoff = Some h" by (auto simp: handoff_valid_def split: option.splits)
    obtain ready s1 where b: "boot_audit h ?s0 = (ready, s1)" by fastforce
    have r: "runs s1 t" using kmain_after_audit [of h s] True b by (simp add: t_def h)
    show ?thesis
    proof (cases ready)
      case True
      then obtain db where "chain_inv db (h_db ?s0 db) s1" using boot_audit_ready [of h ?s0 s1] b kmain_start [of s] by auto
      from chain_to_end [OF this r] show ?thesis using kmain_start(4) [of s] by auto
    next
      case False
      then have "unlogged (h_db s) s1" using boot_audit_refused [OF _ u0, of h s1] b by simp
      then have "unlogged (h_db s) t" using r by (rule runs_unlogged [rotated])
      then show ?thesis by (simp add: unlogged_def)
    qed
  qed
qed

text \<open>
  C4. The kernel writes only below its tree. Whatever is booted and typed, and whatever fails, every file and
  directory outside \<open>build/storage/vita\<close> (and the directories that lead to it) is as before the run. (The
  database belongs to SQLite and is not in the file table.)
\<close>

theorem kernel_run_keeps_other_files:
  fixes handoff :: "vita_handoff option" and s :: "'a ai_sys_scheme"
  shows "outside_files (snd (kmain handoff s)) = outside_files s"
proof (cases "handoff_valid handoff")
  case False
  then have "snd (kmain handoff s) = snd (panic_fatal (Some ''invalid boot handoff'') (boot_start s))" by (simp add: kmain_def)
  then show ?thesis using runs_outside [OF runs_panic [OF rtranclp.rtrancl_refl]] kmain_start(5) by metis
next
  case True
  then obtain h where "handoff = Some h" by (auto simp: handoff_valid_def split: option.splits)
  then show ?thesis
    using runs_outside [OF kmain_after_audit [of h s]] boot_audit_outside [of h "boot_start s"] kmain_start(5) [of s] True by simp
qed

text \<open>
  C5. Memory safety of the services' arrays. From the zeroed statics, boot with any handoff on any machine and
  let the kernel run to its end, whatever is typed, received or read from a file: every text in the static
  character arrays of the audit core, storage, journal, transcript, node core, proposals, editor and AI
  gateway fits its array with its terminator, and no slot array holds more than it has slots.
\<close>

theorem kernel_arrays_in_bounds:
  fixes handoff :: "vita_handoff option" and s :: "'a ai_sys_scheme"
  shows "arrays_fit (snd (kmain handoff (static_init s)))"
proof -
  let ?s0 = "boot_start (static_init s)"
  have "runs (audit_early_buffer_init (console_early_init (static_init s))) ?s0"
    unfolding boot_start_def by (intro kops rtranclp.rtrancl_refl)
  moreover have "arrays_fit (audit_early_buffer_init (console_early_init (static_init s)))"
    using arrays_fit_static [of s] by (simp add: arrays_fit_def audit_early_buffer_init_def console_early_init_def upd_con_def)
  ultimately have s0: "arrays_fit ?s0" by (rule runs_arrays)
  show ?thesis
  proof (cases "handoff_valid handoff")
    case False
    then have "snd (kmain handoff (static_init s)) = snd (panic_fatal (Some ''invalid boot handoff'') ?s0)" by (simp add: kmain_def)
    then show ?thesis using runs_arrays [OF runs_panic [OF rtranclp.rtrancl_refl] s0] by metis
  next
    case True
    then obtain h where "handoff = Some h" by (auto simp: handoff_valid_def split: option.splits)
    then show ?thesis using runs_arrays [OF kmain_after_audit [of h "static_init s"] arrays_fit_boot_audit [OF s0]] True by simp
  qed
qed

end
