(* ===== verification/Net_Status.thy ===== *)
theory Net_Status
  imports Kernel_Steps
begin

text \<open>
  The network readiness screen of kernel/net\_status.c. The firmware's \<open>locate_protocol\<close> is a parameter: \<open>None\<close>
  when the handoff carries no system table or the table no such service, else whether it gives an interface
  for an identifier.
\<close>

datatype efi_guid = EFI_GUID u32 u16 u16 "u8 list"

definition g_simple_network_protocol_guid :: efi_guid where
  "g_simple_network_protocol_guid = EFI_GUID 0xA19832B9 0xAC25 0x11D3 [0x9A, 0x2D, 0x00, 0x90, 0x27, 0x3F, 0xC1, 0x4D]"
definition g_ip4_service_binding_protocol_guid :: efi_guid where
  "g_ip4_service_binding_protocol_guid = EFI_GUID 0xC51711E7 0xB4BF 0x404A [0xBF, 0xB8, 0x0A, 0x04, 0x8E, 0xF1, 0xFF, 0xE4]"
definition g_dhcp4_service_binding_protocol_guid :: efi_guid where
  "g_dhcp4_service_binding_protocol_guid = EFI_GUID 0x9D9A39D8 0xBD42 0x4A73 [0xA4, 0xD5, 0x8E, 0xE9, 0x4B, 0xE1, 0x13, 0x80]"
definition g_tcp4_service_binding_protocol_guid :: efi_guid where
  "g_tcp4_service_binding_protocol_guid = EFI_GUID 0x00720665 0x67EB 0x4A99 [0xBA, 0xF7, 0xD3, 0xC3, 0x3A, 0x1C, 0x7C, 0xC9]"
definition g_udp4_service_binding_protocol_guid :: efi_guid where
  "g_udp4_service_binding_protocol_guid = EFI_GUID 0x83F01464 0x99BD 0x45E5 [0xB3, 0x83, 0xAF, 0x63, 0x05, 0xD8, 0xE9, 0xE6]"

record vita_net_status =
  ns_hw_ready :: bool
  ns_hosted_mode :: bool
  ns_uefi_mode :: bool
  ns_net_count :: int
  ns_ethernet_count :: int
  ns_wifi_count :: int
  ns_usb_controller_count :: int
  ns_uefi_simple_network_present :: bool
  ns_uefi_ip4_service_present :: bool
  ns_uefi_dhcp4_service_present :: bool
  ns_uefi_tcp4_service_present :: bool
  ns_uefi_udp4_service_present :: bool
  ns_can_attempt_ethernet_auto_later :: bool
  ns_can_attempt_remote_ai_later :: bool

definition write_i32 :: "string \<Rightarrow> int \<Rightarrow> 'a console_sys_scheme \<Rightarrow> 'a console_sys_scheme" where
  "write_i32 label val = say_all [label, u32_to_dec (if val < 0 then 0 else of_int val)]"

definition write_bool :: "string \<Rightarrow> bool \<Rightarrow> 'a console_sys_scheme \<Rightarrow> 'a console_sys_scheme" where
  "write_bool label b = say_all [label, if b then ''yes'' else ''no'']"

definition uefi_protocol_present :: "(efi_guid \<Rightarrow> bool) option \<Rightarrow> vita_handoff option \<Rightarrow> efi_guid \<Rightarrow> bool" where
  "uefi_protocol_present locate handoff guid =
     (case handoff of None \<Rightarrow> False
      | Some h \<Rightarrow> if ho_firmware_type h \<noteq> VITA_FIRMWARE_UEFI then False
          else case locate of None \<Rightarrow> False | Some f \<Rightarrow> f guid)"

definition net_status_probe ::
  "(efi_guid \<Rightarrow> bool) option \<Rightarrow> vita_handoff option \<Rightarrow> vita_hw_snapshot option \<Rightarrow> bool \<Rightarrow> vita_net_status" where
  "net_status_probe locate handoff hw hw_ready =
     (let hosted = (case handoff of None \<Rightarrow> False | Some h \<Rightarrow> ho_firmware_type h = VITA_FIRMWARE_HOSTED);
          uefi = (case handoff of None \<Rightarrow> False | Some h \<Rightarrow> ho_firmware_type h = VITA_FIRMWARE_UEFI);
          count = (\<lambda>f. case hw of None \<Rightarrow> 0 | Some x \<Rightarrow> if hw_ready then f x else 0);
          present = (\<lambda>g. uefi \<and> uefi_protocol_present locate handoff g);
          snp = present g_simple_network_protocol_guid;
          ip4 = present g_ip4_service_binding_protocol_guid;
          dhcp4 = present g_dhcp4_service_binding_protocol_guid;
          tcp4 = present g_tcp4_service_binding_protocol_guid;
          udp4 = present g_udp4_service_binding_protocol_guid
      in \<lparr>ns_hw_ready = hw_ready, ns_hosted_mode = hosted, ns_uefi_mode = uefi,
          ns_net_count = count hw_net_count, ns_ethernet_count = count hw_ethernet_count,
          ns_wifi_count = count hw_wifi_count, ns_usb_controller_count = count hw_usb_controller_count,
          ns_uefi_simple_network_present = snp, ns_uefi_ip4_service_present = ip4, ns_uefi_dhcp4_service_present = dhcp4,
          ns_uefi_tcp4_service_present = tcp4, ns_uefi_udp4_service_present = udp4,
          ns_can_attempt_ethernet_auto_later = (hosted \<or> snp \<and> (ip4 \<or> dhcp4)),
          ns_can_attempt_remote_ai_later = (hosted \<or> snp \<and> (tcp4 \<or> udp4))\<rparr>)"

definition net_status_show ::
  "(efi_guid \<Rightarrow> bool) option \<Rightarrow> vita_handoff option \<Rightarrow> vita_hw_snapshot option \<Rightarrow> bool \<Rightarrow>
     'a console_sys_scheme \<Rightarrow> 'a console_sys_scheme" where
  "net_status_show locate handoff hw hw_ready s =
     (let st = net_status_probe locate handoff hw hw_ready;
          s1 = say ''Network detailed status / Estado detallado de red:'' s
      in if \<not> ns_hw_ready st then
           say_all [''No hardware snapshot available / No hay resumen de hardware disponible'',
             ''Network readiness cannot be evaluated yet.'', ''La disponibilidad de red aun no se puede evaluar.''] s1
         else
           let s2 = write_i32 ''usb_controller_count:'' (ns_usb_controller_count st)
                      (write_i32 ''wifi_count:'' (ns_wifi_count st)
                        (write_i32 ''ethernet_count:'' (ns_ethernet_count st)
                          (write_i32 ''net_count:'' (ns_net_count st) (say ''Hardware counters / Conteos de hardware:'' s1))));
               s3 = (if ns_uefi_mode st then
                   let u1 = say ''UEFI protocol readiness / Preparacion de protocolos UEFI:'' s2;
                       u2 = write_bool ''udp4_service_binding:'' (ns_uefi_udp4_service_present st)
                              (write_bool ''tcp4_service_binding:'' (ns_uefi_tcp4_service_present st)
                                (write_bool ''dhcp4_service_binding:'' (ns_uefi_dhcp4_service_present st)
                                  (write_bool ''ip4_service_binding:'' (ns_uefi_ip4_service_present st)
                                    (write_bool ''simple_network_protocol:'' (ns_uefi_simple_network_present st) u1))));
                       u3 = say_all (if ns_uefi_simple_network_present st
                              then [''- UEFI exposes a basic network protocol candidate.'',
                                    ''- UEFI expone un candidato basico de protocolo de red.'']
                              else [''- UEFI Simple Network Protocol was not exposed in this boot.'',
                                    ''- UEFI no expuso Simple Network Protocol en este arranque.'']) u2
                   in say_all (if ns_can_attempt_ethernet_auto_later st
                        then [''- Future Ethernet auto/DHCP attempt looks possible on this firmware path.'',
                              ''- Un intento futuro de Ethernet auto/DHCP parece posible en esta ruta de firmware.'']
                        else [''- Future Ethernet auto/DHCP needs more firmware protocol support or a driver.'',
                              ''- Ethernet auto/DHCP futuro requiere mas soporte UEFI o un driver.'']) u3
                 else if ns_hosted_mode st then
                   say_all [''Hosted network readiness / Preparacion de red hosted:'',
                     ''- Hosted mode can use the host OS sockets for validation and remote AI experiments.'',
                     ''- El modo hosted puede usar sockets del sistema anfitrion para validacion e IA remota experimental.''] s2
                 else say ''Unknown boot mode / Modo de arranque desconocido'' s2);
               s4 = say_all (''Wi-Fi note / Nota Wi-Fi:'' #
                      (if ns_wifi_count st > 0
                       then [''- Wi-Fi hardware is visible, but SSID/password association is not implemented yet.'',
                             ''- Wi-Fi es visible, pero asociacion SSID/password aun no esta implementada.'']
                       else [''- Wi-Fi was not visible in this snapshot.'', ''- Wi-Fi no fue visible en este resumen.''])) s3;
               s5 = say_all (''Remote AI readiness / Preparacion para IA remota:'' #
                      (if ns_can_attempt_remote_ai_later st
                       then [''- A future remote assistant gateway can be attempted after network bring-up exists.'',
                             ''- Se podra intentar un gateway de IA remota cuando exista activacion de red.'']
                       else [''- Remote assistant gateway needs Ethernet/IP transport first.'',
                             ''- El gateway de IA remota necesita transporte Ethernet/IP primero.''])) s4
           in say_all [''Current scope / Alcance actual:'',
                ''- Status only: no DHCP, TCP connect, DNS, TLS, Wi-Fi login, or remote AI call is executed yet.'',
                ''- Solo estado: aun no ejecuta DHCP, conexion TCP, DNS, TLS, login Wi-Fi ni llamada de IA remota.''] s5)"

lemma runs_net_status [kops]: "runs s t \<Longrightarrow> runs s (net_status_show locate h hw r t)"
  unfolding net_status_show_def write_i32_def write_bool_def
  by (intro kops kflow runs_let_value; assumption)

text \<open>In the hosted build the firmware is not asked, and both attempts are reported as possible.\<close>

lemma hosted_net_status:
  assumes "handoff = Some h" "ho_firmware_type h = VITA_FIRMWARE_HOSTED"
  shows "net_status_probe locate handoff hw r = net_status_probe None handoff hw r"
    "ns_can_attempt_ethernet_auto_later (net_status_probe locate handoff hw r)"
    "ns_can_attempt_remote_ai_later (net_status_probe locate handoff hw r)"
  using assms by (simp_all add: net_status_probe_def Let_def VITA_FIRMWARE_HOSTED_def VITA_FIRMWARE_UEFI_def)

end
