(* ===== verification/Uefi_Branches.thy ===== *)
theory Uefi_Branches
  imports Kernel_Main Net_Status
begin

text \<open>
  The UEFI branches of kernel/hardware\_discovery.c, kernel/net\_connect.c and kernel/power.c. The firmware's
  \<open>locate_protocol\<close> is the parameter of Net\_Status. A power request is the list of the calls it makes, in their
  order, since the services it calls are those of the UEFI build; what they answer is the record \<open>power_env\<close>.
\<close>

section \<open>Hardware discovery\<close>

definition g_simple_pointer_protocol_guid :: efi_guid where
  "g_simple_pointer_protocol_guid = EFI_GUID 0x31878c87 0x0b75 0x11d5 [0x9a, 0x4f, 0x00, 0x90, 0x27, 0x3f, 0xc1, 0x4d]"
definition g_absolute_pointer_protocol_guid :: efi_guid where
  "g_absolute_pointer_protocol_guid = EFI_GUID 0x8d59d32b 0xc655 0x4ae9 [0x9b, 0x15, 0xf2, 0x59, 0x04, 0x99, 0x2a, 0x43]"

definition apply_uefi_protocol_snapshot ::
  "(efi_guid \<Rightarrow> bool) option \<Rightarrow> vita_handoff option \<Rightarrow> vita_hw_snapshot \<Rightarrow> vita_hw_snapshot" where
  "apply_uefi_protocol_snapshot locate handoff hw =
     (let pointer = uefi_protocol_present locate handoff g_simple_pointer_protocol_guid \<or>
            uefi_protocol_present locate handoff g_absolute_pointer_protocol_guid;
          h1 = (if pointer then hw\<lparr>hw_mouse_count := int_max (hw_mouse_count hw) 1\<rparr> else hw)
      in if uefi_protocol_present locate handoff g_simple_network_protocol_guid
         then h1\<lparr>hw_net_count := int_max (hw_net_count h1) 1\<rparr> else h1)"

text \<open>The UEFI build has no PCI scan: the snapshot it applies is empty, so only the microphone count is set.\<close>

definition uefi_apply_pci_snapshot :: "vita_hw_snapshot \<Rightarrow> vita_hw_snapshot" where
  "uefi_apply_pci_snapshot hw =
     (let pci = zero_pci;
          h1 = hw\<lparr>hw_display_count := int_max (hw_display_count hw) (as_int (ps_display_count pci)),
                  hw_ethernet_count := int_max (hw_ethernet_count hw) (as_int (ps_ethernet_count pci)),
                  hw_wifi_count := int_max (hw_wifi_count hw) (as_int (ps_wifi_count pci)),
                  hw_usb_controller_count := int_max (hw_usb_controller_count hw) (as_int (ps_usb_controller_count pci)),
                  hw_audio_count := int_max (hw_audio_count hw) (as_int (ps_audio_count pci))\<rparr>;
          h2 = (if hw_storage_count h1 = 0 then h1\<lparr>hw_storage_count := as_int (ps_storage_count pci)\<rparr> else h1)
      in h2\<lparr>hw_net_count := int_max (hw_net_count h2) (as_int (ps_ethernet_count pci + ps_wifi_count pci)),
            hw_microphone_count := 0\<rparr>)"

definition uefi_hw_discovery_run :: "(efi_guid \<Rightarrow> bool) option \<Rightarrow> vita_handoff option \<Rightarrow> vita_hw_snapshot" where
  "uefi_hw_discovery_run locate handoff =
     uefi_apply_pci_snapshot (apply_uefi_protocol_snapshot locate handoff
       (zero_hw\<lparr>hw_cpu_arch := copy_text 32 (case Option.bind handoff ho_arch_name of Some a \<Rightarrow> a | None \<Rightarrow> ''unknown''),
                hw_firmware_type := copy_text 32 ''uefi'', hw_console_type := copy_text 32 ''uefi_text'',
                hw_display_count := 1, hw_keyboard_count := 1, hw_detected_at_unix := 0\<rparr>))"

section \<open>Network connect\<close>

definition uefi_net_connect_attempt :: "'a conn_sys_scheme \<Rightarrow> bool \<times> 'a conn_sys_scheme" where
  "uefi_net_connect_attempt s =
     (if cn_host (cnx s) = [] \<or> cn_port (cnx s) = 0
      then (False, conn_set_error (Some ''endpoint not configured'') s)
      else (False, conn_set_error (Some ''UEFI TCP transport not implemented yet; status-only mode'')
              (upd_cnx (\<lambda>c. c\<lparr>cn_state := VITA_NET_CONNECT_LIMITED\<rparr>) s)))"

definition uefi_net_connect_send_line :: "'a conn_sys_scheme \<Rightarrow> bool \<times> 'a conn_sys_scheme" where
  "uefi_net_connect_send_line s = (False, conn_set_error (Some ''UEFI TCP send not implemented yet'') s)"

section \<open>Power\<close>

datatype power_call = SAY string | AUDIT string string | JOURNAL string string | FLUSH | RESET_SYSTEM u32

record power_env =
  pe_journal_active :: bool
  pe_flush_ok :: bool
  pe_storage_ready :: bool
  pe_runtime_services :: bool
  pe_reset_system :: bool
  pe_reset_returns :: bool

definition EFI_RESET_COLD :: u32 where "EFI_RESET_COLD = 0"
definition EFI_RESET_SHUTDOWN :: u32 where "EFI_RESET_SHUTDOWN = 2"

definition uefi_power_preflight :: "power_env \<Rightarrow> vita_power_action \<Rightarrow> power_call list" where
  "uefi_power_preflight env action =
     (let name = power_action_name action in
      [SAY ''Power request / Solicitud de energia:'', SAY name,
       SAY ''Saving visible session state / Guardando estado visible de sesion...'',
       AUDIT ''POWER_REQUESTED'' name, JOURNAL ''POWER_REQUESTED'' name] @
      (if pe_journal_active env then
         [JOURNAL ''POWER_FLUSH_STARTED'' name, FLUSH] @
         (if pe_flush_ok env
          then [SAY ''Journal flush: OK / Bitacora guardada: OK'', AUDIT ''POWER_JOURNAL_FLUSHED'' name]
          else [SAY ''Journal flush: FAILED / Bitacora no guardada completamente'', AUDIT ''POWER_JOURNAL_FLUSH_FAILED'' name])
       else [SAY ''Journal: inactive / Bitacora: inactiva'', AUDIT ''POWER_JOURNAL_INACTIVE'' name]) @
      [SAY (if pe_storage_ready env then ''Storage: writable / Almacenamiento: escribible''
            else ''Storage: not writable / Almacenamiento: no escribible''),
       SAY ''Remote AI transport: staged / Transporte IA remoto: pendiente'',
       SAY ''No active remote AI job is being waited on in this milestone.'',
       SAY ''No hay tarea remota de IA activa que esperar en este hito.''])"

text \<open>The result: \<open>None\<close> when the firmware's reset does not come back.\<close>

definition power_uefi_reset :: "power_env \<Rightarrow> vita_power_action \<Rightarrow> vita_handoff option \<Rightarrow> power_call list \<times> bool option" where
  "power_uefi_reset env action handoff =
     (let name = power_action_name action in
      case handoff of None \<Rightarrow> ([], Some False)
      | Some h \<Rightarrow>
          if ho_firmware_type h \<noteq> VITA_FIRMWARE_UEFI then ([], Some False)
          else if \<not> pe_runtime_services env
          then ([SAY ''UEFI RuntimeServices unavailable / RuntimeServices UEFI no disponible'',
                 AUDIT ''POWER_UEFI_RUNTIME_MISSING'' name], Some False)
          else if \<not> pe_reset_system env
          then ([SAY ''UEFI ResetSystem unavailable / ResetSystem UEFI no disponible'',
                 AUDIT ''POWER_UEFI_RESET_MISSING'' name], Some False)
          else
            let reset_type = (if action = VITA_POWER_ACTION_RESTART then EFI_RESET_COLD else EFI_RESET_SHUTDOWN);
                calls = [SAY (if action = VITA_POWER_ACTION_RESTART
                              then ''Restarting with UEFI ResetSystem / Reiniciando con UEFI ResetSystem''
                              else ''Powering off with UEFI ResetSystem / Apagando con UEFI ResetSystem''),
                         AUDIT ''POWER_UEFI_RESET_SYSTEM'' name, JOURNAL ''POWER_UEFI_RESET_SYSTEM'' name, FLUSH,
                         RESET_SYSTEM reset_type]
            in if \<not> pe_reset_returns env then (calls, None)
               else (calls @ [SAY ''UEFI ResetSystem returned unexpectedly / ResetSystem regreso inesperadamente'',
                              AUDIT ''POWER_UEFI_RESET_RETURNED'' name], Some False))"

definition uefi_power_request ::
  "power_env \<Rightarrow> vita_power_action \<Rightarrow> vita_handoff option \<Rightarrow> power_call list \<times> bool option" where
  "uefi_power_request env action handoff =
     (if action \<noteq> VITA_POWER_ACTION_SHUTDOWN \<and> action \<noteq> VITA_POWER_ACTION_RESTART
      then ([SAY ''power: invalid action / accion invalida''], Some False)
      else
        let name = power_action_name action;
            before = uefi_power_preflight env action;
            (calls, result) = power_uefi_reset env action handoff
        in case result of None \<Rightarrow> (before @ calls, None)
           | Some ok \<Rightarrow>
               if ok then (before @ calls, Some True)
               else if action = VITA_POWER_ACTION_SHUTDOWN
               then (before @ calls @
                       [SAY ''Shutdown fallback: stopping command loop and entering halt.'',
                        SAY ''Apagado alterno: se detiene consola y se entra en halt.'',
                        AUDIT ''POWER_SHUTDOWN_HALT_FALLBACK'' name, JOURNAL ''POWER_SHUTDOWN_HALT_FALLBACK'' name, FLUSH],
                     Some True)
               else (before @ calls @
                       [SAY ''Restart failed; command loop remains active.'',
                        SAY ''Reinicio fallido; la consola sigue activa.''], Some False))"

section \<open>What a request ends in\<close>

definition can_reset :: "power_env \<Rightarrow> vita_handoff option \<Rightarrow> bool" where
  "can_reset env handoff \<longleftrightarrow> (\<exists>h. handoff = Some h \<and> ho_firmware_type h = VITA_FIRMWARE_UEFI) \<and>
     pe_runtime_services env \<and> pe_reset_system env"

lemma preflight_no_reset: "RESET_SYSTEM t \<notin> set (uefi_power_preflight env action)"
  by (simp add: uefi_power_preflight_def Let_def)

text \<open>
  A power request of the UEFI build. The machine is reset exactly when the firmware can reset, cold for a
  restart and as a shutdown otherwise, and not before the request was recorded and the journal flushed once more;
  when it cannot reset, or comes back, a shutdown still ends the session and a restart does not.
\<close>

theorem uefi_power_request_ends:
  assumes "action = VITA_POWER_ACTION_SHUTDOWN \<or> action = VITA_POWER_ACTION_RESTART"
    and "uefi_power_request env action handoff = (calls, result)"
  shows "(\<forall>t. RESET_SYSTEM t \<in> set calls \<longleftrightarrow>
      can_reset env handoff \<and> t = (if action = VITA_POWER_ACTION_RESTART then EFI_RESET_COLD else EFI_RESET_SHUTDOWN)) \<and>
    (can_reset env handoff \<longrightarrow> (\<exists>after t. calls = uefi_power_preflight env action @
        [SAY (if action = VITA_POWER_ACTION_RESTART then ''Restarting with UEFI ResetSystem / Reiniciando con UEFI ResetSystem''
              else ''Powering off with UEFI ResetSystem / Apagando con UEFI ResetSystem''),
         AUDIT ''POWER_UEFI_RESET_SYSTEM'' (power_action_name action),
         JOURNAL ''POWER_UEFI_RESET_SYSTEM'' (power_action_name action), FLUSH, RESET_SYSTEM t] @ after)) \<and>
    (result = None \<longleftrightarrow> can_reset env handoff \<and> \<not> pe_reset_returns env) \<and>
    (result \<noteq> None \<longrightarrow> result = Some (action = VITA_POWER_ACTION_SHUTDOWN))"
proof (cases "can_reset env handoff")
  case True
  then show ?thesis
    using assms preflight_no_reset [of _ env action]
    by (cases "pe_reset_returns env") (auto simp: can_reset_def uefi_power_request_def power_uefi_reset_def Let_def)
next
  case False
  then have "(\<exists>a b. power_uefi_reset env action handoff = ([SAY a, AUDIT b (power_action_name action)], Some False)) \<or>
      power_uefi_reset env action handoff = ([], Some False)"
    by (auto simp: can_reset_def power_uefi_reset_def Let_def split: option.split)
  then show ?thesis
    using False assms preflight_no_reset [of _ env action] by (auto simp: uefi_power_request_def Let_def)
qed

theorem uefi_power_request_ends_witness:
  "snd (uefi_power_request \<lparr>pe_journal_active = True, pe_flush_ok = True, pe_storage_ready = True, pe_runtime_services = False,
     pe_reset_system = False, pe_reset_returns = True\<rparr> VITA_POWER_ACTION_SHUTDOWN None) = Some True"
proof -
  let ?env = "\<lparr>pe_journal_active = True, pe_flush_ok = True, pe_storage_ready = True, pe_runtime_services = False,
     pe_reset_system = False, pe_reset_returns = True\<rparr>"
  obtain calls result where r: "uefi_power_request ?env VITA_POWER_ACTION_SHUTDOWN None = (calls, result)" by fastforce
  show ?thesis using uefi_power_request_ends [OF _ r] by (auto simp: r can_reset_def)
qed

text \<open>What the UEFI build can know of the hardware: one display, one keyboard, at most one mouse and one network.\<close>

lemma uefi_hardware_counts:
  "hw_display_count (uefi_hw_discovery_run locate handoff) = 1"
  "hw_keyboard_count (uefi_hw_discovery_run locate handoff) = 1"
  "hw_mouse_count (uefi_hw_discovery_run locate handoff) \<in> {0, 1}"
  "hw_net_count (uefi_hw_discovery_run locate handoff) =
     (if uefi_protocol_present locate handoff g_simple_network_protocol_guid then 1 else 0)"
  by (simp_all add: uefi_hw_discovery_run_def uefi_apply_pci_snapshot_def apply_uefi_protocol_snapshot_def Let_def zero_hw_def
    zero_pci_def int_max_def)

end
