(* ===== verification/Uefi_Console.thy ===== *)
theory Uefi_Console
  imports Vita_Prelude
begin

text \<open>
  The firmware console of arch/x86\_64/boot/uefi\_entry.c: its writers, the history of eight lines and the line
  editor that the kernel reads commands through. The firmware is a record of what the system table offers, and
  the keys it hands out are a list of polls; an answer that no key is ready is \<open>None\<close>. What is sent to the
  firmware is kept in \<open>ue_sent\<close>, in order. The handed-over \<open>out\<close> array is the string it holds.
\<close>

definition EFI_SCAN_UP :: u16 where "EFI_SCAN_UP = 1"
definition EFI_SCAN_DOWN :: u16 where "EFI_SCAN_DOWN = 2"
definition VITA_CONSOLE_HISTORY_MAX :: nat where "VITA_CONSOLE_HISTORY_MAX = 8"
definition UEFI_LINE_MAX :: nat where "UEFI_LINE_MAX = 128"

type_synonym char16_t = u16

record efi_input_key =
  ik_scan_code :: u16
  ik_unicode_char :: char16_t

datatype efi_sent = OUTPUT_STRING "char16_t list" | CLEAR_SCREEN

record uefi_sys =
  ue_output_string :: bool
  ue_clear_screen :: bool
  ue_read_key_stroke :: bool
  ue_sent :: "efi_sent list"
  ue_history :: "string list"
  ue_history_count :: nat

section \<open>Output\<close>

definition char16 :: "char \<Rightarrow> char16_t" where
  "char16 c = of_nat (uchar c)"

lemma char16_inj: "char16 a = char16 b \<longleftrightarrow> a = b"
proof
  assume "char16 a = char16 b"
  then have "unat (char16 a) = unat (char16 b)" by simp
  moreover have "unat (char16 x) = of_char x" for x
  proof -
    have "(of_char x :: nat) < 2 ^ 16" using nat_of_char_less_256 [of x] by (rule less_trans) simp
    then show ?thesis by (simp add: char16_def unsigned_of_nat take_bit_nat_eq_self)
  qed
  ultimately show "a = b" by simp
qed simp

fun ascii_loop :: "nat \<Rightarrow> nat \<Rightarrow> string \<Rightarrow> char16_t list" where
  "ascii_loop cap i [] = []"
| "ascii_loop cap i (c # cs) = (if i + 3 < cap then char16 c # ascii_loop cap (i + 1) cs else [])"

definition ascii_to_char16 :: "cstr \<Rightarrow> nat \<Rightarrow> bool \<Rightarrow> char16_t list" where
  "ascii_to_char16 src dst_cap append_newline =
     (if dst_cap = 0 then []
      else case src of None \<Rightarrow> []
      | Some s \<Rightarrow>
          (let d = ascii_loop dst_cap 0 s
           in if append_newline \<and> length d + 2 < dst_cap then d @ [13, 10] else d))"

definition send :: "efi_sent \<Rightarrow> uefi_sys \<Rightarrow> uefi_sys" where
  "send x u = u\<lparr>ue_sent := ue_sent u @ [x]\<rparr>"

definition uefi_output_raw :: "cstr \<Rightarrow> uefi_sys \<Rightarrow> uefi_sys" where
  "uefi_output_raw text u =
     (if \<not> ue_output_string u then u else send (OUTPUT_STRING (ascii_to_char16 text 256 False)) u)"

definition uefi_console_write :: "cstr \<Rightarrow> uefi_sys \<Rightarrow> uefi_sys" where
  "uefi_console_write text u =
     (if \<not> ue_output_string u then u else send (OUTPUT_STRING (ascii_to_char16 text 256 True)) u)"

definition uefi_console_write_raw :: "cstr \<Rightarrow> uefi_sys \<Rightarrow> uefi_sys" where
  "uefi_console_write_raw text = uefi_output_raw text"

definition uefi_console_clear :: "uefi_sys \<Rightarrow> uefi_sys" where
  "uefi_console_clear u =
     (if ue_clear_screen u then send CLEAR_SCREEN u
      else uefi_output_raw (Some [CR, LF, CR, LF, CR, LF]) u)"

definition uefi_echo_char :: "char \<Rightarrow> uefi_sys \<Rightarrow> uefi_sys" where
  "uefi_echo_char c = uefi_output_raw (Some [c])"

section \<open>History\<close>

definition uefi_allowed_input_char :: "char \<Rightarrow> bool" where
  "uefi_allowed_input_char c =
     (if uchar CHR ''a'' \<le> uchar c \<and> uchar c \<le> uchar CHR ''z'' then True
      else if uchar CHR ''A'' \<le> uchar c \<and> uchar c \<le> uchar CHR ''Z'' then True
      else if uchar CHR ''0'' \<le> uchar c \<and> uchar c \<le> uchar CHR ''9'' then True
      else if c = CHR '' '' \<or> c = CHR ''-'' \<or> c = CHR ''_'' \<or> c = CHR ''.'' \<or> c = CHR ''/'' then True
      else False)"

definition uefi_copy_text :: "nat \<Rightarrow> cstr \<Rightarrow> string" where
  "uefi_copy_text cap src =
     (if cap = 0 then [] else case src of None \<Rightarrow> [] | Some s \<Rightarrow> copy_loop cap 0 s)"

fun uefi_strlen :: "string \<Rightarrow> nat" where
  "uefi_strlen [] = 0"
| "uefi_strlen (c # cs) = uefi_strlen cs + 1"

text \<open>The comparison loop reads until both lines end; a terminator differs from every character.\<close>

fun history_same :: "string \<Rightarrow> string \<Rightarrow> bool" where
  "history_same [] [] = True"
| "history_same (a # as) (b # bs) = (if a \<noteq> b then False else history_same as bs)"
| "history_same _ _ = False"

definition history_shift :: "string list \<Rightarrow> string list" where
  "history_shift h =
     fold (\<lambda>i h. h[i - 1 := uefi_copy_text UEFI_LINE_MAX (Some (h ! i))]) [1..<VITA_CONSOLE_HISTORY_MAX] h"

definition uefi_history_push :: "string \<Rightarrow> uefi_sys \<Rightarrow> uefi_sys" where
  "uefi_history_push line u =
     (if line = [] then u
      else
        let newest = ue_history u ! (ue_history_count u - 1)
        in if ue_history_count u > 0 \<and> uefi_strlen newest = uefi_strlen line \<and> history_same line newest then u
           else if ue_history_count u < VITA_CONSOLE_HISTORY_MAX
           then u\<lparr>ue_history := (ue_history u)[ue_history_count u := uefi_copy_text UEFI_LINE_MAX (Some line)],
                  ue_history_count := ue_history_count u + 1\<rparr>
           else u\<lparr>ue_history := (history_shift (ue_history u))
                    [VITA_CONSOLE_HISTORY_MAX - 1 := uefi_copy_text UEFI_LINE_MAX (Some line)]\<rparr>)"

section \<open>The line editor\<close>

primrec repeat_raw :: "nat \<Rightarrow> string \<Rightarrow> uefi_sys \<Rightarrow> uefi_sys" where
  "repeat_raw 0 text u = u"
| "repeat_raw (Suc n) text u = repeat_raw n text (uefi_output_raw (Some text) u)"

abbreviation BS :: char where "BS \<equiv> CHR 0x08"

definition uefi_redraw_input :: "string \<Rightarrow> nat \<Rightarrow> nat \<Rightarrow> uefi_sys \<Rightarrow> nat \<times> uefi_sys" where
  "uefi_redraw_input line len last_drawn_len u =
     (let u1 = uefi_output_raw (Some line) (uefi_output_raw (Some (CR # ''> '')) u);
          u2 = (if last_drawn_len > len
                then repeat_raw (last_drawn_len - len) [BS] (repeat_raw (last_drawn_len - len) '' '' u1)
                else u1)
      in (len, u2))"

text \<open>The locals of \<open>uefi_console_read_line\<close> and the array it fills.\<close>

record line_input =
  li_out :: string
  li_len :: nat
  li_last_drawn_len :: nat
  li_history_cursor :: nat

datatype line_read = WAITING line_input | RETURNED bool string

definition recall :: "nat \<Rightarrow> string \<Rightarrow> line_input \<Rightarrow> uefi_sys \<Rightarrow> line_input \<times> uefi_sys" where
  "recall cursor line i u =
     (let (drawn_len, u1) = uefi_redraw_input line (uefi_strlen line) (li_last_drawn_len i) u
      in (\<lparr>li_out = line, li_len = uefi_strlen line, li_last_drawn_len = drawn_len, li_history_cursor = cursor\<rparr>, u1))"

definition erase_last :: "line_input \<Rightarrow> uefi_sys \<Rightarrow> line_input \<times> uefi_sys" where
  "erase_last i u =
     (i\<lparr>li_len := li_len i - 1, li_out := take (li_len i - 1) (li_out i), li_last_drawn_len := li_len i - 1\<rparr>,
      uefi_output_raw (Some [BS, CHR '' '', BS]) u)"

definition type_char :: "char \<Rightarrow> line_input \<Rightarrow> uefi_sys \<Rightarrow> line_input \<times> uefi_sys" where
  "type_char c i u =
     (i\<lparr>li_out := take (li_len i) (li_out i) @ [c], li_len := li_len i + 1, li_last_drawn_len := li_len i + 1\<rparr>,
      uefi_echo_char c u)"

definition is_enter :: "efi_input_key \<Rightarrow> bool" where
  "is_enter key = (ik_unicode_char key = 13 \<or> ik_unicode_char key = 10)"

text \<open>One key that does not end the line.\<close>

definition edit_key :: "nat \<Rightarrow> efi_input_key \<Rightarrow> line_input \<Rightarrow> uefi_sys \<Rightarrow> line_input \<times> uefi_sys" where
  "edit_key out_cap key i u =
     (if ik_unicode_char key = 0 \<and> ik_scan_code key = EFI_SCAN_UP then
        if ue_history_count u > 0 \<and> li_history_cursor i > 0 then
          let cursor = li_history_cursor i - 1
          in recall cursor (uefi_copy_text out_cap (Some (ue_history u ! cursor))) i u
        else (i, u)
      else if ik_unicode_char key = 0 \<and> ik_scan_code key = EFI_SCAN_DOWN then
        if li_history_cursor i < ue_history_count u then
          let cursor = li_history_cursor i + 1
          in recall cursor (if cursor = ue_history_count u then [] else uefi_copy_text out_cap (Some (ue_history u ! cursor))) i u
        else (i, u)
      else if ik_unicode_char key = 8 \<or> ik_unicode_char key = 127 then
        if li_len i > 0 then erase_last i u else (i, u)
      else if ik_unicode_char key < 128 then
        let c = char_of (unat (ik_unicode_char key))
        in if uefi_allowed_input_char c \<and> li_len i + 1 < out_cap then type_char c i u else (i, u)
      else (i, u))"

fun read_loop :: "nat \<Rightarrow> efi_input_key option list \<Rightarrow> line_input \<Rightarrow> uefi_sys \<Rightarrow> line_read \<times> uefi_sys" where
  "read_loop out_cap [] i u = (WAITING i, u)"
| "read_loop out_cap (None # keys) i u = read_loop out_cap keys i u"
| "read_loop out_cap (Some key # keys) i u =
     (if is_enter key
      then (RETURNED True (take (li_len i) (li_out i)),
            uefi_output_raw (Some [CR, LF]) (uefi_history_push (take (li_len i) (li_out i)) u))
      else let (i1, u1) = edit_key out_cap key i u in read_loop out_cap keys i1 u1)"

definition uefi_console_read_line :: "nat \<Rightarrow> efi_input_key option list \<Rightarrow> uefi_sys \<Rightarrow> line_read \<times> uefi_sys" where
  "uefi_console_read_line out_cap keys u =
     (if out_cap = 0 then (RETURNED False [], u)
      else if \<not> ue_read_key_stroke u then (RETURNED False [], u)
      else read_loop out_cap keys
             \<lparr>li_out = [], li_len = 0, li_last_drawn_len = 0, li_history_cursor = ue_history_count u\<rparr> u)"

section \<open>The editor keeps line and history in order\<close>

definition line_ok :: "string \<Rightarrow> bool" where
  "line_ok l = (l \<noteq> [] \<and> list_all uefi_allowed_input_char l \<and> length l < UEFI_LINE_MAX)"

text \<open>The history: eight lines, the first \<open>ue_history_count\<close> of them in use, no line twice in a row.\<close>

definition history_ok :: "uefi_sys \<Rightarrow> bool" where
  "history_ok u =
     (length (ue_history u) = VITA_CONSOLE_HISTORY_MAX \<and> ue_history_count u \<le> VITA_CONSOLE_HISTORY_MAX \<and>
      list_all line_ok (take (ue_history_count u) (ue_history u)) \<and>
      distinct_adj (take (ue_history_count u) (ue_history u)))"

definition recalled_lines :: "uefi_sys \<Rightarrow> string list" where
  "recalled_lines u = take (ue_history_count u) (ue_history u)"

definition input_ok :: "nat \<Rightarrow> line_input \<Rightarrow> uefi_sys \<Rightarrow> bool" where
  "input_ok cap i u =
     (li_len i = length (li_out i) \<and> li_last_drawn_len i = length (li_out i) \<and>
      li_history_cursor i \<le> ue_history_count u \<and> length (li_out i) < cap \<and>
      list_all uefi_allowed_input_char (li_out i))"

lemma strlen_length [simp]: "uefi_strlen s = length s"
  by (induction s) auto

lemma copy_take [simp]: "uefi_copy_text cap (Some s) = take (cap - 1) s"
  by (simp add: uefi_copy_text_def copy_loop_take)

lemma history_same_eq [simp]: "history_same a b \<longleftrightarrow> a = b"
  by (induction a b rule: history_same.induct) auto

lemma recall_ok:
  assumes "list_all uefi_allowed_input_char l" "length l < cap" "cur \<le> ue_history_count u"
  shows "input_ok cap (fst (recall cur l i u)) u"
  using assms by (simp add: recall_def uefi_redraw_input_def Let_def input_ok_def)

text \<open>Output does not touch the history.\<close>

definition same_history :: "uefi_sys \<Rightarrow> uefi_sys \<Rightarrow> bool" where
  "same_history u v =
     (ue_history v = ue_history u \<and> ue_history_count v = ue_history_count u \<and>
      ue_output_string v = ue_output_string u \<and> ue_read_key_stroke v = ue_read_key_stroke u)"

lemma same_history_refl [simp]: "same_history u u"
  by (simp add: same_history_def)

lemma same_history_raw [simp]: "same_history u (uefi_output_raw t v) = same_history u v"
  by (simp add: same_history_def uefi_output_raw_def send_def)

lemma same_history_repeat [simp]: "same_history u (repeat_raw n t v) = same_history u v"
  by (induction n arbitrary: v) auto

lemma same_history_edit: "same_history u (snd (edit_key cap key i u))"
  by (simp add: edit_key_def recall_def uefi_redraw_input_def uefi_echo_char_def erase_last_def type_char_def Let_def)

lemma input_ok_history: "same_history u v \<Longrightarrow> input_ok cap i v = input_ok cap i u"
  by (simp add: input_ok_def same_history_def)

lemma history_ok_history: "same_history u v \<Longrightarrow> history_ok v = history_ok u"
  by (simp add: history_ok_def same_history_def)

lemma recalled_allowed:
  assumes "history_ok u" "k < ue_history_count u"
  shows "list_all uefi_allowed_input_char (take n (ue_history u ! k))"
proof -
  have "list_all line_ok (take (ue_history_count u) (ue_history u))" "k < length (ue_history u)"
    using assms by (simp_all add: history_ok_def)
  then have "line_ok (ue_history u ! k)" using assms(2) by (simp add: list_all_length)
  then show ?thesis by (auto simp: line_ok_def list_all_iff dest: in_set_takeD)
qed

text \<open>What a key does, case by case.\<close>

lemma edit_key_cases:
  assumes "li_history_cursor i \<le> ue_history_count u"
    and "P (i, u)"
    and "\<And>k. k < ue_history_count u \<Longrightarrow> P (recall k (take (cap - 1) (ue_history u ! k)) i u)"
    and "P (recall (ue_history_count u) [] i u)"
    and "0 < li_len i \<Longrightarrow> P (erase_last i u)"
    and "\<And>c. uefi_allowed_input_char c \<Longrightarrow> li_len i + 1 < cap \<Longrightarrow> P (type_char c i u)"
  shows "P (edit_key cap key i u)"
  using assms unfolding edit_key_def Let_def copy_take by (simp add: less_eq_Suc_le split: if_split)

lemma edit_ok:
  assumes "history_ok u" "input_ok cap i u" "0 < cap"
  shows "input_ok cap (fst (edit_key cap key i u)) u"
proof (rule edit_key_cases)
  show "li_history_cursor i \<le> ue_history_count u" using assms(2) by (simp add: input_ok_def)
next
  fix k assume "k < ue_history_count u"
  then show "input_ok cap (fst (recall k (take (cap - 1) (ue_history u ! k)) i u)) u"
    using assms by (intro recall_ok recalled_allowed) auto
next
  show "input_ok cap (fst (recall (ue_history_count u) [] i u)) u" using assms(3) by (intro recall_ok) auto
qed (use assms in \<open>auto simp: input_ok_def erase_last_def type_char_def list_all_iff dest: in_set_takeD\<close>)


text \<open>What the history holds after a line: the newest eight lines, a line typed again not twice in a row.\<close>

definition remembered :: "string \<Rightarrow> string list \<Rightarrow> string list" where
  "remembered line ls =
     (if line = [] \<or> ls \<noteq> [] \<and> last ls = line then ls
      else drop (length ls + 1 - VITA_CONSOLE_HISTORY_MAX) (ls @ [line]))"

lemma history_shift_lines:
  assumes "length h = 8" "list_all line_ok h"
  shows "(history_shift h)[7 := x] = tl h @ [x]"
proof -
  have *: "take 127 l = l" if "line_ok l" for l using that by (simp add: line_ok_def UEFI_LINE_MAX_def)
  obtain a b c d e f g k where h: "h = [a, b, c, d, e, f, g, k]"
    using assms(1) by (auto simp: numeral_eq_Suc length_Suc_conv)
  show ?thesis
    using assms(2) unfolding history_shift_def VITA_CONSOLE_HISTORY_MAX_def h
    by (simp add: upt_rec [of _ 8] * UEFI_LINE_MAX_def)
qed

lemma push_lines:
  assumes "history_ok u" "length line < UEFI_LINE_MAX"
  shows "recalled_lines (uefi_history_push line u) = remembered line (recalled_lines u)"
proof -
  let ?n = "ue_history_count u" and ?h = "ue_history u"
  have n: "?n \<le> 8" "length ?h = 8" "list_all line_ok (take ?n ?h)"
    using assms(1) by (simp_all add: history_ok_def VITA_CONSOLE_HISTORY_MAX_def)
  have last: "recalled_lines u \<noteq> [] \<longleftrightarrow> 0 < ?n" "0 < ?n \<Longrightarrow> last (recalled_lines u) = ?h ! (?n - 1)"
  proof -
    show ne: "recalled_lines u \<noteq> [] \<longleftrightarrow> 0 < ?n" using n by (auto simp: recalled_lines_def)
    show "last (recalled_lines u) = ?h ! (?n - 1)" if "0 < ?n"
      using n that ne by (subst last_conv_nth) (simp_all add: recalled_lines_def min_absorb1 min_absorb2)
  qed
  have line: "take 127 line = line" using assms(2) by (simp add: UEFI_LINE_MAX_def)
  consider "line = [] \<or> 0 < ?n \<and> ?h ! (?n - 1) = line"
    | "line \<noteq> []" "\<not> (0 < ?n \<and> ?h ! (?n - 1) = line)" "?n < 8"
    | "line \<noteq> []" "\<not> (0 < ?n \<and> ?h ! (?n - 1) = line)" "?n = 8"
    using n(1) by linarith
  then show ?thesis
  proof cases
    case 1
    then have "uefi_history_push line u = u" by (cases "line = []") (simp_all add: uefi_history_push_def)
    moreover have "remembered line (recalled_lines u) = recalled_lines u"
      using 1 last by (cases "line = []") (simp_all add: remembered_def)
    ultimately show ?thesis by simp
  next
    case 2
    have "\<not> (0 < ?n \<and> uefi_strlen (?h ! (?n - 1)) = uefi_strlen line \<and> history_same line (?h ! (?n - 1)))"
      using 2(2) by auto
    then have p: "uefi_history_push line u =
        u\<lparr>ue_history := ?h[?n := line], ue_history_count := ?n + 1\<rparr>"
      using 2(1,3) line unfolding uefi_history_push_def Let_def
      by (simp only: if_False copy_take) (simp add: VITA_CONSOLE_HISTORY_MAX_def UEFI_LINE_MAX_def)
    have "recalled_lines (uefi_history_push line u) = take ?n ?h @ [line]"
      using 2(3) n(2) by (simp add: p recalled_lines_def take_Suc_conv_app_nth)
    then show ?thesis using 2 last n by (auto simp: remembered_def recalled_lines_def VITA_CONSOLE_HISTORY_MAX_def)
  next
    case 3
    have "\<not> (0 < ?n \<and> uefi_strlen (?h ! (?n - 1)) = uefi_strlen line \<and> history_same line (?h ! (?n - 1)))"
      using 3(2) by auto
    then have p: "uefi_history_push line u = u\<lparr>ue_history := (history_shift ?h)[7 := line]\<rparr>"
      using 3(1,3) line unfolding uefi_history_push_def Let_def
      by (simp only: if_False copy_take) (simp add: VITA_CONSOLE_HISTORY_MAX_def UEFI_LINE_MAX_def)
    have shift: "(history_shift ?h)[7 := line] = tl ?h @ [line]" using n 3 by (intro history_shift_lines) auto
    have "recalled_lines (uefi_history_push line u) = tl ?h @ [line]"
      using 3(3) n(2) by (simp add: p recalled_lines_def shift)
    then show ?thesis
      using 3 last n by (auto simp: remembered_def recalled_lines_def VITA_CONSOLE_HISTORY_MAX_def drop_Suc)
  qed
qed

lemma remembered_ok:
  assumes "list_all line_ok ls" "distinct_adj ls" "line = [] \<or> line_ok line" "length ls \<le> VITA_CONSOLE_HISTORY_MAX"
  shows "list_all line_ok (remembered line ls)" "distinct_adj (remembered line ls)"
    "length (remembered line ls) \<le> VITA_CONSOLE_HISTORY_MAX"
proof -
  show "length (remembered line ls) \<le> VITA_CONSOLE_HISTORY_MAX" using assms(4) by (auto simp: remembered_def)
  show "list_all line_ok (remembered line ls)"
    using assms(1,3) by (auto simp: remembered_def list_all_iff dest: in_set_dropD)
  have "distinct_adj (ls @ [line])" if "\<not> (ls \<noteq> [] \<and> last ls = line)"
    using assms(2) that by (auto simp: distinct_adj_append_iff)
  moreover have "distinct_adj (drop n xs)" if "distinct_adj xs" for n and xs :: "string list"
    using that by (metis append_take_drop_id distinct_adj_appendD2)
  ultimately show "distinct_adj (remembered line ls)" using assms(2) by (auto simp: remembered_def simp del: drop_append)
qed

lemma push_ok:
  assumes "history_ok u" "line = [] \<or> line_ok line"
  shows "history_ok (uefi_history_push line u)"
proof -
  let ?v = "uefi_history_push line u"
  have len: "length line < UEFI_LINE_MAX" using assms(2) by (auto simp: line_ok_def UEFI_LINE_MAX_def)
  note u = assms(1) [unfolded history_ok_def recalled_lines_def [symmetric]]
  have "length (recalled_lines u) \<le> VITA_CONSOLE_HISTORY_MAX" using u by (simp add: recalled_lines_def)
  note r = remembered_ok [OF _ _ assms(2) this, folded push_lines [OF assms(1) len]]
  have "length (fold (\<lambda>i h. h[i - 1 := f (h ! i)]) js h) = length h" for js f and h :: "string list"
    by (induction js arbitrary: h) simp_all
  then have "length (ue_history ?v) = VITA_CONSOLE_HISTORY_MAX \<and> ue_history_count ?v \<le> VITA_CONSOLE_HISTORY_MAX"
    using u by (auto simp: uefi_history_push_def Let_def history_shift_def)
  then show ?thesis using r u unfolding history_ok_def recalled_lines_def [symmetric] by blast
qed

lemma output_history:
  "recalled_lines (uefi_output_raw t u) = recalled_lines u" "history_ok (uefi_output_raw t u) = history_ok u"
  by (simp_all add: recalled_lines_def history_ok_def uefi_output_raw_def send_def)

text \<open>The whole loop: from a line in order, a line in order or a finished line.\<close>

definition read_outcome :: "nat \<Rightarrow> efi_input_key option list \<Rightarrow> uefi_sys \<Rightarrow> line_read \<times> uefi_sys \<Rightarrow> bool" where
  "read_outcome cap keys u r =
     (case r of
        (WAITING i, v) \<Rightarrow>
          (\<nexists>key. Some key \<in> set keys \<and> is_enter key) \<and> input_ok cap i v \<and> same_history u v
      | (RETURNED ok line, v) \<Rightarrow>
          (\<exists>key. Some key \<in> set keys \<and> is_enter key) \<and> ok \<and> list_all uefi_allowed_input_char line \<and> length line < cap \<and>
          history_ok v \<and> recalled_lines v = remembered line (recalled_lines u))"

lemma same_history_lines: "same_history u v \<Longrightarrow> recalled_lines v = recalled_lines u"
  by (simp add: same_history_def recalled_lines_def)

lemma same_history_trans: "same_history u v \<Longrightarrow> same_history v w \<Longrightarrow> same_history u w"
  by (simp add: same_history_def)

lemma read_loop_outcome:
  assumes "history_ok u" "input_ok cap i u" "0 < cap" "cap \<le> UEFI_LINE_MAX"
  shows "read_outcome cap keys u (read_loop cap keys i u)"
  using assms(1,2)
proof (induction keys arbitrary: i u)
  case Nil
  then show ?case by (simp add: read_outcome_def)
next
  case (Cons poll keys)
  show ?case
  proof (cases poll)
    case None
    then show ?thesis using Cons by (simp add: read_outcome_def cong: line_read.case_cong)
  next
    case (Some key)
    show ?thesis
    proof (cases "is_enter key")
      case True
      have line: "list_all uefi_allowed_input_char (li_out i)" "length (li_out i) < cap" "li_len i = length (li_out i)"
        using Cons.prems by (simp_all add: input_ok_def)
      then have "length (li_out i) < UEFI_LINE_MAX" using assms(4) by simp
      moreover from this have "li_out i = [] \<or> line_ok (li_out i)" using line by (simp add: line_ok_def)
      ultimately show ?thesis
        using Some True line Cons.prems push_lines push_ok
        by (auto simp: read_outcome_def output_history)
    next
      case False
      obtain j v where e: "edit_key cap key i u = (j, v)" by (cases "edit_key cap key i u")
      have s: "same_history u v" using same_history_edit [of u cap key i] e by simp
      have "history_ok v" "input_ok cap j v"
        using edit_ok [OF Cons.prems(1,2) assms(3), of key] s Cons.prems(1) e
        by (simp_all add: history_ok_history input_ok_history)
      then have "read_outcome cap keys v (read_loop cap keys j v)" by (rule Cons.IH)
      then show ?thesis
        using Some False e s same_history_lines [OF s]
        by (auto simp: read_outcome_def split: prod.splits line_read.splits intro: same_history_trans)
    qed
  qed
qed

definition line_start :: "uefi_sys \<Rightarrow> line_input" where
  "line_start u = \<lparr>li_out = [], li_len = 0, li_last_drawn_len = 0, li_history_cursor = ue_history_count u\<rparr>"

lemma read_line_loop:
  "0 < cap \<Longrightarrow> ue_read_key_stroke u \<Longrightarrow> uefi_console_read_line cap keys u = read_loop cap keys (line_start u) u"
  by (simp add: uefi_console_read_line_def line_start_def)

lemma line_start_ok: "0 < cap \<Longrightarrow> input_ok cap (line_start u) u"
  by (simp add: input_ok_def line_start_def)

section \<open>Properties\<close>

text \<open>A firmware that offers everything, and the key of a character.\<close>

definition demo_uefi :: uefi_sys where
  "demo_uefi = uefi_output_raw (Some ''> '')
     \<lparr>ue_output_string = True, ue_clear_screen = True, ue_read_key_stroke = True, ue_sent = [],
      ue_history = replicate 8 [], ue_history_count = 0\<rparr>"

definition char_key :: "char \<Rightarrow> efi_input_key" where
  "char_key c = \<lparr>ik_scan_code = 0, ik_unicode_char = char16 c\<rparr>"

definition up_key :: efi_input_key where
  "up_key = \<lparr>ik_scan_code = EFI_SCAN_UP, ik_unicode_char = 0\<rparr>"

lemma demo_uefi_ok: "history_ok demo_uefi" "ue_output_string demo_uefi" "ue_read_key_stroke demo_uefi"
  by (simp_all add: demo_uefi_def history_ok_def uefi_output_raw_def send_def VITA_CONSOLE_HISTORY_MAX_def)

text \<open>
  C29. What a read returns. Whatever the screen shows, and with or without a firmware that can write to it, once
  the enter key is among the keys the read ends: it succeeds with a line of allowed characters that fits the
  caller's array, recalled lines included, and the history then holds, of all the lines before it and this one,
  the newest eight, with no line twice in a row. The history before must be one this editor can have left.
\<close>

theorem uefi_read_line_returns:
  assumes "history_ok u" "ue_read_key_stroke u" "0 < cap" "cap \<le> UEFI_LINE_MAX"
    and "Some key \<in> set keys" "is_enter key"
  shows "\<exists>line v. uefi_console_read_line cap keys u = (RETURNED True line, v) \<and>
    list_all uefi_allowed_input_char line \<and> length line < cap \<and>
    history_ok v \<and> recalled_lines v = remembered line (recalled_lines u)"
  using read_loop_outcome [OF assms(1) line_start_ok [OF assms(3)] assms(3,4), of keys] assms(5,6)
    read_line_loop [OF assms(3,2), of keys]
  by (cases "uefi_console_read_line cap keys u" rule: prod.exhaust; cases "fst (uefi_console_read_line cap keys u)")
    (auto simp: read_outcome_def)

theorem uefi_read_line_returns_witness:
  "\<exists>line v. uefi_console_read_line 128 [Some (char_key CHR ''l''), Some (char_key CR)]
      (demo_uefi\<lparr>ue_output_string := False\<rparr>) = (RETURNED True line, v) \<and>
    list_all uefi_allowed_input_char line \<and> length line < 128 \<and>
    history_ok v \<and> recalled_lines v = remembered line (recalled_lines (demo_uefi\<lparr>ue_output_string := False\<rparr>))"
proof (rule uefi_read_line_returns [where key = "char_key CR"])
  show "history_ok (demo_uefi\<lparr>ue_output_string := False\<rparr>)"
    using demo_uefi_ok(1) by (simp add: history_ok_def)
qed (simp_all add: UEFI_LINE_MAX_def is_enter_def char_key_def char16_def demo_uefi_ok)

end
