(* ===== verification/Framebuffer.thy ===== *)
theory Framebuffer
  imports Vita_Prelude
begin

unbundle bit_operations_syntax

text \<open>
  The linear framebuffer behind the firmware's graphics output protocol, as the three files under
  arch/x86\_64/boot use it. The mode is what the firmware reports; the memory is a function from the
  index of a pixel, counted from the base. A drawing operation \<open>paints\<close> a set of indices when it leaves the others alone.
\<close>

record gop_mode =
  gm_width :: u32
  gm_height :: u32
  gm_format :: u32
  gm_stride :: u32

type_synonym framebuffer = "nat \<Rightarrow> u32"

definition make_pixel :: "gop_mode option \<Rightarrow> u8 \<Rightarrow> u8 \<Rightarrow> u8 \<Rightarrow> u32" where
  "make_pixel gop r g b =
     (case gop of None \<Rightarrow> 0
      | Some m \<Rightarrow> if gm_format m = 0 then ucast r OR push_bit 8 (ucast g) OR push_bit 16 (ucast b)
          else ucast b OR push_bit 8 (ucast g) OR push_bit 16 (ucast r))"

text \<open>The counters of a loop from \<open>a\<close> up to, not including, \<open>b\<close>.\<close>

definition u32_range :: "u32 \<Rightarrow> u32 \<Rightarrow> u32 list" where
  "u32_range a b = map of_nat [unat a ..< unat b]"

lemma u32_range_set: "x \<in> set (u32_range a b) \<longleftrightarrow> a \<le> x \<and> x < b"
proof
  assume "x \<in> set (u32_range a b)"
  then obtain k where k: "x = of_nat k" "unat a \<le> k" "k < unat b" by (auto simp: u32_range_def)
  moreover have "unat b < 2 ^ 32" using unsigned_less [of b] by simp
  ultimately have "k < 2 ^ 32" by linarith
  then have "unat x = k" using k(1) by (simp add: unat_of_nat take_bit_nat_eq_self)
  then show "a \<le> x \<and> x < b" using k by (simp add: word_le_nat_alt word_less_nat_alt)
next
  assume "a \<le> x \<and> x < b"
  then have "unat x \<in> set [unat a ..< unat b]" "x = of_nat (unat x)" by (simp_all add: word_le_nat_alt word_less_nat_alt)
  then show "x \<in> set (u32_range a b)" unfolding u32_range_def by (metis image_eqI list.set_map)
qed

text \<open>The indices of the pixels on the screen.\<close>

definition screen_cells :: "u32 \<Rightarrow> u32 \<Rightarrow> u32 \<Rightarrow> nat set" where
  "screen_cells w h stride = {unat (y * stride + x) | x y. x < w \<and> y < h}"

lemma screen_cell: "x < w \<Longrightarrow> y < h \<Longrightarrow> unat (y * stride + x) \<in> screen_cells w h stride"
  by (auto simp: screen_cells_def)

text \<open>
  A mode whose lines do not overlap and whose frame has at most \<open>2^32\<close> pixels: the screen cells are within it.
\<close>

lemma screen_cells_bound:
  assumes "w \<le> stride" "unat stride * unat h \<le> 2 ^ 32" "i \<in> screen_cells w h stride"
  shows "i < unat stride * unat h"
proof -
  obtain x y where i: "i = unat (y * stride + x)" "x < w" "y < h" using assms(3) by (auto simp: screen_cells_def)
  have x: "unat x < unat stride" and y: "unat y < unat h"
    using i(2,3) assms(1) by (simp_all add: word_less_nat_alt word_le_nat_alt)
  have "unat y * unat stride + unat x < Suc (unat y) * unat stride" using x by simp
  also have "\<dots> \<le> unat h * unat stride" using y by (intro mult_le_mono1) simp
  finally have lt: "unat y * unat stride + unat x < unat stride * unat h" by (simp add: mult.commute)
  then have "i = unat y * unat stride + unat x"
    using assms(2) by (simp add: i(1) unat_word_ariths)
  then show ?thesis using lt by simp
qed

definition paints :: "nat set \<Rightarrow> framebuffer \<Rightarrow> framebuffer \<Rightarrow> bool" where
  "paints cells f g \<longleftrightarrow> (\<forall>i. i \<notin> cells \<longrightarrow> g i = f i)"

lemma paints_refl: "paints cells f f"
  by (simp add: paints_def)

lemma paints_trans: "paints cells f g \<Longrightarrow> paints cells g h \<Longrightarrow> paints cells f h"
  by (simp add: paints_def)

lemma paints_upd: "i \<in> cells \<Longrightarrow> paints cells f g \<Longrightarrow> paints cells f (g(i := c))"
  by (auto simp: paints_def)

lemma paints_fold:
  "paints cells f g \<Longrightarrow> (\<And>x g. x \<in> set xs \<Longrightarrow> paints cells f g \<Longrightarrow> paints cells f (op x g)) \<Longrightarrow> paints cells f (fold op xs g)"
  by (induction xs arbitrary: g) auto

end
