(* ===== verification/Splash.thy ===== *)
theory Splash
  imports Framebuffer
begin

text \<open>
  The boot splash of arch/x86\_64/boot/uefi\_splash.c: four bitmap files are read into one static buffer and
  drawn. The firmware's answers are a record. A read outside the buffer is the result \<open>None\<close>; 32-bit signed
  values are integers between \<open>-2^31\<close> and \<open>2^31 - 1\<close>, brought back there where the code computes with them.
\<close>

definition BMP_BUFFER_SIZE :: nat where "BMP_BUFFER_SIZE = 1024 * 1024"

section \<open>Reading a bitmap\<close>

definition i32 :: "int \<Rightarrow> int" where
  "i32 v = sint (word_of_int v :: 32 word)"

definition read_le16 :: "u8 list \<Rightarrow> nat \<Rightarrow> u16" where
  "read_le16 p i = ucast (p ! i) OR push_bit 8 (ucast (p ! (i + 1)))"

definition read_le32 :: "u8 list \<Rightarrow> nat \<Rightarrow> u32" where
  "read_le32 p i = ucast (p ! i) OR push_bit 8 (ucast (p ! (i + 1))) OR push_bit 16 (ucast (p ! (i + 2))) OR
     push_bit 24 (ucast (p ! (i + 3)))"

definition read_le32s :: "u8 list \<Rightarrow> nat \<Rightarrow> int" where
  "read_le32s p i = sint (read_le32 p i)"

definition abs_i32 :: "int \<Rightarrow> int" where
  "abs_i32 v = (if v < 0 then i32 (- v) else v)"

definition byte_at :: "u8 list \<Rightarrow> nat \<Rightarrow> u8 option" where
  "byte_at bmp i = (if i < length bmp then Some (bmp ! i) else None)"

text \<open>The output protocol of the drawing functions: none without mode information; the flag is a framebuffer base.\<close>

type_synonym splash_gop = "(gop_mode \<times> bool) option"

definition bmp_put_pixel :: "splash_gop \<Rightarrow> int \<Rightarrow> int \<Rightarrow> u32 \<Rightarrow> framebuffer \<Rightarrow> framebuffer" where
  "bmp_put_pixel gop x y pixel fb =
     (case gop of None \<Rightarrow> fb
      | Some (m, base) \<Rightarrow>
          if \<not> base then fb
          else if x < 0 \<or> y < 0 then fb
          else if word_of_int x \<ge> gm_width m \<or> word_of_int y \<ge> gm_height m then fb
          else fb(unat (word_of_int y * gm_stride m + word_of_int x) := pixel))"

text \<open>The colour of three bytes, blue first.\<close>

definition bmp_colour :: "u8 list \<Rightarrow> nat \<Rightarrow> splash_gop \<Rightarrow> u32 option" where
  "bmp_colour bmp i gop =
     (case (byte_at bmp (i + 2), byte_at bmp (i + 1), byte_at bmp i) of
        (Some r, Some g, Some b) \<Rightarrow> Some (make_pixel (map_option fst gop) r g b)
      | _ \<Rightarrow> None)"

definition bmp_palette_pixel :: "u8 list \<Rightarrow> u32 \<Rightarrow> splash_gop \<Rightarrow> u32 option" where
  "bmp_palette_pixel bmp palette_index gop = bmp_colour bmp (54 + unat (palette_index * 4)) gop"

definition bmp_direct_pixel :: "u8 list \<Rightarrow> nat \<Rightarrow> u16 \<Rightarrow> splash_gop \<Rightarrow> u32 option" where
  "bmp_direct_pixel bmp src bits_per_pixel gop =
     (if bits_per_pixel = 24 then bmp_colour bmp src gop
      else if bits_per_pixel = 32 then bmp_colour bmp src gop
      else Some 0)"

definition bmp_supported :: "u16 \<Rightarrow> u32 \<Rightarrow> bool" where
  "bmp_supported bits_per_pixel compression =
     (if compression \<noteq> 0 then False else bits_per_pixel = 1 \<or> bits_per_pixel = 24 \<or> bits_per_pixel = 32)"

record bmp_header =
  bh_pixel_offset :: u32
  bh_width :: int
  bh_raw_height :: int
  bh_bits_per_pixel :: u16
  bh_compression :: u32

definition read_header :: "u8 list \<Rightarrow> bmp_header" where
  "read_header bmp =
     \<lparr>bh_pixel_offset = read_le32 bmp 10, bh_width = read_le32s bmp 18, bh_raw_height = read_le32s bmp 22,
      bh_bits_per_pixel = read_le16 bmp 28, bh_compression = read_le32 bmp 30\<rparr>"

definition row_stride :: "bmp_header \<Rightarrow> u32" where
  "row_stride h = ((word_of_int (bh_width h) * ucast (bh_bits_per_pixel h) + 31) div 32) * 4"

text \<open>The tests in front of the drawing loops.\<close>

definition bmp_accepted :: "u8 list \<Rightarrow> u64 \<Rightarrow> bool" where
  "bmp_accepted bmp bmp_size =
     (if bmp_size < 62 then False
      else if bmp ! 0 \<noteq> 0x42 \<or> bmp ! 1 \<noteq> 0x4D then False
      else
        let h = read_header bmp in
        if bh_width h \<le> 0 \<or> bh_raw_height h = 0 then False
        else if \<not> bmp_supported (bh_bits_per_pixel h) (bh_compression h) then False
        else if ucast (bh_pixel_offset h) \<ge> bmp_size then False
        else \<not> ucast (bh_pixel_offset h) + ucast (row_stride h) * word_of_int (abs_i32 (bh_raw_height h)) > bmp_size)"

definition bmp_pixel :: "splash_gop \<Rightarrow> u8 list \<Rightarrow> bmp_header \<Rightarrow> int \<Rightarrow> int \<Rightarrow> u32 option" where
  "bmp_pixel gop bmp h y x =
     (let src_y = (if bh_raw_height h < 0 then y else abs_i32 (bh_raw_height h) - 1 - y);
          row = unat (bh_pixel_offset h) + unat (word_of_int src_y * row_stride h)
      in if bh_bits_per_pixel h = 1 then
           (case byte_at bmp (row + unat ((word_of_int x :: u32) div 8)) of None \<Rightarrow> None
            | Some src_byte \<Rightarrow>
                let n = 7 - unat ((word_of_int x :: u32) AND 7)
                in bmp_palette_pixel bmp (ucast (drop_bit n src_byte AND 1)) gop)
         else bmp_direct_pixel bmp (row + unat ((word_of_int x :: u32) * (ucast (bh_bits_per_pixel h) div 8)))
                (bh_bits_per_pixel h) gop)"

text \<open>A loop whose body may read outside the buffer.\<close>

fun each :: "('x \<Rightarrow> 's \<Rightarrow> 's option) \<Rightarrow> 'x list \<Rightarrow> 's \<Rightarrow> 's option" where
  "each f [] s = Some s"
| "each f (x # xs) s = (case f x s of None \<Rightarrow> None | Some t \<Rightarrow> each f xs t)"

text \<open>Half of a signed value, towards zero.\<close>

definition half :: "int \<Rightarrow> int" where
  "half v = (if v < 0 then - ((- v) div 2) else v div 2)"

definition draw_bmp_centered :: "splash_gop \<Rightarrow> u8 list \<Rightarrow> u64 \<Rightarrow> framebuffer \<Rightarrow> framebuffer option" where
  "draw_bmp_centered gop bmp bmp_size fb =
     (case gop of None \<Rightarrow> Some fb
      | Some (m, base) \<Rightarrow>
          if \<not> bmp_accepted bmp bmp_size then Some fb
          else
            let h = read_header bmp;
                height = abs_i32 (bh_raw_height h);
                dst_x = half (i32 (sint (gm_width m) - bh_width h));
                dst_y = half (i32 (sint (gm_height m) - height))
            in each (\<lambda>y. each (\<lambda>x f. case bmp_pixel gop bmp h y x of None \<Rightarrow> None
                                 | Some pixel \<Rightarrow> Some (bmp_put_pixel gop (dst_x + x) (dst_y + y) pixel f))
                         [0..bh_width h - 1]) [0..height - 1] fb)"

section \<open>The files\<close>

text \<open>What reading a file ends in: it cannot be opened, its read fails, or it delivers bytes.\<close>

datatype file_outcome = NO_FILE | READ_FAILS | READS "u8 list"

record splash_firmware =
  sf_gop :: "splash_gop option"
  sf_loaded_image :: bool
  sf_file_system :: bool
  sf_open_volume :: bool
  sf_file :: "string \<Rightarrow> file_outcome"
  sf_stall :: bool

datatype splash_event = FILE_OPENED string | FILE_CLOSED string | ROOT_CLOSED | STALLED

record splash_sys =
  sp_buffer :: "u8 list"
  sp_fb :: framebuffer
  sp_log :: "splash_event list"

definition g_frame_paths :: "string list" where
  "g_frame_paths = map (\<lambda>d. [BSL] @ ''img'' @ [BSL] @ d @ ''.bmp'') [''1'', ''2'', ''3'', ''4'']"

definition open_boot_root :: "splash_firmware \<Rightarrow> bool" where
  "open_boot_root fw = (sf_loaded_image fw \<and> sf_file_system fw \<and> sf_open_volume fw)"

text \<open>The firmware delivers at most as many bytes as it is asked for; the rest of the buffer stays.\<close>

definition read_frame :: "splash_firmware \<Rightarrow> string \<Rightarrow> splash_sys \<Rightarrow> (bool \<times> u64) \<times> splash_sys" where
  "read_frame fw path s =
     (case sf_file fw path of
        NO_FILE \<Rightarrow> ((False, 0), s)
      | READ_FAILS \<Rightarrow> ((False, 0), s\<lparr>sp_log := sp_log s @ [FILE_OPENED path, FILE_CLOSED path]\<rparr>)
      | READS bytes \<Rightarrow>
          let got = take (length (sp_buffer s)) bytes
          in ((got \<noteq> [], of_nat (length got)),
              s\<lparr>sp_buffer := got @ drop (length got) (sp_buffer s),
                sp_log := sp_log s @ [FILE_OPENED path, FILE_CLOSED path]\<rparr>))"

definition show_frame :: "splash_firmware \<Rightarrow> splash_gop \<Rightarrow> string \<Rightarrow> splash_sys \<Rightarrow> splash_sys option" where
  "show_frame fw gop path s =
     (let ((ok, frame_size), s1) = read_frame fw path s in
      if \<not> ok then Some s1
      else case draw_bmp_centered gop (sp_buffer s1) frame_size (sp_fb s1) of None \<Rightarrow> None
        | Some fb \<Rightarrow> Some (s1\<lparr>sp_fb := fb, sp_log := sp_log s1 @ (if sf_stall fw then [STALLED] else [])\<rparr>))"

definition vita_uefi_show_splash :: "splash_firmware \<Rightarrow> splash_sys \<Rightarrow> splash_sys option" where
  "vita_uefi_show_splash fw s =
     (case sf_gop fw of None \<Rightarrow> Some s
      | Some gop \<Rightarrow>
          if \<not> open_boot_root fw then Some s
          else case each (show_frame fw gop) g_frame_paths s of None \<Rightarrow> None
            | Some t \<Rightarrow> Some (t\<lparr>sp_log := sp_log t @ [ROOT_CLOSED]\<rparr>))"

section \<open>Loops\<close>

lemma each_ok:
  assumes "\<And>x s. x \<in> set xs \<Longrightarrow> P s \<Longrightarrow> \<exists>t. f x s = Some t \<and> P t" "P s"
  shows "\<exists>t. each f xs s = Some t \<and> P t"
  using assms
proof (induction xs arbitrary: s)
  case (Cons x xs)
  have "\<exists>t. f x s = Some t \<and> P t" by (rule Cons.prems(1)) (simp_all add: Cons.prems(2))
  then obtain t where t: "f x s = Some t" "P t" by blast
  have "\<exists>u. each f xs t = Some u \<and> P u" using Cons.prems(1) t(2) by (intro Cons.IH) auto
  then show ?case using t(1) by simp
qed simp

lemma each_fails: "x \<in> set xs \<Longrightarrow> (\<And>s. f x s = None) \<Longrightarrow> each f xs s = None"
  by (induction xs arbitrary: s) (auto split: option.split)

section \<open>Reads in bounds\<close>

text \<open>The size of a line of pixels does not wrap in 32 bits.\<close>

definition no_row_wrap :: "bmp_header \<Rightarrow> bool" where
  "no_row_wrap h \<longleftrightarrow> nat (bh_width h) * unat (bh_bits_per_pixel h) + 31 < 2 ^ 32"

lemma unat_of_width: "0 \<le> v \<Longrightarrow> v < 2 ^ 32 \<Longrightarrow> unat (word_of_int v :: u32) = nat v"
  by (simp add: unsigned_of_int take_bit_int_eq_self)

lemma header_range: "bh_width (read_header bmp) < 2 ^ 31" "bh_raw_height (read_header bmp) < 2 ^ 31" "- (2 ^ 31) \<le> bh_raw_height (read_header bmp)"
  using sint_lt [of "read_le32 bmp 18"] sint_lt [of "read_le32 bmp 22"] sint_ge [of "read_le32 bmp 22"]
  by (simp_all add: read_header_def read_le32s_def)

lemma abs_i32_less: "v < 2 ^ 31 \<Longrightarrow> abs_i32 v < 2 ^ 31"
  using sint_lt [of "word_of_int (- v) :: 32 word"] by (simp add: abs_i32_def i32_def)

lemma row_stride_value:
  assumes "0 < bh_width h" "bh_width h < 2 ^ 31" "no_row_wrap h"
  shows "unat (row_stride h) = ((nat (bh_width h) * unat (bh_bits_per_pixel h) + 31) div 32) * 4"
proof -
  have w: "unat (word_of_int (bh_width h) :: u32) = nat (bh_width h)" using assms(1,2) by (intro unat_of_width) simp_all
  have b: "unat (ucast (bh_bits_per_pixel h) :: u32) = unat (bh_bits_per_pixel h)"
  proof -
    have "unat (bh_bits_per_pixel h) < 2 ^ 16" using unsigned_less [of "bh_bits_per_pixel h"] by simp
    then show ?thesis by (simp add: unsigned_ucast_eq take_bit_nat_eq_self)
  qed
  have "unat (word_of_int (bh_width h) * ucast (bh_bits_per_pixel h) + 31 :: u32) = nat (bh_width h) * unat (bh_bits_per_pixel h) + 31"
    using assms(3) w b by (simp add: unat_word_ariths no_row_wrap_def)
  then have d: "unat ((word_of_int (bh_width h) * ucast (bh_bits_per_pixel h) + 31 :: u32) div 32) =
      (nat (bh_width h) * unat (bh_bits_per_pixel h) + 31) div 32"
    by (simp add: unat_div)
  have "(nat (bh_width h) * unat (bh_bits_per_pixel h) + 31) div 32 < 2 ^ 27" using assms(3) by (simp add: no_row_wrap_def div_less_iff_less_mult)
  then show ?thesis using d by (simp add: row_stride_def unat_word_ariths)
qed

lemma byte_in: "i < length bmp \<Longrightarrow> byte_at bmp i = Some (bmp ! i)"
  by (simp add: byte_at_def)

lemma colour_in: "i + 2 < length bmp \<Longrightarrow> \<exists>p. bmp_colour bmp i gop = Some p"
  by (simp add: bmp_colour_def byte_in)

lemma palette_in:
  assumes "62 \<le> length bmp"
  shows "\<exists>p. bmp_palette_pixel bmp (ucast (b AND 1 :: u8)) gop = Some p"
proof -
  have "b AND 1 = 0 \<or> b AND 1 = 1" by (simp add: and_one_eq mod2_eq_if)
  then show ?thesis using assms by (elim disjE) (simp_all add: bmp_palette_pixel_def, (intro colour_in, simp)+)
qed

text \<open>What the tests say about a file that is accepted, as numbers.\<close>

lemma accepted_size:
  assumes "bmp_accepted bmp sz" "no_row_wrap (read_header bmp)" "0 < abs_i32 (bh_raw_height (read_header bmp))"
  defines "h \<equiv> read_header bmp"
  shows "0 < bh_width h" "bh_bits_per_pixel h = 1 \<or> bh_bits_per_pixel h = 24 \<or> bh_bits_per_pixel h = 32" "62 \<le> unat sz"
    "unat (bh_pixel_offset h) + unat (row_stride h) * nat (abs_i32 (bh_raw_height h)) \<le> unat sz"
proof -
  let ?ht = "abs_i32 (bh_raw_height h)"
  have a: "\<not> sz < 62" "\<not> bh_width h \<le> 0" "bmp_supported (bh_bits_per_pixel h) (bh_compression h)"
    "\<not> ucast (bh_pixel_offset h) + ucast (row_stride h) * word_of_int ?ht > sz"
    using assms(1) by (auto simp: bmp_accepted_def h_def Let_def split: if_splits)
  show w: "0 < bh_width h" using a(2) by simp
  show "bh_bits_per_pixel h = 1 \<or> bh_bits_per_pixel h = 24 \<or> bh_bits_per_pixel h = 32"
    using a(3) by (simp add: bmp_supported_def split: if_splits)
  show "62 \<le> unat sz" using a(1) by (simp add: word_less_nat_alt)
  have "?ht < 2 ^ 31" unfolding h_def by (rule abs_i32_less [OF header_range(2)])
  then have ht: "nat ?ht < 2 ^ 31" using assms(3) by (simp add: h_def nat_less_iff)
  have s: "unat (row_stride h) < 2 ^ 32" "unat (bh_pixel_offset h) < 2 ^ 32"
    using unsigned_less [of "row_stride h"] unsigned_less [of "bh_pixel_offset h"] by simp_all
  have u: "unat (ucast (row_stride h) :: u64) = unat (row_stride h)" "unat (ucast (bh_pixel_offset h) :: u64) = unat (bh_pixel_offset h)"
    "unat (word_of_int ?ht :: u64) = nat ?ht"
    using s ht assms(3) by (simp_all add: unsigned_ucast_eq take_bit_nat_eq_self unsigned_of_int take_bit_int_eq_self h_def nat_less_iff)
  have "unat (row_stride h) * nat ?ht \<le> 2 ^ 32 * 2 ^ 31" using s(1) ht by (intro mult_le_mono) simp_all
  then have "unat (ucast (bh_pixel_offset h) + ucast (row_stride h) * word_of_int ?ht :: u64) =
      unat (bh_pixel_offset h) + unat (row_stride h) * nat ?ht"
    using s(2) u by (simp add: unat_word_ariths)
  then show "unat (bh_pixel_offset h) + unat (row_stride h) * nat (abs_i32 (bh_raw_height h)) \<le> unat sz"
    using a(4) by (simp add: word_less_nat_alt)
qed

lemma row_address:
  assumes "0 \<le> src_y" "src_y < height" "st * nat height < 2 ^ 32" "st = unat (row_stride h)" "height < 2 ^ 31"
  shows "unat (word_of_int src_y * row_stride h) = nat src_y * st" "nat src_y * st + st \<le> st * nat height"
proof -
  have s: "unat (word_of_int src_y :: u32) = nat src_y" using assms(1,2,5) by (intro unat_of_width) simp_all
  have le: "Suc (nat src_y) * st \<le> nat height * st" using assms(1,2) by (intro mult_le_mono1) (simp add: nat_less_eq_zless Suc_le_eq)
  then show "nat src_y * st + st \<le> st * nat height" by (simp add: mult.commute)
  have "nat src_y * st < 2 ^ 32" using le assms(3) by (simp add: mult.commute)
  then show "unat (word_of_int src_y * row_stride h) = nat src_y * st" using s assms(4) by (simp add: unat_word_ariths)
qed

lemma pixel_in:
  assumes acc: "bmp_accepted bmp sz" and wrap: "no_row_wrap (read_header bmp)"
    and len: "unat sz \<le> length bmp" "length bmp \<le> 2 ^ 31"
    and y: "0 \<le> y" "y < abs_i32 (bh_raw_height (read_header bmp))"
    and x: "0 \<le> x" "x < bh_width (read_header bmp)"
  shows "\<exists>p. bmp_pixel gop bmp (read_header bmp) y x = Some p"
proof -
  define h where "h = read_header bmp"
  define ht where "ht = abs_i32 (bh_raw_height h)"
  define st where "st = unat (row_stride h)"
  define w where "w = nat (bh_width h)"
  have pos: "0 < ht" using y by (simp add: h_def ht_def)
  note a = accepted_size [OF acc wrap, folded h_def, folded ht_def, OF pos]
  have st: "st = ((w * unat (bh_bits_per_pixel h) + 31) div 32) * 4"
    unfolding st_def w_def using a(1) header_range(1) [of bmp] wrap by (intro row_stride_value) (simp_all add: h_def)
  have total: "unat (bh_pixel_offset h) + st * nat ht \<le> length bmp" using a(4) len(1) by (simp add: st_def)
  then have small: "st * nat ht < 2 ^ 32" using len(2) by simp
  have ht: "ht < 2 ^ 31" unfolding ht_def h_def by (rule abs_i32_less [OF header_range(2)])
  define src_y where "src_y = (if bh_raw_height h < 0 then y else ht - 1 - y)"
  have sy: "0 \<le> src_y" "src_y < ht" using y by (simp_all add: src_y_def ht_def h_def)
  note r = row_address [OF sy small st_def ht]
  define row where "row = unat (bh_pixel_offset h) + unat (word_of_int src_y * row_stride h)"
  have row: "row + st \<le> length bmp" using r total by (simp add: row_def)
  have ux: "unat (word_of_int x :: u32) = nat x" using x header_range(1) [of bmp] by (intro unat_of_width) (simp_all add: h_def)
  have xw: "nat x < w" using x by (simp add: w_def h_def)
  have bmp62: "62 \<le> length bmp" using a(3) len(1) by simp
  have split: "bmp_pixel gop bmp h y x =
     (if bh_bits_per_pixel h = 1 then
           (case byte_at bmp (row + unat ((word_of_int x :: u32) div 8)) of None \<Rightarrow> None
            | Some src_byte \<Rightarrow>
                let n = 7 - unat ((word_of_int x :: u32) AND 7)
                in bmp_palette_pixel bmp (ucast (drop_bit n src_byte AND 1)) gop)
         else bmp_direct_pixel bmp (row + unat ((word_of_int x :: u32) * (ucast (bh_bits_per_pixel h) div 8)))
                (bh_bits_per_pixel h) gop)"
    by (simp add: bmp_pixel_def Let_def src_y_def ht_def row_def)
  consider "bh_bits_per_pixel h = 1" | "bh_bits_per_pixel h = 24" | "bh_bits_per_pixel h = 32" using a(2) by blast
  then have "\<exists>p. bmp_pixel gop bmp h y x = Some p"
  proof cases
    case 1
    then have "nat x div 8 < st" using st xw by simp
    then have "byte_at bmp (row + unat ((word_of_int x :: u32) div 8)) = Some (bmp ! (row + nat x div 8))"
      using row by (simp add: byte_at_def unat_div ux)
    then show ?thesis using 1 split palette_in [OF bmp62] by (simp add: Let_def)
  next
    case 2
    then have b: "nat x * 3 + 2 < st" using st xw by simp
    then have "nat x * 3 < 2 ^ 32" using row len(2) by simp
    then have "unat ((word_of_int x :: u32) * (ucast (bh_bits_per_pixel h) div 8)) = nat x * 3"
      using 2 ux by (simp add: unat_word_ariths)
    then show ?thesis using 2 split b row by (simp add: bmp_direct_pixel_def) (intro colour_in, simp)
  next
    case 3
    then have b: "nat x * 4 + 3 < st" using st xw by simp
    then have "nat x * 4 < 2 ^ 32" using row len(2) by simp
    then have "unat ((word_of_int x :: u32) * (ucast (bh_bits_per_pixel h) div 8)) = nat x * 4"
      using 3 ux by (simp add: unat_word_ariths)
    then show ?thesis using 3 split b row by (simp add: bmp_direct_pixel_def) (intro colour_in, simp)
  qed
  then show ?thesis by (simp add: h_def)
qed

lemma put_pixel_paints:
  "gop = Some (m, base) \<Longrightarrow> paints (screen_cells (gm_width m) (gm_height m) (gm_stride m)) f g \<Longrightarrow>
     paints (screen_cells (gm_width m) (gm_height m) (gm_stride m)) f (bmp_put_pixel gop x y p g)"
  by (auto simp: bmp_put_pixel_def linorder_not_le intro!: paints_upd screen_cell)

definition gop_cells :: "splash_gop \<Rightarrow> nat set" where
  "gop_cells gop = (case gop of None \<Rightarrow> {} | Some (m, base) \<Rightarrow> screen_cells (gm_width m) (gm_height m) (gm_stride m))"

lemma draw_in:
  assumes "no_row_wrap (read_header bmp)" "unat sz \<le> length bmp" "length bmp \<le> 2 ^ 31"
  shows "\<exists>g. draw_bmp_centered gop bmp sz f = Some g \<and> paints (gop_cells gop) f g"
proof (cases "gop = None \<or> \<not> bmp_accepted bmp sz")
  case True
  then show ?thesis by (auto simp: draw_bmp_centered_def paints_refl split: option.split)
next
  case False
  then obtain m base where gop: "gop = Some (m, base)" by (cases gop) auto
  define h where "h = read_header bmp"
  define dx dy where "dx = half (i32 (sint (gm_width m) - bh_width h))" and "dy = half (i32 (sint (gm_height m) - abs_i32 (bh_raw_height h)))"
  define dot where "dot = (\<lambda>y x g. case bmp_pixel gop bmp h y x of None \<Rightarrow> None
      | Some pixel \<Rightarrow> Some (bmp_put_pixel gop (dx + x) (dy + y) pixel g))"
  have dots: "\<exists>t. dot y x g = Some t \<and> paints (gop_cells gop) f t"
    if q: "y \<in> set [0..abs_i32 (bh_raw_height h) - 1]" "x \<in> set [0..bh_width h - 1]" "paints (gop_cells gop) f g" for x y g
  proof -
    obtain p where "bmp_pixel gop bmp h y x = Some p"
      using pixel_in [OF _ assms, of y x gop] False q(1,2) by (auto simp: h_def)
    then show ?thesis using put_pixel_paints [OF gop, of f g] q(3) by (simp add: dot_def gop_cells_def gop)
  qed
  have rows: "\<exists>t. each (dot y) [0..bh_width h - 1] g = Some t \<and> paints (gop_cells gop) f t"
    if "y \<in> set [0..abs_i32 (bh_raw_height h) - 1]" "paints (gop_cells gop) f g" for y g
    by (rule each_ok [where P = "paints (gop_cells gop) f", OF dots [OF that(1)] that(2)])
  have "\<exists>t. each (\<lambda>y. each (dot y) [0..bh_width h - 1]) [0..abs_i32 (bh_raw_height h) - 1] f = Some t \<and> paints (gop_cells gop) f t"
    by (rule each_ok [where P = "paints (gop_cells gop) f", OF rows paints_refl])
  moreover have "draw_bmp_centered gop bmp sz f = each (\<lambda>y. each (dot y) [0..bh_width h - 1]) [0..abs_i32 (bh_raw_height h) - 1] f"
    using False unfolding draw_bmp_centered_def dot_def dx_def dy_def h_def by (simp add: gop Let_def)
  ultimately show ?thesis by simp
qed

section \<open>The whole splash\<close>

text \<open>A file whose header, if it has one, does not wrap.\<close>

definition harmless :: "file_outcome \<Rightarrow> bool" where
  "harmless r = (case r of READS bytes \<Rightarrow> length bytes < 62 \<or> no_row_wrap (read_header bytes) | _ \<Rightarrow> True)"

lemma header_take: "62 \<le> k \<Longrightarrow> 62 \<le> length bytes \<Longrightarrow> read_header (take k bytes @ rest) = read_header bytes"
  by (simp add: read_header_def read_le32_def read_le32s_def read_le16_def nth_append)

definition splash_ok :: "splash_gop \<Rightarrow> framebuffer \<Rightarrow> splash_sys \<Rightarrow> bool" where
  "splash_ok gop f s \<longleftrightarrow> length (sp_buffer s) = BMP_BUFFER_SIZE \<and> paints (gop_cells gop) f (sp_fb s) \<and>
     (\<forall>p. count_list (sp_log s) (FILE_OPENED p) = count_list (sp_log s) (FILE_CLOSED p))"

lemma show_frame_ok:
  assumes "splash_ok gop f s" "harmless (sf_file fw path)"
  shows "\<exists>t. show_frame fw gop path s = Some t \<and> splash_ok gop f t"
proof (cases "sf_file fw path")
  case (READS bytes)
  define got where "got = take (length (sp_buffer s)) bytes"
  define s1 where "s1 = s\<lparr>sp_buffer := got @ drop (length got) (sp_buffer s), sp_log := sp_log s @ [FILE_OPENED path, FILE_CLOSED path]\<rparr>"
  have r: "read_frame fw path s = ((got \<noteq> [], of_nat (length got)), s1)"
    by (simp add: read_frame_def READS got_def s1_def)
  have buf: "length (sp_buffer s) = 1048576" using assms(1) by (simp add: splash_ok_def BMP_BUFFER_SIZE_def)
  have s1: "splash_ok gop f s1" "sp_fb s1 = sp_fb s" using assms(1) by (auto simp: splash_ok_def s1_def got_def BMP_BUFFER_SIZE_def)
  have len: "unat (of_nat (length got) :: u64) = length got" "length got \<le> 1048576"
    using buf by (simp_all add: got_def unat_of_nat take_bit_nat_eq_self)
  have "\<exists>g. draw_bmp_centered gop (sp_buffer s1) (of_nat (length got)) (sp_fb s1) = Some g \<and> paints (gop_cells gop) (sp_fb s1) g"
  proof (cases "62 \<le> length got")
    case True
    then have "read_header (sp_buffer s1) = read_header bytes"
      unfolding s1_def got_def by (simp add: header_take)
    moreover have "no_row_wrap (read_header bytes)" using assms(2) True by (auto simp: harmless_def READS got_def)
    ultimately show ?thesis using len buf s1(1) by (intro draw_in) (simp_all add: splash_ok_def BMP_BUFFER_SIZE_def)
  next
    case False
    then have "\<not> bmp_accepted (sp_buffer s1) (of_nat (length got))"
      using len(1) by (simp add: bmp_accepted_def word_less_nat_alt)
    then show ?thesis by (auto simp: draw_bmp_centered_def paints_refl split: option.split)
  qed
  then obtain g where g: "draw_bmp_centered gop (sp_buffer s1) (of_nat (length got)) (sp_fb s1) = Some g" "paints (gop_cells gop) (sp_fb s1) g"
    by blast
  then have "paints (gop_cells gop) f g" using s1 by (auto simp: splash_ok_def intro: paints_trans)
  then show ?thesis using r g(1) s1 by (auto simp: show_frame_def splash_ok_def)
qed (use assms in \<open>auto simp: show_frame_def read_frame_def splash_ok_def\<close>)

text \<open>
  C35. The splash reads its buffer only. On every firmware and whatever the four files hold, unless the size of
  a line of pixels in a header wraps in 32 bits: every byte the drawing reads lies in the buffer, the splash
  returns, only cells of the screen are painted, and every file that was opened is closed again.
\<close>

theorem splash_reads_its_buffer:
  fixes fw :: splash_firmware and s :: splash_sys
  assumes "length (sp_buffer s) = BMP_BUFFER_SIZE" "sp_log s = []" "list_all (\<lambda>p. harmless (sf_file fw p)) g_frame_paths"
  shows "\<exists>t. vita_uefi_show_splash fw s = Some t \<and>
    paints (case sf_gop fw of None \<Rightarrow> {} | Some gop \<Rightarrow> gop_cells gop) (sp_fb s) (sp_fb t) \<and>
    count_list (sp_log t) (FILE_OPENED path) = count_list (sp_log t) (FILE_CLOSED path)"
proof (cases "\<exists>gop. sf_gop fw = Some gop \<and> open_boot_root fw")
  case True
  then obtain gop where g: "sf_gop fw = Some gop" "open_boot_root fw" by blast
  have "splash_ok gop (sp_fb s) s" using assms(1,2) by (simp add: splash_ok_def paints_refl)
  then have "\<exists>t. each (show_frame fw gop) g_frame_paths s = Some t \<and> splash_ok gop (sp_fb s) t"
    using assms(3) by (intro each_ok show_frame_ok) (auto simp: list_all_iff)
  then show ?thesis using g by (auto simp: vita_uefi_show_splash_def splash_ok_def)
next
  case False
  then show ?thesis using assms(2) by (cases "sf_gop fw") (auto simp: vita_uefi_show_splash_def paints_refl)
qed

definition splash_start :: splash_sys where
  "splash_start = \<lparr>sp_buffer = replicate BMP_BUFFER_SIZE 0, sp_fb = (\<lambda>_. 0), sp_log = []\<rparr>"

text \<open>Two bytes behind the header, 32 bits, a line of one pixel.\<close>

definition bmp_bytes :: "u8 list \<Rightarrow> u8 list" where
  "bmp_bytes width = [0x42, 0x4D] @ replicate 8 0 @ [62, 0, 0, 0] @ replicate 4 0 @ width @ [1, 0, 0, 0] @ [1, 0, 32, 0] @ replicate 32 0 @ [1, 2, 3, 4]"

definition demo_firmware :: "u8 list \<Rightarrow> splash_firmware" where
  "demo_firmware width =
     \<lparr>sf_gop = Some (Some (\<lparr>gm_width = 640, gm_height = 480, gm_format = 1, gm_stride = 640\<rparr>, True)),
      sf_loaded_image = True, sf_file_system = True, sf_open_volume = True,
      sf_file = (\<lambda>p. READS (bmp_bytes width)), sf_stall = True\<rparr>"

lemma demo_harmless: "harmless (READS (bmp_bytes [1, 0, 0, 0]))"
  by (simp add: harmless_def bmp_bytes_def no_row_wrap_def read_header_def read_le32s_def read_le32_def read_le16_def nth_append nth_Cons')

theorem splash_reads_its_buffer_witness:
  "\<exists>t. vita_uefi_show_splash (demo_firmware [1, 0, 0, 0]) splash_start = Some t"
  using splash_reads_its_buffer [of splash_start "demo_firmware [1, 0, 0, 0]" "[]"] demo_harmless
  by (auto simp: splash_start_def demo_firmware_def list_all_iff)

lemma wide_header:
  "read_header (bmp_bytes [0, 0, 0, 8]) =
     \<lparr>bh_pixel_offset = 62, bh_width = 134217728, bh_raw_height = 1, bh_bits_per_pixel = 32, bh_compression = 0\<rparr>"
  by (simp add: bmp_bytes_def read_header_def read_le32s_def read_le32_def read_le16_def nth_append nth_Cons')

lemma wide_accepted:
  assumes "read_header bmp = \<lparr>bh_pixel_offset = 62, bh_width = 134217728, bh_raw_height = 1, bh_bits_per_pixel = 32, bh_compression = 0\<rparr>"
    and "bmp ! 0 = 0x42" "bmp ! 1 = 0x4D"
  shows "bmp_accepted bmp 66"
  using assms by (simp add: bmp_accepted_def bmp_supported_def row_stride_def abs_i32_def Let_def)

text \<open>
  C36. The test of the size of a bitmap can be passed by a line that wraps. A file of 66 bytes whose header
  says 134217728 pixels of 32 bits in a line has a line of 0 bytes for the code; every test accepts it, and the
  drawing leaves the buffer, wherever the file is stored: on every firmware with an output protocol and a boot
  volume that delivers it as the first frame, and whatever the buffer held.
\<close>

theorem splash_wrapping_line_leaves_the_buffer:
  fixes fw :: splash_firmware and s :: splash_sys
  assumes "length (sp_buffer s) = BMP_BUFFER_SIZE" "sf_gop fw = Some (Some (m, base))" "open_boot_root fw"
    and "sf_file fw (hd g_frame_paths) = READS (bmp_bytes [0, 0, 0, 8])"
  shows "vita_uefi_show_splash fw s = None"
proof -
  let ?b = "bmp_bytes [0, 0, 0, 8]"
  define buf where "buf = ?b @ drop 66 (sp_buffer s)"
  have len: "length ?b = 66" "length buf = 1048576"
    using assms(1) by (simp_all add: buf_def bmp_bytes_def BMP_BUFFER_SIZE_def)
  have h: "read_header buf = \<lparr>bh_pixel_offset = 62, bh_width = 134217728, bh_raw_height = 1, bh_bits_per_pixel = 32, bh_compression = 0\<rparr>"
    using header_take [of 66 ?b "drop 66 (sp_buffer s)"] len(1) by (simp add: buf_def wide_header)
  have acc: "bmp_accepted buf 66" by (rule wide_accepted [OF h]) (simp_all add: buf_def bmp_bytes_def)
  have out: "bmp_pixel gop buf (read_header buf) 0 1048576 = None" for gop
    by (simp add: h bmp_pixel_def bmp_direct_pixel_def bmp_colour_def byte_at_def len(2))
  have row: "each (\<lambda>x f. case bmp_pixel gop buf (read_header buf) 0 x of None \<Rightarrow> None
      | Some pixel \<Rightarrow> Some (bmp_put_pixel gop (dx + x) dy pixel f)) [0..bh_width (read_header buf) - 1] f = None" for gop dx dy f
    by (rule each_fails [of 1048576]) (simp_all add: h out [unfolded h])
  have "draw_bmp_centered (Some (m, base)) buf 66 f = None" for f
    using acc by (simp add: draw_bmp_centered_def Let_def abs_i32_def h row [unfolded h, simplified])
  then have "show_frame fw (Some (m, base)) (hd g_frame_paths) s = None"
    using assms(1,4) len(1) by (auto simp: show_frame_def read_frame_def BMP_BUFFER_SIZE_def buf_def Let_def)
  then have "each (show_frame fw (Some (m, base))) g_frame_paths s = None"
    by (simp add: g_frame_paths_def)
  then show ?thesis using assms(2,3) by (simp add: vita_uefi_show_splash_def)
qed

theorem splash_wrapping_line_leaves_the_buffer_witness:
  "vita_uefi_show_splash (demo_firmware [0, 0, 0, 8]) splash_start = None"
  by (rule splash_wrapping_line_leaves_the_buffer) (simp_all add: demo_firmware_def splash_start_def open_boot_root_def)

end
