(* ===== verification/Uefi_Boot.thy ===== *)
theory Uefi_Boot
  imports Kernel_Main Uefi_Console Splash
begin

text \<open>
  The entry of the UEFI build, \<open>efi_main\<close> of arch/x86\_64/boot/uefi\_entry.c, with the wait between two polls of
  the keyboard, the audit functions the build has in place of audit\_core.c's, and the placeholder files memory.c,
  scheduler.c, emergency\_core.c and sqlite\_vfs.c. \<open>kmain\<close> is a parameter of the entry, since the composed kernel
  of this development is the hosted one; the image handle and the system table are the parameters of the parts
  that use them.
\<close>

section \<open>Waiting for a key\<close>

datatype uefi_wait = STALL_MICROSECONDS nat | PAUSE_INSTRUCTIONS nat

definition uefi_poll_delay :: "bool \<Rightarrow> uefi_wait" where
  "uefi_poll_delay stall = (if stall then STALL_MICROSECONDS 10000 else PAUSE_INSTRUCTIONS 200000)"

definition uefi_try_read_key :: "uefi_sys \<Rightarrow> efi_input_key option \<Rightarrow> efi_input_key option" where
  "uefi_try_read_key u poll = (if \<not> ue_read_key_stroke u then None else poll)"

text \<open>The loop of \<open>uefi_console_read_line\<close> with the waits it makes, in their order.\<close>

fun polling_loop ::
  "bool \<Rightarrow> nat \<Rightarrow> efi_input_key option list \<Rightarrow> line_input \<Rightarrow> uefi_sys \<Rightarrow> (line_read \<times> uefi_sys) \<times> uefi_wait list" where
  "polling_loop stall out_cap [] i u = ((WAITING i, u), [])"
| "polling_loop stall out_cap (poll # polls) i u =
     (case uefi_try_read_key u poll of
        None \<Rightarrow> (let (r, waits) = polling_loop stall out_cap polls i u in (r, uefi_poll_delay stall # waits))
      | Some key \<Rightarrow>
          (if is_enter key
           then ((RETURNED True (take (li_len i) (li_out i)),
                  uefi_output_raw (Some [CR, LF]) (uefi_history_push (take (li_len i) (li_out i)) u)), [])
           else let (i1, u1) = edit_key out_cap key i u in polling_loop stall out_cap polls i1 u1))"

section \<open>The audit functions of the UEFI build\<close>

definition uefi_audit_early_buffer_init :: "'s \<Rightarrow> 's" where
  "uefi_audit_early_buffer_init s = s"

definition uefi_audit_init_persistent_backend :: "vita_handoff option \<Rightarrow> 's \<Rightarrow> bool \<times> 's" where
  "uefi_audit_init_persistent_backend handoff s = (False, s)"

definition uefi_audit_emit_boot_event :: "cstr \<Rightarrow> cstr \<Rightarrow> 's \<Rightarrow> 's" where
  "uefi_audit_emit_boot_event event_type summary s = s"

definition uefi_audit_persist_hardware_snapshot :: "vita_hw_snapshot option \<Rightarrow> 's \<Rightarrow> bool \<times> 's" where
  "uefi_audit_persist_hardware_snapshot snapshot s = (False, s)"

definition uefi_audit_persist_ai_proposal :: "vita_ai_proposal option \<Rightarrow> 's \<Rightarrow> bool \<times> 's" where
  "uefi_audit_persist_ai_proposal proposal s = (False, s)"

definition uefi_audit_persist_human_response :: "cstr \<Rightarrow> cstr \<Rightarrow> 's \<Rightarrow> bool \<times> 's" where
  "uefi_audit_persist_human_response proposal_id response s = (False, s)"

definition uefi_audit_upsert_node_peer :: "vita_node_peer option \<Rightarrow> 's \<Rightarrow> bool \<times> 's" where
  "uefi_audit_upsert_node_peer peer s = (False, s)"

definition uefi_audit_export_verify_report :: "cstr \<Rightarrow> cstr \<Rightarrow> 's \<Rightarrow> bool \<times> 's" where
  "uefi_audit_export_verify_report txt_path jsonl_path s = (False, s)"

definition uefi_audit_export_current_session_events :: "cstr \<Rightarrow> cstr \<Rightarrow> 's \<Rightarrow> bool \<times> 's" where
  "uefi_audit_export_current_session_events txt_path jsonl_path s = (False, s)"

text \<open>A report empties the array it is given, when there is one to write to.\<close>

definition emptied :: "cstr \<Rightarrow> nat \<Rightarrow> cstr" where
  "emptied out out_cap = (case out of None \<Rightarrow> None | Some t \<Rightarrow> Some (if out_cap > 0 then [] else t))"

definition uefi_audit_export_recent_event_block :: "cstr \<Rightarrow> nat \<Rightarrow> bool \<times> cstr" where
  "uefi_audit_export_recent_event_block out out_cap = (False, emptied out out_cap)"

definition uefi_audit_readiness_report :: "cstr \<Rightarrow> nat \<Rightarrow> bool \<times> cstr" where
  "uefi_audit_readiness_report out out_cap = (False, emptied out out_cap)"

definition uefi_audit_verify_current_chain :: "cstr \<Rightarrow> nat \<Rightarrow> bool \<times> cstr" where
  "uefi_audit_verify_current_chain out out_cap = (False, emptied out out_cap)"

definition uefi_audit_sqlite_summary :: "cstr \<Rightarrow> nat \<Rightarrow> bool \<times> cstr" where
  "uefi_audit_sqlite_summary out out_cap = (False, emptied out out_cap)"

definition uefi_identity_text :: "nat \<Rightarrow> cstr \<Rightarrow> cstr" where
  "uefi_identity_text cap out =
     (case out of None \<Rightarrow> None | Some t \<Rightarrow> Some (if cap > 0 then copy_loop cap 0 ''unknown'' else t))"

definition uefi_audit_get_identity :: "cstr \<Rightarrow> nat \<Rightarrow> cstr \<Rightarrow> nat \<Rightarrow> bool \<times> cstr \<times> cstr" where
  "uefi_audit_get_identity boot_id boot_id_cap node_id node_id_cap =
     (False, uefi_identity_text boot_id_cap boot_id, uefi_identity_text node_id_cap node_id)"

section \<open>The entry\<close>

definition EFI_SUCCESS :: nat where "EFI_SUCCESS = 0"

definition uefi_handoff :: vita_handoff where
  "uefi_handoff =
     \<lparr>ho_magic = VITA_BOOT_MAGIC, ho_version = 1, ho_size = HANDOFF_SIZE, ho_arch_name = Some ''x86_64'',
      ho_firmware_type = VITA_FIRMWARE_UEFI, ho_audit_db_path = None, ho_vitanet_seed_endpoint = None\<rparr>"

record 'k efi_machine =
  em_kernel :: 'k
  em_console :: uefi_sys
  em_splash :: splash_sys

definition efi_main ::
  "(vita_handoff option \<Rightarrow> 'a console_sys_scheme efi_machine \<Rightarrow> 'a console_sys_scheme efi_machine) \<Rightarrow> splash_firmware \<Rightarrow>
   'a console_sys_scheme efi_machine \<Rightarrow> (nat \<times> 'a console_sys_scheme efi_machine) option" where
  "efi_main boot_kernel fw m =
     (let m1 = m\<lparr>em_kernel := console_bind_clear True (console_bind_reader True (console_bind_raw_writer True
                  (console_bind_writer True (em_kernel m))))\<rparr>
      in case vita_uefi_show_splash fw (em_splash m1) of None \<Rightarrow> None
         | Some splash \<Rightarrow>
             Some (EFI_SUCCESS, boot_kernel (Some uefi_handoff)
               (m1\<lparr>em_splash := splash, em_console := uefi_console_clear (em_console m1)\<rparr>)))"

section \<open>Placeholder files\<close>

record vita_mem_region =
  mr_base :: u64
  mr_length :: u64
  mr_type :: u32

definition memory_early_init :: "'s \<Rightarrow> 's" where "memory_early_init s = s"

definition scheduler_init :: "'s \<Rightarrow> 's" where "scheduler_init s = s"

datatype emergency_topic =
  EMERG_UNKNOWN | EMERG_FIRST_AID | EMERG_LOST_PERSON | EMERG_WATER | EMERG_FOOD | EMERG_SHELTER | EMERG_WALK_TO_HELP

definition emergency_classify_text :: "cstr \<Rightarrow> emergency_topic" where
  "emergency_classify_text text = EMERG_UNKNOWN"

record vita_audit_target =
  at_path :: cstr
  at_writable :: bool

definition sqlite_vita_open :: "vita_audit_target option \<Rightarrow> bool" where "sqlite_vita_open target = False"
definition sqlite_vita_apply_schema :: bool where "sqlite_vita_apply_schema = False"
definition sqlite_vita_insert_boot_session :: bool where "sqlite_vita_insert_boot_session = False"
definition sqlite_vita_insert_audit_event :: bool where "sqlite_vita_insert_audit_event = False"

section \<open>The waits are the empty polls\<close>

lemma read_key_kept [simp]:
  "ue_read_key_stroke (uefi_output_raw t u) = ue_read_key_stroke u"
  "ue_read_key_stroke (repeat_raw n s u) = ue_read_key_stroke u"
  by (simp add: uefi_output_raw_def send_def) (induction n arbitrary: u, simp_all add: uefi_output_raw_def send_def)

lemma edit_key_reader: "ue_read_key_stroke (snd (edit_key cap key i u)) = ue_read_key_stroke u"
  by (simp add: edit_key_def recall_def uefi_redraw_input_def erase_last_def type_char_def uefi_echo_char_def
      Let_def case_prod_beta)

definition ends_line :: "efi_input_key option \<Rightarrow> bool" where
  "ends_line poll = (case poll of None \<Rightarrow> False | Some key \<Rightarrow> is_enter key)"

lemma polling_loop_reads:
  "ue_read_key_stroke u \<Longrightarrow> polling_loop stall cap polls i u =
     (read_loop cap polls i u,
      replicate (count_list (takeWhile (\<lambda>p. \<not> ends_line p) polls) None) (uefi_poll_delay stall))"
proof (induction polls arbitrary: i u)
  case (Cons poll polls)
  show ?case
  proof (cases poll)
    case None
    then show ?thesis using Cons by (simp add: uefi_try_read_key_def ends_line_def)
  next
    case (Some key)
    then show ?thesis using Cons edit_key_reader [of cap key i u]
      by (simp add: uefi_try_read_key_def ends_line_def case_prod_beta)
  qed
qed simp

section \<open>The handoff\<close>

lemma uefi_handoff_accepted: "handoff_valid (Some uefi_handoff)" "boot_mode_name (Some uefi_handoff) = ''uefi''"
  by (simp_all add: handoff_valid_def uefi_handoff_def boot_mode_name_def VITA_FIRMWARE_UEFI_def VITA_FIRMWARE_HOSTED_def)

end
