(* ===== verification/Uefi_Storage.thy ===== *)
theory Uefi_Storage
  imports StorageCmd Uefi_Console
begin

unbundle bit_operations_syntax

text \<open>
  The UEFI branches of kernel/storage.c. The firmware is the parameter \<open>e\<close>: what its boot services answer and
  the functions of its file protocol, over a state \<open>'f\<close> of their own; a function pointer that is tested for
  null is an option. Every call that reaches the file system is noted in \<open>uf_trace\<close>, and the lines handed to
  \<open>console_write_line\<close> in \<open>uf_said\<close>. The firmware reads at most as many bytes as it is asked for.
\<close>

type_synonym efi_handle = nat

datatype efi_event =
    VOLUME_OPENED efi_handle efi_handle
  | OPENED efi_handle "char16_t list"
  | CLOSED efi_handle
  | DELETED efi_handle
  | READ_BYTES efi_handle string
  | WROTE efi_handle string

definition EFI_FILE_MODE_READ :: u64 where "EFI_FILE_MODE_READ = 0x0000000000000001"
definition EFI_FILE_MODE_WRITE :: u64 where "EFI_FILE_MODE_WRITE = 0x0000000000000002"
definition EFI_FILE_MODE_CREATE :: u64 where "EFI_FILE_MODE_CREATE = 0x8000000000000000"
definition EFI_FILE_DIRECTORY :: u64 where "EFI_FILE_DIRECTORY = 0x0000000000000010"

record efi_file_info =
  fi_attribute :: u64
  fi_file_name :: "char16_t list"

text \<open>\<open>eb_loaded_image\<close>: no protocol, no device, or the device of the boot image.\<close>

record 'f efi =
  eb_handle_protocol :: bool
  eb_locate_handle :: "efi_handle list option option"
  eb_loaded_image :: "efi_handle option option"
  eb_simple_file_system :: "efi_handle \<Rightarrow> bool"
  eb_open_volume :: "efi_handle \<Rightarrow> 'f \<Rightarrow> efi_handle option \<times> 'f"
  fp_open :: "(efi_handle \<Rightarrow> char16_t list \<Rightarrow> u64 \<Rightarrow> u64 \<Rightarrow> 'f \<Rightarrow> efi_handle option \<times> 'f) option"
  fp_close :: "(efi_handle \<Rightarrow> 'f \<Rightarrow> 'f) option"
  fp_delete_file :: "(efi_handle \<Rightarrow> 'f \<Rightarrow> 'f) option"
  fp_read :: "(efi_handle \<Rightarrow> nat \<Rightarrow> 'f \<Rightarrow> string option \<times> 'f) option"
  fp_read_info :: "(efi_handle \<Rightarrow> 'f \<Rightarrow> efi_file_info option option \<times> 'f) option"
  fp_write :: "(efi_handle \<Rightarrow> string \<Rightarrow> 'f \<Rightarrow> bool \<times> 'f) option"

record 'f uefi_fs =
  uf_storage :: storage_state
  uf_image_handle :: bool
  uf_system_table :: bool
  uf_fs_handle :: "efi_handle option"
  uf_trace :: "efi_event list"
  uf_said :: "string list"
  uf_fw :: 'f

definition uf_set_error :: "string \<Rightarrow> 'f uefi_fs \<Rightarrow> 'f uefi_fs" where
  "uf_set_error txt s = s\<lparr>uf_storage := (uf_storage s)\<lparr>st_last_error := copy_text 128 txt\<rparr>\<rparr>"

definition uf_say :: "string \<Rightarrow> 'f uefi_fs \<Rightarrow> 'f uefi_fs" where
  "uf_say txt s = s\<lparr>uf_said := uf_said s @ [txt]\<rparr>"

section \<open>The firmware's calls\<close>

definition called :: "efi_event list \<Rightarrow> 'f \<Rightarrow> 'f uefi_fs \<Rightarrow> 'f uefi_fs" where
  "called ev fw s = s\<lparr>uf_fw := fw, uf_trace := uf_trace s @ ev\<rparr>"

definition file_open ::
  "'f efi \<Rightarrow> efi_handle \<Rightarrow> char16_t list \<Rightarrow> u64 \<Rightarrow> u64 \<Rightarrow> 'f uefi_fs \<Rightarrow> efi_handle option \<times> 'f uefi_fs" where
  "file_open e root path mode attrs s =
     (case fp_open e of None \<Rightarrow> (None, s)
      | Some op \<Rightarrow>
          let (f, fw) = op root path mode attrs (uf_fw s)
          in (f, called (case f of None \<Rightarrow> [] | Some h \<Rightarrow> [OPENED h path]) fw s))"

definition file_close :: "'f efi \<Rightarrow> efi_handle \<Rightarrow> 'f uefi_fs \<Rightarrow> 'f uefi_fs" where
  "file_close e f s = (case fp_close e of None \<Rightarrow> s | Some op \<Rightarrow> called [CLOSED f] (op f (uf_fw s)) s)"

text \<open>Deleting a file closes its handle.\<close>

definition file_delete :: "'f efi \<Rightarrow> efi_handle \<Rightarrow> 'f uefi_fs \<Rightarrow> 'f uefi_fs" where
  "file_delete e f s =
     (case fp_delete_file e of None \<Rightarrow> file_close e f s
      | Some op \<Rightarrow> called [DELETED f, CLOSED f] (op f (uf_fw s)) s)"

definition file_read :: "'f efi \<Rightarrow> efi_handle \<Rightarrow> nat \<Rightarrow> 'f uefi_fs \<Rightarrow> string option \<times> 'f uefi_fs" where
  "file_read e f n s =
     (case fp_read e of None \<Rightarrow> (None, s)
      | Some op \<Rightarrow>
          (case op f n (uf_fw s) of
             (None, fw) \<Rightarrow> (None, called [] fw s)
           | (Some bytes, fw) \<Rightarrow> (Some (take n bytes), called [READ_BYTES f (take n bytes)] fw s)))"

definition file_write :: "'f efi \<Rightarrow> efi_handle \<Rightarrow> string \<Rightarrow> 'f uefi_fs \<Rightarrow> bool \<times> 'f uefi_fs" where
  "file_write e f txt s =
     (case fp_write e of None \<Rightarrow> (False, s)
      | Some op \<Rightarrow>
          let (ok, fw) = op f txt (uf_fw s) in (ok, called (if ok then [WROTE f txt] else []) fw s))"

section \<open>Paths and volumes\<close>

fun path16_loop :: "nat \<Rightarrow> nat \<Rightarrow> string \<Rightarrow> char16_t list" where
  "path16_loop cap j [] = []"
| "path16_loop cap j (c # cs) =
     (if j + 1 < cap then (if c = CHR ''/'' then char16 BSL else char16 c) # path16_loop cap (j + 1) cs else [])"

definition uefi_path_to_char16 :: "string \<Rightarrow> nat \<Rightarrow> char16_t list option" where
  "uefi_path_to_char16 path out_cap =
     (if \<not> path_allowed (Some path) \<or> out_cap = 0 then None
      else Some (char16 BSL # path16_loop out_cap 1 (if path \<noteq> [] \<and> hd path = CHR ''/'' then tl path else path)))"

definition uefi_open_root :: "'f efi \<Rightarrow> 'f uefi_fs \<Rightarrow> efi_handle option \<times> 'f uefi_fs" where
  "uefi_open_root e s =
     (if st_handoff (uf_storage s) = None \<or> \<not> uf_image_handle s \<or> \<not> uf_system_table s
      then (None, uf_set_error ''missing UEFI handoff'' s)
      else if \<not> eb_handle_protocol e then (None, uf_set_error ''missing UEFI boot services'' s)
      else
        let volume = (case uf_fs_handle s of Some h \<Rightarrow> Inr h
              | None \<Rightarrow> (case eb_loaded_image e of
                    None \<Rightarrow> Inl ''LoadedImage protocol unavailable''
                  | Some None \<Rightarrow> Inl ''LoadedImage device unavailable''
                  | Some (Some h) \<Rightarrow> Inr h))
        in case volume of
             Inl why \<Rightarrow> (None, uf_set_error why s)
           | Inr h \<Rightarrow>
               if \<not> eb_simple_file_system e h then (None, uf_set_error ''SimpleFileSystem protocol unavailable'' s)
               else case eb_open_volume e h (uf_fw s) of
                    (None, fw) \<Rightarrow> (None, uf_set_error ''open_volume failed'' (called [] fw s))
                  | (Some root, fw) \<Rightarrow> (Some root, called [VOLUME_OPENED h root] fw s))"

definition uefi_open_path ::
  "'f efi \<Rightarrow> efi_handle \<Rightarrow> string \<Rightarrow> u64 \<Rightarrow> u64 \<Rightarrow> 'f uefi_fs \<Rightarrow> efi_handle option \<times> 'f uefi_fs" where
  "uefi_open_path e root path mode attrs s =
     (case uefi_path_to_char16 path VITA_STORAGE_PATH_MAX of
        None \<Rightarrow> (None, uf_set_error ''invalid UEFI storage path'' s)
      | Some path16 \<Rightarrow> file_open e root path16 mode attrs s)"

definition uefi_path_exists :: "'f efi \<Rightarrow> string \<Rightarrow> 'f uefi_fs \<Rightarrow> bool \<times> 'f uefi_fs" where
  "uefi_path_exists e path s =
     (case uefi_open_root e s of
        (None, s1) \<Rightarrow> (False, s1)
      | (Some root, s1) \<Rightarrow>
          (case uefi_open_path e root path EFI_FILE_MODE_READ 0 s1 of
             (None, s2) \<Rightarrow> (False, file_close e root s2)
           | (Some f, s2) \<Rightarrow> (True, file_close e root (file_close e f s2))))"

definition uefi_create_directory :: "'f efi \<Rightarrow> string \<Rightarrow> 'f uefi_fs \<Rightarrow> bool \<times> 'f uefi_fs" where
  "uefi_create_directory e path s =
     (case uefi_open_root e s of
        (None, s1) \<Rightarrow> (False, s1)
      | (Some root, s1) \<Rightarrow>
          (case uefi_open_path e root path (EFI_FILE_MODE_READ OR EFI_FILE_MODE_WRITE OR EFI_FILE_MODE_CREATE)
                  EFI_FILE_DIRECTORY s1 of
             (None, s2) \<Rightarrow> (False, uf_set_error ''UEFI directory create failed'' (file_close e root s2))
           | (Some dir, s2) \<Rightarrow> (True, uf_set_error ''ok'' (file_close e root (file_close e dir s2)))))"

definition uefi_ensure_directory :: "'f efi \<Rightarrow> string \<Rightarrow> 'f uefi_fs \<Rightarrow> bool \<times> 'f uefi_fs" where
  "uefi_ensure_directory e path s =
     (let (exists, s1) = uefi_path_exists e path s
      in if exists then (True, uf_set_error ''ok'' s1) else uefi_create_directory e path s1)"

text \<open>The directories in front of a file: \<open>dir\<close> is cut at each of its slashes in turn, the last one twice.\<close>

definition last_slash :: "string \<Rightarrow> nat" where
  "last_slash dir = fold (\<lambda>i last. if dir ! i = CHR ''/'' then i else last) [0..<length dir] 0"

fun ensure_dirs :: "'f efi \<Rightarrow> string list \<Rightarrow> 'f uefi_fs \<Rightarrow> bool \<times> 'f uefi_fs" where
  "ensure_dirs e [] s = (True, s)"
| "ensure_dirs e (d # ds) s =
     (let (ok, s1) = uefi_ensure_directory e d s in if \<not> ok then (False, s1) else ensure_dirs e ds s1)"

definition uefi_ensure_parent_dirs :: "'f efi \<Rightarrow> string \<Rightarrow> 'f uefi_fs \<Rightarrow> bool \<times> 'f uefi_fs" where
  "uefi_ensure_parent_dirs e file_path s =
     (if \<not> pre file_path ''/vita/'' then (False, s)
      else
        let dir = copy_text VITA_STORAGE_PATH_MAX file_path;
            last = last_slash dir
        in if last = 0 then (True, s)
           else
             let (ok, s1) = ensure_dirs e (map (\<lambda>i. take i dir) (filter (\<lambda>i. dir ! i = CHR ''/'') [1..<length dir])) s
             in if \<not> ok then (False, s1)
                else if take last dir \<noteq> [] then uefi_ensure_directory e (take last dir) s1 else (True, s1))"

section \<open>Text files\<close>

definition uefi_delete_if_exists :: "'f efi \<Rightarrow> efi_handle \<Rightarrow> char16_t list \<Rightarrow> 'f uefi_fs \<Rightarrow> 'f uefi_fs" where
  "uefi_delete_if_exists e root path16 s =
     (case file_open e root path16 (EFI_FILE_MODE_READ OR EFI_FILE_MODE_WRITE) 0 s of
        (None, s1) \<Rightarrow> s1
      | (Some f, s1) \<Rightarrow> file_delete e f s1)"

definition uefi_write_text :: "'f efi \<Rightarrow> string \<Rightarrow> string \<Rightarrow> 'f uefi_fs \<Rightarrow> bool \<times> 'f uefi_fs" where
  "uefi_write_text e path txt s =
     (case uefi_path_to_char16 path VITA_STORAGE_PATH_MAX of
        None \<Rightarrow> (False, uf_set_error ''invalid UEFI storage path'' s)
      | Some path16 \<Rightarrow>
          (case uefi_open_root e s of
             (None, s1) \<Rightarrow> (False, s1)
           | (Some root, s1) \<Rightarrow>
               let (dirs, s2) = uefi_ensure_parent_dirs e path s1 in
               if \<not> dirs then (False, uf_set_error ''UEFI ensure parent dirs failed'' (file_close e root s2))
               else
                 (case file_open e root path16 (EFI_FILE_MODE_READ OR EFI_FILE_MODE_WRITE OR EFI_FILE_MODE_CREATE) 0
                         (uefi_delete_if_exists e root path16 s2) of
                    (None, s3) \<Rightarrow>
                      (False, file_close e root (uf_set_error ''UEFI file open/create failed; parent directory may be missing'' s3))
                  | (Some f, s3) \<Rightarrow>
                      let (ok, s4) = file_write e f txt s3;
                          s5 = uf_set_error (if ok then ''ok'' else ''UEFI file write failed'') s4
                      in (ok, file_close e root (file_close e f s5)))))"

definition uefi_read_text :: "'f efi \<Rightarrow> string \<Rightarrow> nat \<Rightarrow> 'f uefi_fs \<Rightarrow> (bool \<times> string) \<times> 'f uefi_fs" where
  "uefi_read_text e path out_cap s =
     (if out_cap = 0 then ((False, []), uf_set_error ''invalid read buffer'' s)
      else case uefi_path_to_char16 path VITA_STORAGE_PATH_MAX of
        None \<Rightarrow> ((False, []), uf_set_error ''invalid UEFI storage path'' s)
      | Some path16 \<Rightarrow>
          (case uefi_open_root e s of
             (None, s1) \<Rightarrow> ((False, []), s1)
           | (Some root, s1) \<Rightarrow>
               (case file_open e root path16 EFI_FILE_MODE_READ 0 s1 of
                  (None, s2) \<Rightarrow> ((False, []), file_close e root (uf_set_error ''UEFI file open read failed'' s2))
                | (Some f, s2) \<Rightarrow>
                    (case file_read e f (out_cap - 1) s2 of
                       (None, s3) \<Rightarrow>
                         ((False, []), file_close e root (file_close e f (uf_set_error ''UEFI file read failed'' s3)))
                     | (Some bytes, s3) \<Rightarrow>
                         ((True, c_string bytes), file_close e root (file_close e f (uf_set_error ''ok'' s3)))))))"

definition uefi_open_path_read :: "'f efi \<Rightarrow> string \<Rightarrow> 'f uefi_fs \<Rightarrow> efi_handle option \<times> 'f uefi_fs" where
  "uefi_open_path_read e path s =
     (case uefi_path_to_char16 path VITA_STORAGE_PATH_MAX of
        None \<Rightarrow> (None, uf_set_error ''invalid UEFI storage path'' s)
      | Some path16 \<Rightarrow>
          (case uefi_open_root e s of
             (None, s1) \<Rightarrow> (None, s1)
           | (Some root, s1) \<Rightarrow>
               (case file_open e root path16 EFI_FILE_MODE_READ 0 s1 of
                  (None, s2) \<Rightarrow> (None, file_close e root (uf_set_error ''UEFI directory open failed'' s2))
                | (Some f, s2) \<Rightarrow> (Some f, file_close e root s2))))"

fun char16_to_ascii_loop :: "nat \<Rightarrow> nat \<Rightarrow> char16_t list \<Rightarrow> string" where
  "char16_to_ascii_loop cap i [] = []"
| "char16_to_ascii_loop cap i (ch # cs) =
     (if ch \<noteq> 0 \<and> i + 1 < cap
      then (if ch < 128 then char_of (unat ch) else CHR ''?'') # char16_to_ascii_loop cap (i + 1) cs else [])"

definition char16_to_ascii :: "char16_t list \<Rightarrow> nat \<Rightarrow> string" where
  "char16_to_ascii src dst_cap = (if dst_cap = 0 then [] else char16_to_ascii_loop dst_cap 0 src)"

text \<open>One entry of the directory: its name, unless it is skipped.\<close>

definition note_entry :: "efi_file_info \<Rightarrow> string option" where
  "note_entry info =
     (let name = char16_to_ascii (fi_file_name info) 96 in
      if name = [] \<or> eqs name ''.'' \<or> eqs name ''..'' then None
      else if fi_attribute info AND EFI_FILE_DIRECTORY \<noteq> 0 then None
      else Some name)"

text \<open>
  The loop over the entries ends at the firmware's empty answer, so it carries fuel; \<open>None\<close> is a loop that still
  reads. The number is the count of lines shown.
\<close>

fun uefi_notes_loop :: "nat \<Rightarrow> 'f efi \<Rightarrow> efi_handle \<Rightarrow> nat \<Rightarrow> 'f uefi_fs \<Rightarrow> (bool \<times> nat \<times> 'f uefi_fs) option" where
  "uefi_notes_loop 0 e dir count s = None"
| "uefi_notes_loop (Suc fuel) e dir count s =
     (case fp_read_info e of
        None \<Rightarrow> Some (False, count, file_close e dir (uf_set_error ''UEFI directory read failed'' s))
      | Some op \<Rightarrow>
          (case op dir (uf_fw s) of
             (None, fw) \<Rightarrow>
               Some (False, count, file_close e dir (uf_set_error ''UEFI directory read failed'' (called [] fw s)))
           | (Some None, fw) \<Rightarrow> Some (True, count, called [] fw s)
           | (Some (Some info), fw) \<Rightarrow>
               (case note_entry info of
                  None \<Rightarrow> uefi_notes_loop fuel e dir count (called [] fw s)
                | Some name \<Rightarrow> uefi_notes_loop fuel e dir (count + 1) (uf_say name (called [] fw s)))))"

definition uefi_list_notes :: "nat \<Rightarrow> 'f efi \<Rightarrow> 'f uefi_fs \<Rightarrow> (bool \<times> 'f uefi_fs) option" where
  "uefi_list_notes fuel e s =
     (case uefi_open_path_read e ''/vita/notes'' s of
        (None, s1) \<Rightarrow>
          Some (False, uf_say (if st_last_error (uf_storage s1) \<noteq> [] then st_last_error (uf_storage s1) else ''unknown'')
                         (uf_say ''notes: /vita/notes unavailable'' s1))
      | (Some dir, s1) \<Rightarrow>
          (case uefi_notes_loop fuel e dir 0 (uf_say ''Notes / Notas:'' s1) of
             None \<Rightarrow> None
           | Some (False, count, s2) \<Rightarrow> Some (False, s2)
           | Some (True, count, s2) \<Rightarrow>
               let s3 = file_close e dir s2;
                   s4 = (if count = 0 then uf_say ''(empty / vacio)'' s3 else s3)
               in Some (True, uf_set_error ''ok'' s4)))"

section \<open>The facade in the UEFI build\<close>

definition uefi_storage_init :: "vita_handoff option \<Rightarrow> bool \<Rightarrow> bool \<Rightarrow> 'f uefi_fs \<Rightarrow> bool \<times> 'f uefi_fs" where
  "uefi_storage_init handoff image_handle system_table s =
     (let s0 = s\<lparr>uf_storage := zero_storage\<lparr>st_handoff := handoff\<rparr>, uf_fs_handle := None,
                 uf_image_handle := image_handle, uf_system_table := system_table\<rparr>
      in if handoff = None \<or> ho_firmware_type (the handoff) \<noteq> VITA_FIRMWARE_UEFI \<or> \<not> image_handle \<or> \<not> system_table
         then (False, uf_set_error ''UEFI storage handoff unavailable''
                (s0\<lparr>uf_storage := (uf_storage s0)\<lparr>st_backend := BACKEND_NONE, st_backend_name := ''none'', st_root_hint := ''/vita''\<rparr>\<rparr>))
         else (True, uf_set_error ''ok''
                (s0\<lparr>uf_storage := (uf_storage s0)\<lparr>st_initialized := True, st_writable := True,
                   st_backend := BACKEND_UEFI_SIMPLE_FS, st_backend_name := ''uefi_simple_fs'', st_root_hint := ''/vita''\<rparr>\<rparr>)))"

definition uefi_storage_write_text :: "'f efi \<Rightarrow> string \<Rightarrow> cstr \<Rightarrow> 'f uefi_fs \<Rightarrow> bool \<times> 'f uefi_fs" where
  "uefi_storage_write_text e path txt s =
     (if \<not> st_initialized (uf_storage s) \<or> \<not> st_writable (uf_storage s)
      then (False, uf_set_error ''storage not initialized or not writable'' s)
      else if \<not> path_allowed (Some path) then (False, uf_set_error PATH_ERROR s)
      else uefi_write_text e path (case txt of None \<Rightarrow> [] | Some t \<Rightarrow> t) s)"

definition uefi_storage_read_text :: "'f efi \<Rightarrow> string \<Rightarrow> nat \<Rightarrow> 'f uefi_fs \<Rightarrow> (bool \<times> string) \<times> 'f uefi_fs" where
  "uefi_storage_read_text e path out_cap s =
     (if \<not> st_initialized (uf_storage s) then ((False, []), uf_set_error ''storage not initialized'' s)
      else if out_cap = 0 then ((False, []), uf_set_error ''invalid read buffer'' s)
      else if \<not> path_allowed (Some path) then ((False, []), uf_set_error PATH_ERROR s)
      else uefi_read_text e path out_cap s)"

definition uefi_storage_list_notes :: "nat \<Rightarrow> 'f efi \<Rightarrow> 'f uefi_fs \<Rightarrow> (bool \<times> 'f uefi_fs) option" where
  "uefi_storage_list_notes fuel e s =
     (if \<not> st_initialized (uf_storage s)
      then Some (False, uf_say ''notes: storage not initialized'' (uf_set_error ''storage not initialized'' s))
      else uefi_list_notes fuel e s)"

definition uefi_storage_tree_repair :: "'f efi \<Rightarrow> 'f uefi_fs \<Rightarrow> bool \<times> 'f uefi_fs" where
  "uefi_storage_tree_repair e s = ensure_dirs e g_storage_expected_dirs s"

fun uefi_check_loop :: "'f efi \<Rightarrow> string list \<Rightarrow> 'f uefi_fs \<Rightarrow> bool \<times> 'f uefi_fs" where
  "uefi_check_loop e [] s = (True, uf_set_error ''ok'' s)"
| "uefi_check_loop e (d # ds) s =
     (let (exists, s1) = uefi_path_exists e d s
      in if \<not> exists then (False, uf_say d (uf_say ''missing:'' (uf_set_error ''storage tree missing expected directory'' s1)))
         else uefi_check_loop e ds s1)"

definition uefi_storage_tree_check :: "'f efi \<Rightarrow> 'f uefi_fs \<Rightarrow> bool \<times> 'f uefi_fs" where
  "uefi_storage_tree_check e s = uefi_check_loop e g_storage_expected_dirs s"

definition FS_PROBE_PATH :: string where "FS_PROBE_PATH = ''/vita/tmp/boot-storage-fs-probe.txt''"
definition FS_PROBE_TEXT :: string where "FS_PROBE_TEXT = ''vita_storage_uefi_fs_probe_v1'' @ [LF]"

text \<open>Written and read back, the text is the same.\<close>

definition marker_holds :: "'f efi \<Rightarrow> string \<Rightarrow> string \<Rightarrow> 'f uefi_fs \<Rightarrow> bool \<times> 'f uefi_fs" where
  "marker_holds e path txt s =
     (let (wrote, s1) = uefi_storage_write_text e path (Some txt) s in
      if \<not> wrote then (False, s1)
      else let ((got, readback), s2) = uefi_storage_read_text e path VITA_STORAGE_READ_MAX s1
           in if \<not> got then (False, s2) else (eqs readback txt, s2))"

fun select_loop :: "'f efi \<Rightarrow> efi_handle list \<Rightarrow> 'f uefi_fs \<Rightarrow> bool \<times> 'f uefi_fs" where
  "select_loop e [] s = (False, uf_set_error ''UEFI no writable SimpleFileSystem candidate'' (s\<lparr>uf_fs_handle := None\<rparr>))"
| "select_loop e (h # hs) s =
     (let (repaired, s1) = uefi_storage_tree_repair e (s\<lparr>uf_fs_handle := Some h\<rparr>) in
      if \<not> repaired then select_loop e hs s1
      else let (holds, s2) = marker_holds e FS_PROBE_PATH FS_PROBE_TEXT s1
           in if \<not> holds then select_loop e hs s2 else (True, uf_set_error ''ok'' s2))"

text \<open>The array has room for 64 handles; the firmware refuses a longer list.\<close>

definition uefi_try_select_writable_fs :: "'f efi \<Rightarrow> 'f uefi_fs \<Rightarrow> bool \<times> 'f uefi_fs" where
  "uefi_try_select_writable_fs e s =
     (if st_handoff (uf_storage s) = None \<or> \<not> uf_system_table s then (False, uf_set_error ''missing UEFI handoff'' s)
      else if eb_locate_handle e = None \<or> \<not> eb_handle_protocol e then (False, uf_set_error ''missing UEFI boot services'' s)
      else case the (eb_locate_handle e) of
          None \<Rightarrow> (False, uf_set_error ''UEFI locate_handle(SimpleFileSystem) failed'' s)
        | Some handles \<Rightarrow>
            if length handles > 64 then (False, uf_set_error ''UEFI locate_handle(SimpleFileSystem) failed'' s)
            else select_loop e handles s)"

definition uf_verified :: "bool \<Rightarrow> bool \<Rightarrow> 'f uefi_fs \<Rightarrow> 'f uefi_fs" where
  "uf_verified attempted verified s =
     s\<lparr>uf_storage := (uf_storage s)\<lparr>st_bootstrap_attempted := attempted, st_bootstrap_verified := verified\<rparr>\<rparr>"

definition uefi_storage_bootstrap :: "'f efi \<Rightarrow> 'f uefi_fs \<Rightarrow> bool \<times> 'f uefi_fs" where
  "uefi_storage_bootstrap e s =
     (let s0 = uf_verified True False s in
      if \<not> st_initialized (uf_storage s0) \<or> \<not> st_writable (uf_storage s0)
      then (False, uf_set_error ''bootstrap failed: storage unavailable'' s0)
      else
        let (selected, s1) = uefi_try_select_writable_fs e s0 in
        if \<not> selected then (False, uf_set_error ''bootstrap failed: no writable UEFI FAT filesystem'' s1)
        else
          let (repaired, s2) = uefi_storage_tree_repair e s1 in
          if \<not> repaired then (False, uf_set_error ''bootstrap failed: storage_tree_repair'' s2)
          else
            let (checked, s3) = uefi_storage_tree_check e s2 in
            if \<not> checked then (False, uf_set_error ''bootstrap failed: storage_tree_check'' s3)
            else
              let (wrote, s4) = uefi_storage_write_text e VERIFY_PATH (Some VERIFY_TEXT) s3 in
              if \<not> wrote then (False, uf_set_error ''bootstrap failed: verify marker write'' s4)
              else
                let ((got, readback), s5) = uefi_storage_read_text e VERIFY_PATH VITA_STORAGE_READ_MAX s4 in
                if \<not> got then (False, uf_set_error ''bootstrap failed: verify marker read'' s5)
                else if \<not> eqs readback VERIFY_TEXT then (False, uf_set_error ''bootstrap failed: verify marker compare'' s5)
                else (True, uf_set_error ''ok'' (uf_verified True True s5)))"

section \<open>Handles and paths\<close>

fun event_balance :: "efi_handle \<Rightarrow> efi_event \<Rightarrow> int" where
  "event_balance h (VOLUME_OPENED v root) = (if root = h then 1 else 0)"
| "event_balance h (OPENED f p) = (if f = h then 1 else 0)"
| "event_balance h (CLOSED f) = (if f = h then - 1 else 0)"
| "event_balance h _ = 0"

text \<open>How often a handle was opened more than closed.\<close>

definition held :: "efi_handle \<Rightarrow> efi_event list \<Rightarrow> int" where
  "held h tr = sum_list (map (event_balance h) tr)"

definition vita16 :: "char16_t list" where
  "vita16 = map char16 (BSL # ''vita'')"

text \<open>A path the firmware is asked for: the tree or below it, with no drive and no two dots in a row.\<close>

definition below_vita :: "char16_t list \<Rightarrow> bool" where
  "below_vita p \<longleftrightarrow> (p = vita16 \<or> prefix (vita16 @ [char16 BSL]) p) \<and> char16 CHR '':'' \<notin> set p \<and>
     \<not> sublist [char16 CHR ''.'', char16 CHR ''.''] p"

fun confined :: "efi_event \<Rightarrow> bool" where
  "confined (OPENED f p) = below_vita p"
| "confined _ = True"

definition traced :: "efi_handle list \<Rightarrow> 'f uefi_fs \<Rightarrow> 'f uefi_fs \<Rightarrow> bool" where
  "traced hs s t \<longleftrightarrow> (\<exists>seg. uf_trace t = uf_trace s @ seg \<and> (\<forall>h. held h seg = int (count_list hs h)) \<and> list_all confined seg)"

definition steady :: "'f uefi_fs \<Rightarrow> 'f uefi_fs \<Rightarrow> bool" where
  "steady s t \<longleftrightarrow> uf_fs_handle t = uf_fs_handle s \<and> uf_image_handle t = uf_image_handle s \<and> uf_system_table t = uf_system_table s \<and>
     (uf_storage t)\<lparr>st_last_error := []\<rparr> = (uf_storage s)\<lparr>st_last_error := []\<rparr>"

definition fs_run :: "efi_handle list \<Rightarrow> 'f uefi_fs \<Rightarrow> 'f uefi_fs \<Rightarrow> bool" where
  "fs_run hs s t \<longleftrightarrow> traced hs s t \<and> steady s t"

primrec and_held :: "efi_handle option \<Rightarrow> efi_handle list \<Rightarrow> efi_handle list" where
  "and_held None hs = hs"
| "and_held (Some f) hs = f # hs"

lemma held_append [simp]: "held h (a @ b) = held h a + held h b"
  by (simp add: held_def)

lemma fs_run_refl: "fs_run [] s s"
  by (simp add: fs_run_def traced_def steady_def held_def)

lemma fs_run_swap: "fs_run (a # b # hs) s t \<Longrightarrow> fs_run (b # a # hs) s t"
proof -
  have "count_list (a # b # hs) = count_list (b # a # hs)" by (simp add: fun_eq_iff)
  then show "fs_run (a # b # hs) s t \<Longrightarrow> fs_run (b # a # hs) s t" by (simp only: fs_run_def traced_def)
qed

lemma fs_run_called:
  assumes "fs_run hs s t" "list_all confined ev" "\<And>h. int (count_list hs h) + held h ev = int (count_list hs' h)"
  shows "fs_run hs' s (called ev fw t)"
proof -
  obtain seg where seg: "uf_trace t = uf_trace s @ seg" "\<And>h. held h seg = int (count_list hs h)" "list_all confined seg"
    using assms(1) by (auto simp: fs_run_def traced_def)
  have "uf_trace (called ev fw t) = uf_trace s @ seg @ ev \<and> (\<forall>h. held h (seg @ ev) = int (count_list hs' h)) \<and>
      list_all confined (seg @ ev)"
    using seg assms(2) assms(3) by (simp add: called_def)
  moreover have "steady s (called ev fw t)" using assms(1) by (simp add: fs_run_def steady_def called_def)
  ultimately show ?thesis unfolding fs_run_def traced_def by blast
qed

named_theorems fs_runs \<open>the operations of the UEFI backend as balanced sequences of calls\<close>

lemma fs_run_error [fs_runs]: "fs_run hs s t \<Longrightarrow> fs_run hs s (uf_set_error x t)"
  by (simp add: fs_run_def traced_def steady_def uf_set_error_def)

lemma fs_run_say [fs_runs]: "fs_run hs s t \<Longrightarrow> fs_run hs s (uf_say x t)"
  by (simp add: fs_run_def traced_def steady_def uf_say_def)

lemma fs_run_silent [fs_runs]: "fs_run hs s t \<Longrightarrow> fs_run hs s (called [] fw t)"
  by (rule fs_run_called) (simp_all add: held_def)

lemma fs_run_close:
  assumes "fp_close e \<noteq> None" "fs_run (f # hs) s t"
  shows "fs_run hs s (file_close e f t)"
  using assms(1) fs_run_called [OF assms(2), of "[CLOSED f]" hs] by (auto simp: file_close_def held_def)

lemma fs_run_delete:
  assumes "fp_close e \<noteq> None" "fs_run (f # hs) s t"
  shows "fs_run hs s (file_delete e f t)"
  using fs_run_close [OF assms] fs_run_called [OF assms(2), of "[DELETED f, CLOSED f]" hs]
  by (auto simp: file_delete_def held_def split: option.split)

lemma fs_run_open:
  assumes "fs_run hs s t" "below_vita p" "file_open e root p m a t = (r, t')"
  shows "fs_run (and_held r hs) s t'"
proof (cases "fp_open e")
  case None
  then show ?thesis using assms by (auto simp: file_open_def)
next
  case (Some op)
  obtain q fw where q: "op root p m a (uf_fw t) = (q, fw)" by fastforce
  then have r: "r = q" "t' = called (case q of None \<Rightarrow> [] | Some h \<Rightarrow> [OPENED h p]) fw t"
    using assms(3) Some by (auto simp: file_open_def)
  show ?thesis
    unfolding r by (rule fs_run_called [OF assms(1)]) (use assms(2) in \<open>auto simp: held_def split: option.split\<close>)
qed

lemma fs_run_read: "fs_run hs s t \<Longrightarrow> file_read e f n t = (r, t') \<Longrightarrow> fs_run hs s t'"
  by (auto simp: file_read_def split: option.splits prod.splits intro!: fs_run_called [of hs s t] simp: held_def)

lemma fs_run_write: "fs_run hs s t \<Longrightarrow> file_write e f x t = (r, t') \<Longrightarrow> fs_run hs s t'"
  by (auto simp: file_write_def Let_def split: option.splits prod.splits intro!: fs_run_called [of hs s t] simp: held_def)

section \<open>Paths\<close>

definition slash16 :: "char \<Rightarrow> char16_t" where
  "slash16 c = (if c = CHR ''/'' then char16 BSL else char16 c)"

lemma path16_loop_take: "path16_loop cap j s = map slash16 (take (cap - 1 - j) s)"
proof (induction s arbitrary: j)
  case Nil
  show ?case by simp
next
  case (Cons c s)
  show ?case
  proof (cases "j + 1 < cap")
    case True
    then have "cap - 1 - j = Suc (cap - 1 - (j + 1))" by simp
    then show ?thesis using True Cons.IH [of "j + 1"] by (simp add: slash16_def)
  next
    case False
    then show ?thesis by simp
  qed
qed

lemma slash16_plain: "c \<noteq> CHR ''/'' \<Longrightarrow> c \<noteq> BSL \<Longrightarrow> slash16 d = char16 c \<longleftrightarrow> d = c"
  by (auto simp: slash16_def char16_inj)

lemma allowed_chars: "path_chars_allowed p \<Longrightarrow> CHR '':'' \<notin> set p \<and> \<not> sublist ''..'' p"
  by (induction p rule: path_chars_allowed.induct) (auto simp: sublist_Cons_right prefix_def split: if_splits)

lemma path16_below:
  assumes "uefi_path_to_char16 path VITA_STORAGE_PATH_MAX = Some p"
  shows "below_vita p"
proof -
  have a: "path_allowed (Some path)" using assms by (auto simp: uefi_path_to_char16_def split: if_splits)
  then obtain r where path: "path = ''/vita'' @ r" "r = [] \<or> prefix ''/'' r"
    by (auto simp: path_allowed_def starts_with_Some prefix_def split: if_splits)
  have ok: "CHR '':'' \<notin> set path" "\<not> sublist ''..'' path"
    using a allowed_chars by (auto simp: path_allowed_def split: if_splits)
  have p: "p = vita16 @ map slash16 (take 186 r)"
    using assms a by (simp add: uefi_path_to_char16_def path(1) path16_loop_take VITA_STORAGE_PATH_MAX_def vita16_def slash16_def)
  have eq: "p = map slash16 (take 191 path)" by (simp add: p path(1) vita16_def slash16_def)
  have "char16 CHR '':'' \<notin> set p"
  proof
    assume "char16 CHR '':'' \<in> set p"
    then obtain d where d: "d \<in> set (take 191 path)" "slash16 d = char16 CHR '':''" unfolding eq set_map by (metis imageE)
    then have "d = CHR '':''" using slash16_plain [of "CHR '':''" d] by simp
    then show False using d(1) ok(1) by (blast dest: in_set_takeD)
  qed
  moreover have "\<not> sublist [char16 CHR ''.'', char16 CHR ''.''] p"
  proof
    assume "sublist [char16 CHR ''.'', char16 CHR ''.''] p"
    then obtain u v where "map slash16 (take 191 path) = u @ [char16 CHR ''.'', char16 CHR ''.''] @ v"
      by (auto simp: sublist_def eq)
    then obtain x y d1 d2 where "take 191 path = x @ [d1, d2] @ y" "slash16 d1 = char16 CHR ''.''" "slash16 d2 = char16 CHR ''.''"
      by (auto simp: map_eq_append_conv map_eq_Cons_conv)
    moreover from this have "d1 = CHR ''.''" "d2 = CHR ''.''" by (simp_all add: slash16_plain)
    ultimately have "sublist ''..'' (take 191 path)" by (auto simp: sublist_def)
    then show False using ok(2) by (blast intro: sublist_order.order.trans sublist_take)
  qed
  moreover have "p = vita16 \<or> prefix (vita16 @ [char16 BSL]) p"
    using path(2) by (auto simp: p prefix_def slash16_def)
  ultimately show ?thesis by (simp add: below_vita_def)
qed

section \<open>The operations are balanced\<close>

lemma run_open_root:
  assumes "fs_run hs s t" "uefi_open_root e t = (r, t')"
  shows "fs_run (and_held r hs) s t'"
proof -
  have "fs_run (r # hs) s (called [VOLUME_OPENED v r] fw t)" for v r fw
    by (rule fs_run_called [OF assms(1)]) (auto simp: held_def)
  then show ?thesis
    using assms unfolding uefi_open_root_def Let_def
    by (auto split: if_splits option.splits sum.splits prod.splits intro: fs_run_error fs_run_silent)
qed

lemma run_open_path:
  assumes "fs_run hs s t" "uefi_open_path e root path m a t = (r, t')"
  shows "fs_run (and_held r hs) s t'"
  using assms(2) fs_run_error [OF assms(1)] fs_run_open [OF assms(1) path16_below]
  by (auto simp: uefi_open_path_def split: option.splits)

lemma run_path_exists [fs_runs]:
  assumes closes: "fp_close e \<noteq> None" and "fs_run hs s t"
  shows "fs_run hs s (snd (uefi_path_exists e path t))"
proof -
  obtain r t1 where r: "uefi_open_root e t = (r, t1)" by fastforce
  note r1 = run_open_root [OF assms(2) r]
  show ?thesis
  proof (cases r)
    case None
    then show ?thesis using r r1 by (simp add: uefi_path_exists_def)
  next
    case (Some root)
    obtain q t2 where q: "uefi_open_path e root path EFI_FILE_MODE_READ 0 t1 = (q, t2)" by fastforce
    show ?thesis
      using run_open_path [OF r1 q] Some
      by (cases q) (simp_all add: uefi_path_exists_def r q fs_run_close [OF closes])
  qed
qed

lemma run_create_directory [fs_runs]:
  assumes closes: "fp_close e \<noteq> None" and "fs_run hs s t"
  shows "fs_run hs s (snd (uefi_create_directory e path t))"
proof -
  obtain r t1 where r: "uefi_open_root e t = (r, t1)" by fastforce
  note r1 = run_open_root [OF assms(2) r]
  show ?thesis
  proof (cases r)
    case None
    then show ?thesis using r r1 by (simp add: uefi_create_directory_def)
  next
    case (Some root)
    obtain q t2 where q: "uefi_open_path e root path (EFI_FILE_MODE_READ OR EFI_FILE_MODE_WRITE OR EFI_FILE_MODE_CREATE)
      EFI_FILE_DIRECTORY t1 = (q, t2)" by fastforce
    show ?thesis
      using run_open_path [OF r1 q] Some
      by (cases q) (simp_all add: uefi_create_directory_def r q fs_run_close [OF closes] fs_run_error)
  qed
qed

lemma run_ensure_directory [fs_runs]: "fp_close e \<noteq> None \<Longrightarrow> fs_run hs s t \<Longrightarrow> fs_run hs s (snd (uefi_ensure_directory e path t))"
  by (simp add: uefi_ensure_directory_def case_prod_beta Let_def fs_runs)

lemma run_ensure_dirs [fs_runs]: "fp_close e \<noteq> None \<Longrightarrow> fs_run hs s t \<Longrightarrow> fs_run hs s (snd (ensure_dirs e ds t))"
  by (induction ds arbitrary: t) (simp_all add: case_prod_beta Let_def fs_runs)

lemma run_parent_dirs [fs_runs]: "fp_close e \<noteq> None \<Longrightarrow> fs_run hs s t \<Longrightarrow> fs_run hs s (snd (uefi_ensure_parent_dirs e path t))"
  by (simp add: uefi_ensure_parent_dirs_def case_prod_beta Let_def fs_runs)

lemma run_delete_if_exists:
  assumes closes: "fp_close e \<noteq> None" and "fs_run hs s t" "below_vita p"
  shows "fs_run hs s (uefi_delete_if_exists e root p t)"
proof -
  obtain q t1 where q: "file_open e root p (EFI_FILE_MODE_READ OR EFI_FILE_MODE_WRITE) 0 t = (q, t1)" by fastforce
  show ?thesis
    using fs_run_open [OF assms(2,3) q] by (cases q) (simp_all add: uefi_delete_if_exists_def q fs_run_delete [OF closes])
qed

lemma run_write_text [fs_runs]:
  assumes closes: "fp_close e \<noteq> None" and "fs_run hs s t"
  shows "fs_run hs s (snd (uefi_write_text e path txt t))"
proof (cases "uefi_path_to_char16 path VITA_STORAGE_PATH_MAX")
  case None
  then show ?thesis using assms by (simp add: uefi_write_text_def fs_run_error)
next
  case path: (Some p)
  obtain r t1 where r: "uefi_open_root e t = (r, t1)" by fastforce
  note r1 = run_open_root [OF assms(2) r]
  show ?thesis
  proof (cases r)
    case None
    then show ?thesis using r r1 by (simp add: uefi_write_text_def path)
  next
    case (Some root)
    obtain dirs t2 where d: "uefi_ensure_parent_dirs e path t1 = (dirs, t2)" by fastforce
    have r2: "fs_run (root # hs) s t2" using run_parent_dirs [OF closes, of "root # hs" s t1 path] r1 d Some by simp
    let ?t3 = "uefi_delete_if_exists e root p t2"
    obtain q t4 where q: "file_open e root p (EFI_FILE_MODE_READ OR EFI_FILE_MODE_WRITE OR EFI_FILE_MODE_CREATE) 0 ?t3 = (q, t4)"
      by fastforce
    have r4: "fs_run (and_held q (root # hs)) s t4"
      by (rule fs_run_open [OF run_delete_if_exists [OF closes r2 path16_below [OF path]] path16_below [OF path] q])
    show ?thesis
    proof (cases q)
      case None
      then show ?thesis
        using r4 r2 by (simp add: uefi_write_text_def path r Some d q fs_run_close [OF closes] fs_run_error)
    next
      case f: (Some f)
      obtain ok t5 where w: "file_write e f txt t4 = (ok, t5)" by fastforce
      have "fs_run (f # root # hs) s t5" using fs_run_write [OF _ w] r4 f by simp
      then show ?thesis
        using r2 by (simp add: uefi_write_text_def path r Some d q f w Let_def fs_run_close [OF closes] fs_run_error)
    qed
  qed
qed

lemma run_read_text [fs_runs]:
  assumes closes: "fp_close e \<noteq> None" and "fs_run hs s t"
  shows "fs_run hs s (snd (uefi_read_text e path cap t))"
proof (cases "cap = 0 \<or> uefi_path_to_char16 path VITA_STORAGE_PATH_MAX = None")
  case True
  then show ?thesis using assms by (auto simp: uefi_read_text_def fs_run_error)
next
  case False
  then obtain p where path: "cap \<noteq> 0" "uefi_path_to_char16 path VITA_STORAGE_PATH_MAX = Some p" by auto
  obtain r t1 where r: "uefi_open_root e t = (r, t1)" by fastforce
  note r1 = run_open_root [OF assms(2) r]
  show ?thesis
  proof (cases r)
    case None
    then show ?thesis using r r1 path by (simp add: uefi_read_text_def)
  next
    case (Some root)
    obtain q t2 where q: "file_open e root p EFI_FILE_MODE_READ 0 t1 = (q, t2)" by fastforce
    have r2: "fs_run (and_held q (root # hs)) s t2"
      using fs_run_open [OF _ path16_below [OF path(2)] q] r1 Some by simp
    show ?thesis
    proof (cases q)
      case None
      then show ?thesis using r2 by (simp add: uefi_read_text_def path r Some q fs_run_close [OF closes] fs_run_error)
    next
      case f: (Some f)
      obtain b t3 where w: "file_read e f (cap - 1) t2 = (b, t3)" by fastforce
      have "fs_run (f # root # hs) s t3" using fs_run_read [OF _ w] r2 f by simp
      then show ?thesis
        by (cases b) (simp_all add: uefi_read_text_def path r Some q f w [simplified] fs_run_close [OF closes] fs_run_error)
    qed
  qed
qed

section \<open>The facade\<close>

lemma run_facade_write [fs_runs]:
  "fp_close e \<noteq> None \<Longrightarrow> fs_run hs s t \<Longrightarrow> fs_run hs s (snd (uefi_storage_write_text e path txt t))"
  by (simp add: uefi_storage_write_text_def fs_runs)

lemma run_facade_read [fs_runs]:
  "fp_close e \<noteq> None \<Longrightarrow> fs_run hs s t \<Longrightarrow> fs_run hs s (snd (uefi_storage_read_text e path cap t))"
  by (simp add: uefi_storage_read_text_def fs_runs)

lemma run_facade_repair [fs_runs]:
  "fp_close e \<noteq> None \<Longrightarrow> fs_run hs s t \<Longrightarrow> fs_run hs s (snd (uefi_storage_tree_repair e t))"
  by (simp add: uefi_storage_tree_repair_def fs_runs)

lemma run_check_loop: "fp_close e \<noteq> None \<Longrightarrow> fs_run hs s t \<Longrightarrow> fs_run hs s (snd (uefi_check_loop e ds t))"
  by (induction ds arbitrary: t) (simp_all add: case_prod_beta Let_def fs_runs)

lemma run_facade_check [fs_runs]:
  "fp_close e \<noteq> None \<Longrightarrow> fs_run hs s t \<Longrightarrow> fs_run hs s (snd (uefi_storage_tree_check e t))"
  by (simp add: uefi_storage_tree_check_def run_check_loop)

lemma run_marker [fs_runs]:
  "fp_close e \<noteq> None \<Longrightarrow> fs_run hs s t \<Longrightarrow> fs_run hs s (snd (marker_holds e path txt t))"
  by (simp add: marker_holds_def case_prod_beta Let_def fs_runs)

lemma run_open_path_read:
  assumes closes: "fp_close e \<noteq> None" and "fs_run hs s t" and "uefi_open_path_read e path t = (r, t')"
  shows "fs_run (and_held r hs) s t'"
proof (cases "uefi_path_to_char16 path VITA_STORAGE_PATH_MAX")
  case None
  then show ?thesis using assms by (auto simp: uefi_open_path_read_def fs_run_error)
next
  case path: (Some p)
  obtain q t1 where q: "uefi_open_root e t = (q, t1)" by fastforce
  note r1 = run_open_root [OF assms(2) q]
  show ?thesis
  proof (cases q)
    case None
    then show ?thesis using assms(3) q r1 by (simp add: uefi_open_path_read_def path)
  next
    case (Some root)
    obtain f t2 where f: "file_open e root p EFI_FILE_MODE_READ 0 t1 = (f, t2)" by fastforce
    have "fs_run (and_held f (root # hs)) s t2"
      using fs_run_open [OF _ path16_below [OF path] f] r1 Some by simp
    then show ?thesis
      using assms(3) q f Some
      by (cases f) (auto simp: uefi_open_path_read_def path intro: fs_run_close [OF closes] fs_run_close [OF closes fs_run_swap] fs_run_error)
  qed
qed

lemma run_notes_loop:
  assumes closes: "fp_close e \<noteq> None"
  shows "fs_run (dir # hs) s t \<Longrightarrow> uefi_notes_loop fuel e dir count t = Some (ok, n, t') \<Longrightarrow>
    fs_run (if ok then dir # hs else hs) s t'"
proof (induction fuel arbitrary: count t)
  case (Suc fuel)
  show ?case
  proof (cases "fp_read_info e")
    case None
    then show ?thesis using Suc.prems by (auto intro: fs_run_close [OF closes] fs_run_error)
  next
    case (Some op)
    obtain a fw where a: "op dir (uf_fw t) = (a, fw)" by fastforce
    note m = fs_run_silent [OF Suc.prems(1), of fw]
    show ?thesis
      using Suc.prems(2) m Suc.IH [OF m] Suc.IH [OF fs_run_say [OF m]]
      by (cases a; cases "the a"; cases "note_entry (the (the a))")
        (auto simp: Some a split: option.splits intro: fs_run_close [OF closes] fs_run_error)
  qed
qed simp

lemma run_list_notes:
  assumes closes: "fp_close e \<noteq> None" and "fs_run hs s t" and "uefi_storage_list_notes fuel e t = Some (ok, t')"
  shows "fs_run hs s t'"
proof (cases "st_initialized (uf_storage t)")
  case False
  then show ?thesis using assms by (auto simp: uefi_storage_list_notes_def fs_runs)
next
  case True
  obtain r t1 where r: "uefi_open_path_read e ''/vita/notes'' t = (r, t1)" by fastforce
  note r1 = run_open_path_read [OF closes assms(2) r]
  show ?thesis
  proof (cases r)
    case None
    then show ?thesis using assms(3) True r r1 by (auto simp: uefi_storage_list_notes_def uefi_list_notes_def fs_runs)
  next
    case (Some dir)
    then obtain b n t2 where l: "uefi_notes_loop fuel e dir 0 (uf_say ''Notes / Notas:'' t1) = Some (b, n, t2)"
      using assms(3) True r by (auto simp: uefi_storage_list_notes_def uefi_list_notes_def split: option.splits)
    have "fs_run (if b then dir # hs else hs) s t2"
      using run_notes_loop [OF closes fs_run_say l, of hs s] r1 Some by simp
    then show ?thesis
      using assms(3) True r Some l
      by (auto simp: uefi_storage_list_notes_def uefi_list_notes_def Let_def split: if_splits
        intro!: fs_runs fs_run_close [OF closes])
  qed
qed

text \<open>The selection moves from volume to volume; what it asks the firmware for is balanced all the same.\<close>

lemma traced_run: "fs_run hs s t \<Longrightarrow> traced hs s t"
  by (simp add: fs_run_def)

lemma traced_trans:
  assumes "traced [] s t" "traced [] t u"
  shows "traced [] s u"
proof -
  obtain a where a: "uf_trace t = uf_trace s @ a" "\<And>h. held h a = 0" "list_all confined a" using assms(1) by (auto simp: traced_def)
  obtain b where b: "uf_trace u = uf_trace t @ b" "\<And>h. held h b = 0" "list_all confined b" using assms(2) by (auto simp: traced_def)
  have "uf_trace u = uf_trace s @ (a @ b) \<and> (\<forall>h. held h (a @ b) = int (count_list [] h)) \<and> list_all confined (a @ b)"
    using a b by simp
  then show ?thesis unfolding traced_def by blast
qed

lemma traced_same: "traced hs s t \<Longrightarrow> uf_trace t' = uf_trace t \<Longrightarrow> traced hs s t'"
  by (simp add: traced_def)

lemma traced_select:
  assumes closes: "fp_close e \<noteq> None"
  shows "traced [] s (snd (select_loop e hs s))"
proof (induction hs arbitrary: s)
  case Nil
  have "traced [] s s" by (rule traced_run [OF fs_run_refl])
  then show ?case by (rule traced_same) (simp add: uf_set_error_def)
next
  case (Cons h hs)
  let ?s = "s\<lparr>uf_fs_handle := Some h\<rparr>"
  have start: "traced [] s u" if "fs_run [] ?s u" for u using traced_run [OF that] by (simp add: traced_def)
  obtain rep s1 where r: "uefi_storage_tree_repair e ?s = (rep, s1)" by fastforce
  have s1: "fs_run [] ?s s1" using run_facade_repair [OF closes fs_run_refl, of ?s] r by simp
  obtain m s2 where m: "marker_holds e FS_PROBE_PATH FS_PROBE_TEXT s1 = (m, s2)" by fastforce
  have s2: "fs_run [] ?s s2" using run_marker [OF closes s1, of FS_PROBE_PATH FS_PROBE_TEXT] m by simp
  show ?case
    using start [OF s1] start [OF s2] start [OF fs_run_error [OF s2]] Cons.IH [of s1] Cons.IH [of s2]
    by (auto simp: r m Let_def intro: traced_trans)
qed

lemma traced_bootstrap:
  assumes closes: "fp_close e \<noteq> None"
  shows "traced [] s (snd (uefi_storage_bootstrap e s))"
proof -
  let ?s0 = "uf_verified True False s"
  have silent: "traced [] a (uf_set_error x b)" "traced [] a (uf_set_error x (uf_verified u v b))" if "traced [] a b" for a b x u v
    using that by (auto simp: traced_def uf_set_error_def uf_verified_def)
  have s0: "traced [] s ?s0" using traced_run [OF fs_run_refl, of s] by (simp add: traced_def uf_verified_def)
  obtain sel s1 where sel: "uefi_try_select_writable_fs e ?s0 = (sel, s1)" by fastforce
  have "traced [] ?s0 (snd (uefi_try_select_writable_fs e ?s0))"
    using traced_select [OF closes] silent(1) [OF traced_run [OF fs_run_refl]]
    by (auto simp: uefi_try_select_writable_fs_def split: option.split)
  then have s1: "traced [] s s1" using s0 sel by (auto intro: traced_trans)
  obtain r s2 where r: "uefi_storage_tree_repair e s1 = (r, s2)" by fastforce
  obtain c s3 where c: "uefi_storage_tree_check e s2 = (c, s3)" by fastforce
  obtain w s4 where w: "uefi_storage_write_text e VERIFY_PATH (Some VERIFY_TEXT) s3 = (w, s4)" by fastforce
  obtain g b s5 where g: "uefi_storage_read_text e VERIFY_PATH VITA_STORAGE_READ_MAX s4 = ((g, b), s5)" by (metis prod.collapse)
  have 2: "fs_run [] s1 s2" using run_facade_repair [OF closes fs_run_refl, of s1] r by simp
  have 3: "fs_run [] s1 s3" using run_facade_check [OF closes 2] c by simp
  have 4: "fs_run [] s1 s4" using run_facade_write [OF closes 3, of VERIFY_PATH "Some VERIFY_TEXT"] w by simp
  have 5: "fs_run [] s1 s5" using run_facade_read [OF closes 4, of VERIFY_PATH VITA_STORAGE_READ_MAX] g by simp
  have "traced [] s u" if "fs_run [] s1 u" for u using traced_trans [OF s1 traced_run [OF that]] .
  note t = silent [OF this [OF 2]] silent [OF this [OF 3]] silent [OF this [OF 4]] silent [OF this [OF 5]]
  show ?thesis
    using t silent(1) [OF s0] silent(1) [OF s1] by (simp add: uefi_storage_bootstrap_def Let_def sel r c w g)
qed

section \<open>What a verified bootstrap has seen\<close>

lemma read_text_seen:
  assumes "uefi_storage_read_text e path cap s = ((True, out), t)" "uf_fs_handle s = Some v"
  shows "\<exists>root f p bytes rest. uefi_path_to_char16 path VITA_STORAGE_PATH_MAX = Some p \<and> out = c_string bytes \<and>
    uf_trace t = uf_trace s @ [VOLUME_OPENED v root, OPENED f p, READ_BYTES f bytes] @ rest"
proof -
  have read: "uefi_read_text e path cap s = ((True, out), t)" and cap: "cap \<noteq> 0"
    using assms(1) by (auto simp: uefi_storage_read_text_def split: if_splits)
  then obtain p where p: "uefi_path_to_char16 path VITA_STORAGE_PATH_MAX = Some p"
    by (auto simp: uefi_read_text_def split: option.splits)
  obtain root s1 where r: "uefi_open_root e s = (Some root, s1)"
    using read cap p by (auto simp: uefi_read_text_def split: option.splits prod.splits)
  then have t1: "uf_trace s1 = uf_trace s @ [VOLUME_OPENED v root]"
    using assms(2) by (auto simp: uefi_open_root_def Let_def called_def split: if_splits option.splits prod.splits)
  obtain f s2 where f: "file_open e root p EFI_FILE_MODE_READ 0 s1 = (Some f, s2)"
    using read cap p r by (auto simp: uefi_read_text_def split: option.splits prod.splits)
  then have t2: "uf_trace s2 = uf_trace s1 @ [OPENED f p]"
    by (auto simp: file_open_def called_def split: option.splits prod.splits)
  obtain bytes s3 where b: "file_read e f (cap - 1) s2 = (Some bytes, s3)"
    using read cap p r f by (auto simp: uefi_read_text_def split: option.splits prod.splits)
  then have t3: "uf_trace s3 = uf_trace s2 @ [READ_BYTES f bytes]"
    by (auto simp: file_read_def called_def split: option.splits prod.splits)
  have "\<exists>rest. uf_trace (file_close e a u) = uf_trace u @ rest" for a u
    by (auto simp: file_close_def called_def split: option.split)
  then obtain rest1 rest2 where "uf_trace (file_close e root (file_close e f (uf_set_error ''ok'' s3))) = (uf_trace s3 @ rest1) @ rest2"
    by (metis uf_set_error_def uefi_fs.select_convs(5) uefi_fs.surjective uefi_fs.update_convs(1))
  moreover have "out = c_string bytes" "t = file_close e root (file_close e f (uf_set_error ''ok'' s3))"
    using read cap p r f b by (auto simp: uefi_read_text_def)
  ultimately show ?thesis using p t1 t2 t3 by auto
qed

lemma trace_close: "set (uf_trace u) \<subseteq> set (uf_trace (file_close e a u))"
  by (auto simp: file_close_def called_def split: option.split)

lemma write_text_seen:
  assumes "uefi_storage_write_text e path (Some txt) s = (True, t)"
  shows "\<exists>f. WROTE f txt \<in> set (uf_trace t)"
proof -
  have "uefi_write_text e path txt s = (True, t)" using assms by (auto simp: uefi_storage_write_text_def split: if_splits)
  then obtain root f s4 s5 where w: "file_write e f txt s4 = (True, s5)"
    "t = file_close e root (file_close e f (uf_set_error ''ok'' s5))"
    by (auto simp: uefi_write_text_def Let_def split: option.splits prod.splits if_splits)
  then have "WROTE f txt \<in> set (uf_trace (uf_set_error ''ok'' s5))"
    by (auto simp: file_write_def called_def uf_set_error_def split: option.splits prod.splits)
  then show ?thesis unfolding w(2) by (meson subsetD trace_close)
qed

lemma steady_select:
  assumes closes: "fp_close e \<noteq> None"
  shows "select_loop e hs s = (True, t) \<Longrightarrow> \<exists>h\<in>set hs. uf_fs_handle t = Some h"
proof (induction hs arbitrary: s)
  case (Cons h hs)
  let ?s = "s\<lparr>uf_fs_handle := Some h\<rparr>"
  obtain rep s1 where r: "uefi_storage_tree_repair e ?s = (rep, s1)" by fastforce
  have s1: "fs_run [] ?s s1" using run_facade_repair [OF closes fs_run_refl, of ?s] r by simp
  obtain m s2 where m: "marker_holds e FS_PROBE_PATH FS_PROBE_TEXT s1 = (m, s2)" by fastforce
  have "fs_run [] ?s (uf_set_error ''ok'' s2)"
    using fs_run_error [OF run_marker [OF closes s1, of FS_PROBE_PATH FS_PROBE_TEXT]] m by simp
  then have "uf_fs_handle (uf_set_error ''ok'' s2) = Some h" by (simp add: fs_run_def steady_def)
  then show ?case using Cons by (auto simp: r m Let_def split: if_splits)
qed simp

definition located :: "'f efi \<Rightarrow> efi_handle list" where
  "located e = (case eb_locate_handle e of Some (Some hs) \<Rightarrow> hs | _ \<Rightarrow> [])"

lemma bootstrap_seen:
  assumes closes: "fp_close e \<noteq> None" and "uefi_storage_bootstrap e s = (True, t)"
  shows "st_bootstrap_verified (uf_storage t) \<and> (\<exists>v \<in> set (located e). uf_fs_handle t = Some v \<and>
    (\<exists>before root f p bytes after g. uf_trace t = before @ [VOLUME_OPENED v root, OPENED f p, READ_BYTES f bytes] @ after \<and>
       uefi_path_to_char16 VERIFY_PATH VITA_STORAGE_PATH_MAX = Some p \<and> c_string bytes = VERIFY_TEXT \<and>
       WROTE g VERIFY_TEXT \<in> set before))"
proof -
  let ?s0 = "uf_verified True False s"
  obtain sel s1 where sel: "uefi_try_select_writable_fs e ?s0 = (sel, s1)" by fastforce
  obtain r s2 where r: "uefi_storage_tree_repair e s1 = (r, s2)" by fastforce
  obtain c s3 where c: "uefi_storage_tree_check e s2 = (c, s3)" by fastforce
  obtain w s4 where w: "uefi_storage_write_text e VERIFY_PATH (Some VERIFY_TEXT) s3 = (w, s4)" by fastforce
  obtain g b s5 where g: "uefi_storage_read_text e VERIFY_PATH VITA_STORAGE_READ_MAX s4 = ((g, b), s5)" by (metis prod.collapse)
  have fin: "sel" "r" "c" "w" "g" "b = VERIFY_TEXT" "t = uf_set_error ''ok'' (uf_verified True True s5)"
    using assms(2) by (auto simp: uefi_storage_bootstrap_def Let_def sel r c w g split: if_splits)
  have 2: "fs_run [] s1 s2" using run_facade_repair [OF closes fs_run_refl, of s1] r by simp
  have 3: "fs_run [] s1 s3" using run_facade_check [OF closes 2] c by simp
  have 4: "fs_run [] s1 s4" using run_facade_write [OF closes 3, of VERIFY_PATH "Some VERIFY_TEXT"] w by simp
  have 5: "fs_run [] s1 s5" using run_facade_read [OF closes 4, of VERIFY_PATH VITA_STORAGE_READ_MAX] g by simp
  have "select_loop e (located e) ?s0 = (True, s1)"
    using sel fin(1) by (auto simp: uefi_try_select_writable_fs_def located_def split: if_splits option.splits)
  then obtain v where v: "v \<in> set (located e)" "uf_fs_handle s1 = Some v" using steady_select [OF closes] by blast
  then have h: "uf_fs_handle s4 = Some v" "uf_fs_handle s5 = Some v" using 4 5 by (simp_all add: fs_run_def steady_def)
  obtain q where q: "WROTE q VERIFY_TEXT \<in> set (uf_trace s4)" using write_text_seen [of e VERIFY_PATH VERIFY_TEXT s3 s4] w fin(4) by auto
  obtain root f p bytes rest where "uefi_path_to_char16 VERIFY_PATH VITA_STORAGE_PATH_MAX = Some p" "VERIFY_TEXT = c_string bytes"
    "uf_trace s5 = uf_trace s4 @ [VOLUME_OPENED v root, OPENED f p, READ_BYTES f bytes] @ rest"
    using read_text_seen [OF _ h(1), of e VERIFY_PATH VITA_STORAGE_READ_MAX VERIFY_TEXT s5] g fin(5,6) by auto
  moreover have "uf_trace t = uf_trace s5" "uf_fs_handle t = Some v" "st_bootstrap_verified (uf_storage t)"
    using h(2) by (simp_all add: fin(7) uf_set_error_def uf_verified_def)
  ultimately show ?thesis using v(1) q by metis
qed

section \<open>Properties\<close>

datatype uefi_call = BOOTSTRAP | REPAIR | CHECK | WRITE string cstr | READ string nat | LIST_NOTES nat

text \<open>One call of the facade; only a listing that still reads has no result.\<close>

fun uefi_do :: "'f efi \<Rightarrow> uefi_call \<Rightarrow> 'f uefi_fs \<Rightarrow> 'f uefi_fs option" where
  "uefi_do e BOOTSTRAP s = Some (snd (uefi_storage_bootstrap e s))"
| "uefi_do e REPAIR s = Some (snd (uefi_storage_tree_repair e s))"
| "uefi_do e CHECK s = Some (snd (uefi_storage_tree_check e s))"
| "uefi_do e (WRITE path txt) s = Some (snd (uefi_storage_write_text e path txt s))"
| "uefi_do e (READ path cap) s = Some (snd (uefi_storage_read_text e path cap s))"
| "uefi_do e (LIST_NOTES fuel) s = map_option snd (uefi_storage_list_notes fuel e s)"

fun uefi_calls :: "'f efi \<Rightarrow> uefi_call list \<Rightarrow> 'f uefi_fs \<Rightarrow> 'f uefi_fs option" where
  "uefi_calls e [] s = Some s"
| "uefi_calls e (c # cs) s = (case uefi_do e c s of None \<Rightarrow> None | Some t \<Rightarrow> uefi_calls e cs t)"

lemma traced_do:
  assumes "fp_close e \<noteq> None" "uefi_do e c s = Some t"
  shows "traced [] s t"
  using assms
  by (cases c) (auto intro: traced_bootstrap traced_run fs_runs fs_run_refl run_list_notes)

lemma traced_calls: "fp_close e \<noteq> None \<Longrightarrow> uefi_calls e cs s = Some t \<Longrightarrow> traced [] s t"
proof (induction cs arbitrary: s)
  case Nil
  then show ?case by (auto intro: traced_run fs_run_refl)
next
  case (Cons c cs)
  then obtain u where "uefi_do e c s = Some u" "uefi_calls e cs u = Some t" by (auto split: option.splits)
  then show ?case using traced_do [of e c s u] Cons traced_trans by blast
qed

text \<open>The listing ends when the firmware's directory does: with one turn more than entries.\<close>

fun info_answers :: "(efi_handle \<Rightarrow> 'f \<Rightarrow> efi_file_info option option \<times> 'f) \<Rightarrow> efi_handle \<Rightarrow> nat \<Rightarrow> 'f \<Rightarrow> bool" where
  "info_answers op dir 0 fw = (case fst (op dir fw) of Some (Some info) \<Rightarrow> False | _ \<Rightarrow> True)"
| "info_answers op dir (Suc n) fw =
     (case op dir fw of (Some (Some info), fw') \<Rightarrow> info_answers op dir n fw' | _ \<Rightarrow> True)"

lemma notes_loop_ends:
  "fp_read_info e = Some op \<Longrightarrow> info_answers op dir n (uf_fw s) \<Longrightarrow> uefi_notes_loop (Suc n) e dir count s \<noteq> None"
proof (induction n arbitrary: s count)
  case 0
  then show ?case by (auto split: option.splits prod.splits)
next
  case (Suc n)
  obtain a fw where a: "op dir (uf_fw s) = (a, fw)" by fastforce
  have *: "uf_fw (called [] fw s) = fw" "uf_fw (uf_say x (called [] fw s)) = fw" for x by (simp_all add: called_def uf_say_def)
  show ?case
  proof (cases "\<exists>info. a = Some (Some info)")
    case True
    then obtain info where "a = Some (Some info)" by blast
    then show ?thesis
      using Suc.prems a Suc.IH [of "called [] fw s" count] Suc.IH [of "uf_say (the (note_entry info)) (called [] fw s)" "count + 1"] *
      by (cases "note_entry info") (simp_all del: uefi_notes_loop.simps add: uefi_notes_loop.simps(2) [of "Suc n"])
  next
    case False
    then show ?thesis using Suc.prems(1) a by (auto split: option.splits)
  qed
qed

text \<open>A firmware with one volume that keeps the last text it was given.\<close>

definition echo_efi :: "string efi" where
  "echo_efi =
     \<lparr>eb_handle_protocol = True, eb_locate_handle = Some (Some [7]), eb_loaded_image = None,
      eb_simple_file_system = (\<lambda>v. v = 7), eb_open_volume = (\<lambda>v fw. (Some 0, fw)),
      fp_open = Some (\<lambda>root p m a fw. (Some 1, fw)), fp_close = Some (\<lambda>f fw. fw), fp_delete_file = Some (\<lambda>f fw. []),
      fp_read = Some (\<lambda>f n fw. (Some fw, fw)), fp_read_info = None, fp_write = Some (\<lambda>f txt fw. (True, txt))\<rparr>"

definition demo_handoff :: vita_handoff where
  "demo_handoff = \<lparr>ho_magic = 0, ho_version = 1, ho_size = 0, ho_arch_name = None, ho_firmware_type = VITA_FIRMWARE_UEFI,
     ho_audit_db_path = None, ho_vitanet_seed_endpoint = None\<rparr>"

definition demo_uefi_fs :: "string uefi_fs" where
  "demo_uefi_fs = snd (uefi_storage_init (Some demo_handoff) True True
     \<lparr>uf_storage = zero_storage, uf_image_handle = False, uf_system_table = False, uf_fs_handle = None, uf_trace = [],
      uf_said = [], uf_fw = []\<rparr>)"

definition echoing :: "string uefi_fs \<Rightarrow> bool" where
  "echoing s \<longleftrightarrow> st_handoff (uf_storage s) \<noteq> None \<and> uf_image_handle s \<and> uf_system_table s \<and> uf_fs_handle s = Some 7 \<and>
     st_initialized (uf_storage s) \<and> st_writable (uf_storage s)"

lemma echo_closes: "fp_close echo_efi \<noteq> None"
  by (simp add: echo_efi_def)

lemma echoing_run: "fs_run hs s t \<Longrightarrow> echoing s \<Longrightarrow> echoing t"
proof -
  assume r: "fs_run hs s t" and "echoing s"
  have "(uf_storage t)\<lparr>st_last_error := []\<rparr> = (uf_storage s)\<lparr>st_last_error := []\<rparr>" using r by (simp add: fs_run_def steady_def)
  then have "st_handoff (uf_storage t) = st_handoff (uf_storage s)" "st_initialized (uf_storage t) = st_initialized (uf_storage s)"
    "st_writable (uf_storage t) = st_writable (uf_storage s)"
    by (cases "uf_storage t"; cases "uf_storage s"; simp)+
  then show "echoing t" using r \<open>echoing s\<close> by (simp add: echoing_def fs_run_def steady_def)
qed

lemma allowed16: "path_allowed (Some p) \<Longrightarrow> \<exists>q. uefi_path_to_char16 p VITA_STORAGE_PATH_MAX = Some q"
  by (simp add: uefi_path_to_char16_def VITA_STORAGE_PATH_MAX_def)

lemma echo_root: "echoing s \<Longrightarrow> uefi_open_root echo_efi s = (Some 0, called [VOLUME_OPENED 7 0] (uf_fw s) s)"
  by (auto simp: uefi_open_root_def echoing_def echo_efi_def)

lemma echo_open: "file_open echo_efi root p m a s = (Some 1, called [OPENED 1 p] (uf_fw s) s)"
  by (simp add: file_open_def echo_efi_def)

lemma echo_exists: "echoing s \<Longrightarrow> path_allowed (Some p) \<Longrightarrow> fst (uefi_path_exists echo_efi p s)"
  using allowed16 [of p] by (auto simp: uefi_path_exists_def echo_root uefi_open_path_def echo_open)

lemma echo_ensure: "echoing s \<Longrightarrow> path_allowed (Some p) \<Longrightarrow> fst (uefi_ensure_directory echo_efi p s)"
  using echo_exists [of s p] by (simp add: uefi_ensure_directory_def case_prod_beta)

lemma echo_dirs: "echoing s \<Longrightarrow> list_all (\<lambda>p. path_allowed (Some p)) ds \<Longrightarrow> fst (ensure_dirs echo_efi ds s)"
proof (induction ds arbitrary: s)
  case (Cons d ds)
  have "echoing (snd (uefi_ensure_directory echo_efi d s))"
    using run_ensure_directory [OF echo_closes fs_run_refl] Cons.prems(1) by (rule echoing_run)
  then show ?case using Cons echo_ensure [of s d] by (simp add: case_prod_beta Let_def)
qed simp

lemma echo_check: "echoing s \<Longrightarrow> list_all (\<lambda>p. path_allowed (Some p)) ds \<Longrightarrow> fst (uefi_check_loop echo_efi ds s)"
proof (induction ds arbitrary: s)
  case (Cons d ds)
  have "echoing (snd (uefi_path_exists echo_efi d s))"
    using run_path_exists [OF echo_closes fs_run_refl] Cons.prems(1) by (rule echoing_run)
  then show ?case using Cons echo_exists [of s d] by (simp add: case_prod_beta Let_def)
qed simp

lemma echo_tree: "list_all (\<lambda>p. path_allowed (Some p)) g_storage_expected_dirs"
  by code_simp

definition parents_allowed :: "string \<Rightarrow> bool" where
  "parents_allowed path \<longleftrightarrow> path_allowed (Some path) \<and> pre path ''/vita/'' \<and>
     (let dir = copy_text VITA_STORAGE_PATH_MAX path in
      list_all (\<lambda>p. path_allowed (Some p)) (map (\<lambda>i. take i dir) (filter (\<lambda>i. dir ! i = CHR ''/'') [1..<length dir])) \<and>
      path_allowed (Some (take (last_slash dir) dir)))"

lemma echo_parents: "echoing s \<Longrightarrow> parents_allowed path \<Longrightarrow> fst (uefi_ensure_parent_dirs echo_efi path s)"
proof -
  assume e: "echoing s" and p: "parents_allowed path"
  let ?d = "copy_text VITA_STORAGE_PATH_MAX path"
  let ?ds = "map (\<lambda>i. take i ?d) (filter (\<lambda>i. ?d ! i = CHR ''/'') [1..<length ?d])"
  obtain ok t where o: "ensure_dirs echo_efi ?ds s = (ok, t)" by fastforce
  have "ok" using echo_dirs [OF e, of ?ds] p o by (simp add: parents_allowed_def Let_def)
  moreover have "echoing t" using echoing_run [OF run_ensure_dirs [OF echo_closes fs_run_refl] e, of ?ds] o by simp
  ultimately show ?thesis
    using echo_ensure [of t "take (last_slash ?d) ?d"] p o by (simp add: uefi_ensure_parent_dirs_def parents_allowed_def Let_def)
qed

lemma echo_write:
  assumes "echoing s" "parents_allowed path"
  shows "fst (uefi_storage_write_text echo_efi path (Some txt) s)"
    "uf_fw (snd (uefi_storage_write_text echo_efi path (Some txt) s)) = txt"
proof -
  obtain p where p: "uefi_path_to_char16 path VITA_STORAGE_PATH_MAX = Some p" using allowed16 assms(2) by (auto simp: parents_allowed_def)
  let ?s1 = "called [VOLUME_OPENED 7 0] (uf_fw s) s"
  have "echoing ?s1" using assms(1) by (simp add: echoing_def called_def)
  then obtain s2 where d: "uefi_ensure_parent_dirs echo_efi path ?s1 = (True, s2)"
    using echo_parents [of ?s1 path] assms(2) by (metis prod.collapse)
  have *: "\<And>e u. fp_close e = Some (\<lambda>f fw. fw) \<Longrightarrow> uf_fw (file_close e f u) = uf_fw u" for f
    by (simp add: file_close_def called_def)
  have fw: "uf_fw (uf_set_error x u) = uf_fw u" "uf_fw (called ev y u) = y" for x y ev and u :: "string uefi_fs"
    by (simp_all add: uf_set_error_def called_def)
  have w: "file_write echo_efi f txt u = (True, called [WROTE f txt] txt u)" for f u by (simp add: file_write_def echo_efi_def)
  have c: "fp_close echo_efi = Some (\<lambda>f fw. fw)" by (simp add: echo_efi_def)
  have "uefi_storage_write_text echo_efi path (Some txt) s = uefi_write_text echo_efi path txt s"
    using assms by (simp add: uefi_storage_write_text_def echoing_def parents_allowed_def)
  then show "fst (uefi_storage_write_text echo_efi path (Some txt) s)"
    "uf_fw (snd (uefi_storage_write_text echo_efi path (Some txt) s)) = txt"
    by (simp_all add: uefi_write_text_def p echo_root [OF assms(1)] d echo_open w Let_def * [OF c] fw)
qed

lemma echo_read:
  assumes "echoing s" "path_allowed (Some path)" "c_string (uf_fw s) = uf_fw s" "length (uf_fw s) < cap"
  shows "fst (uefi_storage_read_text echo_efi path cap s) = (True, uf_fw s)"
proof -
  obtain p where p: "uefi_path_to_char16 path VITA_STORAGE_PATH_MAX = Some p" using allowed16 assms(2) by blast
  have "fp_read echo_efi = Some (\<lambda>f n fw. (Some fw, fw))" by (simp add: echo_efi_def)
  then show ?thesis
    using assms by (simp add: uefi_storage_read_text_def echoing_def uefi_read_text_def p echo_root [OF assms(1)] echo_open file_read_def
      called_def)
qed

lemma echo_marker:
  assumes "echoing s" "parents_allowed path" "c_string txt = txt" "length txt < VITA_STORAGE_READ_MAX"
  shows "fst (marker_holds echo_efi path txt s)"
proof -
  obtain t where w: "uefi_storage_write_text echo_efi path (Some txt) s = (True, t)" "uf_fw t = txt"
    using echo_write [OF assms(1,2), of "txt"] by (metis prod.collapse)
  have "echoing t" using echoing_run [OF run_facade_write [OF echo_closes fs_run_refl] assms(1), of path "Some txt"] w by simp
  then have "fst (uefi_storage_read_text echo_efi path VITA_STORAGE_READ_MAX t) = (True, txt)"
    using echo_read [of t path VITA_STORAGE_READ_MAX] w(2) assms(2-4) by (simp add: parents_allowed_def)
  then show ?thesis by (simp add: marker_holds_def w(1) case_prod_beta)
qed

lemma echo_paths: "parents_allowed FS_PROBE_PATH" "parents_allowed VERIFY_PATH"
  by code_simp+

lemma echo_bootstrap: "\<exists>t. uefi_storage_bootstrap echo_efi demo_uefi_fs = (True, t)"
proof -
  define s where "s = (uf_verified True False demo_uefi_fs)\<lparr>uf_fs_handle := Some 7\<rparr>"
  have s: "echoing s"
    by (simp add: s_def echoing_def demo_uefi_fs_def uefi_storage_init_def demo_handoff_def Let_def VITA_FIRMWARE_UEFI_def
      uf_set_error_def uf_verified_def)
  note keep = echoing_run [OF _ s]
  obtain s1 where r: "uefi_storage_tree_repair echo_efi s = (True, s1)"
    using echo_dirs [OF s echo_tree] unfolding uefi_storage_tree_repair_def by (metis prod.collapse)
  have s1: "fs_run [] s s1" using run_facade_repair [OF echo_closes fs_run_refl, of s] r by simp
  have marks: "c_string FS_PROBE_TEXT = FS_PROBE_TEXT" "length FS_PROBE_TEXT < VITA_STORAGE_READ_MAX"
    "c_string VERIFY_TEXT = VERIFY_TEXT" "length VERIFY_TEXT < VITA_STORAGE_READ_MAX"
    by (simp_all add: FS_PROBE_TEXT_def VERIFY_TEXT_def c_string_def VITA_STORAGE_READ_MAX_def)
  obtain s2 where m: "marker_holds echo_efi FS_PROBE_PATH FS_PROBE_TEXT s1 = (True, s2)"
    using echo_marker [OF keep [OF s1] echo_paths(1) marks(1,2)] by (metis prod.collapse)
  define s3 where "s3 = uf_set_error ''ok'' s2"
  have s3: "fs_run [] s s3"
    using fs_run_error [OF run_marker [OF echo_closes s1, of FS_PROBE_PATH FS_PROBE_TEXT]] m by (simp add: s3_def)
  have "uefi_try_select_writable_fs echo_efi (uf_verified True False demo_uefi_fs) = select_loop echo_efi [7] (uf_verified True False demo_uefi_fs)"
  proof -
    have l: "eb_locate_handle echo_efi = Some (Some [7])" "eb_handle_protocol echo_efi" by (simp_all add: echo_efi_def)
    have "st_handoff (uf_storage (uf_verified True False demo_uefi_fs)) \<noteq> None" "uf_system_table (uf_verified True False demo_uefi_fs)"
      using s by (simp_all add: s_def echoing_def)
    then show ?thesis using l by (auto simp: uefi_try_select_writable_fs_def simp del: select_loop.simps)
  qed
  then have sel: "uefi_try_select_writable_fs echo_efi (uf_verified True False demo_uefi_fs) = (True, s3)"
    using r m by (simp add: s_def s3_def Let_def)
  obtain s4 where r4: "uefi_storage_tree_repair echo_efi s3 = (True, s4)"
    using echo_dirs [OF keep [OF s3] echo_tree] unfolding uefi_storage_tree_repair_def by (metis prod.collapse)
  have s4: "fs_run [] s s4" using run_facade_repair [OF echo_closes s3] r4 by simp
  obtain s5 where r5: "uefi_storage_tree_check echo_efi s4 = (True, s5)"
    using echo_check [OF keep [OF s4] echo_tree] unfolding uefi_storage_tree_check_def by (metis prod.collapse)
  have s5: "fs_run [] s s5" using run_facade_check [OF echo_closes s4] r5 by simp
  obtain s6 where w: "uefi_storage_write_text echo_efi VERIFY_PATH (Some VERIFY_TEXT) s5 = (True, s6)" "uf_fw s6 = VERIFY_TEXT"
    using echo_write [OF keep [OF s5] echo_paths(2), of VERIFY_TEXT] by (metis prod.collapse)
  have s6: "fs_run [] s s6" using run_facade_write [OF echo_closes s5, of VERIFY_PATH "Some VERIFY_TEXT"] w by simp
  obtain s7 where g: "uefi_storage_read_text echo_efi VERIFY_PATH VITA_STORAGE_READ_MAX s6 = ((True, VERIFY_TEXT), s7)"
    using echo_read [OF keep [OF s6], of VERIFY_PATH VITA_STORAGE_READ_MAX] w(2) marks(3,4) echo_paths(2)
    by (metis parents_allowed_def prod.collapse)
  have "st_initialized (uf_storage (uf_verified True False demo_uefi_fs)) \<and> st_writable (uf_storage (uf_verified True False demo_uefi_fs))"
    using s by (simp add: s_def echoing_def)
  then show ?thesis by (simp add: uefi_storage_bootstrap_def Let_def sel r4 r5 w(1) g)
qed

text \<open>
  C26. The UEFI backend gives every handle back and stays in its tree. On every firmware that offers a close,
  whatever it answers, and whatever the kernel asks of its storage, bootstrap over all volumes included: each
  file, directory and volume handle that was opened has been closed as often, on the failing paths as on the
  others, and every path the firmware was given names \<open>vita\<close> at the root or something below it.
\<close>

theorem uefi_storage_closes_and_stays_below:
  fixes calls :: "uefi_call list" and s :: "'f uefi_fs"
  assumes "fp_close e \<noteq> None" "uefi_calls e calls s = Some t" "uf_trace s = []"
  shows "held h (uf_trace t) = 0 \<and> list_all confined (uf_trace t)"
  using traced_calls [OF assms(1,2)] assms(3) by (auto simp: traced_def)

theorem uefi_storage_closes_and_stays_below_witness:
  "held 1 (uf_trace (snd (uefi_storage_bootstrap echo_efi demo_uefi_fs))) = 0"
proof -
  have "uf_trace demo_uefi_fs = []"
    by (simp add: demo_uefi_fs_def uefi_storage_init_def demo_handoff_def Let_def uf_set_error_def)
  from uefi_storage_closes_and_stays_below [OF echo_closes _ this, of "[BOOTSTRAP]" _ 1] show ?thesis by simp
qed

text \<open>
  C27. A verified volume has shown the marker. When the UEFI bootstrap reports success, the storage is marked
  verified and uses one of the volumes the firmware listed; the marker was written before, and afterwards the
  firmware, asked on that volume for the path of the marker, delivered exactly its text.
\<close>

theorem uefi_bootstrap_has_seen_the_marker:
  fixes s :: "'f uefi_fs"
  assumes "fp_close e \<noteq> None" "uefi_storage_bootstrap e s = (True, t)"
  shows "st_bootstrap_verified (uf_storage t) \<and> (\<exists>v. v \<in> set (located e) \<and> uf_fs_handle t = Some v \<and>
    (\<exists>before root f p bytes after g. uf_trace t = before @ [VOLUME_OPENED v root, OPENED f p, READ_BYTES f bytes] @ after \<and>
       uefi_path_to_char16 VERIFY_PATH VITA_STORAGE_PATH_MAX = Some p \<and> c_string bytes = VERIFY_TEXT \<and>
       WROTE g VERIFY_TEXT \<in> set before))"
  using bootstrap_seen [OF assms] by blast

theorem uefi_bootstrap_has_seen_the_marker_witness:
  "\<exists>t. uefi_storage_bootstrap echo_efi demo_uefi_fs = (True, t) \<and> st_bootstrap_verified (uf_storage t) \<and> uf_fs_handle t = Some 7"
proof -
  obtain t where t: "uefi_storage_bootstrap echo_efi demo_uefi_fs = (True, t)" using echo_bootstrap by blast
  show ?thesis
    using uefi_bootstrap_has_seen_the_marker [OF echo_closes t] t by (auto simp: located_def echo_efi_def)
qed

end
