(* ===== verification/Neon_Text.thy ===== *)
theory Neon_Text
  imports Framebuffer
begin

text \<open>
  The framebuffer terminal of arch/x86\_64/boot/uefi\_neon\_text.c: the 5x7 font, the layout, the ring of
  completed lines, the viewport, and the drawing of them. \<open>g_neon\<close> is the record; the framebuffer memory is
  its last field. A line array and its contents up to the terminator are one string.
\<close>

definition NEON_SCROLLBACK_LINES :: u32 where "NEON_SCROLLBACK_LINES = 96"
definition NEON_LINE_MAX :: u32 where "NEON_LINE_MAX = 132"

record neon_text_state =
  nt_ready :: bool
  nt_gop :: "gop_mode option"
  nt_screen_w :: u32
  nt_screen_h :: u32
  nt_stride :: u32
  nt_panel_x :: u32
  nt_panel_y :: u32
  nt_panel_w :: u32
  nt_panel_h :: u32
  nt_body_x :: u32
  nt_body_y :: u32
  nt_body_w :: u32
  nt_body_h :: u32
  nt_char_w :: u32
  nt_char_h :: u32
  nt_scale :: u32
  nt_bg :: u32
  nt_panel_bg :: u32
  nt_title_bg :: u32
  nt_border :: u32
  nt_text :: u32
  nt_dim :: u32
  nt_warning :: u32
  nt_visible_rows :: u32
  nt_columns :: u32
  nt_line_start :: u32
  nt_line_count :: u32
  nt_current_len :: u32
  nt_view_offset :: u32
  nt_lines :: "string list"
  nt_current_line :: string
  nt_fb :: framebuffer

section \<open>Drawing\<close>

definition put_pixel :: "u32 \<Rightarrow> u32 \<Rightarrow> u32 \<Rightarrow> neon_text_state \<Rightarrow> neon_text_state" where
  "put_pixel x y color n =
     (if \<not> nt_ready n \<or> nt_gop n = None then n
      else if x \<ge> nt_screen_w n \<or> y \<ge> nt_screen_h n then n
      else n\<lparr>nt_fb := (nt_fb n)(unat (y * nt_stride n + x) := color)\<rparr>)"

definition fill_rect :: "u32 \<Rightarrow> u32 \<Rightarrow> u32 \<Rightarrow> u32 \<Rightarrow> u32 \<Rightarrow> neon_text_state \<Rightarrow> neon_text_state" where
  "fill_rect x y w h color n =
     (let max_x = (if x + w > nt_screen_w n then nt_screen_w n else x + w);
          max_y = (if y + h > nt_screen_h n then nt_screen_h n else y + h)
      in fold (\<lambda>yy. fold (\<lambda>xx. put_pixel xx yy color) (u32_range x max_x)) (u32_range y max_y) n)"

definition draw_hline :: "u32 \<Rightarrow> u32 \<Rightarrow> u32 \<Rightarrow> u32 \<Rightarrow> neon_text_state \<Rightarrow> neon_text_state" where
  "draw_hline x y w color = fill_rect x y w 2 color"

definition draw_vline :: "u32 \<Rightarrow> u32 \<Rightarrow> u32 \<Rightarrow> u32 \<Rightarrow> neon_text_state \<Rightarrow> neon_text_state" where
  "draw_vline x y h color = fill_rect x y 2 h color"

definition draw_box :: "u32 \<Rightarrow> u32 \<Rightarrow> u32 \<Rightarrow> u32 \<Rightarrow> u32 \<Rightarrow> u32 \<Rightarrow> neon_text_state \<Rightarrow> neon_text_state" where
  "draw_box x y w h border bg n =
     draw_vline (x + w - 2) y h border (draw_vline x y h border
       (draw_hline x (y + h - 2) w border (draw_hline x y w border (fill_rect x y w h bg n))))"

definition glyph_table :: "(char \<times> u8 list) list" where
  "glyph_table =
     [(CHR ''A'', [0x0E, 0x11, 0x11, 0x1F, 0x11, 0x11, 0x11]), (CHR ''B'', [0x1E, 0x11, 0x11, 0x1E, 0x11, 0x11, 0x1E]),
      (CHR ''C'', [0x0E, 0x11, 0x10, 0x10, 0x10, 0x11, 0x0E]), (CHR ''D'', [0x1E, 0x11, 0x11, 0x11, 0x11, 0x11, 0x1E]),
      (CHR ''E'', [0x1F, 0x10, 0x10, 0x1E, 0x10, 0x10, 0x1F]), (CHR ''F'', [0x1F, 0x10, 0x10, 0x1E, 0x10, 0x10, 0x10]),
      (CHR ''G'', [0x0E, 0x11, 0x10, 0x17, 0x11, 0x11, 0x0F]), (CHR ''H'', [0x11, 0x11, 0x11, 0x1F, 0x11, 0x11, 0x11]),
      (CHR ''I'', [0x1F, 0x04, 0x04, 0x04, 0x04, 0x04, 0x1F]), (CHR ''J'', [0x07, 0x02, 0x02, 0x02, 0x12, 0x12, 0x0C]),
      (CHR ''K'', [0x11, 0x12, 0x14, 0x18, 0x14, 0x12, 0x11]), (CHR ''L'', [0x10, 0x10, 0x10, 0x10, 0x10, 0x10, 0x1F]),
      (CHR ''M'', [0x11, 0x1B, 0x15, 0x15, 0x11, 0x11, 0x11]), (CHR ''N'', [0x11, 0x19, 0x15, 0x13, 0x11, 0x11, 0x11]),
      (CHR ''O'', [0x0E, 0x11, 0x11, 0x11, 0x11, 0x11, 0x0E]), (CHR ''P'', [0x1E, 0x11, 0x11, 0x1E, 0x10, 0x10, 0x10]),
      (CHR ''Q'', [0x0E, 0x11, 0x11, 0x11, 0x15, 0x12, 0x0D]), (CHR ''R'', [0x1E, 0x11, 0x11, 0x1E, 0x14, 0x12, 0x11]),
      (CHR ''S'', [0x0F, 0x10, 0x10, 0x0E, 0x01, 0x01, 0x1E]), (CHR ''T'', [0x1F, 0x04, 0x04, 0x04, 0x04, 0x04, 0x04]),
      (CHR ''U'', [0x11, 0x11, 0x11, 0x11, 0x11, 0x11, 0x0E]), (CHR ''V'', [0x11, 0x11, 0x11, 0x11, 0x11, 0x0A, 0x04]),
      (CHR ''W'', [0x11, 0x11, 0x11, 0x15, 0x15, 0x15, 0x0A]), (CHR ''X'', [0x11, 0x11, 0x0A, 0x04, 0x0A, 0x11, 0x11]),
      (CHR ''Y'', [0x11, 0x11, 0x0A, 0x04, 0x04, 0x04, 0x04]), (CHR ''Z'', [0x1F, 0x01, 0x02, 0x04, 0x08, 0x10, 0x1F]),
      (CHR ''0'', [0x0E, 0x11, 0x13, 0x15, 0x19, 0x11, 0x0E]), (CHR ''1'', [0x04, 0x0C, 0x04, 0x04, 0x04, 0x04, 0x0E]),
      (CHR ''2'', [0x0E, 0x11, 0x01, 0x02, 0x04, 0x08, 0x1F]), (CHR ''3'', [0x1E, 0x01, 0x01, 0x0E, 0x01, 0x01, 0x1E]),
      (CHR ''4'', [0x02, 0x06, 0x0A, 0x12, 0x1F, 0x02, 0x02]), (CHR ''5'', [0x1F, 0x10, 0x10, 0x1E, 0x01, 0x01, 0x1E]),
      (CHR ''6'', [0x0E, 0x10, 0x10, 0x1E, 0x11, 0x11, 0x0E]), (CHR ''7'', [0x1F, 0x01, 0x02, 0x04, 0x08, 0x08, 0x08]),
      (CHR ''8'', [0x0E, 0x11, 0x11, 0x0E, 0x11, 0x11, 0x0E]), (CHR ''9'', [0x0E, 0x11, 0x11, 0x0F, 0x01, 0x01, 0x0E]),
      (CHR '':'', [0x00, 0x04, 0x04, 0x00, 0x04, 0x04, 0x00]), (CHR ''.'', [0x00, 0x00, 0x00, 0x00, 0x00, 0x0C, 0x0C]),
      (CHR '','', [0x00, 0x00, 0x00, 0x00, 0x00, 0x04, 0x08]), (CHR ''-'', [0x00, 0x00, 0x00, 0x1F, 0x00, 0x00, 0x00]),
      (CHR ''_'', [0x00, 0x00, 0x00, 0x00, 0x00, 0x00, 0x1F]), (CHR ''/'', [0x01, 0x02, 0x02, 0x04, 0x08, 0x08, 0x10]),
      (CHR 0x5C, [0x10, 0x08, 0x08, 0x04, 0x02, 0x02, 0x01]), (CHR ''>'', [0x00, 0x10, 0x08, 0x04, 0x08, 0x10, 0x00]),
      (CHR ''<'', [0x00, 0x01, 0x02, 0x04, 0x02, 0x01, 0x00]), (CHR ''['', [0x0E, 0x08, 0x08, 0x08, 0x08, 0x08, 0x0E]),
      (CHR '']'', [0x0E, 0x02, 0x02, 0x02, 0x02, 0x02, 0x0E]), (CHR ''('', [0x02, 0x04, 0x08, 0x08, 0x08, 0x04, 0x02]),
      (CHR '')'', [0x08, 0x04, 0x02, 0x02, 0x02, 0x04, 0x08]), (CHR ''!'', [0x04, 0x04, 0x04, 0x04, 0x00, 0x04, 0x00]),
      (CHR ''?'', [0x0E, 0x11, 0x01, 0x02, 0x04, 0x00, 0x04]), (CHR ''+'', [0x00, 0x04, 0x04, 0x1F, 0x04, 0x04, 0x00]),
      (CHR ''='', [0x00, 0x00, 0x1F, 0x00, 0x1F, 0x00, 0x00]), (CHR ''*'', [0x00, 0x15, 0x0E, 0x1F, 0x0E, 0x15, 0x00]),
      (CHR '' '', [0x00, 0x00, 0x00, 0x00, 0x00, 0x00, 0x00])]"

definition glyph5x7 :: "char \<Rightarrow> u8 list" where
  "glyph5x7 c =
     (let u = (if uchar CHR ''a'' \<le> uchar c \<and> uchar c \<le> uchar CHR ''z'' then char_of (uchar c - 32) else c)
      in case map_of glyph_table u of None \<Rightarrow> replicate 7 0 | Some rows \<Rightarrow> rows)"

definition draw_char_at :: "u32 \<Rightarrow> u32 \<Rightarrow> char \<Rightarrow> u32 \<Rightarrow> u32 \<Rightarrow> neon_text_state \<Rightarrow> neon_text_state" where
  "draw_char_at x y c color bg n =
     (let scale = nt_scale n;
          n1 = fill_rect x y (nt_char_w n) (nt_char_h n) bg n
      in if c = CHR '' '' then n1
         else let rows = glyph5x7 c in
           fold (\<lambda>row. fold (\<lambda>col m.
                if bit (rows ! row) (4 - col)
                then fill_rect (x + 1 + of_nat col * scale) (y + 1 + of_nat row * scale) scale scale color m
                else m) [0..<5]) [0..<7] n1)"

fun draw_text_at :: "u32 \<Rightarrow> u32 \<Rightarrow> string \<Rightarrow> u32 \<Rightarrow> u32 \<Rightarrow> neon_text_state \<Rightarrow> neon_text_state" where
  "draw_text_at cx y [] color bg n = n"
| "draw_text_at cx y (c # cs) color bg n =
     (let n1 = draw_char_at cx y c color bg n in draw_text_at (cx + nt_char_w n1) y cs color bg n1)"

definition str_px_width :: "string \<Rightarrow> neon_text_state \<Rightarrow> u32" where
  "str_px_width s n = of_nat (length s) * nt_char_w n"

definition clear_body_area_only :: "neon_text_state \<Rightarrow> neon_text_state" where
  "clear_body_area_only n = fill_rect (nt_body_x n) (nt_body_y n) (nt_body_w n) (nt_body_h n) (nt_panel_bg n) n"

section \<open>The scrollback\<close>

definition reset_scrollback :: "neon_text_state \<Rightarrow> neon_text_state" where
  "reset_scrollback n =
     n\<lparr>nt_line_start := 0, nt_line_count := 0, nt_current_len := 0, nt_view_offset := 0,
       nt_lines := replicate 96 [], nt_current_line := []\<rparr>"

definition push_completed_line :: "string \<Rightarrow> neon_text_state \<Rightarrow> neon_text_state" where
  "push_completed_line line n =
     (let (slot, n1) =
            (if nt_line_count n < NEON_SCROLLBACK_LINES
             then ((nt_line_start n + nt_line_count n) mod NEON_SCROLLBACK_LINES, n\<lparr>nt_line_count := nt_line_count n + 1\<rparr>)
             else (nt_line_start n, n\<lparr>nt_line_start := (nt_line_start n + 1) mod NEON_SCROLLBACK_LINES\<rparr>))
      in n1\<lparr>nt_lines := (nt_lines n1)[unat slot := copy_text (unat NEON_LINE_MAX) line]\<rparr>)"

definition line_at :: "neon_text_state \<Rightarrow> u32 \<Rightarrow> string" where
  "line_at n index =
     (if index < nt_line_count n then nt_lines n ! unat ((nt_line_start n + index) mod NEON_SCROLLBACK_LINES)
      else nt_current_line n)"

definition total_visible_source_lines :: "neon_text_state \<Rightarrow> u32" where
  "total_visible_source_lines n = nt_line_count n + 1"

definition max_scroll_offset :: "neon_text_state \<Rightarrow> u32" where
  "max_scroll_offset n =
     (let total = total_visible_source_lines n in if total \<le> nt_visible_rows n then 0 else total - nt_visible_rows n)"

definition clamp_scroll_offset :: "neon_text_state \<Rightarrow> neon_text_state" where
  "clamp_scroll_offset n =
     (if nt_view_offset n > max_scroll_offset n then n\<lparr>nt_view_offset := max_scroll_offset n\<rparr> else n)"

definition SCROLLBACK_NOTE :: string where
  "SCROLLBACK_NOTE = ''-- scrollback: PageDown to return / PageDown para volver --''"

text \<open>The rows left to draw, the index of the next line, and the height of the next row.\<close>

fun render_rows :: "nat \<Rightarrow> u32 \<Rightarrow> u32 \<Rightarrow> u32 \<Rightarrow> neon_text_state \<Rightarrow> neon_text_state" where
  "render_rows 0 src_index end_index y n = n"
| "render_rows (Suc k) src_index end_index y n =
     (if src_index \<ge> end_index \<or> y + nt_char_h n \<ge> nt_body_y n + nt_body_h n then n
      else render_rows k (src_index + 1) end_index (y + (nt_char_h n + 2))
             (draw_text_at (nt_body_x n + 12) y (line_at n src_index)
                (if nt_view_offset n > 0 then nt_dim n else nt_text n) (nt_panel_bg n) n))"

definition render_body :: "neon_text_state \<Rightarrow> neon_text_state" where
  "render_body n =
     (if \<not> nt_ready n then n
      else
        let n1 = clamp_scroll_offset (clear_body_area_only n);
            total = total_visible_source_lines n1;
            end_index = (if total > nt_view_offset n1 then total - nt_view_offset n1 else 0);
            start_index = (if end_index > nt_visible_rows n1 then end_index - nt_visible_rows n1 else 0);
            n2 = render_rows (unat (nt_visible_rows n1)) start_index end_index (nt_body_y n1 + 10) n1
        in if nt_view_offset n2 > 0
           then draw_text_at (nt_body_x n2 + 12) (nt_body_y n2 + nt_body_h n2 - nt_char_h n2 - 8) SCROLLBACK_NOTE
                  (nt_warning n2) (nt_panel_bg n2) n2
           else n2)"

definition newline :: "neon_text_state \<Rightarrow> neon_text_state" where
  "newline n =
     (let n1 = push_completed_line (nt_current_line n) n
      in n1\<lparr>nt_current_line := [], nt_current_len := 0, nt_view_offset := 0\<rparr>)"

definition append_char_to_current :: "char \<Rightarrow> neon_text_state \<Rightarrow> neon_text_state" where
  "append_char_to_current c n =
     (if nt_columns n = 0 then n
      else if c = CR \<or> c = CHR 0x00 then n
      else if c = LF then newline n
      else if c = CHR 0x08 then
        (let n1 = (if nt_current_len n > 0
                   then n\<lparr>nt_current_len := nt_current_len n - 1,
                          nt_current_line := take (unat (nt_current_len n - 1)) (nt_current_line n)\<rparr>
                   else n)
         in n1\<lparr>nt_view_offset := 0\<rparr>)
      else
        (let n1 = (if nt_current_len n + 1 \<ge> NEON_LINE_MAX \<or> nt_current_len n \<ge> nt_columns n then newline n else n);
             n2 = (if nt_current_len n1 + 1 < NEON_LINE_MAX
                   then n1\<lparr>nt_current_line := take (unat (nt_current_len n1)) (nt_current_line n1) @ [c],
                           nt_current_len := nt_current_len n1 + 1\<rparr>
                   else n1)
         in n2\<lparr>nt_view_offset := 0\<rparr>))"

section \<open>The layout\<close>

definition compute_layout :: "neon_text_state \<Rightarrow> neon_text_state" where
  "compute_layout n =
     (let sw = nt_screen_w n; sh = nt_screen_h n;
          pw = (if sw \<ge> 1280 then 1040 else if sw \<ge> 1024 then 900 else if sw > 80 then sw - 60 else sw);
          ph = (if sh \<ge> 800 then 640 else if sh \<ge> 600 then 500 else if sh > 80 then sh - 40 else sh);
          px = (if sw > pw then (sw - pw) div 2 else 0);
          py = (if sh > ph then (sh - ph) div 2 else 0);
          bw = (if pw > 24 then pw - 24 else pw);
          bh = (if ph > 92 then ph - 104 else ph);
          scale = (if sw \<ge> 1280 \<and> sh \<ge> 720 then 2 else 1);
          cw = 6 * scale + 2;
          ch = 8 * scale + 2;
          rows = (if bh > 24 then (bh - 20) div (ch + 2) else 1);
          cols = (if bw > 32 then (bw - 24) div cw else 1)
      in n\<lparr>nt_panel_w := pw, nt_panel_h := ph, nt_panel_x := px, nt_panel_y := py,
           nt_body_x := px + 12, nt_body_y := py + 72, nt_body_w := bw, nt_body_h := bh,
           nt_scale := scale, nt_char_w := cw, nt_char_h := ch,
           nt_visible_rows := (if rows = 0 then 1 else rows),
           nt_columns := (if cols \<ge> NEON_LINE_MAX then NEON_LINE_MAX - 1 else cols)\<rparr>)"

definition draw_controls :: "neon_text_state \<Rightarrow> neon_text_state" where
  "draw_controls n =
     (let control_w = 92; control_h = 24;
          control_y = nt_panel_y n + 10;
          power_x = nt_panel_x n + nt_panel_w n - control_w - 16;
          restart_x = power_x - control_w - 8;
          min_x = restart_x - control_w - 8;
          n1 = draw_box min_x control_y control_w control_h (nt_border n) (nt_bg n) n;
          n2 = draw_box restart_x control_y control_w control_h (nt_border n) (nt_bg n) n1;
          n3 = draw_box power_x control_y control_w control_h (nt_warning n) (nt_bg n) n2;
          n4 = draw_text_at (min_x + 18) (control_y + 7) ''MIN'' (nt_text n) (nt_bg n) n3;
          n5 = draw_text_at (restart_x + 14) (control_y + 7) ''RESTART'' (nt_text n) (nt_bg n) n4
      in draw_text_at (power_x + 18) (control_y + 7) ''POWER'' (nt_warning n) (nt_bg n) n5)"

definition draw_frame :: "neon_text_state \<Rightarrow> neon_text_state" where
  "draw_frame n =
     (let title_h = 42;
          px = nt_panel_x n; py = nt_panel_y n; pw = nt_panel_w n; ph = nt_panel_h n;
          n1 = fill_rect 0 0 (nt_screen_w n) (nt_screen_h n) (nt_bg n) n;
          n2 = draw_box px py pw ph (nt_border n) (nt_panel_bg n) n1;
          n3 = fill_rect (px + 2) (py + 2) (pw - 4) title_h (nt_title_bg n) n2;
          n4 = draw_hline px (py + title_h + 2) pw (nt_border n) n3;
          n5 = draw_text_at (px + 18) (py + 14) ''VITAOS TERMINAL'' (nt_text n) (nt_title_bg n) n4;
          n6 = draw_text_at (px + 18 + str_px_width ''VITAOS TERMINAL '' n) (py + 14) ''F1A/F1B'' (nt_dim n) (nt_title_bg n) n5;
          n7 = draw_text_at (px + 18) (py + 52) ''CENTERED NEON FRAMEBUFFER TERMINAL / TERMINAL NEON CENTRADA''
                 (nt_dim n) (nt_panel_bg n) (draw_controls n6);
          n8 = draw_box (nt_body_x n) (nt_body_y n) (nt_body_w n) (nt_body_h n) (nt_border n) (nt_panel_bg n) n7;
          n9 = draw_hline (nt_body_x n) (py + ph - 34) (nt_body_w n) (nt_border n) n8;
          n10 = draw_text_at (nt_body_x n + 10) (py + ph - 24) ''PROMPT >'' (nt_dim n) (nt_panel_bg n) n9
      in render_body n10)"

section \<open>The interface\<close>

text \<open>\<open>gop\<close> is the mode of the output protocol the firmware offers: none when it is missing or incomplete.\<close>

definition vita_uefi_neon_text_init :: "gop_mode option \<Rightarrow> neon_text_state \<Rightarrow> neon_text_state" where
  "vita_uefi_neon_text_init gop n =
     (let n0 = n\<lparr>nt_ready := False, nt_gop := None\<rparr> in
      case gop of None \<Rightarrow> n0
      | Some m \<Rightarrow>
          let n1 = n0\<lparr>nt_gop := gop, nt_screen_w := gm_width m, nt_screen_h := gm_height m, nt_stride := gm_stride m\<rparr> in
          if gm_width m < 320 \<or> gm_height m < 240 then n1\<lparr>nt_ready := False\<rparr>
          else
            let n2 = n1\<lparr>nt_bg := make_pixel gop 0 3 10, nt_panel_bg := make_pixel gop 0 10 22,
                  nt_title_bg := make_pixel gop 0 28 44, nt_border := make_pixel gop 0 210 255,
                  nt_text := make_pixel gop 120 240 255, nt_dim := make_pixel gop 30 125 160,
                  nt_warning := make_pixel gop 255 90 80\<rparr>;
                n3 = reset_scrollback (compute_layout n2)
            in draw_frame (n3\<lparr>nt_ready := True\<rparr>))"

definition vita_uefi_neon_text_write_raw :: "cstr \<Rightarrow> neon_text_state \<Rightarrow> neon_text_state" where
  "vita_uefi_neon_text_write_raw text n =
     (if \<not> nt_ready n then n
      else case text of None \<Rightarrow> n | Some t \<Rightarrow> render_body (fold append_char_to_current t n))"

definition vita_uefi_neon_text_write_line :: "cstr \<Rightarrow> neon_text_state \<Rightarrow> neon_text_state" where
  "vita_uefi_neon_text_write_line text n =
     (if \<not> nt_ready n then n
      else vita_uefi_neon_text_write_raw (Some [LF])
             (vita_uefi_neon_text_write_raw (Some (case text of None \<Rightarrow> [] | Some t \<Rightarrow> t)) n))"

definition vita_uefi_neon_text_clear :: "neon_text_state \<Rightarrow> neon_text_state" where
  "vita_uefi_neon_text_clear n = (if \<not> nt_ready n then n else draw_frame (reset_scrollback n))"

definition scroll_step :: "neon_text_state \<Rightarrow> u32" where
  "scroll_step n = (if nt_visible_rows n > 2 then nt_visible_rows n - 2 else 1)"

definition vita_uefi_neon_text_scroll_up :: "neon_text_state \<Rightarrow> neon_text_state" where
  "vita_uefi_neon_text_scroll_up n =
     (if \<not> nt_ready n then n
      else let max_offset = max_scroll_offset n in
        render_body (n\<lparr>nt_view_offset := (if nt_view_offset n + scroll_step n > max_offset then max_offset
                                            else nt_view_offset n + scroll_step n)\<rparr>))"

definition vita_uefi_neon_text_scroll_down :: "neon_text_state \<Rightarrow> neon_text_state" where
  "vita_uefi_neon_text_scroll_down n =
     (if \<not> nt_ready n then n
      else render_body (n\<lparr>nt_view_offset := (if nt_view_offset n \<le> scroll_step n then 0
                                               else nt_view_offset n - scroll_step n)\<rparr>))"

definition vita_uefi_neon_text_scroll_bottom :: "neon_text_state \<Rightarrow> neon_text_state" where
  "vita_uefi_neon_text_scroll_bottom n = (if \<not> nt_ready n then n else render_body (n\<lparr>nt_view_offset := 0\<rparr>))"

section \<open>Drawing changes the screen only\<close>

definition neon_cells :: "neon_text_state \<Rightarrow> nat set" where
  "neon_cells n = screen_cells (nt_screen_w n) (nt_screen_h n) (nt_stride n)"

text \<open>\<open>n'\<close> is \<open>n\<close> after drawing: another framebuffer that differs at screen cells only.\<close>

definition drawn :: "neon_text_state \<Rightarrow> neon_text_state \<Rightarrow> bool" where
  "drawn n n' \<longleftrightarrow> n' = n\<lparr>nt_fb := nt_fb n'\<rparr> \<and> paints (neon_cells n) (nt_fb n) (nt_fb n')"

named_theorems drawing \<open>operations that only draw\<close>

lemma drawn_refl: "drawn n n"
  by (simp add: drawn_def paints_refl)

lemma drawn_eq: "drawn n t \<Longrightarrow> \<exists>f. t = n\<lparr>nt_fb := f\<rparr>"
  by (auto simp: drawn_def)

lemma drawn_put_pixel [drawing]: "drawn n t \<Longrightarrow> drawn n (put_pixel x y c t)"
proof -
  assume d: "drawn n t"
  then obtain f where t: "t = n\<lparr>nt_fb := f\<rparr>" by (auto dest: drawn_eq)
  then have f: "paints (neon_cells n) (nt_fb n) f" using d by (simp add: drawn_def)
  show ?thesis
    using screen_cell [of x "nt_screen_w n" y "nt_screen_h n" "nt_stride n"] f
    by (auto simp: put_pixel_def t drawn_def neon_cells_def not_le intro: paints_upd)
qed

lemma drawn_fold [drawing]: "drawn n t \<Longrightarrow> (\<And>x u. drawn n u \<Longrightarrow> drawn n (g x u)) \<Longrightarrow> drawn n (fold g xs t)"
  by (induction xs arbitrary: t) simp_all

lemma drawn_if [drawing]: "(c \<Longrightarrow> drawn n p) \<Longrightarrow> (\<not> c \<Longrightarrow> drawn n q) \<Longrightarrow> drawn n (if c then p else q)"
  by simp

lemma drawn_rect [drawing]: "drawn n t \<Longrightarrow> drawn n (fill_rect x y w h c t)"
  unfolding fill_rect_def Let_def by (intro drawing)

lemma drawn_ruler [drawing]: "drawn n t \<Longrightarrow> drawn n (draw_hline x y w c t)" "drawn n t \<Longrightarrow> drawn n (draw_vline x y w c t)"
  unfolding draw_hline_def draw_vline_def by (intro drawing; assumption)+

lemma drawn_box [drawing]: "drawn n t \<Longrightarrow> drawn n (draw_box x y w h c d t)"
  unfolding draw_box_def by (intro drawing)

lemma drawn_char [drawing]: "drawn n t \<Longrightarrow> drawn n (draw_char_at x y c f g t)"
  unfolding draw_char_at_def Let_def by (intro drawing)

lemma drawn_text [drawing]: "drawn n t \<Longrightarrow> drawn n (draw_text_at x y ts f g t)"
  by (induction ts arbitrary: x t) (simp_all add: Let_def drawing)

lemma drawn_body [drawing]: "drawn n t \<Longrightarrow> drawn n (clear_body_area_only t)"
  unfolding clear_body_area_only_def by (intro drawing)

lemma drawn_rows [drawing]: "drawn n t \<Longrightarrow> drawn n (render_rows k i e y t)"
  by (induction k arbitrary: i y t) (simp_all add: drawing)

lemma drawn_controls [drawing]: "drawn n t \<Longrightarrow> drawn n (draw_controls t)"
  unfolding draw_controls_def Let_def by (intro drawing)

lemma drawn_trans: "drawn n t \<Longrightarrow> drawn t u \<Longrightarrow> drawn n u"
proof -
  assume d: "drawn n t" "drawn t u"
  obtain f g where "t = n\<lparr>nt_fb := f\<rparr>" "u = t\<lparr>nt_fb := g\<rparr>" using drawn_eq [OF d(1)] drawn_eq [OF d(2)] by blast
  then show ?thesis using d by (auto simp: drawn_def neon_cells_def intro: paints_trans)
qed

lemma drawn_render: "nt_ready n \<Longrightarrow> drawn (clamp_scroll_offset n) (render_body n)"
proof -
  assume r: "nt_ready n"
  obtain f where f: "clear_body_area_only n = n\<lparr>nt_fb := f\<rparr>" using drawn_eq [OF drawn_body [OF drawn_refl]] by auto
  have "drawn (clamp_scroll_offset n) (clamp_scroll_offset (clear_body_area_only n))"
    using drawn_body [OF drawn_refl, of n] f
    by (auto simp: drawn_def clamp_scroll_offset_def max_scroll_offset_def total_visible_source_lines_def neon_cells_def Let_def)
  then show ?thesis using r unfolding render_body_def Let_def by (simp add: drawing)
qed

end
