(* ===== verification/Neon_Terminal.thy ===== *)
theory Neon_Terminal
  imports Neon_Text
begin

text \<open>
  What the framebuffer terminal promises: its ring of 96 lines is the end of the history of an unbounded
  terminal, its window shows the lines it should, and its layout fits every screen it accepts.
\<close>

section \<open>A ring of the last lines\<close>

definition last_n :: "nat \<Rightarrow> 'a list \<Rightarrow> 'a list" where
  "last_n k xs = drop (length xs - k) xs"

lemma last_n_append: "last_n k (last_n k xs @ ys) = last_n k (xs @ ys)"
  by (cases "length xs \<le> k") (auto simp: last_n_def add.commute)

lemma last_n_short: "length xs \<le> k \<Longrightarrow> last_n k xs = xs"
  by (simp add: last_n_def)

definition ring :: "nat \<Rightarrow> 'a list \<Rightarrow> nat \<Rightarrow> nat \<Rightarrow> 'a list" where
  "ring N xs a k = map (\<lambda>i. xs ! ((a + i) mod N)) [0..<k]"

lemma ring_slot_less: "i < j \<Longrightarrow> j < (N::nat) \<Longrightarrow> (a + i) mod N \<noteq> (a + j) mod N"
  using mod_eq_dvd_iff_nat [of "a + i" "a + j" N] nat_dvd_not_less [of "j - i" N] by auto

lemma ring_push_room:
  assumes "length xs = N" "k < N"
  shows "ring N (xs[(a + k) mod N := l]) a (Suc k) = ring N xs a k @ [l]"
proof -
  have "(a + i) mod N \<noteq> (a + k) mod N" if "i < k" for i
    using ring_slot_less [of i k N a] that assms by simp
  then have "map (\<lambda>i. (xs[(a + k) mod N := l]) ! ((a + i) mod N)) [0..<k] = map (\<lambda>i. xs ! ((a + i) mod N)) [0..<k]"
    by (intro map_cong refl nth_list_update_neq) (metis atLeastLessThan_iff set_upt)
  moreover have "(a + k) mod N < length xs" using assms by simp
  ultimately show ?thesis by (simp add: ring_def)
qed

lemma ring_push_full:
  assumes "length xs = N" "a < N"
  shows "ring N (xs[a := l]) ((a + 1) mod N) N = tl (ring N xs a N) @ [l]"
proof (rule nth_equalityI)
  have N: "0 < N" using assms by simp
  show "length (ring N (xs[a := l]) ((a + 1) mod N) N) = length (tl (ring N xs a N) @ [l])"
    using N by (simp add: ring_def)
  fix i assume "i < length (ring N (xs[a := l]) ((a + 1) mod N) N)"
  then have i: "i < N" by (simp add: ring_def)
  have slot: "((a + 1) mod N + i) mod N = (a + Suc i) mod N" by (simp add: mod_simps)
  show "ring N (xs[a := l]) ((a + 1) mod N) N ! i = (tl (ring N xs a N) @ [l]) ! i"
  proof (cases "Suc i < N")
    case True
    then have "(a + 0) mod N \<noteq> (a + Suc i) mod N" by (intro ring_slot_less) simp_all
    then have "(a + Suc i) mod N \<noteq> a" using assms by simp
    moreover have "i < N - 1" using True by simp
    ultimately show ?thesis using True slot by (simp add: ring_def nth_append nth_tl)
  next
    case False
    then have "Suc i = N" using i by simp
    then have "(a + Suc i) mod N = a" "i = N - 1" using assms by simp_all
    then show ?thesis using slot i assms by (simp add: ring_def nth_append)
  qed
qed

section \<open>The state of the terminal\<close>

definition neon_typed :: "neon_text_state \<Rightarrow> bool" where
  "neon_typed n \<longleftrightarrow>
     length (nt_lines n) = 96 \<and> list_all (\<lambda>l. length l < 132) (nt_lines n) \<and>
     unat (nt_line_start n) < 96 \<and> unat (nt_line_count n) \<le> 96 \<and>
     length (nt_current_line n) = unat (nt_current_len n) \<and> unat (nt_current_len n) < 132 \<and>
     unat (nt_columns n) < 132"

text \<open>The completed lines the terminal holds, the oldest first.\<close>

definition neon_history :: "neon_text_state \<Rightarrow> string list" where
  "neon_history n = ring 96 (nt_lines n) (unat (nt_line_start n)) (unat (nt_line_count n))"

lemma unat_u32_less: "unat (x :: u32) < 2 ^ 32"
  using unsigned_less [of x] by simp

lemma unat_small_plus: "unat a + unat b < 2 ^ 32 \<Longrightarrow> unat ((a :: u32) + b) = unat a + unat b"
  by (simp add: unat_word_ariths)

lemma unat_slot:
  fixes a b :: u32
  shows "unat a < 96 \<Longrightarrow> unat b \<le> 96 \<Longrightarrow> unat ((a + b) mod NEON_SCROLLBACK_LINES) = (unat a + unat b) mod 96"
  by (simp add: NEON_SCROLLBACK_LINES_def unat_mod unat_small_plus)

lemma list_all_update: "list_all P xs \<Longrightarrow> P l \<Longrightarrow> list_all P (xs[i := l])"
  by (auto simp: list_all_iff dest!: subsetD [OF set_update_subset_insert])

lemma push_history:
  assumes "neon_typed n" "length line < 132"
  shows "neon_history (push_completed_line line n) = last_n 96 (neon_history n @ [line])" (is ?history)
    and "neon_typed (push_completed_line line n)" (is ?typed)
proof -
  let ?a = "unat (nt_line_start n)" and ?k = "unat (nt_line_count n)"
  have line: "copy_text (unat NEON_LINE_MAX) line = line"
    using assms(2) by (simp add: NEON_LINE_MAX_def str_copy_take)
  have len: "length (neon_history n) = ?k" by (simp add: neon_history_def ring_def)
  have "?history \<and> ?typed"
  proof (cases "?k < 96")
    case True
    then have "nt_line_count n < NEON_SCROLLBACK_LINES" by (simp add: NEON_SCROLLBACK_LINES_def word_less_nat_alt)
    moreover have "unat (nt_line_count n + 1) = Suc ?k" using True unat_small_plus [of "nt_line_count n" 1] by simp
    ultimately show ?thesis
      using assms True len ring_push_room [of "nt_lines n" 96 ?k ?a line] unat_slot [of "nt_line_start n" "nt_line_count n"]
      by (simp add: push_completed_line_def neon_typed_def neon_history_def line last_n_short list_all_update)
  next
    case False
    then have k: "?k = 96" using assms(1) by (simp add: neon_typed_def)
    then have "\<not> nt_line_count n < NEON_SCROLLBACK_LINES" by (simp add: NEON_SCROLLBACK_LINES_def word_less_nat_alt)
    moreover have "last_n 96 (neon_history n @ [line]) = tl (neon_history n) @ [line]"
      using len k by (simp add: last_n_def drop_Suc)
    ultimately show ?thesis
      using assms k ring_push_full [of "nt_lines n" 96 ?a line] unat_slot [of "nt_line_start n" 1]
      by (simp add: push_completed_line_def neon_typed_def neon_history_def line list_all_update)
  qed
  then show ?history ?typed by simp_all
qed

section \<open>An unbounded terminal\<close>

text \<open>All completed lines and the line being written; a line has room for \<open>columns\<close> characters.\<close>

fun feed :: "nat \<Rightarrow> char \<Rightarrow> string list \<times> string \<Rightarrow> string list \<times> string" where
  "feed columns c (lines, cur) =
     (if c = CR \<or> c = NUL then (lines, cur)
      else if c = LF then (lines @ [cur], [])
      else if c = CHR 0x08 then (lines, butlast cur)
      else if length cur \<ge> columns then (lines @ [cur], [c])
      else (lines, cur @ [c]))"

definition displays :: "neon_text_state \<Rightarrow> string list \<times> string \<Rightarrow> bool" where
  "displays n t \<longleftrightarrow> neon_typed n \<and> neon_history n = last_n 96 (fst t) \<and> nt_current_line n = snd t"

lemma newline_shows:
  assumes "displays n (lines, cur)"
  shows "displays (newline n) (lines @ [cur], [])"
proof -
  have t: "neon_typed n" "nt_current_line n = cur" "neon_history n = last_n 96 lines" "length cur < 132"
    using assms by (auto simp: displays_def neon_typed_def)
  note p = push_history [OF t(1,4)]
  have "neon_history (newline n) = neon_history (push_completed_line cur n)"
    by (simp add: newline_def Let_def t(2) neon_history_def)
  moreover have "neon_typed (newline n)" using p(2) by (simp add: newline_def Let_def t(2) neon_typed_def)
  ultimately show ?thesis using p(1) t(3) by (simp add: displays_def last_n_append newline_def Let_def)
qed

lemma newline_sel [simp]:
  "nt_columns (newline n) = nt_columns n" "nt_current_len (newline n) = 0" "nt_current_line (newline n) = []"
  by (simp_all add: newline_def push_completed_line_def Let_def)

lemma append_columns [simp]: "nt_columns (append_char_to_current c n) = nt_columns n"
  by (simp add: append_char_to_current_def Let_def)

lemma shows_write:
  assumes "displays n (lines, cur)" "unat (nt_current_len n) < 131"
  shows "displays (n\<lparr>nt_current_line := take (unat (nt_current_len n)) (nt_current_line n) @ [c],
           nt_current_len := nt_current_len n + 1, nt_view_offset := 0\<rparr>) (lines, cur @ [c])"
proof -
  have "unat (nt_current_len n + 1) = Suc (unat (nt_current_len n))"
    using assms(2) unat_small_plus [of "nt_current_len n" 1] by simp
  then show ?thesis using assms by (auto simp: displays_def neon_typed_def neon_history_def)
qed

lemma append_shows:
  assumes "displays n (lines, cur)" "0 < unat (nt_columns n)"
  shows "displays (append_char_to_current c n) (feed (unat (nt_columns n)) c (lines, cur))"
proof -
  have t: "length cur = unat (nt_current_len n)" "unat (nt_current_len n) < 132" "unat (nt_columns n) < 132" "nt_current_line n = cur"
    using assms(1) by (auto simp: displays_def neon_typed_def)
  have col: "nt_columns n \<noteq> 0" using assms(2) by auto
  consider "c = CR \<or> c = NUL" | "c = LF" | "c = CHR 0x08" | "c \<notin> {CR, NUL, LF, CHR 0x08}" by blast
  then show ?thesis
  proof cases
    case 1
    then show ?thesis using assms(1) col by (auto simp: append_char_to_current_def)
  next
    case 2
    then show ?thesis using newline_shows [OF assms(1)] col by (simp add: append_char_to_current_def)
  next
    case 3
    show ?thesis
    proof (cases "nt_current_len n = 0")
      case True
      then show ?thesis using 3 assms(1) col t
        by (simp add: append_char_to_current_def displays_def neon_typed_def neon_history_def)
    next
      case False
      then have "unat (nt_current_len n - 1) = unat (nt_current_len n) - 1"
        by (intro unat_minus_one) simp
      then show ?thesis using 3 False assms(1) col t
        by (simp add: append_char_to_current_def displays_def neon_typed_def neon_history_def butlast_conv_take word_greater_zero_iff)
    qed
  next
    case 4
    define n1 where "n1 = (if nt_current_len n + 1 \<ge> NEON_LINE_MAX \<or> nt_current_len n \<ge> nt_columns n then newline n else n)"
    have len: "unat (nt_current_len n + 1) = Suc (unat (nt_current_len n))"
      using t(2) unat_small_plus [of "nt_current_len n" 1] by simp
    have full: "nt_current_len n + 1 \<ge> NEON_LINE_MAX \<or> nt_current_len n \<ge> nt_columns n \<longleftrightarrow> length cur \<ge> unat (nt_columns n)"
      using t len by (auto simp: NEON_LINE_MAX_def word_le_nat_alt)
    have n1: "displays n1 (if length cur \<ge> unat (nt_columns n) then (lines @ [cur], []) else (lines, cur))"
      unfolding n1_def full using newline_shows [OF assms(1)] assms(1) by simp
    have room: "unat (nt_current_len n1) < 131" using t full by (auto simp: n1_def)
    then have "nt_current_len n1 + 1 < NEON_LINE_MAX"
      using unat_small_plus [of "nt_current_len n1" 1] by (simp add: NEON_LINE_MAX_def word_less_nat_alt)
    then have "append_char_to_current c n = n1\<lparr>nt_current_line := take (unat (nt_current_len n1)) (nt_current_line n1) @ [c],
           nt_current_len := nt_current_len n1 + 1, nt_view_offset := 0\<rparr>"
      using 4 col by (simp add: append_char_to_current_def n1_def [symmetric] Let_def)
    then show ?thesis using 4 shows_write [OF _ room, of "lines @ [cur]" "[]" c] shows_write [OF _ room, of lines cur c] n1
      by (simp split: if_splits)
  qed
qed

declare feed.simps [simp del]

lemma append_all_shows:
  "displays n t \<Longrightarrow> 0 < unat (nt_columns n) \<Longrightarrow>
    displays (fold append_char_to_current ts n) (fold (feed (unat (nt_columns n))) ts t)"
proof (induction ts arbitrary: n t)
  case (Cons c ts)
  have "displays (append_char_to_current c n) (feed (unat (nt_columns n)) c t)"
    using append_shows [of n "fst t" "snd t" c] Cons.prems by simp
  from Cons.IH [OF this] show ?case using Cons.prems by simp
qed simp

section \<open>Calls\<close>

datatype neon_call = WRITE_RAW cstr | WRITE_LINE cstr | CLEAR | SCROLL_UP | SCROLL_DOWN | SCROLL_BOTTOM

fun neon_do :: "neon_call \<Rightarrow> neon_text_state \<Rightarrow> neon_text_state" where
  "neon_do (WRITE_RAW t) n = vita_uefi_neon_text_write_raw t n"
| "neon_do (WRITE_LINE t) n = vita_uefi_neon_text_write_line t n"
| "neon_do CLEAR n = vita_uefi_neon_text_clear n"
| "neon_do SCROLL_UP n = vita_uefi_neon_text_scroll_up n"
| "neon_do SCROLL_DOWN n = vita_uefi_neon_text_scroll_down n"
| "neon_do SCROLL_BOTTOM n = vita_uefi_neon_text_scroll_bottom n"

fun terminal_do :: "nat \<Rightarrow> neon_call \<Rightarrow> string list \<times> string \<Rightarrow> string list \<times> string" where
  "terminal_do columns (WRITE_RAW t) term = (case t of None \<Rightarrow> term | Some s \<Rightarrow> fold (feed columns) s term)"
| "terminal_do columns (WRITE_LINE t) term =
     feed columns LF (fold (feed columns) (case t of None \<Rightarrow> [] | Some s \<Rightarrow> s) term)"
| "terminal_do columns CLEAR term = ([], [])"
| "terminal_do columns _ term = term"

text \<open>The state without the text, the window and the framebuffer: what \<open>vita_uefi_neon_text_init\<close> sets up.\<close>

definition neon_setup :: "neon_text_state \<Rightarrow> neon_text_state" where
  "neon_setup n =
     n\<lparr>nt_line_start := 0, nt_line_count := 0, nt_current_len := 0, nt_view_offset := 0, nt_lines := [],
       nt_current_line := [], nt_fb := (\<lambda>_. 0)\<rparr>"

definition kept :: "neon_text_state \<Rightarrow> neon_text_state \<Rightarrow> bool" where
  "kept n n' \<longleftrightarrow> neon_setup n' = neon_setup n \<and> paints (neon_cells n) (nt_fb n) (nt_fb n')"

lemma setup_sel:
  "neon_setup n' = neon_setup n \<Longrightarrow> nt_ready n' = nt_ready n" "neon_setup n' = neon_setup n \<Longrightarrow> nt_columns n' = nt_columns n"
  "neon_setup n' = neon_setup n \<Longrightarrow> neon_cells n' = neon_cells n"
proof -
  assume e: "neon_setup n' = neon_setup n"
  show "nt_ready n' = nt_ready n" using arg_cong [OF e, of nt_ready] by (simp add: neon_setup_def)
  show "nt_columns n' = nt_columns n" using arg_cong [OF e, of nt_columns] by (simp add: neon_setup_def)
  show "neon_cells n' = neon_cells n" using arg_cong [OF e, of neon_cells] by (simp add: neon_setup_def neon_cells_def)
qed

lemma kept_refl: "kept n n"
  by (simp add: kept_def paints_refl)

lemma kept_trans: "kept n t \<Longrightarrow> kept t u \<Longrightarrow> kept n u"
  unfolding kept_def by (metis paints_trans setup_sel(3))

lemma drawn_kept: "drawn n t \<Longrightarrow> kept n t"
proof -
  assume d: "drawn n t"
  then obtain f where "t = n\<lparr>nt_fb := f\<rparr>" by (auto dest: drawn_eq)
  then show ?thesis using d by (simp add: kept_def drawn_def neon_setup_def)
qed

lemma drawn_displays: "drawn n t \<Longrightarrow> displays n x \<Longrightarrow> displays t x"
  by (auto simp: displays_def neon_typed_def neon_history_def dest!: drawn_eq)

lemma render_idle: "\<not> nt_ready n \<Longrightarrow> render_body n = n"
  by (simp add: render_body_def)

lemma offset_kept: "kept n (n\<lparr>nt_view_offset := v\<rparr>)" "displays (n\<lparr>nt_view_offset := v\<rparr>) x = displays n x"
  by (simp_all add: kept_def neon_setup_def paints_refl displays_def neon_typed_def neon_history_def)

lemma render_kept: "kept n (render_body n)" "displays n x \<Longrightarrow> displays (render_body n) x"
proof -
  have c: "kept n (clamp_scroll_offset n)" "displays (clamp_scroll_offset n) x = displays n x"
    by (simp_all add: clamp_scroll_offset_def offset_kept kept_refl)
  show "kept n (render_body n)"
    by (cases "nt_ready n") (auto intro: kept_trans [OF c(1)] drawn_kept drawn_render simp: kept_refl render_idle)
  show "displays n x \<Longrightarrow> displays (render_body n) x"
    using c(2) by (cases "nt_ready n") (auto intro: drawn_displays [OF drawn_render] simp: render_idle)
qed

lemma field_kept:
  "kept n t \<Longrightarrow> kept n (t\<lparr>nt_line_start := a\<rparr>)" "kept n t \<Longrightarrow> kept n (t\<lparr>nt_line_count := a\<rparr>)"
  "kept n t \<Longrightarrow> kept n (t\<lparr>nt_current_len := a\<rparr>)" "kept n t \<Longrightarrow> kept n (t\<lparr>nt_view_offset := a\<rparr>)"
  "kept n t \<Longrightarrow> kept n (t\<lparr>nt_lines := ls\<rparr>)" "kept n t \<Longrightarrow> kept n (t\<lparr>nt_current_line := l\<rparr>)"
  by (simp_all add: kept_def neon_setup_def)

lemma kept_flow:
  "(c \<Longrightarrow> kept n p) \<Longrightarrow> (\<not> c \<Longrightarrow> kept n q) \<Longrightarrow> kept n (if c then p else q)"
  "kept n t \<Longrightarrow> (\<And>u. kept n u \<Longrightarrow> kept n (f u)) \<Longrightarrow> kept n (Let t f)"
  "kept n (snd w) \<Longrightarrow> (\<And>r u. kept n u \<Longrightarrow> kept n (g r u)) \<Longrightarrow> kept n (Let w (case_prod g))"
  "(c \<Longrightarrow> kept n (snd v)) \<Longrightarrow> (\<not> c \<Longrightarrow> kept n (snd w)) \<Longrightarrow> kept n (snd (if c then v else w))"
  "kept n u \<Longrightarrow> kept n (snd (r, u))"
  by (simp_all add: case_prod_beta)

lemma newline_kept: "kept n t \<Longrightarrow> kept n (newline t)"
  unfolding newline_def push_completed_line_def by (intro kept_flow field_kept)

lemma append_kept: "kept n (append_char_to_current c n)"
  unfolding append_char_to_current_def by (intro kept_flow field_kept newline_kept kept_refl)

lemma fold_kept: "kept n (fold append_char_to_current ts n)"
  by (induction ts arbitrary: n) (auto intro: kept_refl kept_trans append_kept)

lemma frame_kept: "kept n (draw_frame n)" "displays n x \<Longrightarrow> displays (draw_frame n) x"
proof -
  define t where "t = (draw_text_at (nt_body_x n + 10) (nt_panel_y n + nt_panel_h n - 24) ''PROMPT >'' (nt_dim n) (nt_panel_bg n)
      (draw_hline (nt_body_x n) (nt_panel_y n + nt_panel_h n - 34) (nt_body_w n) (nt_border n)
        (draw_box (nt_body_x n) (nt_body_y n) (nt_body_w n) (nt_body_h n) (nt_border n) (nt_panel_bg n)
         (draw_text_at (nt_panel_x n + 18) (nt_panel_y n + 52) ''CENTERED NEON FRAMEBUFFER TERMINAL / TERMINAL NEON CENTRADA''
           (nt_dim n) (nt_panel_bg n) (draw_controls
          (draw_text_at (nt_panel_x n + 18 + str_px_width ''VITAOS TERMINAL '' n) (nt_panel_y n + 14) ''F1A/F1B'' (nt_dim n) (nt_title_bg n)
            (draw_text_at (nt_panel_x n + 18) (nt_panel_y n + 14) ''VITAOS TERMINAL'' (nt_text n) (nt_title_bg n)
              (draw_hline (nt_panel_x n) (nt_panel_y n + 42 + 2) (nt_panel_w n) (nt_border n)
                (fill_rect (nt_panel_x n + 2) (nt_panel_y n + 2) (nt_panel_w n - 4) 42 (nt_title_bg n)
                  (draw_box (nt_panel_x n) (nt_panel_y n) (nt_panel_w n) (nt_panel_h n) (nt_border n) (nt_panel_bg n)
                    (fill_rect 0 0 (nt_screen_w n) (nt_screen_h n) (nt_bg n) n)))))))))))"
  have d: "drawn n t" unfolding t_def by (intro drawing drawn_refl)
  have f: "draw_frame n = render_body t" unfolding draw_frame_def Let_def t_def by (rule refl)
  show "kept n (draw_frame n)" unfolding f by (rule kept_trans [OF drawn_kept [OF d] render_kept(1)])
  show "displays n x \<Longrightarrow> displays (draw_frame n) x" unfolding f by (intro render_kept(2) drawn_displays [OF d])
qed

lemma reset_kept: "kept n (reset_scrollback n)"
  by (simp add: kept_def reset_scrollback_def neon_setup_def paints_refl)

lemma reset_displays: "unat (nt_columns n) < 132 \<Longrightarrow> displays (reset_scrollback n) ([], [])"
  by (simp add: displays_def reset_scrollback_def neon_typed_def neon_history_def ring_def last_n_def list_all_iff)

lemma write_kept: "kept n (vita_uefi_neon_text_write_raw t n)"
  by (auto simp: vita_uefi_neon_text_write_raw_def kept_refl intro: kept_trans fold_kept render_kept(1) split: option.split)

lemma do_kept: "kept n (neon_do call n)"
proof (cases call)
  case (WRITE_LINE t)
  then show ?thesis by (auto simp: vita_uefi_neon_text_write_line_def kept_refl intro: kept_trans write_kept)
qed (auto simp: write_kept vita_uefi_neon_text_clear_def vita_uefi_neon_text_scroll_up_def vita_uefi_neon_text_scroll_down_def
    vita_uefi_neon_text_scroll_bottom_def kept_refl Let_def
    intro: kept_trans [OF reset_kept] kept_trans [OF offset_kept(1)] frame_kept(1) render_kept(1))

lemma run_kept: "kept n (fold neon_do calls n)"
  by (induction calls arbitrary: n) (auto intro: kept_refl kept_trans do_kept)

lemma write_displays:
  assumes "displays n t" "nt_ready n" "0 < unat (nt_columns n)"
  shows "displays (vita_uefi_neon_text_write_raw (Some s) n) (fold (feed (unat (nt_columns n))) s t)"
  using assms by (simp add: vita_uefi_neon_text_write_raw_def render_kept(2) append_all_shows)

lemma do_displays:
  assumes "displays n t" "nt_ready n" "0 < unat (nt_columns n)"
  shows "displays (neon_do call n) (terminal_do (unat (nt_columns n)) call t)"
proof (cases call)
  case (WRITE_RAW s)
  then show ?thesis using assms write_displays [OF assms]
    by (cases s) (simp_all add: vita_uefi_neon_text_write_raw_def [of None])
next
  case (WRITE_LINE s)
  define n1 where "n1 = vita_uefi_neon_text_write_raw (Some (case s of None \<Rightarrow> [] | Some l \<Rightarrow> l)) n"
  have k: "neon_setup n1 = neon_setup n" using write_kept unfolding n1_def kept_def by blast
  have "displays n1 (fold (feed (unat (nt_columns n))) (case s of None \<Rightarrow> [] | Some l \<Rightarrow> l) t)"
    unfolding n1_def by (rule write_displays [OF assms])
  from write_displays [OF this, of "[LF]"] show ?thesis
    using WRITE_LINE assms(2,3) setup_sel [OF k] by (simp add: vita_uefi_neon_text_write_line_def n1_def)
next
  case CLEAR
  have "unat (nt_columns n) < 132" using assms(1) by (simp add: displays_def neon_typed_def)
  then show ?thesis using CLEAR assms(2) by (simp add: vita_uefi_neon_text_clear_def frame_kept(2) reset_displays)
qed (use assms in \<open>simp_all add: vita_uefi_neon_text_scroll_up_def vita_uefi_neon_text_scroll_down_def
    vita_uefi_neon_text_scroll_bottom_def Let_def render_kept(2) offset_kept(2)\<close>)

lemma run_displays:
  "displays n t \<Longrightarrow> nt_ready n \<Longrightarrow> 0 < unat (nt_columns n) \<Longrightarrow>
    displays (fold neon_do calls n) (fold (terminal_do (unat (nt_columns n))) calls t)"
proof (induction calls arbitrary: n t)
  case (Cons call calls)
  have "neon_setup (neon_do call n) = neon_setup n" using do_kept unfolding kept_def by blast
  note k = setup_sel [OF this]
  have "displays (neon_do call n) (terminal_do (unat (nt_columns n)) call t)" using Cons.prems by (rule do_displays)
  from Cons.IH [OF this] show ?case using Cons.prems k by simp
qed simp

lemma run_idle: "\<not> nt_ready n \<Longrightarrow> fold neon_do calls n = n"
proof (induction calls)
  case (Cons call calls)
  then show ?case
    by (cases call) (simp_all add: vita_uefi_neon_text_write_raw_def vita_uefi_neon_text_write_line_def vita_uefi_neon_text_clear_def
        vita_uefi_neon_text_scroll_up_def vita_uefi_neon_text_scroll_down_def vita_uefi_neon_text_scroll_bottom_def)
qed simp

section \<open>The layout\<close>

lemma unat_minus: "b \<le> a \<Longrightarrow> unat ((a :: u32) - b) = unat a - unat b"
  by (rule unat_sub)

text \<open>The sizes of the panel, as numbers.\<close>

lemma layout_panel:
  fixes n :: neon_text_state
  assumes "320 \<le> nt_screen_w n" "240 \<le> nt_screen_h n"
  defines "t \<equiv> compute_layout n" and "w \<equiv> unat (nt_screen_w n)" and "h \<equiv> unat (nt_screen_h n)"
  shows "unat (nt_panel_w t) = (if w \<ge> 1280 then 1040 else if w \<ge> 1024 then 900 else w - 60)"
    and "unat (nt_panel_h t) = (if h \<ge> 800 then 640 else if h \<ge> 600 then 500 else h - 40)"
    and "unat (nt_panel_x t) = (w - unat (nt_panel_w t)) div 2"
    and "unat (nt_panel_y t) = (h - unat (nt_panel_h t)) div 2"
proof -
  have w: "320 \<le> w" "h \<ge> 240" using assms(1,2) by (simp_all add: w_def h_def word_le_nat_alt)
  show pw: "unat (nt_panel_w t) = (if w \<ge> 1280 then 1040 else if w \<ge> 1024 then 900 else w - 60)"
    using w by (simp add: t_def compute_layout_def Let_def w_def word_le_nat_alt word_less_nat_alt unat_minus)
  show ph: "unat (nt_panel_h t) = (if h \<ge> 800 then 640 else if h \<ge> 600 then 500 else h - 40)"
    using w by (simp add: t_def compute_layout_def Let_def h_def word_le_nat_alt word_less_nat_alt unat_minus)
  have "nt_panel_x t = (if nt_screen_w n > nt_panel_w t then (nt_screen_w n - nt_panel_w t) div 2 else 0)"
    "nt_panel_y t = (if nt_screen_h n > nt_panel_h t then (nt_screen_h n - nt_panel_h t) div 2 else 0)"
    by (simp_all add: t_def compute_layout_def Let_def)
  then show "unat (nt_panel_x t) = (w - unat (nt_panel_w t)) div 2" "unat (nt_panel_y t) = (h - unat (nt_panel_h t)) div 2"
    by (simp_all add: unat_div unat_minus word_less_nat_alt word_le_nat_alt w_def h_def)
qed

lemma layout_body:
  fixes n :: neon_text_state
  assumes "320 \<le> nt_screen_w n" "240 \<le> nt_screen_h n"
  defines "t \<equiv> compute_layout n"
  shows "unat (nt_body_x t) = unat (nt_panel_x t) + 12" and "unat (nt_body_y t) = unat (nt_panel_y t) + 72"
    and "unat (nt_body_w t) = unat (nt_panel_w t) - 24" and "unat (nt_body_h t) = unat (nt_panel_h t) - 104"
    and "260 \<le> unat (nt_panel_w t)" and "200 \<le> unat (nt_panel_h t)"
    and "unat (nt_panel_x t) + unat (nt_panel_w t) \<le> unat (nt_screen_w n)"
    and "unat (nt_panel_y t) + unat (nt_panel_h t) \<le> unat (nt_screen_h n)"
proof -
  note l = layout_panel [OF assms(1,2), folded t_def]
  have wh: "320 \<le> unat (nt_screen_w n)" "240 \<le> unat (nt_screen_h n)" using assms(1,2) by (simp_all add: word_le_nat_alt)
  have lt: "unat (nt_screen_w n) < 2 ^ 32" "unat (nt_screen_h n) < 2 ^ 32"
    using unsigned_less [of "nt_screen_w n"] unsigned_less [of "nt_screen_h n"] by simp_all
  show pw: "260 \<le> unat (nt_panel_w t)" using l(1) wh by (auto split: if_splits)
  show ph: "200 \<le> unat (nt_panel_h t)" using l(2) wh by (auto split: if_splits)
  have le: "unat (nt_panel_w t) \<le> unat (nt_screen_w n)" "unat (nt_panel_h t) \<le> unat (nt_screen_h n)"
    using l(1,2) wh by (auto split: if_splits)
  show x: "unat (nt_panel_x t) + unat (nt_panel_w t) \<le> unat (nt_screen_w n)" using l(3) le(1) by arith
  show y: "unat (nt_panel_y t) + unat (nt_panel_h t) \<le> unat (nt_screen_h n)" using l(4) le(2) by arith
  have b: "nt_body_x t = nt_panel_x t + 12" "nt_body_y t = nt_panel_y t + 72"
    "nt_body_w t = (if nt_panel_w t > 24 then nt_panel_w t - 24 else nt_panel_w t)"
    "nt_body_h t = (if nt_panel_h t > 92 then nt_panel_h t - 104 else nt_panel_h t)"
    by (simp_all add: t_def compute_layout_def Let_def)
  show "unat (nt_body_x t) = unat (nt_panel_x t) + 12" unfolding b(1) using x lt(1) pw by (subst unat_small_plus) simp_all
  show "unat (nt_body_y t) = unat (nt_panel_y t) + 72" unfolding b(2) using y lt(2) ph by (subst unat_small_plus) simp_all
  show "unat (nt_body_w t) = unat (nt_panel_w t) - 24" unfolding b(3) using pw by (simp add: unat_minus word_less_nat_alt word_le_nat_alt)
  show "unat (nt_body_h t) = unat (nt_panel_h t) - 104" unfolding b(4) using ph by (simp add: unat_minus word_less_nat_alt word_le_nat_alt)
qed

lemma layout_text:
  fixes n :: neon_text_state
  assumes "320 \<le> nt_screen_w n" "240 \<le> nt_screen_h n"
  defines "t \<equiv> compute_layout n"
  shows "nt_char_w t = 8 \<and> nt_char_h t = 10 \<or> nt_char_w t = 14 \<and> nt_char_h t = 18"
    and "0 < unat (nt_visible_rows t)" and "20 + unat (nt_visible_rows t) * (unat (nt_char_h t) + 2) \<le> unat (nt_body_h t)"
    and "0 < unat (nt_columns t)" and "unat (nt_columns t) < 132" and "24 + unat (nt_columns t) * unat (nt_char_w t) \<le> unat (nt_body_w t)"
proof -
  note l = layout_body [OF assms(1,2), folded t_def]
  show c: "nt_char_w t = 8 \<and> nt_char_h t = 10 \<or> nt_char_w t = 14 \<and> nt_char_h t = 18"
    by (simp add: t_def compute_layout_def Let_def)
  then have cu: "unat (nt_char_w t) \<le> 14" "unat (nt_char_h t + 2) = unat (nt_char_h t) + 2" "0 < unat (nt_char_w t)"
    "unat (nt_char_h t) \<le> 18" by auto
  have bw: "236 \<le> unat (nt_body_w t)" "96 \<le> unat (nt_body_h t)" using l by simp_all
  have r: "nt_visible_rows t = (let rows = (if nt_body_h t > 24 then (nt_body_h t - 20) div (nt_char_h t + 2) else 1) in if rows = 0 then 1 else rows)"
    "nt_columns t = (let cols = (if nt_body_w t > 32 then (nt_body_w t - 24) div nt_char_w t else 1) in if cols \<ge> NEON_LINE_MAX then NEON_LINE_MAX - 1 else cols)"
    by (simp_all add: t_def compute_layout_def Let_def)
  define rows where "rows = (unat (nt_body_h t) - 20) div (unat (nt_char_h t) + 2)"
  have "3 * (unat (nt_char_h t) + 2) \<le> 60" using cu(4) by simp
  also have "60 \<le> unat (nt_body_h t) - 20" using bw by simp
  finally have "3 * (unat (nt_char_h t) + 2) \<le> unat (nt_body_h t) - 20" .
  then have r3: "3 \<le> rows" unfolding rows_def by (subst less_eq_div_iff_mult_less_eq) simp_all
  have ur: "unat ((nt_body_h t - 20) div (nt_char_h t + 2)) = rows"
    using bw cu(2) by (simp add: rows_def unat_div unat_minus word_le_nat_alt)
  have vr: "unat (nt_visible_rows t) = rows"
    using r(1) ur r3 bw by (auto simp: Let_def word_less_nat_alt)
  show "0 < unat (nt_visible_rows t)" using vr r3 by simp
  have "rows * (unat (nt_char_h t) + 2) \<le> unat (nt_body_h t) - 20" unfolding rows_def by (rule div_times_less_eq_dividend)
  then show "20 + unat (nt_visible_rows t) * (unat (nt_char_h t) + 2) \<le> unat (nt_body_h t)" using vr bw by simp
  define cols where "cols = (unat (nt_body_w t) - 24) div unat (nt_char_w t)"
  have "1 * unat (nt_char_w t) \<le> unat (nt_body_w t) - 24" using cu bw by simp
  then have c1: "1 \<le> cols" unfolding cols_def using cu(3) by (subst less_eq_div_iff_mult_less_eq) simp_all
  have uc: "unat ((nt_body_w t - 24) div nt_char_w t) = cols" using bw by (simp add: cols_def unat_div unat_minus word_le_nat_alt)
  have vc: "unat (nt_columns t) = min 131 cols"
    using r(2) uc bw by (auto simp: Let_def word_less_nat_alt word_le_nat_alt NEON_LINE_MAX_def)
  show "0 < unat (nt_columns t)" "unat (nt_columns t) < 132" using vc c1 by simp_all
  have "min 131 cols * unat (nt_char_w t) \<le> cols * unat (nt_char_w t)" by simp
  also have "\<dots> \<le> unat (nt_body_w t) - 24" unfolding cols_def by (rule div_times_less_eq_dividend)
  finally show "24 + unat (nt_columns t) * unat (nt_char_w t) \<le> unat (nt_body_w t)" using vc bw by simp
qed

section \<open>After the start\<close>

definition fits :: "gop_mode \<Rightarrow> bool" where
  "fits m \<longleftrightarrow> 320 \<le> gm_width m \<and> 240 \<le> gm_height m"

text \<open>The state when \<open>vita_uefi_neon_text_init\<close> draws the frame.\<close>

definition neon_started :: "gop_mode \<Rightarrow> neon_text_state \<Rightarrow> neon_text_state" where
  "neon_started m n =
     (reset_scrollback (compute_layout (n\<lparr>nt_ready := False, nt_gop := Some m, nt_screen_w := gm_width m, nt_screen_h := gm_height m,
        nt_stride := gm_stride m, nt_bg := make_pixel (Some m) 0 3 10, nt_panel_bg := make_pixel (Some m) 0 10 22,
        nt_title_bg := make_pixel (Some m) 0 28 44, nt_border := make_pixel (Some m) 0 210 255,
        nt_text := make_pixel (Some m) 120 240 255, nt_dim := make_pixel (Some m) 30 125 160,
        nt_warning := make_pixel (Some m) 255 90 80\<rparr>)))\<lparr>nt_ready := True\<rparr>"

lemma init_starts: "fits m \<Longrightarrow> vita_uefi_neon_text_init (Some m) n = draw_frame (neon_started m n)"
proof -
  assume "fits m"
  then have "(gm_width m < 320) = False" "(gm_height m < 240) = False" by (simp_all add: fits_def linorder_not_less)
  then show ?thesis by (simp add: vita_uefi_neon_text_init_def neon_started_def Let_def)
qed

lemma init_refused:
  "\<not> fits m \<Longrightarrow> vita_uefi_neon_text_init (Some m) n =
     n\<lparr>nt_ready := False, nt_gop := Some m, nt_screen_w := gm_width m, nt_screen_h := gm_height m, nt_stride := gm_stride m\<rparr>"
proof -
  assume "\<not> fits m"
  then have "(gm_width m < 320 \<or> gm_height m < 240) = True" by (auto simp: fits_def linorder_not_le)
  then show ?thesis unfolding vita_uefi_neon_text_init_def Let_def option.case if_True by simp
qed

lemma layout_fb [simp]: "nt_fb (compute_layout n) = nt_fb n" "nt_screen_w (compute_layout n) = nt_screen_w n"
  "nt_screen_h (compute_layout n) = nt_screen_h n" "nt_stride (compute_layout n) = nt_stride n"
  by (simp_all add: compute_layout_def Let_def)

lemma started_sel:
  "nt_ready (neon_started m n)" "nt_fb (neon_started m n) = nt_fb n"
  "neon_cells (neon_started m n) = screen_cells (gm_width m) (gm_height m) (gm_stride m)"
  by (simp_all add: neon_started_def reset_scrollback_def neon_cells_def)

lemma started_laid_out:
  assumes "fits m"
  shows "\<exists>t. 320 \<le> nt_screen_w t \<and> 240 \<le> nt_screen_h t \<and> neon_setup (neon_started m n) = neon_setup ((compute_layout t)\<lparr>nt_ready := True\<rparr>)"
  using assms by (intro exI conjI) (auto simp: neon_started_def fits_def neon_setup_def reset_scrollback_def)

lemma started_columns: "fits m \<Longrightarrow> 0 < unat (nt_columns (neon_started m n)) \<and> unat (nt_columns (neon_started m n)) < 132"
  using layout_text(4,5) by (simp add: neon_started_def reset_scrollback_def fits_def)

lemma started_displays: "fits m \<Longrightarrow> displays (neon_started m n) ([], [])"
  using started_columns [of m n]
  by (simp add: displays_def neon_typed_def neon_history_def ring_def last_n_def list_all_iff)
    (simp add: neon_started_def reset_scrollback_def)

text \<open>Any calls after a start.\<close>

lemma calls_kept: "fits m \<Longrightarrow> kept (neon_started m n) (fold neon_do calls (vita_uefi_neon_text_init (Some m) n))"
  by (simp add: init_starts) (rule kept_trans [OF frame_kept(1) run_kept])

lemma calls_display:
  fixes calls :: "neon_call list" and n :: neon_text_state
  assumes "fits m"
  defines "t \<equiv> fold neon_do calls (vita_uefi_neon_text_init (Some m) n)"
  shows "displays t (fold (terminal_do (unat (nt_columns t))) calls ([], []))"
proof -
  define u where "u = vita_uefi_neon_text_init (Some m) n"
  have "kept (neon_started m n) u" using frame_kept(1) by (simp add: u_def init_starts assms(1))
  then have s: "neon_setup u = neon_setup (neon_started m n)" by (simp add: kept_def)
  have "displays u ([], [])" unfolding u_def init_starts [OF assms(1)] by (rule frame_kept(2) [OF started_displays [OF assms(1)]])
  then have d: "displays (fold neon_do calls u) (fold (terminal_do (unat (nt_columns u))) calls ([], []))"
    using run_displays [of u "([], [])" calls] setup_sel(1,2) [OF s] started_sel(1) [of m n] started_columns [OF assms(1), of n] by simp
  have "neon_setup t = neon_setup u" using run_kept unfolding t_def u_def kept_def by blast
  then show ?thesis using d setup_sel(2) unfolding t_def u_def by metis
qed

section \<open>The window\<close>

text \<open>The lines a screen should show: \<open>visible_rows\<close> of them, ending \<open>view_offset\<close> lines before the end.\<close>

definition neon_window :: "neon_text_state \<Rightarrow> string list" where
  "neon_window n =
     (let all = neon_history n @ [nt_current_line n]; e = length all - unat (nt_view_offset n)
      in drop (e - unat (nt_visible_rows n)) (take e all))"

definition draw_row :: "neon_text_state \<Rightarrow> nat \<times> string \<Rightarrow> neon_text_state \<Rightarrow> neon_text_state" where
  "draw_row c = (\<lambda>(k, line). draw_text_at (nt_body_x c + 12) (nt_body_y c + 10 + of_nat k * (nt_char_h c + 2)) line
     (if nt_view_offset c > 0 then nt_dim c else nt_text c) (nt_panel_bg c))"

definition draw_window :: "neon_text_state \<Rightarrow> neon_text_state" where
  "draw_window c = fold (draw_row c) (enumerate 0 (neon_window c)) c"

lemma history_length: "length (neon_history n) = unat (nt_line_count n)"
  by (simp add: neon_history_def ring_def)

lemma line_at_eq:
  assumes "neon_typed n" "i \<le> unat (nt_line_count n)"
  shows "line_at n (of_nat i) = (neon_history n @ [nt_current_line n]) ! i"
proof -
  have i: "unat (of_nat i :: u32) = i" using assms by (simp add: neon_typed_def unat_of_nat take_bit_nat_eq_self)
  show ?thesis
    using assms i unat_slot [of "nt_line_start n" "of_nat i"]
    by (auto simp: line_at_def neon_history_def ring_def nth_append word_less_nat_alt neon_typed_def)
qed

lemma drawn_sel:
  assumes "drawn n t"
  shows "neon_typed t = neon_typed n" "neon_history t = neon_history n" "nt_current_line t = nt_current_line n"
    "line_at t i = line_at n i" "nt_char_h t = nt_char_h n" "nt_body_x t = nt_body_x n" "nt_body_y t = nt_body_y n"
    "nt_body_h t = nt_body_h n" "nt_view_offset t = nt_view_offset n" "nt_dim t = nt_dim n" "nt_text t = nt_text n"
    "nt_panel_bg t = nt_panel_bg n" "nt_warning t = nt_warning n"
  using drawn_eq [OF assms] by (auto simp: neon_typed_def neon_history_def line_at_def)

lemma render_rows_window:
  assumes "neon_typed c" "drawn c n" "i \<le> e" "e \<le> Suc (unat (nt_line_count c))" "e - i \<le> k"
    and room: "\<And>r. r < j + (e - i) \<Longrightarrow>
      nt_body_y c + 10 + of_nat r * (nt_char_h c + 2) + nt_char_h c < nt_body_y c + nt_body_h c"
  shows "render_rows k (of_nat i) (of_nat e) (nt_body_y c + 10 + of_nat j * (nt_char_h c + 2)) n =
    fold (draw_row c) (enumerate j (drop i (take e (neon_history c @ [nt_current_line c])))) n"
  using assms(2-5) room
proof (induction k arbitrary: i j n)
  case 0
  then show ?case by simp
next
  case (Suc k)
  have lt: "e \<le> 97" using Suc.prems(3) assms(1) by (simp add: neon_typed_def)
  show ?case
  proof (cases "i = e")
    case True
    then show ?thesis by simp
  next
    case False
    then have i: "i < e" using Suc.prems(2) by simp
    have words: "\<not> (of_nat e :: u32) \<le> of_nat i"
      using i lt by (simp add: word_le_nat_alt unat_of_nat take_bit_nat_eq_self)
    let ?all = "neon_history c @ [nt_current_line c]"
    have line: "line_at n (of_nat i) = ?all ! i"
      using line_at_eq [OF assms(1), of i] i Suc.prems(3) by (simp add: drawn_sel [OF Suc.prems(1)])
    have len: "length ?all = Suc (unat (nt_line_count c))" by (simp add: history_length)
    have step: "drop i (take e ?all) = ?all ! i # drop (Suc i) (take e ?all)"
      using i Suc.prems(3) len by (subst Cons_nth_drop_Suc [symmetric]) (simp_all del: take_append)
    define n1 where "n1 = draw_row c (j, ?all ! i) n"
    have d: "drawn c n1" unfolding n1_def draw_row_def prod.case by (intro drawing Suc.prems(1))
    have fit: "\<not> nt_body_y c + nt_body_h c \<le> nt_body_y c + 10 + of_nat j * (nt_char_h c + 2) + nt_char_h c"
      using Suc.prems(5) [of j] i unfolding linorder_not_le by linarith
    have next_y: "nt_body_y c + 10 + of_nat j * (nt_char_h c + 2) + (nt_char_h c + 2) = nt_body_y c + 10 + of_nat (Suc j) * (nt_char_h c + 2)"
      by (simp add: algebra_simps)
    have next_i: "of_nat i + 1 = (of_nat (Suc i) :: u32)" by simp
    have "render_rows (Suc k) (of_nat i) (of_nat e) (nt_body_y c + 10 + of_nat j * (nt_char_h c + 2)) n =
        render_rows k (of_nat (Suc i)) (of_nat e) (nt_body_y c + 10 + of_nat (Suc j) * (nt_char_h c + 2)) n1"
      unfolding render_rows.simps drawn_sel [OF Suc.prems(1)] n1_def draw_row_def prod.case next_y [symmetric] next_i [symmetric]
      using words fit line by (simp only: drawn_sel [OF Suc.prems(1)] simp_thms if_False)
    also have "\<dots> = fold (draw_row c) (enumerate (Suc j) (drop (Suc i) (take e ?all))) n1"
      using Suc.prems i by (intro Suc.IH [OF d]) auto
    finally show ?thesis using step by (simp add: n1_def)
  qed
qed

text \<open>What \<open>compute_layout\<close> leaves for the rows, in any state that kept the layout.\<close>

definition roomy :: "neon_text_state \<Rightarrow> bool" where
  "roomy n \<longleftrightarrow> 0 < unat (nt_visible_rows n) \<and> unat (nt_char_h n) \<le> 18 \<and>
     20 + unat (nt_visible_rows n) * (unat (nt_char_h n) + 2) \<le> unat (nt_body_h n) \<and>
     unat (nt_body_y n) + unat (nt_body_h n) < 2 ^ 32"

lemma roomy_setup: "neon_setup n = neon_setup t \<Longrightarrow> roomy n = roomy t"
proof -
  assume "neon_setup n = neon_setup t"
  then have "roomy (neon_setup n) = roomy (neon_setup t)" by (rule arg_cong)
  then show ?thesis by (simp add: roomy_def neon_setup_def)
qed

lemma roomy_started: "fits m \<Longrightarrow> roomy (neon_started m n)"
proof -
  assume "fits m"
  then obtain t where t: "320 \<le> nt_screen_w t" "240 \<le> nt_screen_h t"
    "neon_setup (neon_started m n) = neon_setup ((compute_layout t)\<lparr>nt_ready := True\<rparr>)"
    using started_laid_out by blast
  note l = layout_body [OF t(1,2)] layout_text [OF t(1,2)]
  have "unat (nt_screen_h t) < 2 ^ 32" using unsigned_less [of "nt_screen_h t"] by simp
  then have "roomy ((compute_layout t)\<lparr>nt_ready := True\<rparr>)" using l by (auto simp: roomy_def)
  then show ?thesis using roomy_setup [OF t(3)] by simp
qed

lemma row_room:
  assumes "roomy c" "r < unat (nt_visible_rows c)"
  shows "nt_body_y c + 10 + of_nat r * (nt_char_h c + 2) + nt_char_h c < nt_body_y c + nt_body_h c"
proof -
  let ?step = "unat (nt_char_h c) + 2" and ?y = "unat (nt_body_y c)"
  have u: "unat (of_nat r :: u32) = r" using assms(2) unat_u32_less [of "nt_visible_rows c"] by (simp add: unat_of_nat take_bit_nat_eq_self)
  have s: "unat (nt_char_h c + 2) = ?step" using assms(1) unat_small_plus [of "nt_char_h c" 2] by (simp add: roomy_def)
  have "(r + 1) * ?step \<le> unat (nt_visible_rows c) * ?step" using assms(2) by (intro mult_le_mono1) simp
  then have b: "r * ?step + ?step + 20 \<le> unat (nt_body_h c)" "?y + unat (nt_body_h c) < 2 ^ 32" using assms(1) by (auto simp: roomy_def)
  have m: "unat (of_nat r * (nt_char_h c + 2)) = r * ?step" using u s b by (simp add: unat_word_ariths)
  have "unat (nt_body_y c + 10) = ?y + 10" using b unat_small_plus [of "nt_body_y c" 10] by simp
  then have "unat (nt_body_y c + 10 + of_nat r * (nt_char_h c + 2)) = ?y + 10 + r * ?step"
    using b m unat_small_plus [of "nt_body_y c + 10" "of_nat r * (nt_char_h c + 2)"] by simp
  then have "unat (nt_body_y c + 10 + of_nat r * (nt_char_h c + 2) + nt_char_h c) = ?y + 10 + r * ?step + unat (nt_char_h c)"
    using b unat_small_plus [of "nt_body_y c + 10 + of_nat r * (nt_char_h c + 2)" "nt_char_h c"] by simp
  moreover have "unat (nt_body_y c + nt_body_h c) = ?y + unat (nt_body_h c)" using b(2) by (simp add: unat_small_plus)
  ultimately show ?thesis using b(1) by (simp add: word_less_nat_alt)
qed

lemma clamped_offset:
  assumes "neon_typed n" "0 < unat (nt_visible_rows n)"
  shows "unat (nt_view_offset (clamp_scroll_offset n)) \<le> unat (nt_line_count n)"
proof -
  have total: "unat (nt_line_count n + 1) = Suc (unat (nt_line_count n))"
    using assms(1) unat_small_plus [of "nt_line_count n" 1] by (simp add: neon_typed_def)
  have "unat (max_scroll_offset n) \<le> unat (nt_line_count n)"
    using assms(2) total
    by (simp add: max_scroll_offset_def total_visible_source_lines_def Let_def unat_minus word_le_nat_alt) arith
  then show ?thesis by (simp add: clamp_scroll_offset_def word_less_nat_alt)
qed

lemma render_window:
  assumes "neon_typed n" "roomy n" "nt_ready n"
  defines "c \<equiv> clamp_scroll_offset (clear_body_area_only n)"
  shows "render_body n =
    (if nt_view_offset c > 0
     then draw_text_at (nt_body_x c + 12) (nt_body_y c + nt_body_h c - nt_char_h c - 8) SCROLLBACK_NOTE
            (nt_warning c) (nt_panel_bg c) (draw_window c)
     else draw_window c)"
proof -
  have "kept n c" "displays c (neon_history n, nt_current_line n)"
  proof -
    have d: "drawn n (clear_body_area_only n)" by (intro drawing drawn_refl)
    show "kept n c" unfolding c_def
      by (rule kept_trans [OF drawn_kept [OF d]]) (simp add: clamp_scroll_offset_def offset_kept kept_refl)
    have "displays n (neon_history n, nt_current_line n)"
      using assms(1) by (simp add: displays_def last_n_short history_length neon_typed_def)
    then show "displays c (neon_history n, nt_current_line n)"
      using drawn_displays [OF d] by (simp add: c_def clamp_scroll_offset_def offset_kept)
  qed
  then have c: "neon_typed c" "roomy c" using assms(2) roomy_setup [of c n] by (simp_all add: displays_def kept_def)
  define total where "total = Suc (unat (nt_line_count c))"
  define e where "e = total - unat (nt_view_offset c)"
  define i where "i = e - unat (nt_visible_rows c)"
  have off: "unat (nt_view_offset c) < total"
  proof -
    have d: "drawn n (clear_body_area_only n)" by (intro drawing drawn_refl)
    have "nt_line_count c = nt_line_count (clear_body_area_only n)" by (simp add: c_def clamp_scroll_offset_def)
    moreover have "nt_visible_rows (clear_body_area_only n) = nt_visible_rows n" using drawn_eq [OF d] by auto
    ultimately show ?thesis
      using clamped_offset [of "clear_body_area_only n"] assms(1,2) drawn_sel(1) [OF d] by (simp add: total_def c_def roomy_def)
  qed
  have small: "total \<le> 97" using c(1) by (simp add: total_def neon_typed_def)
  have tw: "total_visible_source_lines c = of_nat total" by (simp add: total_visible_source_lines_def total_def)
  have ut: "unat (of_nat total :: u32) = total" using small by (simp add: unat_of_nat take_bit_nat_eq_self)
  have ew: "(if total_visible_source_lines c > nt_view_offset c then total_visible_source_lines c - nt_view_offset c else 0) = of_nat e"
    using off ut by (simp add: tw word_less_nat_alt e_def of_nat_diff)
  have ue: "unat (of_nat e :: u32) = e" using small by (simp add: e_def unat_of_nat take_bit_nat_eq_self)
  have iw: "(if of_nat e > nt_visible_rows c then of_nat e - nt_visible_rows c else 0) = (of_nat i :: u32)"
    using ue by (auto simp: word_less_nat_alt i_def of_nat_diff)
  have "render_rows (unat (nt_visible_rows c)) (of_nat i) (of_nat e) (nt_body_y c + 10 + of_nat 0 * (nt_char_h c + 2)) c =
      fold (draw_row c) (enumerate 0 (drop i (take e (neon_history c @ [nt_current_line c])))) c"
    by (rule render_rows_window [OF c(1) drawn_refl]) (auto simp: i_def e_def total_def intro: row_room [OF c(2)])
  then have w: "render_rows (unat (nt_visible_rows c)) (of_nat i) (of_nat e) (nt_body_y c + 10) c = draw_window c"
    by (simp add: draw_window_def neon_window_def Let_def i_def e_def total_def history_length)
  have "drawn c (draw_window c)"
    unfolding draw_window_def draw_row_def case_prod_beta by (intro drawing drawn_refl)
  note s = drawn_sel [OF this]
  show ?thesis
    using assms(3) unfolding render_body_def Let_def c_def [symmetric] ew iw w s by simp
qed

section \<open>Properties\<close>

definition zero_neon :: neon_text_state where
  "zero_neon =
     \<lparr>nt_ready = False, nt_gop = None, nt_screen_w = 0, nt_screen_h = 0, nt_stride = 0, nt_panel_x = 0, nt_panel_y = 0,
      nt_panel_w = 0, nt_panel_h = 0, nt_body_x = 0, nt_body_y = 0, nt_body_w = 0, nt_body_h = 0, nt_char_w = 0, nt_char_h = 0,
      nt_scale = 0, nt_bg = 0, nt_panel_bg = 0, nt_title_bg = 0, nt_border = 0, nt_text = 0, nt_dim = 0, nt_warning = 0,
      nt_visible_rows = 0, nt_columns = 0, nt_line_start = 0, nt_line_count = 0, nt_current_len = 0, nt_view_offset = 0,
      nt_lines = replicate 96 [], nt_current_line = [], nt_fb = (\<lambda>_. 0)\<rparr>"

definition demo_mode :: gop_mode where
  "demo_mode = \<lparr>gm_width = 1280, gm_height = 800, gm_format = 1, gm_stride = 1280\<rparr>"

lemma demo_fits: "fits demo_mode"
  by (simp add: fits_def demo_mode_def)

text \<open>
  C30. The ring of lines is the end of an unbounded history. Start the framebuffer terminal on any screen it
  accepts and let it be written, cleared and scrolled in any order: the lines it holds are the last 96 lines
  of a terminal that forgets nothing, the oldest first, and the line being written is the same, with the same
  wrapping at the last column and the same backspaces.
\<close>

theorem neon_terminal_refines:
  fixes calls :: "neon_call list" and n :: neon_text_state
  assumes "fits m"
  defines "t \<equiv> fold neon_do calls (vita_uefi_neon_text_init (Some m) n)"
  defines "unbounded \<equiv> fold (terminal_do (unat (nt_columns t))) calls ([], [])"
  shows "neon_history t = last_n 96 (fst unbounded) \<and> nt_current_line t = snd unbounded"
  using calls_display [OF assms(1), of calls n] by (simp add: displays_def t_def unbounded_def)

theorem neon_terminal_refines_witness:
  defines "calls \<equiv> [WRITE_LINE (Some ''a''), SCROLL_UP, WRITE_RAW (Some ''b'')]"
  defines "t \<equiv> fold neon_do calls (vita_uefi_neon_text_init (Some demo_mode) zero_neon)"
  shows "neon_history t = [''a''] \<and> nt_current_line t = ''b''"
proof -
  have "neon_setup t = neon_setup (neon_started demo_mode zero_neon)"
    using calls_kept [OF demo_fits, of zero_neon calls] unfolding kept_def t_def by blast
  note c = setup_sel(2) [OF this]
  have "nt_columns (neon_started demo_mode zero_neon) = 70"
    by (simp add: neon_started_def reset_scrollback_def compute_layout_def demo_mode_def NEON_LINE_MAX_def)
  then have "nt_columns t = 70" using c by simp
  moreover have "fold (terminal_do 70) calls ([], []) = ([''a''], ''b'')" by (simp add: calls_def feed.simps)
  ultimately show ?thesis
    using neon_terminal_refines [OF demo_fits, of calls zero_neon] unfolding t_def [symmetric] by (simp add: last_n_def)
qed

text \<open>
  C31. The terminal's arrays and indices. From the zeroed state, whatever the firmware offers at the start and
  whatever is written, cleared and scrolled after it: every line fits its array of 132 characters, the ring
  index and the count are in range, the length of the current line is its counter, and no line is wider than
  its array.
\<close>

theorem neon_state_typed:
  fixes calls :: "neon_call list" and gop :: "gop_mode option"
  shows "neon_typed (fold neon_do calls (vita_uefi_neon_text_init gop zero_neon))"
proof (cases "\<exists>m. gop = Some m \<and> fits m")
  case True
  then obtain m where "gop = Some m" "fits m" by blast
  then show ?thesis using calls_display [of m calls zero_neon] by (simp add: displays_def)
next
  case False
  then have "neon_typed (vita_uefi_neon_text_init gop zero_neon)" "\<not> nt_ready (vita_uefi_neon_text_init gop zero_neon)"
    by (cases gop; simp add: init_refused vita_uefi_neon_text_init_def [of None]; simp add: zero_neon_def neon_typed_def list_all_iff)+
  then show ?thesis by (simp add: run_idle)
qed

text \<open>
  The layout fits. On every screen of at least 320 by 240 pixels, up to the largest a 32-bit size can
  say: the panel lies on the screen, the body in the panel, at least one row and one column of text are
  shown, and the rows and the columns fit into the body with their margins.
\<close>

theorem neon_layout_fits:
  fixes n :: neon_text_state
  assumes "320 \<le> nt_screen_w n" "240 \<le> nt_screen_h n"
  defines "t \<equiv> compute_layout n"
  shows "unat (nt_panel_x t) + unat (nt_panel_w t) \<le> unat (nt_screen_w n) \<and>
    unat (nt_panel_y t) + unat (nt_panel_h t) \<le> unat (nt_screen_h n) \<and>
    nt_panel_x t \<le> nt_body_x t \<and> unat (nt_body_x t) + unat (nt_body_w t) \<le> unat (nt_panel_x t) + unat (nt_panel_w t) \<and>
    nt_panel_y t \<le> nt_body_y t \<and> unat (nt_body_y t) + unat (nt_body_h t) \<le> unat (nt_panel_y t) + unat (nt_panel_h t) \<and>
    0 < nt_visible_rows t \<and> 20 + unat (nt_visible_rows t) * (unat (nt_char_h t) + 2) \<le> unat (nt_body_h t) \<and>
    0 < nt_columns t \<and> nt_columns t < NEON_LINE_MAX \<and> 24 + unat (nt_columns t) * unat (nt_char_w t) \<le> unat (nt_body_w t)"
  using layout_body [OF assms(1,2)] layout_text(2-6) [OF assms(1,2)]
  by (simp add: t_def word_le_nat_alt word_less_nat_alt NEON_LINE_MAX_def)

theorem neon_layout_fits_witness:
  defines "t \<equiv> compute_layout (zero_neon\<lparr>nt_screen_w := 800, nt_screen_h := 600\<rparr>)"
  shows "unat (nt_panel_x t) + unat (nt_panel_w t) \<le> 800 \<and> unat (nt_panel_y t) + unat (nt_panel_h t) \<le> 600"
  using neon_layout_fits [of "zero_neon\<lparr>nt_screen_w := 800, nt_screen_h := 600\<rparr>"] by (simp add: t_def)

text \<open>
  C33. The terminal writes only its frame. When the firmware's mode describes a frame (a line is not longer than
  the distance of two lines, and the pixels of the frame can be counted in 32 bits), then the start and any
  calls after it leave every word of memory behind the last line of the frame as it was.
\<close>

theorem neon_paints_only_the_screen:
  fixes calls :: "neon_call list" and n :: neon_text_state
  assumes "gm_width m \<le> gm_stride m" "unat (gm_stride m) * unat (gm_height m) \<le> 2 ^ 32"
    and "unat (gm_stride m) * unat (gm_height m) \<le> i"
  shows "nt_fb (fold neon_do calls (vita_uefi_neon_text_init (Some m) n)) i = nt_fb n i"
proof (cases "fits m")
  case True
  have "i \<notin> screen_cells (gm_width m) (gm_height m) (gm_stride m)"
    using screen_cells_bound [OF assms(1,2), of i] assms(3) by auto
  then show ?thesis using calls_kept [OF True, of n calls] by (simp add: kept_def paints_def started_sel)
next
  case False
  then show ?thesis by (simp add: init_refused run_idle)
qed

theorem neon_paints_only_the_screen_witness:
  "nt_fb (fold neon_do [WRITE_LINE (Some ''a''), CLEAR] (vita_uefi_neon_text_init (Some demo_mode) zero_neon)) 1024000 = 0"
  using neon_paints_only_the_screen [of demo_mode 1024000 "[WRITE_LINE (Some ''a''), CLEAR]" zero_neon]
  by (simp add: demo_mode_def zero_neon_def del: neon_do.simps)

text \<open>
  C32. The screen shows the window. After any calls on a screen the terminal accepts, drawing the body draws,
  row by row from the top and without leaving one out, the lines of the window: as many as the body has rows
  for, ending as many lines before the end of the history as the reader scrolled back; and the note about
  scrolling exactly when the reader did.
\<close>

theorem neon_shows_its_window:
  fixes calls :: "neon_call list" and n :: neon_text_state
  assumes "fits m"
  defines "t \<equiv> fold neon_do calls (vita_uefi_neon_text_init (Some m) n)"
  defines "c \<equiv> clamp_scroll_offset (clear_body_area_only t)"
  shows "render_body t =
    (if nt_view_offset c > 0
     then draw_text_at (nt_body_x c + 12) (nt_body_y c + nt_body_h c - nt_char_h c - 8) SCROLLBACK_NOTE
            (nt_warning c) (nt_panel_bg c) (draw_window c)
     else draw_window c)"
proof -
  have "neon_setup t = neon_setup (neon_started m n)"
    using calls_kept [OF assms(1), of n calls] by (simp add: kept_def t_def)
  then have "roomy t" "nt_ready t"
    using roomy_setup roomy_started [OF assms(1)] setup_sel(1) started_sel(1) by blast+
  moreover have "neon_typed t" using calls_display [OF assms(1), of calls n] by (simp add: displays_def t_def)
  ultimately show ?thesis unfolding c_def by (intro render_window)
qed

theorem neon_shows_its_window_witness:
  defines "t \<equiv> fold neon_do [WRITE_LINE (Some ''a''), SCROLL_UP] (vita_uefi_neon_text_init (Some demo_mode) zero_neon)"
  defines "c \<equiv> clamp_scroll_offset (clear_body_area_only t)"
  shows "render_body t =
    (if nt_view_offset c > 0
     then draw_text_at (nt_body_x c + 12) (nt_body_y c + nt_body_h c - nt_char_h c - 8) SCROLLBACK_NOTE
            (nt_warning c) (nt_panel_bg c) (draw_window c)
     else draw_window c)"
  unfolding c_def t_def by (rule neon_shows_its_window [OF demo_fits])

end
