(* ===== verification/Neon_Frame.thy ===== *)
theory Neon_Frame
  imports Framebuffer
begin

text \<open>
  The decorative frame of arch/x86\_64/boot/uefi\_neon\_frame.c: rectangles clipped to the screen, borders, and
  the picture made of them. \<open>m\<close> is the mode of a complete output protocol.
\<close>

definition clamp_u32 :: "u32 \<Rightarrow> u32 \<Rightarrow> u32 \<Rightarrow> u32" where
  "clamp_u32 v min_v max_v = (if v < min_v then min_v else if v > max_v then max_v else v)"

text \<open>The row is a pointer, so the column is added to its index without a wrap.\<close>

definition draw_rect :: "gop_mode \<Rightarrow> u32 \<Rightarrow> u32 \<Rightarrow> u32 \<Rightarrow> u32 \<Rightarrow> u32 \<Rightarrow> framebuffer \<Rightarrow> framebuffer" where
  "draw_rect m x y w h pixel fb =
     (if x \<ge> gm_width m \<or> y \<ge> gm_height m then fb
      else
        let w1 = (if x + w > gm_width m then gm_width m - x else w);
            h1 = (if y + h > gm_height m then gm_height m - y else h)
        in fold (\<lambda>yy. fold (\<lambda>xx f. f(unat ((y + yy) * gm_stride m) + unat x + unat xx := pixel)) (u32_range 0 w1))
             (u32_range 0 h1) fb)"

definition draw_border :: "gop_mode \<Rightarrow> u32 \<Rightarrow> u32 \<Rightarrow> u32 \<Rightarrow> u32 \<Rightarrow> u32 \<Rightarrow> u32 \<Rightarrow> framebuffer \<Rightarrow> framebuffer" where
  "draw_border m x y w h thick pixel fb =
     (if w \<le> thick * 2 \<or> h \<le> thick * 2 then fb
      else draw_rect m (x + w - thick) y thick h pixel
             (draw_rect m x y thick h pixel
               (draw_rect m x (y + h - thick) w thick pixel (draw_rect m x y w thick pixel fb))))"

record frame_box =
  fr_px :: u32
  fr_py :: u32
  fr_pw :: u32
  fr_ph :: u32
  fr_title_h :: u32

text \<open>The place of the panel; on a screen smaller than it the difference wraps.\<close>

definition frame_place :: "gop_mode \<Rightarrow> bool \<Rightarrow> frame_box" where
  "frame_place m minimized =
     (let sw = gm_width m; sh = gm_height m in
      if minimized then
        let pw = clamp_u32 ((sw * 72) div 100) 360 960
        in \<lparr>fr_px = (sw - pw) div 2, fr_py = clamp_u32 (sh div 10) 24 96, fr_pw = pw, fr_ph = 72, fr_title_h = 72\<rparr>
      else
        let pw = clamp_u32 ((sw * 82) div 100) 560 1180; ph = clamp_u32 ((sh * 74) div 100) 360 760
        in \<lparr>fr_px = (sw - pw) div 2, fr_py = (sh - ph) div 2, fr_pw = pw, fr_ph = ph,
            fr_title_h = clamp_u32 (ph div 10) 40 58\<rparr>)"

definition draw_glow :: "gop_mode \<Rightarrow> frame_box \<Rightarrow> u32 \<Rightarrow> framebuffer \<Rightarrow> framebuffer" where
  "draw_glow m b glow fb =
     (let k = (glow + 1) * 5; k2 = (glow + 1) * 10 in
      if fr_px b > k \<and> fr_py b > k
      then draw_border m (fr_px b - k) (fr_py b - k) (fr_pw b + k2) (fr_ph b + k2) 1 (make_pixel (Some m) 0 48 128) fb
      else fb)"

definition draw_panel :: "gop_mode \<Rightarrow> frame_box \<Rightarrow> framebuffer \<Rightarrow> framebuffer" where
  "draw_panel m b fb =
     (let px = fr_px b; py = fr_py b; pw = fr_pw b; ph = fr_ph b;
          f1 = draw_rect m (px + 12) (py + 12) pw ph (make_pixel (Some m) 0 0 0) fb;
          f2 = draw_rect m px py pw ph (make_pixel (Some m) 3 15 28) f1;
          f3 = draw_rect m px py pw (fr_title_h b) (make_pixel (Some m) 0 24 42) f2;
          f4 = draw_border m px py pw ph 2 (make_pixel (Some m) 0 224 255) f3
      in if pw > 8 \<and> ph > 8
         then draw_border m (px + 4) (py + 4) (pw - 8) (ph - 8) 1 (make_pixel (Some m) 0 96 140) f4 else f4)"

definition draw_content :: "gop_mode \<Rightarrow> bool \<Rightarrow> frame_box \<Rightarrow> framebuffer \<Rightarrow> framebuffer" where
  "draw_content m minimized b fb =
     (let px = fr_px b; py = fr_py b; pw = fr_pw b; ph = fr_ph b; title_h = fr_title_h b in
      if \<not> minimized \<and> ph > title_h + 32 then
        let content_y = py + title_h + 18;
            content_h = ph - title_h - 32;
            f1 = draw_rect m (px + 22) content_y (pw - 44) content_h (make_pixel (Some m) 0 7 16) fb;
            f2 = draw_border m (px + 22) content_y (pw - 44) content_h 1 (make_pixel (Some m) 0 96 140) f1
        in if content_h > 80
           then draw_border m (px + 34) (py + ph - 62) (pw - 68) 30 1 (make_pixel (Some m) 0 224 255)
                  (draw_rect m (px + 34) (py + ph - 62) (pw - 68) 30 (make_pixel (Some m) 0 18 32) f2)
           else f2
      else fb)"

definition draw_buttons :: "gop_mode \<Rightarrow> frame_box \<Rightarrow> framebuffer \<Rightarrow> framebuffer" where
  "draw_buttons m b fb =
     (if fr_pw b > 280 \<and> fr_title_h b > 28 then
        let y = fr_py b + 10; w = 58; h = fr_title_h b - 20;
            x3 = fr_px b + fr_pw b - 72; x2 = x3 - 70; x1 = x2 - 70;
            f1 = draw_border m x1 y w h 1 (make_pixel (Some m) 0 224 255) (draw_rect m x1 y w h (make_pixel (Some m) 0 34 52) fb);
            f2 = draw_border m x2 y w h 1 (make_pixel (Some m) 255 186 40) (draw_rect m x2 y w h (make_pixel (Some m) 28 22 0) f1)
        in draw_border m x3 y w h 1 (make_pixel (Some m) 255 60 90) (draw_rect m x3 y w h (make_pixel (Some m) 42 4 10) f2)
      else fb)"

text \<open>\<open>gop\<close>: none when the firmware has no complete output protocol.\<close>

definition vita_uefi_neon_frame_render :: "gop_mode option \<Rightarrow> bool \<Rightarrow> framebuffer \<Rightarrow> framebuffer" where
  "vita_uefi_neon_frame_render gop minimized fb =
     (case gop of None \<Rightarrow> fb
      | Some m \<Rightarrow>
          if gm_width m < 320 \<or> gm_height m < 200 then fb
          else
            let b = frame_place m minimized;
                f0 = draw_rect m 0 0 (gm_width m) (gm_height m) (make_pixel gop 0 3 10) fb;
                f1 = fold (draw_glow m b) (u32_range 0 5) f0
            in draw_buttons m b (draw_content m minimized b (draw_panel m b f1)))"

section \<open>The frame stays in its frame\<close>

definition frame_cells :: "gop_mode \<Rightarrow> nat set" where
  "frame_cells m = {..<unat (gm_stride m) * unat (gm_height m)}"

definition sound_mode :: "gop_mode \<Rightarrow> bool" where
  "sound_mode m \<longleftrightarrow> gm_width m \<le> gm_stride m \<and> unat (gm_stride m) * unat (gm_height m) \<le> 2 ^ 31"

lemma rect_cell:
  assumes "sound_mode m" "unat x + unat xx < unat (gm_width m)" "unat y + unat yy < unat (gm_height m)"
  shows "unat ((y + yy) * gm_stride m) + unat x + unat xx \<in> frame_cells m"
proof -
  let ?w = "unat (gm_stride m)" and ?h = "unat (gm_height m)"
  have w: "unat (gm_width m) \<le> ?w" "?w * ?h \<le> 2 ^ 31" using assms(1) by (simp_all add: sound_mode_def word_le_nat_alt)
  have "?h < 2 ^ 32" using unsigned_less [of "gm_height m"] by simp
  then have y: "unat (y + yy) = unat y + unat yy" using assms(3) by (simp add: unat_word_ariths)
  have "Suc (unat y + unat yy) * ?w \<le> ?h * ?w" using assms(3) by (intro mult_le_mono1) simp
  then have le: "(unat y + unat yy) * ?w + ?w \<le> ?w * ?h" by (simp add: mult.commute)
  then have "unat ((y + yy) * gm_stride m) = (unat y + unat yy) * ?w" using w(2) y by (simp add: unat_word_ariths)
  then show ?thesis using le assms(2) w(1) by (simp add: frame_cells_def)
qed

text \<open>A clipped side: the part of \<open>[a, a + w)\<close> below the limit.\<close>

lemma clip_side:
  fixes a w lim :: u32
  assumes "a < lim" "unat lim \<le> 2 ^ 31" "unat w \<le> 2 ^ 30" "xx < (if a + w > lim then lim - a else w)"
  shows "unat a + unat xx < unat lim"
proof -
  have a: "unat a < unat lim" using assms(1) by (simp add: word_less_nat_alt)
  have s: "unat (a + w) = unat a + unat w" using a assms(2,3) by (simp add: unat_word_ariths)
  show ?thesis
  proof (cases "a + w > lim")
    case True
    then show ?thesis using assms(4) a unat_sub [of a lim] by (simp add: word_less_nat_alt word_le_nat_alt)
  next
    case False
    then show ?thesis using assms(4) s by (simp add: word_less_nat_alt)
  qed
qed

lemma paints_rect:
  assumes "sound_mode m" "unat (gm_width m) \<le> 2 ^ 31" "unat (gm_height m) \<le> 2 ^ 31"
    and "unat w \<le> 2 ^ 30" "unat h \<le> 2 ^ 30" "paints (frame_cells m) f g"
  shows "paints (frame_cells m) f (draw_rect m x y w h p g)"
proof (cases "x \<ge> gm_width m \<or> y \<ge> gm_height m")
  case True
  then show ?thesis using assms(6) by (auto simp: draw_rect_def)
next
  case False
  then have xy: "x < gm_width m" "y < gm_height m" by (simp_all add: linorder_not_le)
  have "draw_rect m x y w h p g =
    fold (\<lambda>yy. fold (\<lambda>xx f. f(unat ((y + yy) * gm_stride m) + unat x + unat xx := p))
        (u32_range 0 (if x + w > gm_width m then gm_width m - x else w)))
      (u32_range 0 (if y + h > gm_height m then gm_height m - y else h)) g"
    using False by (simp add: draw_rect_def Let_def del: fun_upd_apply)
  moreover have "paints (frame_cells m) f \<dots>"
  proof (rule paints_fold [OF assms(6)], rule paints_fold, assumption)
    fix yy xx g'
    assume "yy \<in> set (u32_range 0 (if y + h > gm_height m then gm_height m - y else h))"
      "xx \<in> set (u32_range 0 (if x + w > gm_width m then gm_width m - x else w))" and g': "paints (frame_cells m) f g'"
    then have "unat x + unat xx < unat (gm_width m)" "unat y + unat yy < unat (gm_height m)"
      using clip_side [OF xy(1) assms(2,4), of xx] clip_side [OF xy(2) assms(3,5), of yy] by (simp_all add: u32_range_set)
    then show "paints (frame_cells m) f (g'(unat ((y + yy) * gm_stride m) + unat x + unat xx := p))"
      by (intro paints_upd rect_cell assms(1) g')
  qed
  ultimately show ?thesis by simp
qed

section \<open>The whole picture\<close>

definition small :: "u32 \<Rightarrow> bool" where
  "small w \<longleftrightarrow> unat w \<le> 2 ^ 30"

definition room :: "gop_mode \<Rightarrow> bool" where
  "room m \<longleftrightarrow> sound_mode m \<and> small (gm_width m) \<and> small (gm_height m)"

lemma smallI: "w \<le> 2000 \<Longrightarrow> small w"
  by (simp add: small_def word_le_nat_alt)

lemma small_diff: "b \<le> a \<Longrightarrow> a \<le> 2000 \<Longrightarrow> small (a - b)" for a b :: u32
  by (rule smallI) (meson order_trans word_sub_le_iff)

lemma room_sound:
  assumes "sound_mode m" "\<not> gm_width m < 320" "\<not> gm_height m < 200"
  shows "room m"
proof -
  let ?w = "unat (gm_stride m)" and ?h = "unat (gm_height m)"
  have w: "unat (gm_width m) \<le> ?w" "320 \<le> unat (gm_width m)" "200 \<le> ?h" "?w * ?h \<le> 2 ^ 31"
    using assms by (simp_all add: sound_mode_def word_le_nat_alt word_less_nat_alt)
  have "?w * 200 \<le> ?w * ?h" "320 * ?h \<le> ?w * ?h" using w by (intro mult_le_mono; simp)+
  then have "?w * 200 \<le> 2 ^ 31" "320 * ?h \<le> 2 ^ 31" using w(4) by linarith+
  then show ?thesis using w(1) assms(1) by (simp add: room_def small_def)
qed

named_theorems paints_frame \<open>drawing inside the frame\<close>

lemma paints_rect_room [paints_frame]:
  "room m \<Longrightarrow> small w \<Longrightarrow> small h \<Longrightarrow> paints (frame_cells m) f g \<Longrightarrow> paints (frame_cells m) f (draw_rect m x y w h p g)"
  by (intro paints_rect) (simp_all add: room_def small_def)

lemma paints_border [paints_frame]:
  "room m \<Longrightarrow> small w \<Longrightarrow> small h \<Longrightarrow> small t \<Longrightarrow> paints (frame_cells m) f g \<Longrightarrow>
    paints (frame_cells m) f (draw_border m x y w h t p g)"
  unfolding draw_border_def by (simp add: paints_rect_room)

definition placed :: "frame_box \<Rightarrow> bool" where
  "placed b \<longleftrightarrow> 360 \<le> fr_pw b \<and> fr_pw b \<le> 1180 \<and> fr_ph b \<le> 760 \<and> fr_title_h b \<le> 72"

lemma clamp_between: "lo \<le> hi \<Longrightarrow> lo \<le> clamp_u32 v lo hi \<and> clamp_u32 v lo hi \<le> hi"
  by (auto simp: clamp_u32_def)

lemma placed_frame: "placed (frame_place m minimized)"
proof -
  have "clamp_u32 v 360 960 \<le> 1180" for v using clamp_between [of 360 960 v] by (auto elim: order_trans)
  moreover have "360 \<le> clamp_u32 v 560 1180" for v using clamp_between [of 560 1180 v] order_trans [of 360 560 "clamp_u32 v 560 1180"] by simp
  moreover have "clamp_u32 v 40 58 \<le> 72" for v using clamp_between [of 40 58 v] by (auto elim: order_trans)
  ultimately show ?thesis
    using clamp_between [of 360 960] clamp_between [of 560 1180] clamp_between [of 360 760]
    by (simp add: placed_def frame_place_def Let_def)
qed

lemma placed_small:
  assumes "placed b"
  shows "small (fr_pw b)" "small (fr_ph b)" "small (fr_title_h b)" "c \<le> 360 \<Longrightarrow> small (fr_pw b - c)"
    "c \<le> fr_ph b \<Longrightarrow> small (fr_ph b - c)"
    "20 \<le> fr_title_h b \<Longrightarrow> small (fr_title_h b - 20)" "k \<le> 5 \<Longrightarrow> small (fr_pw b + k * 10) \<and> small (fr_ph b + k * 10)"
proof -
  have b: "360 \<le> fr_pw b" "fr_pw b \<le> 2000" "fr_ph b \<le> 2000" "fr_title_h b \<le> 2000"
    using assms by (auto simp: placed_def elim: order_trans)
  show "small (fr_pw b)" "small (fr_ph b)" "small (fr_title_h b)" using b by (auto intro: smallI)
  show "small (fr_pw b - c)" if "c \<le> 360" using b that by (intro small_diff) auto
  show "small (fr_ph b - c)" if "c \<le> fr_ph b" using b that by (intro small_diff) auto
  show "small (fr_title_h b - 20)" if "20 \<le> fr_title_h b" using b that by (intro small_diff) auto
  show "small (fr_pw b + k * 10) \<and> small (fr_ph b + k * 10)" if "k \<le> 5"
    using b that by (simp add: small_def word_le_nat_alt unat_word_ariths)
qed

lemma small_const [simp]: "small 1" "small 2" "small 30" "small 58"
  by (simp_all add: small_def)

lemma paints_glow:
  assumes "room m" "placed b" "k < 5" "paints (frame_cells m) f g"
  shows "paints (frame_cells m) f (draw_glow m b k g)"
proof -
  have "k + 1 \<le> 5" using assms(3) by (metis add.commute inc_le)
  then show ?thesis
    unfolding draw_glow_def Let_def
    using assms(1,4) placed_small(7) [OF assms(2), of "k + 1"] by (simp add: paints_border)
qed

lemma paints_panel: "room m \<Longrightarrow> placed b \<Longrightarrow> paints (frame_cells m) f g \<Longrightarrow> paints (frame_cells m) f (draw_panel m b g)"
  unfolding draw_panel_def Let_def
  by (auto intro!: paints_frame placed_small simp: less_imp_le)

lemma paints_buttons: "room m \<Longrightarrow> placed b \<Longrightarrow> paints (frame_cells m) f g \<Longrightarrow> paints (frame_cells m) f (draw_buttons m b g)"
proof -
  assume a: "room m" "placed b" "paints (frame_cells m) f g"
  have "20 \<le> fr_title_h b" if "28 < fr_title_h b" using that by (rule order_trans [OF _ less_imp_le, rotated]) simp
  then show ?thesis
    unfolding draw_buttons_def Let_def using a placed_small(6) [OF a(2)] by (simp add: paints_frame)
qed

lemma paints_content:
  assumes "room m" "placed b" "paints (frame_cells m) f g"
  shows "paints (frame_cells m) f (draw_content m minimized b g)"
proof (cases "\<not> minimized \<and> fr_ph b > fr_title_h b + 32")
  case True
  have t: "unat (fr_title_h b + 32) = unat (fr_title_h b) + 32" "unat (fr_ph b) \<le> 760"
    using assms(2) by (simp_all add: placed_def word_le_nat_alt unat_word_ariths)
  have "fr_ph b - fr_title_h b - 32 = fr_ph b - (fr_title_h b + 32)" by simp
  moreover have "small (fr_ph b - (fr_title_h b + 32))" using True by (intro placed_small(5) [OF assms(2)]) (blast intro: less_imp_le)
  ultimately have c: "small (fr_ph b - fr_title_h b - 32)" by (simp only:)
  show ?thesis
    unfolding draw_content_def Let_def
    using assms True c placed_small(4) [OF assms(2), of 44] placed_small(4) [OF assms(2), of 68] by (simp add: paints_frame)
next
  case False
  then show ?thesis using assms(3) by (auto simp: draw_content_def Let_def)
qed

text \<open>
  C37. The decorative frame stays on the screen. Whatever the mode the firmware reports, when its lines do not
  overlap and the frame has at most \<open>2^31\<close> pixels, drawing the picture, open or minimized, on small screens
  where the place of the panel wraps as on large ones, leaves every word of memory behind the frame as it was.
\<close>

theorem frame_paints_only_the_screen:
  fixes fb :: framebuffer
  assumes "gm_width m \<le> gm_stride m" "unat (gm_stride m) * unat (gm_height m) \<le> 2 ^ 31"
    and "unat (gm_stride m) * unat (gm_height m) \<le> i"
  shows "vita_uefi_neon_frame_render (Some m) minimized fb i = fb i"
proof (cases "gm_width m < 320 \<or> gm_height m < 200")
  case True
  then show ?thesis by (auto simp: vita_uefi_neon_frame_render_def)
next
  case False
  then have r: "room m" using assms(1,2) by (intro room_sound) (auto simp: sound_mode_def)
  let ?b = "frame_place m minimized"
  let ?f0 = "draw_rect m 0 0 (gm_width m) (gm_height m) (make_pixel (Some m) 0 3 10) fb"
  have "paints (frame_cells m) fb ?f0" using r by (intro paints_rect_room paints_refl) (auto simp: room_def)
  then have "paints (frame_cells m) fb (fold (draw_glow m ?b) (u32_range 0 5) ?f0)"
    by (rule paints_fold) (auto simp: u32_range_set intro: paints_glow [OF r placed_frame])
  then have "paints (frame_cells m) fb (vita_uefi_neon_frame_render (Some m) minimized fb)"
    using False r by (simp add: vita_uefi_neon_frame_render_def Let_def paints_buttons paints_content paints_panel placed_frame)
  then show ?thesis using assms(3) by (simp add: paints_def frame_cells_def)
qed

theorem frame_paints_only_the_screen_witness:
  "vita_uefi_neon_frame_render (Some \<lparr>gm_width = 400, gm_height = 300, gm_format = 1, gm_stride = 512\<rparr>) False (\<lambda>_. 7) 153600 = 7"
  by (rule frame_paints_only_the_screen) simp_all

end
