(* ===== verification/Char_Arrays.thy ===== *)
theory Char_Arrays
  imports Session_Export "HOL-Library.Monad_Syntax"
begin

text \<open>
  The string routines at the level of the arrays they run on. Elsewhere a character array is the string it
  holds; here it is its cells, a read or a write outside it has no result, and the routines are written
  index by index as in C. \<open>holds a b\<close> says that the cells \<open>a\<close> hold the string \<open>b\<close> with its terminator. The
  theorems say that on such arrays the routines never leave them and do to the strings what the other
  theories say.
\<close>

type_synonym carray = "char list"

definition rd :: "carray \<Rightarrow> nat \<Rightarrow> char option" where
  "rd a i = (if i < length a then Some (a ! i) else None)"

definition wr :: "carray \<Rightarrow> nat \<Rightarrow> char \<Rightarrow> carray option" where
  "wr a i c = (if i < length a then Some (a[i := c]) else None)"

definition holds :: "carray \<Rightarrow> string \<Rightarrow> bool" where
  "holds a b \<longleftrightarrow> NUL \<in> set a \<and> takeWhile (\<lambda>c. c \<noteq> NUL) a = b"

section \<open>Writing\<close>

text \<open>\<open>while (src[j] \&\& (i + 1) < cap) dst[i++] = src[j++];\<close>\<close>

function put_loop :: "nat \<Rightarrow> carray \<Rightarrow> nat \<Rightarrow> carray \<Rightarrow> nat \<Rightarrow> (carray \<times> nat) option" where
  "put_loop cap src j dst i = do {
     c \<leftarrow> rd src j;
     if c \<noteq> NUL \<and> i + 1 < cap then do { d \<leftarrow> wr dst i c; put_loop cap src (j + 1) d (i + 1) }
     else Some (dst, i) }"
  by pat_completeness auto
termination
  by (relation "measure (\<lambda>(cap, src, j, dst, i). cap - i)") auto

declare put_loop.simps [simp del]

definition c_copy_text :: "nat \<Rightarrow> carray option \<Rightarrow> carray \<Rightarrow> carray option" where
  "c_copy_text cap src dst =
     (if cap = 0 then Some dst
      else case src of None \<Rightarrow> wr dst 0 NUL
      | Some s \<Rightarrow> do { (d, i) \<leftarrow> put_loop cap s 0 dst 0; wr d i NUL })"

text \<open>\<open>while (i < cap \&\& dst[i]) i++;\<close>\<close>

function scan_end :: "nat \<Rightarrow> carray \<Rightarrow> nat \<Rightarrow> nat option" where
  "scan_end cap dst i =
     (if i < cap then do { c \<leftarrow> rd dst i; if c \<noteq> NUL then scan_end cap dst (i + 1) else Some i } else Some i)"
  by pat_completeness auto
termination
  by (relation "measure (\<lambda>(cap, dst, i). cap - i)") auto

declare scan_end.simps [simp del]

definition c_append_text :: "nat \<Rightarrow> carray option \<Rightarrow> carray \<Rightarrow> carray option" where
  "c_append_text cap src dst =
     (if cap = 0 then Some dst
      else case src of None \<Rightarrow> Some dst
      | Some s \<Rightarrow> do {
          i \<leftarrow> scan_end cap dst 0;
          if i \<ge> cap then Some dst else do { (d, k) \<leftarrow> put_loop cap s 0 dst i; wr d k NUL } })"

text \<open>The report builder of session\_export.c: its buffer and its \<open>len\<close>.\<close>

definition c_rb_init :: "nat \<Rightarrow> carray \<Rightarrow> (carray \<times> nat) option" where
  "c_rb_init cap buf = (if cap > 0 then do { b \<leftarrow> wr buf 0 NUL; Some (b, 0) } else Some (buf, 0))"

definition c_rb_append :: "nat \<Rightarrow> carray option \<Rightarrow> carray \<times> nat \<Rightarrow> (carray \<times> nat) option" where
  "c_rb_append cap txt rb =
     (if cap = 0 then Some rb
      else case txt of None \<Rightarrow> Some rb
      | Some t \<Rightarrow> do { (b, len) \<leftarrow> put_loop cap t 0 (fst rb) (snd rb); b' \<leftarrow> wr b len NUL; Some (b', len) })"

text \<open>The JSONL builder, which writes the terminator after every character.\<close>

definition c_jb_putc :: "nat \<Rightarrow> char \<Rightarrow> carray \<times> nat \<Rightarrow> (carray \<times> nat) option" where
  "c_jb_putc cap c jb =
     (if cap = 0 then Some jb
      else if snd jb + 1 \<ge> cap then Some jb
      else do { b \<leftarrow> wr (fst jb) (snd jb) c; b' \<leftarrow> wr b (snd jb + 1) NUL; Some (b', snd jb + 1) })"

text \<open>\<open>for (i = 0; text[i]; ++i) jb_putc(jb, text[i]);\<close>\<close>

function jb_loop :: "nat \<Rightarrow> carray \<Rightarrow> nat \<Rightarrow> carray \<times> nat \<Rightarrow> (carray \<times> nat) option" where
  "jb_loop cap t i jb = do {
     c \<leftarrow> rd t i;
     if c \<noteq> NUL then do { jb' \<leftarrow> c_jb_putc cap c jb; jb_loop cap t (i + 1) jb' } else Some jb }"
  by pat_completeness auto
termination
  by (relation "measure (\<lambda>(cap, t, i, jb). length t - i)") (auto simp: rd_def split: if_splits)

declare jb_loop.simps [simp del]

definition c_jb_append :: "nat \<Rightarrow> carray option \<Rightarrow> carray \<times> nat \<Rightarrow> (carray \<times> nat) option" where
  "c_jb_append cap txt jb = (case txt of None \<Rightarrow> Some jb | Some t \<Rightarrow> jb_loop cap t 0 jb)"

section \<open>Reading\<close>

text \<open>\<open>while (s[n]) n++;\<close>\<close>

function len_loop :: "carray \<Rightarrow> nat \<Rightarrow> nat option" where
  "len_loop s n = do { c \<leftarrow> rd s n; if c \<noteq> NUL then len_loop s (n + 1) else Some n }"
  by pat_completeness auto
termination
  by (relation "measure (\<lambda>(s, n). length s - n)") (auto simp: rd_def split: if_splits)

declare len_loop.simps [simp del]

definition c_str_len :: "carray option \<Rightarrow> nat option" where
  "c_str_len s = (case s of None \<Rightarrow> Some 0 | Some a \<Rightarrow> len_loop a 0)"

function eq_cells :: "carray \<Rightarrow> carray \<Rightarrow> nat \<Rightarrow> bool option" where
  "eq_cells a b i = do {
     x \<leftarrow> rd a i; y \<leftarrow> rd b i;
     if x \<noteq> NUL \<and> y \<noteq> NUL then (if x \<noteq> y then Some False else eq_cells a b (i + 1)) else Some (x = y) }"
  by pat_completeness auto
termination
  by (relation "measure (\<lambda>(a, b, i). length a - i)") (auto simp: rd_def split: if_splits)

declare eq_cells.simps [simp del]

definition c_str_eq :: "carray option \<Rightarrow> carray option \<Rightarrow> bool option" where
  "c_str_eq a b = (case a of None \<Rightarrow> Some False | Some x \<Rightarrow> (case b of None \<Rightarrow> Some False | Some y \<Rightarrow> eq_cells x y 0))"

function prefix_cells :: "carray \<Rightarrow> carray \<Rightarrow> nat \<Rightarrow> bool option" where
  "prefix_cells s p i = do {
     y \<leftarrow> rd p i;
     if y \<noteq> NUL then do { x \<leftarrow> rd s i; if x \<noteq> y then Some False else prefix_cells s p (i + 1) } else Some True }"
  by pat_completeness auto
termination
  by (relation "measure (\<lambda>(s, p, i). length p - i)") (auto simp: rd_def split: if_splits)

declare prefix_cells.simps [simp del]

definition c_starts_with :: "carray option \<Rightarrow> carray option \<Rightarrow> bool option" where
  "c_starts_with s p = (case s of None \<Rightarrow> Some False | Some x \<Rightarrow> (case p of None \<Rightarrow> Some False | Some y \<Rightarrow> prefix_cells x y 0))"

text \<open>\<open>while (*s \&\& is_space(*s)) s++;\<close> The result is how far the pointer moved.\<close>

function skip_loop :: "carray \<Rightarrow> nat \<Rightarrow> nat option" where
  "skip_loop s i = do { c \<leftarrow> rd s i; if c \<noteq> NUL \<and> is_space_char c then skip_loop s (i + 1) else Some i }"
  by pat_completeness auto
termination
  by (relation "measure (\<lambda>(s, i). length s - i)") (auto simp: rd_def split: if_splits)

declare skip_loop.simps [simp del]

text \<open>The rest of the cells the returned pointer sees; for NULL the code returns the empty literal.\<close>

definition c_skip_spaces :: "carray option \<Rightarrow> carray option" where
  "c_skip_spaces s = (case s of None \<Rightarrow> Some [NUL] | Some a \<Rightarrow> do { i \<leftarrow> skip_loop a 0; Some (drop i a) })"

text \<open>\<open>while (n > 0 \&\& is_space_char(s[n - 1])) s[--n] = 0;\<close>\<close>

primrec trim_cells :: "nat \<Rightarrow> carray \<Rightarrow> carray option" where
  "trim_cells 0 s = Some s"
| "trim_cells (Suc n) s = do { c \<leftarrow> rd s n; if is_space_char c then do { t \<leftarrow> wr s n NUL; trim_cells n t } else Some s }"

definition c_trim_right_in_place :: "carray option \<Rightarrow> carray option option" where
  "c_trim_right_in_place s =
     (case s of None \<Rightarrow> Some None | Some a \<Rightarrow> do { n \<leftarrow> c_str_len s; t \<leftarrow> trim_cells n a; Some (Some t) })"

section \<open>The log buffers\<close>

text \<open>\<open>ap\<close> of the transcript: the buffer and its length, as the report builder but without the test of the capacity.\<close>

definition c_ap :: "nat \<Rightarrow> carray option \<Rightarrow> carray \<times> nat \<Rightarrow> (carray \<times> nat) option" where
  "c_ap cap txt d =
     (case txt of None \<Rightarrow> Some d
      | Some t \<Rightarrow> do { (b, len) \<leftarrow> put_loop cap t 0 (fst d) (snd d); b' \<leftarrow> wr b len NUL; Some (b', len) })"

text \<open>\<open>while (src[i]) dst[(*len)++] = src[i++];\<close>\<close>

function fill_loop :: "carray \<Rightarrow> nat \<Rightarrow> carray \<Rightarrow> nat \<Rightarrow> (carray \<times> nat) option" where
  "fill_loop src j dst i = do {
     c \<leftarrow> rd src j;
     if c \<noteq> NUL then do { d \<leftarrow> wr dst i c; fill_loop src (j + 1) d (i + 1) } else Some (dst, i) }"
  by pat_completeness auto
termination
  by (relation "measure (\<lambda>(src, j, dst, i). length src - j)") (auto simp: rd_def split: if_splits)

declare fill_loop.simps [simp del]

definition c_append_within_cap :: "nat \<Rightarrow> carray option \<Rightarrow> carray \<times> nat \<Rightarrow> (bool \<times> carray \<times> nat) option" where
  "c_append_within_cap cap src d =
     (if cap = 0 then Some (False, d)
      else case src of None \<Rightarrow> Some (False, d)
      | Some s \<Rightarrow> do {
          add \<leftarrow> len_loop s 0;
          if snd d + add + 1 > cap then Some (False, d)
          else do { (b, len) \<leftarrow> fill_loop s 0 (fst d) (snd d); b' \<leftarrow> wr b len NUL; Some (True, b', len) } })"

text \<open>\<open>append_to_buffer\<close> of the journal, with the flag it raises when it cuts.\<close>

function buffer_loop :: "nat \<Rightarrow> carray \<Rightarrow> nat \<Rightarrow> carray \<Rightarrow> nat \<Rightarrow> ((carray \<times> nat) \<times> bool) option" where
  "buffer_loop cap t i buf len = do {
     c \<leftarrow> rd t i;
     if c \<noteq> NUL then
       (if len + 1 \<ge> cap then do { b \<leftarrow> wr buf len NUL; Some ((b, len), True) }
        else do { b \<leftarrow> wr buf len c; buffer_loop cap t (i + 1) b (len + 1) })
     else do { b \<leftarrow> wr buf len NUL; Some ((b, len), False) } }"
  by pat_completeness auto
termination
  by (relation "measure (\<lambda>(cap, t, i, buf, len). length t - i)") (auto simp: rd_def split: if_splits)

declare buffer_loop.simps [simp del]

definition c_append_to_buffer :: "nat \<Rightarrow> carray option \<Rightarrow> carray \<times> nat \<Rightarrow> ((carray \<times> nat) \<times> bool) option" where
  "c_append_to_buffer cap txt d =
     (if cap = 0 then Some (d, False)
      else case txt of None \<Rightarrow> Some (d, False) | Some t \<Rightarrow> buffer_loop cap t 0 (fst d) (snd d))"

section \<open>Decimal digits\<close>

text \<open>\<open>while (value > 0 \&\& i < sizeof(tmp) - 1) tmp[i++] = '0' + value \% 10\<close> and the copy back to front.\<close>

function digit_loop :: "nat \<Rightarrow> nat \<Rightarrow> carray \<Rightarrow> nat \<Rightarrow> (carray \<times> nat) option" where
  "digit_loop lim v tmp i =
     (if v > 0 \<and> i < lim then do { t \<leftarrow> wr tmp i (char_of (48 + v mod 10)); digit_loop lim (v div 10) t (i + 1) }
      else Some (tmp, i))"
  by pat_completeness auto
termination
  by (relation "measure (\<lambda>(lim, v, tmp, i). v)") auto

declare digit_loop.simps [simp del]

primrec reverse_loop :: "carray \<Rightarrow> nat \<Rightarrow> carray \<Rightarrow> nat \<Rightarrow> (carray \<times> nat) option" where
  "reverse_loop tmp 0 out j = Some (out, j)"
| "reverse_loop tmp (Suc i) out j = do { c \<leftarrow> rd tmp i; o1 \<leftarrow> wr out j c; reverse_loop tmp i o1 (j + 1) }"

text \<open>The printer with scratch array \<open>tmp\<close>, whose cells are not initialised.\<close>

definition c_dec :: "carray \<Rightarrow> nat \<Rightarrow> carray \<Rightarrow> carray option" where
  "c_dec tmp v out =
     (if v = 0 then do { o1 \<leftarrow> wr out 0 (CHR ''0''); wr o1 1 NUL }
      else do { (t, i) \<leftarrow> digit_loop (length tmp - 1) v tmp 0; (o1, j) \<leftarrow> reverse_loop t i out 0; wr o1 j NUL })"

definition c_u32_to_dec :: "carray \<Rightarrow> u32 \<Rightarrow> carray \<Rightarrow> carray option" where
  "c_u32_to_dec tmp v out = c_dec tmp (unat v) out"

definition c_u64_to_dec :: "carray \<Rightarrow> u64 \<Rightarrow> carray \<Rightarrow> carray option" where
  "c_u64_to_dec tmp v out = c_dec tmp (unat v) out"

section \<open>Arrays that hold a string\<close>

lemma holds_iff: "holds a b \<longleftrightarrow> NUL \<notin> set b \<and> (\<exists>r. a = b @ NUL # r)"
proof
  assume h: "holds a b"
  have "a = takeWhile (\<lambda>c. c \<noteq> NUL) a @ dropWhile (\<lambda>c. c \<noteq> NUL) a" by simp
  moreover have "dropWhile (\<lambda>c. c \<noteq> NUL) a \<noteq> []" using h by (simp add: holds_def dropWhile_eq_Nil_conv)
  ultimately obtain r where "a = b @ NUL # r"
    using h hd_dropWhile [of "\<lambda>c. c \<noteq> NUL" a] by (cases "dropWhile (\<lambda>c. c \<noteq> NUL) a") (auto simp: holds_def)
  then show "NUL \<notin> set b \<and> (\<exists>r. a = b @ NUL # r)" using h set_takeWhileD [of NUL "\<lambda>c. c \<noteq> NUL" a] by (auto simp: holds_def)
next
  assume "NUL \<notin> set b \<and> (\<exists>r. a = b @ NUL # r)"
  then show "holds a b" by (auto simp: holds_def takeWhile_append2 takeWhile_tail)
qed

lemma holdsE:
  assumes "holds a b"
  obtains r where "a = b @ NUL # r" "NUL \<notin> set b"
  using assms by (auto simp: holds_iff)

lemma holds_append [simp]: "NUL \<notin> set b \<Longrightarrow> holds (b @ NUL # r) b"
  by (auto simp: holds_iff)

lemma holds_no_nul: "holds a b \<Longrightarrow> NUL \<notin> set b"
  by (simp add: holds_iff)

lemma holds_length: "holds a b \<Longrightarrow> length b < length a"
  by (auto simp: holds_iff)

lemma rd_append [simp]: "rd (p @ c # r) (length p) = Some c"
  by (simp add: rd_def)

lemma wr_append [simp]: "wr (p @ c # r) (length p) d = Some (p @ d # r)"
  by (simp add: wr_def)

lemma put_loop_eq:
  assumes "NUL \<notin> set s" "length q < cap" "cap \<le> length q + length x"
  shows "put_loop cap (p @ s @ NUL # r) (length p) (q @ x) (length q) =
    Some (q @ take (cap - 1 - length q) s @ drop (min (length s) (cap - 1 - length q)) x,
          length q + min (length s) (cap - 1 - length q))"
  using assms
proof (induction s arbitrary: p q x)
  case Nil
  then show ?case by (subst put_loop.simps) simp
next
  case (Cons c s)
  have rd: "rd (p @ (c # s) @ NUL # r) (length p) = Some c" "c \<noteq> NUL" using Cons.prems(1) by auto
  show ?case
  proof (cases "length q + 1 < cap")
    case True
    then obtain y x' where x: "x = y # x'" using Cons.prems(3) by (cases x) auto
    have "put_loop cap ((p @ [c]) @ s @ NUL # r) (length (p @ [c])) ((q @ [c]) @ x') (length (q @ [c])) =
      Some ((q @ [c]) @ take (cap - 1 - length (q @ [c])) s @ drop (min (length s) (cap - 1 - length (q @ [c]))) x',
        length (q @ [c]) + min (length s) (cap - 1 - length (q @ [c])))"
      by (rule Cons.IH) (use Cons.prems True x in auto)
    moreover have "cap - 1 - length q = Suc (cap - 1 - length (q @ [c]))" using True by simp
    ultimately show ?thesis using True rd by (subst put_loop.simps) (simp add: x)
  next
    case False
    then have "cap - 1 - length q = 0" by simp
    then show ?thesis using False rd by (subst put_loop.simps) simp
  qed
qed

text \<open>The loop and the terminator after it, on arrays that hold strings.\<close>

lemma put_text:
  assumes "holds src s" "holds dst b" "cap \<le> length dst" "length b < cap"
  shows "\<exists>d r. put_loop cap src 0 dst (length b) = Some (d, length b + min (length s) (cap - 1 - length b)) \<and>
    wr d (length b + min (length s) (cap - 1 - length b)) NUL = Some ((b @ take (cap - 1 - length b) s) @ NUL # r) \<and>
    length ((b @ take (cap - 1 - length b) s) @ NUL # r) = length dst"
proof -
  obtain r where src: "src = s @ NUL # r" "NUL \<notin> set s" using assms(1) by (rule holdsE)
  obtain x where dst: "dst = b @ NUL # x" using assms(2) by (rule holdsE)
  let ?k = "min (length s) (cap - 1 - length b)"
  let ?d = "b @ take (cap - 1 - length b) s @ drop ?k (NUL # x)"
  have put: "put_loop cap src 0 dst (length b) = Some (?d, length b + ?k)"
    using put_loop_eq [of s b cap "NUL # x" "[]" r] src assms(3,4) by (simp add: dst)
  have k: "?k < length (NUL # x)" using assms(3,4) by (auto simp: dst)
  then obtain y z where y: "drop ?k (NUL # x) = y # z" using Cons_nth_drop_Suc by metis
  then have "length (y # z) = length (NUL # x) - ?k" by (metis length_drop)
  then have len: "Suc (length z + ?k) = length (NUL # x)" using k by simp
  have lt: "length (b @ take (cap - 1 - length b) s) = length b + ?k" by simp
  have "wr ?d (length b + ?k) NUL = Some ((b @ take (cap - 1 - length b) s) @ NUL # z)"
    using wr_append [of "b @ take (cap - 1 - length b) s" y z NUL] unfolding lt y by simp
  moreover have "length ((b @ take (cap - 1 - length b) s) @ NUL # z) = length dst" using len by (simp add: dst)
  ultimately show ?thesis using put by blast
qed

lemma holds_taken: "holds src s \<Longrightarrow> holds dst b \<Longrightarrow> holds ((b @ take n s) @ NUL # r) (b @ take n s)"
  using holds_no_nul in_set_takeD by (intro holds_append) fastforce

section \<open>The contract of a writer\<close>

text \<open>
  A writer takes an argument and a buffer; the buffer stands for a string. On accepted arguments it returns,
  and does to the string what its meaning says.
\<close>

fun write_all :: "('x \<Rightarrow> 's \<Rightarrow> 's option) \<Rightarrow> 'x list \<Rightarrow> 's \<Rightarrow> 's option" where
  "write_all f [] s = Some s"
| "write_all f (x # xs) s = do { t \<leftarrow> f x s; write_all f xs t }"

locale array_writer =
  fixes wop :: "'x \<Rightarrow> 's \<Rightarrow> 's option" and accepts :: "'x \<Rightarrow> bool"
    and shows_text :: "'s \<Rightarrow> string \<Rightarrow> bool" and meaning :: "'x \<Rightarrow> string \<Rightarrow> string"
  assumes writes: "accepts x \<Longrightarrow> shows_text s b \<Longrightarrow> \<exists>s'. wop x s = Some s' \<and> shows_text s' (meaning x b)"
begin

lemma writes_all:
  "list_all accepts xs \<Longrightarrow> shows_text s b \<Longrightarrow> \<exists>s'. write_all wop xs s = Some s' \<and> shows_text s' (fold meaning xs b)"
proof (induction xs arbitrary: s b)
  case Nil
  then show ?case by simp
next
  case (Cons x xs)
  then obtain t where "wop x s = Some t" "shows_text t (meaning x b)" using writes [of x s b] by auto
  then show ?case using Cons.IH [of t "meaning x b"] Cons.prems by simp
qed

end

text \<open>What an array argument stands for; an array that holds no string is not accepted.\<close>

definition text_of :: "carray option \<Rightarrow> cstr" where
  "text_of a = map_option (takeWhile (\<lambda>c. c \<noteq> NUL)) a"

definition is_text :: "carray option \<Rightarrow> bool" where
  "is_text a = (case a of None \<Rightarrow> True | Some x \<Rightarrow> NUL \<in> set x)"

lemma is_text_Some: "is_text (Some x) \<Longrightarrow> \<exists>s. holds x s \<and> text_of (Some x) = Some s"
  by (simp add: is_text_def text_of_def holds_def)

lemma text_of_holds: "holds x s \<Longrightarrow> text_of (Some x) = Some s"
  by (simp add: text_of_def holds_def)

lemma scan_end_at: "NUL \<notin> set b \<Longrightarrow> length (p @ b) < cap \<Longrightarrow> scan_end cap (p @ b @ NUL # r) (length p) = Some (length (p @ b))"
proof (induction b arbitrary: p)
  case Nil
  then show ?case by (subst scan_end.simps) simp
next
  case (Cons c b)
  then have "scan_end cap ((p @ [c]) @ b @ NUL # r) (length (p @ [c])) = Some (length ((p @ [c]) @ b))" by (intro Cons.IH) auto
  then show ?case using Cons.prems by (subst scan_end.simps) auto
qed

lemma scan_end_holds: "holds a b \<Longrightarrow> length b < cap \<Longrightarrow> scan_end cap a 0 = Some (length b)"
  using scan_end_at [of b "[]" cap] by (auto elim!: holdsE)

lemma copy_writes:
  assumes "0 < cap" "is_text src" "length dst = cap"
  shows "\<exists>d. c_copy_text cap src dst = Some d \<and> length d = cap \<and> holds d (str_copy cap (text_of src))"
proof (cases src)
  case None
  have "dst = [] @ hd dst # tl dst" using assms(1,3) by (cases dst) auto
  then have "wr dst 0 NUL = Some ([] @ NUL # tl dst)" by (metis wr_append list.size(3))
  then show ?thesis using assms None holds_append [of "[]" "tl dst"]
    by (auto simp: c_copy_text_def text_of_def)
next
  case (Some x)
  then obtain s where s: "holds x s" "text_of src = Some s" using assms(2) is_text_Some by blast
  obtain r where x: "x = s @ NUL # r" "NUL \<notin> set s" using s(1) by (rule holdsE)
  let ?k = "min (length s) (cap - 1)"
  have put: "put_loop cap x 0 dst 0 = Some (take (cap - 1) s @ drop ?k dst, ?k)"
    using put_loop_eq [of s "[]" cap dst "[]" r] x assms(1,3) by simp
  have k: "?k < length dst" using assms(1,3) by auto
  then obtain y z where y: "drop ?k dst = y # z" using Cons_nth_drop_Suc by metis
  then have "length (y # z) = length dst - ?k" by (metis length_drop)
  then have len: "Suc (length z + ?k) = length dst" using k by simp
  have "length (take (cap - 1) s) = ?k" by simp
  then have "wr (take (cap - 1) s @ drop ?k dst) ?k NUL = Some (take (cap - 1) s @ NUL # z)"
    unfolding y by (metis wr_append)
  moreover have "holds (take (cap - 1) s @ NUL # z) (take (cap - 1) s)"
    using x(2) by (intro holds_append) (auto dest: in_set_takeD)
  ultimately show ?thesis using put assms(1,3) len s(2) Some
    by (simp add: c_copy_text_def str_copy_take)
qed

lemma append_writes:
  assumes "is_text src" "holds dst b" "length dst = cap"
  shows "\<exists>d. c_append_text cap src dst = Some d \<and> length d = cap \<and> holds d (str_append cap b (text_of src))"
proof (cases src)
  case None
  then show ?thesis using assms by (auto simp: c_append_text_def text_of_def str_append_def)
next
  case (Some x)
  then obtain s where s: "holds x s" "text_of src = Some s" using assms(1) is_text_Some by blast
  have b: "length b < cap" using holds_length [OF assms(2)] assms(3) by simp
  have scan: "scan_end cap dst 0 = Some (length b)" by (rule scan_end_holds [OF assms(2) b])
  from put_text [OF s(1) assms(2), of cap] b assms(3) obtain d r where
    "put_loop cap x 0 dst (length b) = Some (d, length b + min (length s) (cap - 1 - length b))"
    "wr d (length b + min (length s) (cap - 1 - length b)) NUL = Some ((b @ take (cap - 1 - length b) s) @ NUL # r)"
    "length ((b @ take (cap - 1 - length b) s) @ NUL # r) = length dst" by auto
  then show ?thesis using scan b s(2) assms(3) Some holds_taken [OF s(1) assms(2), of "cap - 1 - length b" r]
    by (simp add: c_append_text_def str_append_def copy_loop_take)
qed

interpretation ca: array_writer "c_append_text cap" is_text "\<lambda>a b. length a = cap \<and> holds a b" "\<lambda>x b. str_append cap b (text_of x)"
  by unfold_locales (use append_writes in blast)

interpretation cc: array_writer "c_copy_text (Suc n)" is_text "\<lambda>a b. length a = Suc n \<and> holds a b" "\<lambda>x b. str_copy (Suc n) (text_of x)"
  by unfold_locales (use copy_writes [of "Suc n"] in auto)

section \<open>The builders\<close>

text \<open>The buffer of a builder, and its length field, stand for a string.\<close>

definition built :: "nat \<Rightarrow> carray \<times> nat \<Rightarrow> string \<Rightarrow> bool" where
  "built cap rb b \<longleftrightarrow> length (fst rb) = cap \<and> holds (fst rb) b \<and> snd rb = length b"

lemma rb_init_built: "0 < cap \<Longrightarrow> length buf = cap \<Longrightarrow> \<exists>rb. c_rb_init cap buf = Some rb \<and> built cap rb []"
  by (cases buf) (auto simp: c_rb_init_def wr_def built_def holds_def)

lemma rb_writes:
  assumes "is_text t" "built cap rb b"
  shows "\<exists>rb'. c_rb_append cap t rb = Some rb' \<and> built cap rb' (b @ take (cap - 1 - length b) (case text_of t of None \<Rightarrow> [] | Some s \<Rightarrow> s))"
proof (cases t)
  case None
  then show ?thesis using assms by (cases rb) (auto simp: c_rb_append_def text_of_def)
next
  case (Some x)
  then obtain s where s: "holds x s" "text_of t = Some s" using assms(1) is_text_Some by blast
  obtain buf n where rb: "rb = (buf, n)" by fastforce
  then have h: "length buf = cap" "holds buf b" "n = length b" using assms(2) by (simp_all add: built_def)
  have b: "length b < cap" using holds_length [OF h(2)] h(1) by simp
  from put_text [OF s(1) h(2), of cap] b h(1) obtain d r where
    "put_loop cap x 0 buf (length b) = Some (d, length b + min (length s) (cap - 1 - length b))"
    "wr d (length b + min (length s) (cap - 1 - length b)) NUL = Some ((b @ take (cap - 1 - length b) s) @ NUL # r)"
    "length ((b @ take (cap - 1 - length b) s) @ NUL # r) = length buf" by auto
  then show ?thesis using b h s(2) Some holds_taken [OF s(1) h(2), of "cap - 1 - length b" r]
    by (simp add: c_rb_append_def built_def rb)
qed

interpretation rb: array_writer "c_rb_append cap" is_text "built cap"
    "\<lambda>t b. b @ take (cap - 1 - length b) (case text_of t of None \<Rightarrow> [] | Some s \<Rightarrow> s)"
  by unfold_locales (rule rb_writes)

lemma jb_putc_writes:
  assumes "built cap jb b" "c \<noteq> NUL"
  shows "\<exists>jb'. c_jb_putc cap c jb = Some jb' \<and> built cap jb' (b @ take (cap - 1 - length b) [c])"
proof -
  obtain buf n where jb: "jb = (buf, n)" by fastforce
  then have h: "length buf = cap" "holds buf b" "n = length b" using assms(1) by (simp_all add: built_def)
  obtain r where buf: "buf = b @ NUL # r" "NUL \<notin> set b" using h(2) by (rule holdsE)
  show ?thesis
  proof (cases "length b + 1 < cap")
    case True
    then obtain y r' where r: "r = y # r'" using h(1) buf(1) by (cases r) auto
    have w: "wr (b @ c # y # r') (length b + 1) NUL = Some (b @ c # NUL # r')"
      using wr_append [of "b @ [c]" y r' NUL] by simp
    have "holds ((b @ [c]) @ NUL # r') (b @ [c])" using buf(2) assms(2) by (intro holds_append) auto
    moreover have "take (cap - 1 - length b) [c] = [c]" using True by (cases "cap - 1 - length b") auto
    ultimately show ?thesis using True h buf w by (simp add: c_jb_putc_def jb built_def r)
  next
    case False
    then have "take (cap - 1 - length b) [c] = []" by simp
    then show ?thesis using False h by (auto simp: c_jb_putc_def jb built_def)
  qed
qed

lemma jb_loop_writes:
  assumes "NUL \<notin> set s" "built cap jb b"
  shows "\<exists>jb'. jb_loop cap (p @ s @ NUL # r) (length p) jb = Some jb' \<and> built cap jb' (b @ take (cap - 1 - length b) s)"
  using assms
proof (induction s arbitrary: p jb b)
  case Nil
  then show ?case by (subst jb_loop.simps) simp
next
  case (Cons c s)
  have c: "c \<noteq> NUL" "rd (p @ (c # s) @ NUL # r) (length p) = Some c" using Cons.prems(1) by auto
  obtain jb1 where j: "c_jb_putc cap c jb = Some jb1" "built cap jb1 (b @ take (cap - 1 - length b) [c])"
    using jb_putc_writes [OF Cons.prems(2) c(1)] by blast
  have "take (cap - 1 - length b) (c # s) = take (cap - 1 - length b) [c] @ take (cap - 1 - length (b @ take (cap - 1 - length b) [c])) s"
    by (cases "length b + 1 < cap") (auto simp: take_Cons' )
  then show ?case using Cons.IH [of jb1 "b @ take (cap - 1 - length b) [c]" "p @ [c]"] Cons.prems(1) c j
    by (subst jb_loop.simps) simp
qed

lemma jb_writes:
  assumes "is_text t" "built cap jb b"
  shows "\<exists>jb'. c_jb_append cap t jb = Some jb' \<and> built cap jb' (b @ take (cap - 1 - length b) (case text_of t of None \<Rightarrow> [] | Some s \<Rightarrow> s))"
proof (cases t)
  case None
  then show ?thesis using assms by (simp add: c_jb_append_def text_of_def)
next
  case (Some x)
  then obtain s where s: "holds x s" "text_of t = Some s" using assms(1) is_text_Some by blast
  obtain r where x: "x = s @ NUL # r" "NUL \<notin> set s" using s(1) by (rule holdsE)
  show ?thesis using jb_loop_writes [of s cap jb b "[]" r] x assms(2) s(2) Some by (simp add: c_jb_append_def)
qed

interpretation jsb: array_writer "c_jb_append cap" is_text "built cap"
    "\<lambda>t b. b @ take (cap - 1 - length b) (case text_of t of None \<Rightarrow> [] | Some s \<Rightarrow> s)"
  by unfold_locales (rule jb_writes)

section \<open>Readers on arrays that hold strings\<close>

lemma len_loop_at: "NUL \<notin> set s \<Longrightarrow> len_loop (p @ s @ NUL # r) (length p) = Some (length (p @ s))"
proof (induction s arbitrary: p)
  case Nil
  then show ?case by (subst len_loop.simps) simp
next
  case (Cons c s)
  then show ?case using Cons.IH [of "p @ [c]"] by (subst len_loop.simps) auto
qed

lemma str_len_holds: "holds a s \<Longrightarrow> c_str_len (Some a) = Some (length s)"
  using len_loop_at [of s "[]"] by (auto simp: c_str_len_def elim!: holdsE)

lemma eq_cells_at:
  "NUL \<notin> set s \<Longrightarrow> NUL \<notin> set t \<Longrightarrow> length p = length q \<Longrightarrow>
    eq_cells (p @ s @ NUL # r) (q @ t @ NUL # u) (length p) = Some (s = t)"
proof (induction s t arbitrary: p q rule: list_induct2')
  case (4 x xs y ys)
  have "rd (p @ (x # xs) @ NUL # r) (length p) = Some x" "rd (q @ (y # ys) @ NUL # u) (length p) = Some y"
    using 4(4) by (simp_all add: rd_def nth_append)
  then show ?case using 4(1) [of "p @ [x]" "q @ [y]"] 4(2-4) by (subst eq_cells.simps) auto
next
  case (2 x xs)
  have "rd (p @ (x # xs) @ NUL # r) (length p) = Some x" "rd (q @ [] @ NUL # u) (length p) = Some NUL"
    using 2(3) by (simp_all add: rd_def nth_append)
  then show ?case using 2(1) by (subst eq_cells.simps) auto
next
  case (3 y ys)
  have "rd (p @ [] @ NUL # r) (length p) = Some NUL" "rd (q @ (y # ys) @ NUL # u) (length p) = Some y"
    using 3(3) by (simp_all add: rd_def nth_append)
  then show ?case using 3(2) by (subst eq_cells.simps) auto
next
  case 1
  have "rd (p @ [] @ NUL # r) (length p) = Some NUL" "rd (q @ [] @ NUL # u) (length p) = Some NUL"
    using 1(3) by (simp_all add: rd_def nth_append)
  then show ?case by (subst eq_cells.simps) simp
qed

lemma prefix_cells_at:
  "NUL \<notin> set s \<Longrightarrow> NUL \<notin> set t \<Longrightarrow> length p = length q \<Longrightarrow>
    prefix_cells (p @ s @ NUL # r) (q @ t @ NUL # u) (length p) = Some (prefix t s)"
proof (induction s t arbitrary: p q rule: list_induct2')
  case (4 x xs y ys)
  have "rd (p @ (x # xs) @ NUL # r) (length p) = Some x" "rd (q @ (y # ys) @ NUL # u) (length p) = Some y"
    using 4(4) by (simp_all add: rd_def nth_append)
  then show ?case using 4(1) [of "p @ [x]" "q @ [y]"] 4(2-4) by (subst prefix_cells.simps) auto
next
  case (2 x xs)
  have "rd (q @ [] @ NUL # u) (length p) = Some NUL" using 2(3) by (simp add: rd_def)
  then show ?case by (subst prefix_cells.simps) simp
next
  case (3 y ys)
  have "rd (p @ [] @ NUL # r) (length p) = Some NUL" "rd (q @ (y # ys) @ NUL # u) (length p) = Some y"
    using 3(3) by (simp_all add: rd_def nth_append)
  then show ?case using 3(2) by (subst prefix_cells.simps) auto
next
  case 1
  have "rd (q @ [] @ NUL # u) (length p) = Some NUL" using 1(3) by (simp add: rd_def)
  then show ?case by (subst prefix_cells.simps) simp
qed

lemma skip_loop_at:
  "NUL \<notin> set s \<Longrightarrow> skip_loop (p @ s @ NUL # r) (length p) = Some (length p + length (takeWhile is_space_char s))"
proof (induction s arbitrary: p)
  case Nil
  then show ?case by (subst skip_loop.simps) simp
next
  case (Cons c s)
  then show ?case using Cons.IH [of "p @ [c]"] by (subst skip_loop.simps) auto
qed

lemma trim_cells_at:
  "NUL \<notin> set s \<Longrightarrow> \<exists>t. trim_cells (length s) (s @ NUL # r) = Some t \<and> length t = length (s @ NUL # r) \<and>
     holds t (rev (dropWhile is_space_char (rev s)))"
proof (induction s arbitrary: r rule: rev_induct)
  case Nil
  then show ?case by (simp add: holds_def)
next
  case (snoc c s)
  show ?case
  proof (cases "is_space_char c")
    case True
    then show ?thesis using snoc.IH [of "NUL # r"] snoc.prems by simp
  next
    case False
    then show ?thesis using snoc.prems holds_append [of "s @ [c]" r] by simp
  qed
qed

section \<open>Decimal digits in their arrays\<close>

lemma digit_loop_at:
  assumes "length p + k \<le> length (p @ x)" "lim = length p + k"
  shows "\<exists>y. digit_loop lim v (p @ x) (length p) = Some (p @ dec_digits k v @ y, length p + length (dec_digits k v)) \<and>
    length (dec_digits k v @ y) = length x"
  using assms
proof (induction k arbitrary: v p x)
  case 0
  then show ?case by (subst digit_loop.simps) simp
next
  case (Suc k)
  show ?case
  proof (cases "v = 0")
    case True
    then show ?thesis by (subst digit_loop.simps) simp
  next
    case False
    obtain c x' where x: "x = c # x'" using Suc.prems(1) by (cases x) auto
    let ?d = "char_of (48 + v mod 10)"
    obtain y where "digit_loop lim (v div 10) ((p @ [?d]) @ x') (length (p @ [?d])) =
      Some ((p @ [?d]) @ dec_digits k (v div 10) @ y, length (p @ [?d]) + length (dec_digits k (v div 10)))"
      "length (dec_digits k (v div 10) @ y) = length x'"
      using Suc.IH [of "p @ [?d]" x' "v div 10"] Suc.prems x by auto
    then show ?thesis using False Suc.prems by (subst digit_loop.simps) (auto simp: x)
  qed
qed

lemma reverse_loop_at:
  "length q + length ds \<le> length (q @ x) \<Longrightarrow>
    reverse_loop (ds @ y) (length ds) (q @ x) (length q) = Some (q @ rev ds @ drop (length ds) x, length q + length ds)"
proof (induction ds arbitrary: q x y rule: rev_induct)
  case Nil
  then show ?case by simp
next
  case (snoc d ds)
  obtain c x' where x: "x = c # x'" using snoc.prems by (cases x) auto
  show ?case using snoc.IH [of "q @ [d]" x' "d # y"] snoc.prems by (simp add: x)
qed

lemma dec_writes:
  assumes "2 \<le> length tmp" "length tmp \<le> length out"
  shows "\<exists>d. c_dec tmp v out = Some d \<and> length d = length out \<and>
    holds d (if v = 0 then ''0'' else rev (dec_digits (length tmp - 1) v))"
proof (cases "v = 0")
  case True
  obtain a b r where out: "out = a # b # r" using assms by (cases out; cases "tl out") auto
  show ?thesis using True by (simp add: c_dec_def out wr_def holds_def)
next
  case False
  define ds where "ds = dec_digits (length tmp - 1) v"
  obtain y where dig: "digit_loop (length tmp - 1) v tmp 0 = Some (ds @ y, length ds)"
    using digit_loop_at [of "[]" "length tmp - 1" tmp "length tmp - 1" v] by (auto simp: ds_def)
  have short: "length ds < length out" using length_dec_digits [of "length tmp - 1" v] assms by (simp add: ds_def)
  obtain c r where r: "drop (length ds) out = c # r" using short Cons_nth_drop_Suc by metis
  have rev: "reverse_loop (ds @ y) (length ds) out 0 = Some (rev ds @ c # r, length ds)"
    using reverse_loop_at [of "[]" ds out y] short r by simp
  have "length (c # r) = length out - length ds" using r by (metis length_drop)
  then have len: "length (rev ds @ NUL # r) = length out" using short by simp
  have "NUL \<notin> set (rev ds)" using dec_digits_are_digits [of NUL "length tmp - 1" v] by (auto simp: ds_def)
  then have "holds (rev ds @ NUL # r) (rev ds)" by (rule holds_append)
  moreover have "wr (rev ds @ c # r) (length ds) NUL = Some (rev ds @ NUL # r)"
    using wr_append [of "rev ds" c r NUL] by simp
  ultimately show ?thesis using False dig rev len unfolding ds_def [symmetric] by (simp add: c_dec_def)
qed

lemma rb_append_take: "rb_append s b = b @ take (SESSION_EXPORT_BUFFER_MAX - 1 - length b) s"
  by (simp add: rb_append_def copy_loop_take)

lemma jb_append_take: "jb_append s b = b @ take (SESSION_JSONL_EXPORT_BUFFER_MAX - 1 - length b) s"
proof (induction s arbitrary: b)
  case Nil
  then show ?case by (simp add: jb_append_def)
next
  case (Cons c s)
  then show ?case using Cons [of "jb_putc c b"]
    by (cases "length b + 1 < SESSION_JSONL_EXPORT_BUFFER_MAX") (auto simp: jb_append_def jb_putc_def take_Cons')
qed

abbreviation chars_of :: "carray option \<Rightarrow> string" where
  "chars_of x \<equiv> (case text_of x of None \<Rightarrow> [] | Some s \<Rightarrow> s)"

lemma buffer_sizes: "0 < SESSION_EXPORT_BUFFER_MAX" "0 < SESSION_JSONL_EXPORT_BUFFER_MAX"
  by (simp_all add: SESSION_EXPORT_BUFFER_MAX_def SESSION_JSONL_EXPORT_BUFFER_MAX_def)

lemma line_built:
  assumes "0 < cap" "length line = cap" "is_text x" "list_all is_text xs"
  shows "\<exists>d. do { l \<leftarrow> c_copy_text cap x line; write_all (c_append_text cap) xs l } = Some d \<and> length d = cap \<and>
    holds d (fold (\<lambda>t b. str_append cap b (text_of t)) xs (str_copy cap (text_of x)))"
proof -
  obtain l where "c_copy_text cap x line = Some l" "length l = cap" "holds l (str_copy cap (text_of x))"
    using copy_writes [OF assms(1,3,2)] by blast
  then show ?thesis using ca.writes_all [OF assms(4), where cap = cap and s = l] by simp
qed

lemma report_built:
  assumes "length buf = SESSION_EXPORT_BUFFER_MAX" "list_all is_text xs"
  shows "\<exists>r. do { r \<leftarrow> c_rb_init SESSION_EXPORT_BUFFER_MAX buf; write_all (c_rb_append SESSION_EXPORT_BUFFER_MAX) xs r } = Some r \<and>
    built SESSION_EXPORT_BUFFER_MAX r (fold (\<lambda>t. rb_append (chars_of t)) xs [])"
proof -
  obtain r where "c_rb_init SESSION_EXPORT_BUFFER_MAX buf = Some r" "built SESSION_EXPORT_BUFFER_MAX r []"
    using rb_init_built [OF buffer_sizes(1) assms(1)] by blast
  moreover note rb.writes_all [OF assms(2), where cap = SESSION_EXPORT_BUFFER_MAX and s = r and b = "[]", folded rb_append_take]
  ultimately show ?thesis by simp
qed

lemma jsonl_built:
  assumes "length buf = SESSION_JSONL_EXPORT_BUFFER_MAX" "list_all is_text xs"
  shows "\<exists>r. do { r \<leftarrow> c_rb_init SESSION_JSONL_EXPORT_BUFFER_MAX buf; write_all (c_jb_append SESSION_JSONL_EXPORT_BUFFER_MAX) xs r } = Some r \<and>
    built SESSION_JSONL_EXPORT_BUFFER_MAX r (fold (\<lambda>t. jb_append (chars_of t)) xs [])"
proof -
  obtain r where "c_rb_init SESSION_JSONL_EXPORT_BUFFER_MAX buf = Some r" "built SESSION_JSONL_EXPORT_BUFFER_MAX r []"
    using rb_init_built [OF buffer_sizes(2) assms(1)] by blast
  moreover note jsb.writes_all [OF assms(2), where cap = SESSION_JSONL_EXPORT_BUFFER_MAX and s = r and b = "[]", folded jb_append_take]
  ultimately show ?thesis by simp
qed

section \<open>The log buffers hold their strings\<close>

lemma ap_writes:
  assumes "is_text t" "built cap d b"
  shows "\<exists>d'. c_ap cap t d = Some d' \<and> built cap d' (ap cap b (chars_of t))"
proof -
  have "0 < cap" using assms(2) holds_length by (fastforce simp: built_def)
  then have "c_ap cap t d = c_rb_append cap t d" by (simp add: c_ap_def c_rb_append_def split: option.split)
  then show ?thesis using rb_writes [OF assms] by (simp add: ap_def copy_loop_take)
qed

lemma fill_loop_at:
  "NUL \<notin> set s \<Longrightarrow> length s \<le> length x \<Longrightarrow>
    fill_loop (p @ s @ NUL # r) (length p) (q @ x) (length q) = Some (q @ s @ drop (length s) x, length q + length s)"
proof (induction s arbitrary: p q x)
  case Nil
  then show ?case by (subst fill_loop.simps) simp
next
  case (Cons c s)
  then obtain y x' where x: "x = y # x'" by (cases x) auto
  then show ?case using Cons.IH [of x' "p @ [c]" "q @ [c]"] Cons.prems by (subst fill_loop.simps) auto
qed

lemma within_cap_writes:
  assumes "is_text (Some t)" "built cap d b"
  shows "\<exists>d'. c_append_within_cap cap (Some t) d = Some (fst (append_within_cap cap b (chars_of (Some t))), d') \<and>
    built cap d' (snd (append_within_cap cap b (chars_of (Some t))))"
proof -
  obtain s where s: "holds t s" "text_of (Some t) = Some s" using assms(1) is_text_Some by blast
  obtain r where t: "t = s @ NUL # r" "NUL \<notin> set s" using s(1) by (rule holdsE)
  obtain buf n where d: "d = (buf, n)" by fastforce
  then have h: "length buf = cap" "holds buf b" "n = length b" using assms(2) by (simp_all add: built_def)
  obtain x where buf: "buf = b @ NUL # x" "NUL \<notin> set b" using h(2) by (rule holdsE)
  have cap: "0 < cap" using h(1) buf(1) by auto
  have len: "len_loop t 0 = Some (length s)" using len_loop_at [of s "[]" r] t by simp
  show ?thesis
  proof (cases "length b + length s + 1 > cap")
    case True
    then show ?thesis using cap len s(2) h assms(2) by (simp add: c_append_within_cap_def append_within_cap_def d)
  next
    case False
    then have fit: "length s \<le> length x" using h(1) buf(1) by simp
    have "fill_loop t 0 buf (length b) = Some (b @ s @ drop (length s) (NUL # x), length b + length s)"
      using fill_loop_at [of s "NUL # x" "[]" r b] t fit by (simp add: buf(1))
    moreover obtain y z where y: "drop (length s) (NUL # x) = y # z"
      using fit Cons_nth_drop_Suc [of "length s" "NUL # x"] by (metis length_Cons less_Suc_eq_le)
    then have "length (y # z) = length (NUL # x) - length s" by (metis length_drop)
    then have "length ((b @ s) @ NUL # z) = cap" using h(1) fit by (simp add: buf(1))
    moreover have "wr (b @ s @ y # z) (length b + length s) NUL = Some ((b @ s) @ NUL # z)"
      using wr_append [of "b @ s" y z NUL] by simp
    moreover have "holds ((b @ s) @ NUL # z) (b @ s)" using t(2) buf(2) by (intro holds_append) auto
    ultimately show ?thesis using False cap len s(2) h y
      by (simp add: c_append_within_cap_def append_within_cap_def d built_def)
  qed
qed

lemma buffer_loop_at:
  assumes "NUL \<notin> set s" "NUL \<notin> set q" "length q + length x = cap" "x \<noteq> []"
  shows "\<exists>d. buffer_loop cap (p @ s @ NUL # r) (length p) (q @ x) (length q) = Some (d, snd (append_to_buffer cap q s)) \<and>
    built cap d (fst (append_to_buffer cap q s))"
  using assms
proof (induction s arbitrary: p q x)
  case Nil
  then obtain y z where "x = y # z" by (cases x) auto
  then show ?case using Nil by (subst buffer_loop.simps) (simp add: built_def)
next
  case (Cons c s)
  have c: "c \<noteq> NUL" "rd (p @ (c # s) @ NUL # r) (length p) = Some c" using Cons.prems(1) by auto
  obtain y z where x: "x = y # z" using Cons.prems(4) by (cases x) auto
  show ?case
  proof (cases "length q + 1 < cap")
    case True
    then have "z \<noteq> []" using Cons.prems(3) x by auto
    then show ?thesis using Cons.IH [of "q @ [c]" z "p @ [c]"] Cons.prems True c
      by (subst buffer_loop.simps) (auto simp: x)
  next
    case False
    then show ?thesis using c Cons.prems by (subst buffer_loop.simps) (simp add: x built_def)
  qed
qed

lemma to_buffer_writes:
  assumes "is_text t" "built cap d b"
  shows "\<exists>d'. c_append_to_buffer cap t d = Some (d', snd (append_to_buffer cap b (chars_of t))) \<and>
    built cap d' (fst (append_to_buffer cap b (chars_of t)))"
proof (cases t)
  case None
  then show ?thesis using assms(2) by (cases d) (auto simp: c_append_to_buffer_def text_of_def)
next
  case (Some x)
  then obtain s where s: "holds x s" "text_of t = Some s" using assms(1) is_text_Some by blast
  obtain r where x: "x = s @ NUL # r" "NUL \<notin> set s" using s(1) by (rule holdsE)
  obtain buf n where d: "d = (buf, n)" by fastforce
  then have h: "length buf = cap" "holds buf b" "n = length b" using assms(2) by (simp_all add: built_def)
  obtain z where buf: "buf = b @ NUL # z" "NUL \<notin> set b" using h(2) by (rule holdsE)
  have "0 < cap" using h(1) buf(1) by auto
  then show ?thesis using buffer_loop_at [of s b "NUL # z" cap "[]" r] x s(2) h buf Some
    by (simp add: c_append_to_buffer_def d)
qed

interpretation tb: array_writer "c_ap cap" is_text "built cap" "\<lambda>t b. ap cap b (chars_of t)"
  by unfold_locales (rule ap_writes)

text \<open>The journal's flag is dropped here: \<open>to_buffer_writes\<close> says when it is raised.\<close>

interpretation lb: array_writer "\<lambda>t d. map_option fst (c_append_to_buffer cap t d)" is_text "built cap"
    "\<lambda>t b. fst (append_to_buffer cap b (chars_of t))"
  by unfold_locales (use to_buffer_writes in fastforce)

section \<open>Properties\<close>

text \<open>
  C6. Writing texts into arrays. Whatever the cells held before, a copy followed by any number of appends
  reads and writes no cell outside its arrays and leaves a terminated string, the one the string level
  gives; so do the report builder and the JSONL builder from their start, with the length they keep beside
  their buffer. The sources may be NULL or arrays that hold a string.
\<close>

theorem array_writers_refine:
  assumes "0 < cap" "length line = cap" "length rbuf = SESSION_EXPORT_BUFFER_MAX"
    and "length jbuf = SESSION_JSONL_EXPORT_BUFFER_MAX" "is_text x" "list_all is_text xs"
  shows "(\<exists>d. do { l \<leftarrow> c_copy_text cap x line; write_all (c_append_text cap) xs l } = Some d \<and>
      length d = cap \<and> holds d (fold (\<lambda>t b. str_append cap b (text_of t)) xs (str_copy cap (text_of x)))) \<and>
    (\<exists>r. do { r \<leftarrow> c_rb_init SESSION_EXPORT_BUFFER_MAX rbuf; write_all (c_rb_append SESSION_EXPORT_BUFFER_MAX) xs r } = Some r \<and>
      built SESSION_EXPORT_BUFFER_MAX r (fold (\<lambda>t. rb_append (chars_of t)) xs [])) \<and>
    (\<exists>j. do { j \<leftarrow> c_rb_init SESSION_JSONL_EXPORT_BUFFER_MAX jbuf; write_all (c_jb_append SESSION_JSONL_EXPORT_BUFFER_MAX) xs j } = Some j \<and>
      built SESSION_JSONL_EXPORT_BUFFER_MAX j (fold (\<lambda>t. jb_append (chars_of t)) xs []))"
  using line_built [OF assms(1,2,5,6)] report_built [OF assms(3,6)] jsonl_built [OF assms(4,6)] by blast

definition demo_cells :: "carray list" where
  "demo_cells = [''seq'' @ [NUL, CHR ''x''], ''=42'' @ [NUL]]"

theorem array_writers_refine_witness:
  "\<exists>d. do { l \<leftarrow> c_copy_text 6 (Some (hd demo_cells)) (replicate 6 (CHR ''z'')); write_all (c_append_text 6) (map Some (tl demo_cells)) l } = Some d \<and>
     length d = 6 \<and> holds d ''seq=4''"
  using array_writers_refine [of 6 "replicate 6 (CHR ''z'')" "replicate SESSION_EXPORT_BUFFER_MAX NUL"
      "replicate SESSION_JSONL_EXPORT_BUFFER_MAX NUL" "Some (hd demo_cells)" "map Some (tl demo_cells)"]
  by (simp add: demo_cells_def is_text_def text_of_def str_copy_take str_append_def copy_loop_take)

text \<open>
  Reading arrays that hold strings. Length, comparison, prefix test, the skip of spaces and the trim in
  place stop at the terminators, read and write no cell outside, and compute what the string level computes;
  the trim keeps the size of the array.
\<close>

theorem array_readers_refine:
  assumes "holds a s" "holds b t"
  shows "c_str_len (Some a) = Some (length s) \<and> c_str_eq (Some a) (Some b) = Some (str_eq (Some s) (Some t)) \<and>
    c_starts_with (Some a) (Some b) = Some (starts_with (Some s) (Some t)) \<and>
    (\<exists>r. c_skip_spaces (Some a) = Some r \<and> holds r (skip_spaces (Some s))) \<and>
    (\<exists>d. c_trim_right_in_place (Some a) = Some (Some d) \<and> length d = length a \<and> holds d (trim_right_in_place s))"
proof -
  obtain r where a: "a = s @ NUL # r" "NUL \<notin> set s" using assms(1) by (rule holdsE)
  obtain u where b: "b = t @ NUL # u" "NUL \<notin> set t" using assms(2) by (rule holdsE)
  let ?n = "length (takeWhile is_space_char s)"
  have "drop ?n a = dropWhile is_space_char s @ NUL # r" by (simp add: a(1) dropWhile_eq_drop length_takeWhile_le)
  moreover have "NUL \<notin> set (dropWhile is_space_char s)" using a(2) by (auto dest: set_dropWhileD)
  ultimately have "holds (drop ?n a) (skip_spaces (Some s))" by (simp add: skip_spaces_def skip_spaces_loop_dropWhile)
  moreover have "c_skip_spaces (Some a) = Some (drop ?n a)" using skip_loop_at [of s "[]" r] a by (simp add: c_skip_spaces_def)
  moreover obtain d where "trim_cells (length s) a = Some d" "length d = length a" "holds d (trim_right_in_place s)"
    using trim_cells_at [OF a(2), of r] a(1) by (auto simp: trim_right_eq)
  ultimately show ?thesis
    using eq_cells_at [of s t "[]" "[]" r u] prefix_cells_at [of s t "[]" "[]" r u] a b str_len_holds [OF assms(1)]
    by (simp add: c_str_eq_def c_starts_with_def c_trim_right_in_place_def starts_with_Some)
qed

theorem array_readers_refine_witness:
  "c_str_eq (Some (''ab'' @ [NUL, CHR ''c''])) (Some (''ab'' @ [NUL])) = Some True \<and>
   c_starts_with (Some (''ab'' @ [NUL, CHR ''c''])) (Some (''ab'' @ [NUL])) = Some True"
  using array_readers_refine [of "''ab'' @ [NUL, CHR ''c'']" "''ab''" "''ab'' @ [NUL]" "''ab''"]
  by (simp add: holds_def starts_with_Some)

text \<open>
  C7. The log buffers. Appending a string to a buffer and its length, by the transcript's two routines or the
  journal's, touches no cell outside, and leaves a buffer and a length that stand for what the string level
  gives: all of the text or nothing for \<open>append_within_cap\<close>, the part that fits for the other two, and the
  journal's flag is raised exactly when it was cut.
\<close>

theorem log_buffers_refine:
  assumes "is_text (Some t)" "built cap d b"
  defines "s \<equiv> chars_of (Some t)"
  shows "(\<exists>d'. c_ap cap (Some t) d = Some d' \<and> built cap d' (ap cap b s)) \<and>
    (\<exists>d'. c_append_within_cap cap (Some t) d = Some (length b + length s < cap, d') \<and>
       built cap d' (if length b + length s < cap then b @ s else b)) \<and>
    (\<exists>d'. c_append_to_buffer cap (Some t) d = Some (d', cap \<le> length b + length s) \<and>
       built cap d' (b @ take (cap - 1 - length b) s))"
proof -
  have b: "length b < cap" using assms(2) holds_length by (fastforce simp: built_def)
  then have "append_within_cap cap b s = (if length b + length s < cap then (True, b @ s) else (False, b))"
    by (simp add: append_within_cap_def)
  then show ?thesis
    using ap_writes [OF assms(1,2)] within_cap_writes [OF assms(1,2)] to_buffer_writes [OF assms(1,2)] append_to_buffer_eq [OF b, of s]
    by (auto simp: s_def)
qed

theorem log_buffers_refine_witness:
  "\<exists>d. c_append_to_buffer 4 (Some (''xyz'' @ [NUL])) ([CHR ''a'', NUL, CHR ''p'', CHR ''q''], 1) = Some (d, True) \<and> built 4 d ''axy''"
  using log_buffers_refine [of "''xyz'' @ [NUL]" 4 "([CHR ''a'', NUL, CHR ''p'', CHR ''q''], 1)" "''a''"]
  by (simp add: is_text_def text_of_def built_def holds_def)

text \<open>
  The decimal printers. With scratch and result arrays of the declared sizes, 16 for 32 bits and 32 for
  64, every number is printed without leaving an array, whatever the cells held, and no digit is lost.
\<close>

theorem decimal_printers_in_bounds:
  assumes "length t16 = 16" "length o16 = 16" "length t32 = 32" "length o32 = 32"
  shows "(\<exists>d. c_u32_to_dec t16 v o16 = Some d \<and> length d = 16 \<and> holds d (u32_to_dec v) \<and> dec_value (u32_to_dec v) = unat v) \<and>
    (\<exists>d. c_u64_to_dec t32 w o32 = Some d \<and> length d = 32 \<and> holds d (u64_to_dec w) \<and> dec_value (u64_to_dec w) = unat w)"
proof -
  have "\<exists>d. c_u32_to_dec t16 v o16 = Some d \<and> length d = 16 \<and> holds d (u32_to_dec v)"
    using dec_writes [of t16 o16 "unat v"] assms(1,2) by (auto simp: c_u32_to_dec_def u32_to_dec_def unat_eq_0)
  moreover have "\<exists>d. c_u64_to_dec t32 w o32 = Some d \<and> length d = 32 \<and> holds d (u64_to_dec w)"
    using dec_writes [of t32 o32 "unat w"] assms(3,4) by (auto simp: c_u64_to_dec_def u64_to_dec_def unat_eq_0)
  ultimately show ?thesis by (simp add: dec_value_u32 dec_value_u64)
qed

theorem decimal_printers_in_bounds_witness:
  "\<exists>d. c_u32_to_dec (replicate 16 (CHR ''x'')) 4294967295 (replicate 16 (CHR ''y'')) = Some d \<and> length d = 16 \<and>
     dec_value (u32_to_dec 4294967295) = 4294967295"
  using decimal_printers_in_bounds [of "replicate 16 (CHR ''x'')" "replicate 16 (CHR ''y'')" "replicate 32 (CHR ''x'')"
      "replicate 32 (CHR ''y'')" 4294967295 0] by auto

end
