(* ===== verification/Session_Log.thy ===== *)
theory Session_Log
  imports Quiet
begin

text \<open>
  What the two logs of a session keep of an event: the transcript takes the text as it is, the journal after
  its redaction.
\<close>

definition txt_entry :: "u32 \<Rightarrow> string \<Rightarrow> string \<Rightarrow> string" where
  "txt_entry n t x = take 255 (''['' @ u6 n @ ''] '' @ t @ '': '' @ x) @ [LF]"

lemma txt_entry_line: "apcs 256 [u6 n, ''] '', t, '': '', x] (copy_text 256 ''['') @ [LF] = txt_entry n t x"
proof -
  have "apcs 256 [u6 n, ''] '', t, '': '', x] ''['' = ''['' @ take 254 (u6 n @ ''] '' @ t @ '': '' @ x)"
    unfolding apcs_def by (subst tapc.fold_app) simp_all
  moreover have "copy_text 256 ''['' = ''[''" by (simp add: str_copy_fits)
  ultimately show ?thesis by (simp add: txt_entry_def)
qed

lemma ap_two: "length d < cap \<Longrightarrow> ap cap (ap cap d a) b = d @ take (cap - 1 - length d) (a @ b)"
  using tap.fold_app [of d cap "[a, b]"] by simp

text \<open>The state before the flush of an event whose JSONL line fits.\<close>

definition logged :: "string \<Rightarrow> string \<Rightarrow> string \<Rightarrow> 'a transcript_sys_scheme \<Rightarrow> 'a transcript_sys_scheme" where
  "logged t a x s =
     (let g = trn s; n = tr_seq g + 1 in
      s\<lparr>trn := g\<lparr>tr_busy := True, tr_jsonl := tr_jsonl g @ build_jsonl_event_line 1024 n t a x g, tr_seq := n,
        tr_txt := tr_txt g @ take (65535 - length (tr_txt g)) (txt_entry n t x)\<rparr>\<rparr>)"

lemma event_line_busy: "build_jsonl_event_line 1024 n t a x (g\<lparr>tr_busy := b\<rparr>) = build_jsonl_event_line 1024 n t a x g"
  by (simp add: build_jsonl_event_line_def identity_parts_def)

lemma event_logged:
  assumes "tr_active (trn s)" "\<not> tr_busy (trn s)" "\<not> tr_jsonl_locked (trn s)" "trn_ok (trn s)"
    and "length (tr_jsonl (trn s)) + length (build_jsonl_event_line 1024 (tr_seq (trn s) + 1) t a x (trn s)) < 65536"
  shows "event t a x s =
    (let f = flushv (logged t a x s) in
     upd_trn (\<lambda>g. g\<lparr>tr_busy := False\<rparr>)
       (if fst f then snd f
        else mark_transcript_error_once ''write_read_compare_failed''
               (upd_trn (\<lambda>g. g\<lparr>tr_active := False, tr_state := copy_text 32 ''error''\<rparr>) (snd f))))"
proof -
  let ?g = "trn s" and ?n = "tr_seq (trn s) + 1"
  let ?l = "build_jsonl_event_line 1024 ?n t a x ?g"
  let ?s1 = "s\<lparr>trn := ?g\<lparr>tr_busy := True\<rparr>\<rparr>"
  have j: "event_jsonl t a x ?s1 = (?n, s\<lparr>trn := ?g\<lparr>tr_busy := True, tr_jsonl := tr_jsonl ?g @ ?l\<rparr>\<rparr>)"
    using assms(3,5) by (simp add: event_jsonl_def append_jsonl_line_eq Let_def event_line_busy upd_trn_def)
  have "length (tr_txt ?g) < 65536" using assms(4) by (simp add: trn_ok_def)
  then have entry: "ap TRANSCRIPT_BUFFER (ap TRANSCRIPT_BUFFER (tr_txt ?g) (apcs 256 [u6 ?n, ''] '', t, '': '', x] (copy_text 256 ''[''))) [LF] =
      tr_txt ?g @ take (65535 - length (tr_txt ?g)) (txt_entry ?n t x)"
    by (simp add: ap_two TRANSCRIPT_BUFFER_def txt_entry_line)
  show ?thesis using assms(1,2) by (simp add: event_def j Let_def case_prod_beta upd_trn_def entry logged_def)
qed

lemma logged_trn:
  "tr_txt (trn (logged t a x s)) = tr_txt (trn s) @ take (65535 - length (tr_txt (trn s))) (txt_entry (tr_seq (trn s) + 1) t x)"
  "tr_jsonl (trn (logged t a x s)) = tr_jsonl (trn s) @ build_jsonl_event_line 1024 (tr_seq (trn s) + 1) t a x (trn s)"
  "tr_seq (trn (logged t a x s)) = tr_seq (trn s) + 1" "tr_active (trn (logged t a x s)) = tr_active (trn s)"
  "tr_txt_path (trn (logged t a x s)) = tr_txt_path (trn s)" "tr_jsonl_path (trn (logged t a x s)) = tr_jsonl_path (trn s)"
  by (simp_all add: logged_def Let_def)

lemma stored_text_upd_trn [simp]: "stored_text (upd_trn f s) p = stored_text s p"
  by (simp add: stored_text_def fopen_rb_def fs_lookup_def upd_trn_def Let_def)

text \<open>
  C24. Events are recorded. An event on an active, idle transcript with room for its line takes the next number
  and adds one line to each log: the text log gets the number, the type and the text, cut at 255 characters
  and where the buffer ends, the JSONL log the whole record. If the transcript is still active afterwards
  and the logs are shorter than 2047 characters, the two files of the session hold them. The text is not
  looked at: what the journal redacts is kept here word for word.
\<close>

theorem transcript_records_event:
  fixes s :: "'a transcript_sys_scheme" and t a x :: string
  assumes "tr_active (trn s)" "\<not> tr_busy (trn s)" "\<not> tr_jsonl_locked (trn s)" "trn_ok (trn s)"
    and "length (tr_jsonl (trn s)) + length (build_jsonl_event_line 1024 (tr_seq (trn s) + 1) t a x (trn s)) < 65536"
  defines "s' \<equiv> event t a x s"
  shows "tr_seq (trn s') = tr_seq (trn s) + 1 \<and>
    tr_txt (trn s') = tr_txt (trn s) @ take (65535 - length (tr_txt (trn s))) (txt_entry (tr_seq (trn s) + 1) t x) \<and>
    tr_jsonl (trn s') = tr_jsonl (trn s) @ build_jsonl_event_line 1024 (tr_seq (trn s) + 1) t a x (trn s) \<and>
    (tr_active (trn s') \<and> length (tr_txt (trn s')) < 2047 \<and> length (tr_jsonl (trn s')) < 2047 \<longrightarrow>
      (\<exists>c d. stored_text s' (tr_txt_path (trn s)) = Some c \<and> c_string (take 2047 c) = tr_txt (trn s') \<and>
         stored_text s' (tr_jsonl_path (trn s)) = Some d \<and> c_string (take 2047 d) = tr_jsonl (trn s')))"
proof -
  define f where "f = flushv (logged t a x s)"
  have s': "s' = upd_trn (\<lambda>g. g\<lparr>tr_busy := False\<rparr>) (if fst f then snd f
      else mark_transcript_error_once ''write_read_compare_failed''
             (upd_trn (\<lambda>g. g\<lparr>tr_active := False, tr_state := copy_text 32 ''error''\<rparr>) (snd f)))"
    using event_logged [OF assms(1-5)] by (simp add: s'_def f_def Let_def)
  have trn: "trn (snd f) = trn (logged t a x s)" by (simp add: f_def)
  have "tr_active (trn s') \<longleftrightarrow> fst f" using assms(1) by (simp add: s' trn logged_trn)
  moreover have "tr_seq (trn s') = tr_seq (trn (logged t a x s))" "tr_txt (trn s') = tr_txt (trn (logged t a x s))"
    "tr_jsonl (trn s') = tr_jsonl (trn (logged t a x s))"
    by (simp_all add: s' trn)
  moreover have "fst f \<Longrightarrow> stored_text s' p = stored_text (snd f) p" for p by (simp add: s')
  moreover have "fst f \<Longrightarrow> flushv (logged t a x s) = (True, snd f)" by (simp add: f_def prod_eq_iff)
  ultimately show ?thesis
    using flushv_ok_steps [of "logged t a x s" "snd f"] by (auto simp: logged_trn)
qed

theorem transcript_records_event_witness:
  "looks_sensitive (Some ''password x7'') \<and>
   tr_txt (trn (event ''user_input'' ''user'' ''password x7'' demo_transcript)) = ''[000001] user_input: password x7'' @ [LF]"
proof -
  have d: "trn demo_transcript = zero_transcript\<lparr>tr_initialized := True, tr_active := True, tr_session_id := ''session-000001'',
     tr_txt_path := ''/vita/audit/sessions/session-000001.txt'', tr_jsonl_path := ''/vita/audit/sessions/session-000001.jsonl''\<rparr>"
    by (simp add: demo_transcript_def demo_transcript0_def journal_sys.defs transcript_sys.defs)
  have "length (build_jsonl_event_line 1024 1 ''user_input'' ''user'' ''password x7'' (trn demo_transcript)) < 1024"
    unfolding build_jsonl_event_line_def Let_def append_trimmed_seq_def
    by (intro tapc.app_length apcs_length) (simp add: str_copy_length)
  then show ?thesis
    using transcript_records_event [of demo_transcript "''user_input''" "''user''" "''password x7''"] demo_transcript_active
    by (simp add: d zero_transcript_def u6_def txt_entry_def looks_sensitive_def contains_token_sublist sublist_code)
qed

end
