(* ===== verification/Transcript_Json.thy ===== *)
theory Transcript_Json
  imports Transcript "HOL-Library.Monad_Syntax"
begin

text \<open>
  The JSONL lines of session\_transcript.c for a reader of JSON. The reader takes flat objects without blanks between
  their parts, with texts and natural numbers as values, and is as strict as RFC 8259 inside them: a text holds no
  control character, only the escapes of the grammar are read, and a number has no leading zero. The one escape it
  does not read is \<open>u\<close> with four digits, which the code never writes.
\<close>

section \<open>The reader\<close>

datatype json_value = JText string | JNumber nat

definition json_escape :: "char \<Rightarrow> char option" where
  "json_escape d =
     (if d = DQ \<or> d = BSL \<or> d = CHR ''/'' then Some d
      else if d = CHR ''b'' then Some (CHR 0x08) else if d = CHR ''f'' then Some (CHR 0x0C)
      else if d = CHR ''n'' then Some LF else if d = CHR ''r'' then Some CR else if d = CHR ''t'' then Some TAB
      else None)"

fun json_text :: "string \<Rightarrow> (string \<times> string) option" where
  "json_text [] = None"
| "json_text (c # cs) =
     (if c = DQ then Some ([], cs)
      else if c = BSL then
        (case cs of [] \<Rightarrow> None
         | d # ds \<Rightarrow> do { e \<leftarrow> json_escape d; (t, r) \<leftarrow> json_text ds; Some (e # t, r) })
      else if uchar c < 32 then None
      else do { (t, r) \<leftarrow> json_text cs; Some (c # t, r) })"

definition is_digit :: "char \<Rightarrow> bool" where
  "is_digit c = (48 \<le> uchar c \<and> uchar c \<le> 57)"

definition json_number :: "string \<Rightarrow> (nat \<times> string) option" where
  "json_number s =
     (let ds = takeWhile is_digit s
      in if ds = [] \<or> (hd ds = CHR ''0'' \<and> length ds > 1) then None else Some (dec_value ds, dropWhile is_digit s))"

definition json_value :: "string \<Rightarrow> (json_value \<times> string) option" where
  "json_value s =
     (case s of [] \<Rightarrow> None
      | c # cs \<Rightarrow>
          if c = DQ then do { (t, r) \<leftarrow> json_text cs; Some (JText t, r) }
          else do { (n, r) \<leftarrow> json_number s; Some (JNumber n, r) })"

text \<open>A name with its colon.\<close>

definition json_name :: "string \<Rightarrow> (string \<times> string) option" where
  "json_name s =
     (case s of [] \<Rightarrow> None
      | c # cs \<Rightarrow>
          if c \<noteq> DQ then None
          else do { (k, r) \<leftarrow> json_text cs; (case r of [] \<Rightarrow> None | d # ds \<Rightarrow> if d = CHR '':'' then Some (k, ds) else None) })"

lemma json_text_shorter: "json_text s = Some (t, r) \<Longrightarrow> length r < length s"
  by (induction s arbitrary: t r rule: json_text.induct)
    (fastforce split: if_splits list.splits option.splits bind_splits prod.splits)+

lemma json_name_shorter: "json_name s = Some (k, r) \<Longrightarrow> length r < length s"
  by (fastforce simp: json_name_def split: list.splits if_splits bind_splits dest: json_text_shorter)

lemma json_number_shorter: "json_number s = Some (n, r) \<Longrightarrow> length r \<le> length s"
  by (auto simp: json_number_def Let_def length_dropWhile_le split: if_splits)

lemma json_value_shorter: "json_value s = Some (v, r) \<Longrightarrow> length r \<le> length s"
  by (cases s) (auto simp: json_value_def bind_eq_Some_conv dest: json_text_shorter json_number_shorter split: if_splits)

function json_members :: "string \<Rightarrow> ((string \<times> json_value) list \<times> string) option" where
  "json_members s = do {
     (k, s1) \<leftarrow> json_name s;
     (v, s2) \<leftarrow> json_value s1;
     (case s2 of [] \<Rightarrow> None
      | c # s3 \<Rightarrow>
          if c = CHR '','' then do { (ms, r) \<leftarrow> json_members s3; Some ((k, v) # ms, r) }
          else if c = CHR ''}'' then Some ([(k, v)], s3)
          else None) }"
  by pat_completeness auto
termination
  by (relation "measure length") (fastforce dest: json_name_shorter json_value_shorter)+

declare json_members.simps [simp del]

definition json_object :: "string \<Rightarrow> ((string \<times> json_value) list \<times> string) option" where
  "json_object s = (case s of [] \<Rightarrow> None | c # cs \<Rightarrow> if c = CHR ''{'' then json_members cs else None)"

section \<open>What the reader makes of the parts of a line\<close>

text \<open>Text that stands for itself in a literal.\<close>

definition json_plain :: "string \<Rightarrow> bool" where
  "json_plain s = list_all (\<lambda>c. 32 \<le> uchar c \<and> c \<noteq> DQ \<and> c \<noteq> BSL) s"

definition json_breaks :: "char \<Rightarrow> bool" where
  "json_breaks c = (uchar c < 32 \<and> c \<noteq> LF \<and> c \<noteq> CR)"

lemma json_text_plain: "json_plain t \<Longrightarrow> json_text (t @ DQ # r) = Some (t, r)"
  by (induction t) (auto simp: json_plain_def)

lemma json_text_escaped:
  "json_text (concat (map transcript_escape t) @ DQ # r) = (if list_ex json_breaks t then None else Some (t, r))"
proof (induction t)
  case (Cons c t)
  have "c = DQ \<or> c = BSL \<or> c = LF \<or> c = CR \<or> c \<notin> {DQ, BSL, LF, CR}" by blast
  then show ?case using Cons
    by (elim disjE) (auto simp: transcript_escape_def json_breaks_def json_escape_def)
qed simp

lemma json_name_plain: "json_plain k \<Longrightarrow> json_name (DQ # k @ DQ # CHR '':'' # r) = Some (k, r)"
  using json_text_plain [of k "CHR '':'' # r"] by (simp add: json_name_def)

lemma json_number_digits:
  assumes "ds \<noteq> []" "list_all is_digit ds" "hd ds = CHR ''0'' \<longrightarrow> length ds = 1" "\<not> is_digit c"
  shows "json_number (ds @ c # r) = Some (dec_value ds, c # r)"
proof -
  have "takeWhile is_digit (ds @ c # r) = ds" "dropWhile is_digit (ds @ c # r) = c # r"
    using assms(2,4) by (auto simp: list_all_iff takeWhile_append2 dropWhile_append2)
  then show ?thesis using assms(1,3) by (auto simp: json_number_def)
qed

lemma digit_not_quote: "is_digit c \<Longrightarrow> c \<noteq> DQ"
  by (auto simp: is_digit_def)

lemma json_value_digits:
  "ds \<noteq> [] \<Longrightarrow> list_all is_digit ds \<Longrightarrow> hd ds = CHR ''0'' \<longrightarrow> length ds = 1 \<Longrightarrow> \<not> is_digit c \<Longrightarrow>
   json_value (ds @ c # r) = Some (JNumber (dec_value ds), c # r)"
  using json_number_digits [of ds c r] digit_not_quote [of "hd ds"] by (cases ds) (auto simp: json_value_def)

text \<open>One member of an object.\<close>

lemma member_more:
  "json_plain k \<Longrightarrow> json_value v = Some (w, CHR '','' # r) \<Longrightarrow>
   json_members (DQ # k @ DQ # CHR '':'' # v) = map_option (\<lambda>(ms, q). ((k, w) # ms, q)) (json_members r)"
  by (subst json_members.simps) (auto simp: json_name_plain split: bind_split)

lemma member_last:
  "json_plain k \<Longrightarrow> json_value v = Some (w, CHR ''}'' # r) \<Longrightarrow> json_members (DQ # k @ DQ # CHR '':'' # v) = Some ([(k, w)], r)"
  by (subst json_members.simps) (simp add: json_name_plain)

lemma member_fails: "json_plain k \<Longrightarrow> json_value v = None \<Longrightarrow> json_members (DQ # k @ DQ # CHR '':'' # v) = None"
  by (subst json_members.simps) (simp add: json_name_plain)

lemma json_value_text: "json_plain t \<Longrightarrow> json_value (DQ # t @ DQ # r) = Some (JText t, r)"
  by (simp add: json_value_def json_text_plain)

lemma json_value_escaped:
  "json_value (DQ # concat (map transcript_escape t) @ DQ # r) = (if list_ex json_breaks t then None else Some (JText t, r))"
  by (simp add: json_value_def json_text_escaped)

section \<open>The numbers the code prints\<close>

lemma trim_zeros_value: "dec_value (trim_zeros t) = dec_value t"
  by (induction t rule: trim_zeros.induct) (auto simp: dec_value_def digit_val_def)

lemma trim_zeros_shape:
  "t \<noteq> [] \<Longrightarrow> trim_zeros t \<noteq> [] \<and> set (trim_zeros t) \<subseteq> set t \<and> (hd (trim_zeros t) = CHR ''0'' \<longrightarrow> length (trim_zeros t) = 1)"
  by (induction t rule: trim_zeros.induct) auto

lemma digits_mod:
  "(n :: nat) mod 1000000 = 10 * (10 * (10 * (10 * (10 * (n div 100000 mod 10) + n div 10000 mod 10) +
     n div 1000 mod 10) + n div 100 mod 10) + n div 10 mod 10) + n mod 10"
proof -
  have step: "n div k mod (10 * m) = 10 * (n div (k * 10) mod m) + n div k mod 10" for k m
    by (simp add: mod_mult2_eq [of _ 10 m] div_mult2_eq)
  show ?thesis using step [of 1 100000] step [of 10 10000] step [of 100 1000] step [of 1000 100] step [of 10000 10] by simp
qed

lemma u6_number: "u6 v \<noteq> []" "list_all is_digit (u6 v)" "dec_value (u6 v) = unat v mod 1000000"
proof -
  have d: "digit_val (char_of (48 + unat w mod 10)) = unat w mod 10" for w :: u32 by simp
  have "is_digit (char_of (48 + m mod 10))" for m :: nat
  proof -
    have "48 + m mod 10 < 256" by (simp add: less_trans [of _ 10])
    then show ?thesis by (simp add: is_digit_def less_Suc_eq_le [symmetric])
  qed
  then show "list_all is_digit (u6 v)" by (simp add: u6_def unat_mod unat_div)
  show "dec_value (u6 v) = unat v mod 1000000"
    by (simp add: u6_def dec_value_def unat_mod unat_div digits_mod)
qed (simp add: u6_def)

lemma dec_digits_last: "v < 10 ^ room \<Longrightarrow> 0 < v \<Longrightarrow> dec_digits room v \<noteq> [] \<and> last (dec_digits room v) \<noteq> CHR ''0''"
proof (induction room arbitrary: v)
  case (Suc room)
  show ?case
  proof (cases "v div 10 = 0")
    case True
    have "digit_val (char_of (48 + v mod 10)) \<noteq> digit_val (CHR ''0'')"
      using True Suc.prems(2) by (simp only: digit_val_char_of) (simp add: digit_val_def)
    then have "char_of (48 + v mod 10) \<noteq> CHR ''0''" by metis
    moreover have "dec_digits room 0 = []" by (cases room) simp_all
    ultimately show ?thesis using Suc.prems True by simp
  next
    case False
    then show ?thesis using Suc by auto
  qed
qed simp

lemma u64_number:
  "u64_to_dec v \<noteq> []" "list_all is_digit (u64_to_dec v)" "hd (u64_to_dec v) = CHR ''0'' \<longrightarrow> length (u64_to_dec v) = 1"
proof -
  have "unat v < 2 ^ 64" using unsigned_less [of v] by simp
  then have l: "unat v < 10 ^ 31" by simp
  show "u64_to_dec v \<noteq> []" "hd (u64_to_dec v) = CHR ''0'' \<longrightarrow> length (u64_to_dec v) = 1"
    using dec_digits_last [OF l] by (auto simp: u64_to_dec_def hd_rev unat_gt_0)
  show "list_all is_digit (u64_to_dec v)"
    using dec_digits_are_digits [of _ 31 "unat v"] by (auto simp: u64_to_dec_def list_all_iff is_digit_def)
qed

lemma seq_value: "json_value (trim_zeros (u6 n) @ CHR ''}'' # r) = Some (JNumber (unat n mod 1000000), CHR ''}'' # r)"
proof -
  note z = trim_zeros_shape [OF u6_number(1) [of n]]
  have "list_all is_digit (trim_zeros (u6 n))" using z u6_number(2) [of n] by (auto simp: list_all_iff)
  then have "json_value (trim_zeros (u6 n) @ CHR ''}'' # r) = Some (JNumber (dec_value (trim_zeros (u6 n))), CHR ''}'' # r)"
    using z by (intro json_value_digits) (auto simp: is_digit_def)
  then show ?thesis by (simp only: trim_zeros_value u6_number(3))
qed

section \<open>A line\<close>

text \<open>The line of an event before it is cut at the end of its array.\<close>

definition event_line :: "u32 \<Rightarrow> string \<Rightarrow> string \<Rightarrow> string \<Rightarrow> transcript_state \<Rightarrow> string" where
  "event_line n ty a x g =
     jstart @ concat (identity_parts g @ [ty, jkey ''actor'', a, jkey ''text'']) @
     concat (map transcript_escape (take 180 x)) @ seq_key @ trim_zeros (u6 n) @ ''}'' @ [LF]"

lemma build_event_line:
  assumes "length (event_line n ty a x g) < 1024"
  shows "build_jsonl_event_line 1024 n ty a x g = event_line n ty a x g"
proof -
  let ?ps = "identity_parts g @ [ty, jkey ''actor'', a, jkey ''text'']"
  let ?es = "map transcript_escape (take 180 x)"
  have len: "length jstart + length (concat ?ps) + length (concat ?es) + length seq_key + length (trim_zeros (u6 n)) + 2 < 1024"
    using assms by (simp add: event_line_def)
  have js: "copy_text 1024 jstart = jstart" using len by (simp add: str_copy_fits)
  have l1: "apcs 1024 ?ps jstart = jstart @ concat ?ps" by (rule apcs_fits) (use len in simp)
  have l2: "apcs 1024 ?es (jstart @ concat ?ps) = (jstart @ concat ?ps) @ concat ?es"
    by (rule apcs_fits) (use len in simp)
  show ?thesis
    using len
    by (simp only: build_jsonl_event_line_def event_line_def Let_def js l1 l2 append_trimmed_seq_def)
       (simp only: tapc.app_fits length_append list.size add_Suc_right add_0_right append_assoc)
qed

text \<open>Members with texts, each with the comma behind it.\<close>

definition text_members :: "(string \<times> string) list \<Rightarrow> string" where
  "text_members kvs = concat (map (\<lambda>(k, v). DQ # k @ DQ # CHR '':'' # DQ # v @ DQ # '','') kvs)"

lemma text_members_read:
  "list_all (\<lambda>(k, v). json_plain k \<and> json_plain v) kvs \<Longrightarrow>
   json_members (text_members kvs @ r) =
     map_option (\<lambda>(ms, q). (map (\<lambda>(k, v). (k, JText v)) kvs @ ms, q)) (json_members r)"
proof (induction kvs)
  case Nil
  show ?case by (simp add: text_members_def option.map_ident case_prod_beta)
next
  case (Cons kv kvs)
  obtain k v where kv: "kv = (k, v)" by fastforce
  have "json_members (DQ # k @ DQ # CHR '':'' # DQ # v @ DQ # CHR '','' # text_members kvs @ r) =
      map_option (\<lambda>(ms, q). ((k, JText v) # ms, q)) (json_members (text_members kvs @ r))"
    using Cons.prems kv by (intro member_more json_value_text) simp_all
  then show ?case using Cons kv
    by (simp add: text_members_def option.map_comp comp_def case_prod_beta)
qed

definition identity_head :: "transcript_state \<Rightarrow> (string \<times> string) list" where
  "identity_head g =
     (let i = tr_identity g in
      [(''session_id'', tr_session_id g), (''boot_id'', id_boot_id i), (''node_id'', id_node_id i), (''host_id'', id_host_id i),
       (''firmware'', id_firmware i), (''arch'', id_arch i), (''boot_mode'', id_boot_mode i), (''cpu_model'', id_cpu_model i)])"

definition event_tail :: "string \<Rightarrow> string \<Rightarrow> transcript_state \<Rightarrow> (string \<times> string) list" where
  "event_tail ty a g =
     [(''storage_backend'', id_storage_backend (tr_identity g)), (''storage_state'', id_storage_state (tr_identity g)),
      (''event_type'', ty), (''actor'', a)]"

text \<open>The members of an event, in their order.\<close>

definition event_fields :: "u32 \<Rightarrow> string \<Rightarrow> string \<Rightarrow> string \<Rightarrow> transcript_state \<Rightarrow> (string \<times> json_value) list" where
  "event_fields n ty a x g =
     map (\<lambda>(k, v). (k, JText v)) (identity_head g) @ [(''ram_bytes'', JNumber (unat (id_ram_bytes (tr_identity g))))] @
     map (\<lambda>(k, v). (k, JText v)) (event_tail ty a g) @ [(''text'', JText (take 180 x)), (''seq'', JNumber (unat n mod 1000000))]"

lemma event_line_members:
  "event_line n ty a x g = CHR ''{'' # text_members (identity_head g) @ DQ # ''ram_bytes'' @ DQ # CHR '':'' #
     (u64_to_dec (id_ram_bytes (tr_identity g)) @ CHR '','' # text_members (event_tail ty a g) @ DQ # ''text'' @ DQ # CHR '':'' #
       (DQ # concat (map transcript_escape (take 180 x)) @ DQ # CHR '','' # DQ # ''seq'' @ DQ # CHR '':'' #
         (trim_zeros (u6 n) @ CHR ''}'' # [LF])))"
  by (simp add: event_line_def jstart_def identity_parts_def jkey_def seq_key_def text_members_def identity_head_def
      event_tail_def Let_def)

text \<open>What the line says of the machine and the event needs no escape.\<close>

definition plain_event :: "string \<Rightarrow> string \<Rightarrow> transcript_state \<Rightarrow> bool" where
  "plain_event ty a g = list_all (\<lambda>(k, v). json_plain v \<and> list_all (\<lambda>c. uchar c < 128) v) (identity_head g @ event_tail ty a g)"

lemma plain_names: "list_all json_plain [''session_id'', ''boot_id'', ''node_id'', ''host_id'', ''firmware'', ''arch'', ''boot_mode'',
    ''cpu_model'', ''ram_bytes'', ''storage_backend'', ''storage_state'', ''event_type'', ''actor'', ''text'', ''seq'']"
  by code_simp

lemma plain_event_members:
  assumes "plain_event ty a g"
  shows "list_all (\<lambda>(k, v). json_plain k \<and> json_plain v) (identity_head g)"
    "list_all (\<lambda>(k, v). json_plain k \<and> json_plain v) (event_tail ty a g)"
  using assms plain_names by (simp_all add: plain_event_def identity_head_def event_tail_def Let_def)

lemma length_concat_escape: "length (concat (map transcript_escape t)) \<le> 2 * length t"
  by (induction t) (auto simp: transcript_escape_def)

text \<open>
  C23. The line of an event is a JSON object, unless the text breaks it. When the line fits its 1024 characters and
  what it says of the machine, the type and the actor is plain text, a strict reader of JSON reads it up to
  its line end and gets every member back: the identity, the type, the actor, under \<open>text\<close> the first 180
  characters of the event text with all their quotes, backslashes and line ends, and the last six digits of its
  number. But a control character other than the two line ends, a tab for one, is stored as it is, and then no
  reader accepts the line. Texts are ASCII here: other bytes are stored as they are, and whether they are UTF-8 and
  are cut between two characters is not looked at.
\<close>

theorem transcript_line_round_trip:
  fixes g :: transcript_state and ty a x :: string
  assumes "length (event_line n ty a x g) < 1024" "plain_event ty a g" "list_all (\<lambda>c. uchar c < 128) x"
  shows "json_object (build_jsonl_event_line 1024 n ty a x g) =
    (if list_ex json_breaks (take 180 x) then None else Some (event_fields n ty a x g, [LF]))"
proof -
  note p = plain_names plain_event_members [OF assms(2)]
  let ?text = "DQ # concat (map transcript_escape (take 180 x)) @ DQ # CHR '','' # DQ # ''seq'' @ DQ # CHR '':'' #
         (trim_zeros (u6 n) @ CHR ''}'' # [LF])"
  have seq: "json_members (DQ # ''seq'' @ DQ # CHR '':'' # (trim_zeros (u6 n) @ CHR ''}'' # [LF])) =
      Some ([(''seq'', JNumber (unat n mod 1000000))], [LF])"
    using p(1) by (intro member_last seq_value) simp
  have body: "json_members (DQ # ''text'' @ DQ # CHR '':'' # ?text) =
      (if list_ex json_breaks (take 180 x) then None
       else Some ([(''text'', JText (take 180 x)), (''seq'', JNumber (unat n mod 1000000))], [LF]))"
  proof (cases "list_ex json_breaks (take 180 x)")
    case True
    then have "json_value ?text = None" by (simp only: json_value_escaped if_True)
    then show ?thesis using True p(1) member_fails [of "''text''" ?text] by simp
  next
    case False
    then have "json_members (DQ # ''text'' @ DQ # CHR '':'' # ?text) =
        map_option (\<lambda>(ms, q). ((''text'', JText (take 180 x)) # ms, q))
          (json_members (DQ # ''seq'' @ DQ # CHR '':'' # (trim_zeros (u6 n) @ CHR ''}'' # [LF])))"
      using p(1) by (intro member_more) (simp_all add: json_value_escaped del: append.simps)
    then show ?thesis using False by (simp only: seq if_False option.map prod.case)
  qed
  let ?rest = "text_members (event_tail ty a g) @ DQ # ''text'' @ DQ # CHR '':'' # ?text"
  have "json_members (DQ # ''ram_bytes'' @ DQ # CHR '':'' # (u64_to_dec (id_ram_bytes (tr_identity g)) @ CHR '','' # ?rest)) =
      map_option (\<lambda>(ms, q). ((''ram_bytes'', JNumber (unat (id_ram_bytes (tr_identity g)))) # ms, q)) (json_members ?rest)"
    using p(1) u64_number by (intro member_more) (simp_all add: json_value_digits dec_value_u64 is_digit_def)
  then show ?thesis
    unfolding build_event_line [OF assms(1)] event_line_members json_object_def
    by (simp only: list.case if_True text_members_read [OF p(2)] text_members_read [OF p(3)] body)
      (simp add: event_fields_def)
qed

theorem transcript_line_round_trip_witness:
  "json_object (build_jsonl_event_line 1024 7 ''user_input'' ''user'' ([DQ] @ ''a'' @ [BSL, LF]) zero_transcript) =
     Some (event_fields 7 ''user_input'' ''user'' ([DQ] @ ''a'' @ [BSL, LF]) zero_transcript, [LF]) \<and>
   json_object (build_jsonl_event_line 1024 7 ''user_input'' ''user'' [TAB] zero_transcript) = None"
proof -
  have e: "event_line 7 ''user_input'' ''user'' x zero_transcript =
      jstart @ concat (identity_parts zero_transcript @ [''user_input'', jkey ''actor'', ''user'', jkey ''text'']) @
      concat (map transcript_escape (take 180 x)) @ seq_key @ trim_zeros (u6 7) @ ''}'' @ [LF]" for x
    by (simp add: event_line_def)
  have "length (event_line 7 ''user_input'' ''user'' x zero_transcript) < 1024" if "length x \<le> 4" for x
  proof -
    have "length (concat (map transcript_escape (take 180 x))) \<le> 8"
      using that length_concat_escape [of "take 180 x"] by simp
    then show ?thesis unfolding e
      by (simp add: jstart_def identity_parts_def zero_transcript_def zero_identity_def jkey_def u64_to_dec_def seq_key_def
          u6_def Let_def)
  qed
  moreover have "plain_event ''user_input'' ''user'' zero_transcript" by code_simp
  ultimately show ?thesis
    using transcript_line_round_trip [of 7 "''user_input''" "''user''" "[DQ] @ ''a'' @ [BSL, LF]" zero_transcript]
      transcript_line_round_trip [of 7 "''user_input''" "''user''" "[TAB]" zero_transcript]
    by (simp add: json_breaks_def)
qed

end
