(* ===== verification/Uefi_Screen.thy ===== *)
theory Uefi_Screen
  imports Uefi_Console
begin

text \<open>
  The screen behind the line editor of uefi\_entry.c. The firmware's text console is the one the UEFI specification
  describes: a grid of columns and rows; carriage return and line feed move the cursor, a line feed in the last row
  scrolls; backspace stops at the left margin; any other character is put under the cursor, which moves right and
  behind the last column goes on in the next row. The grid starts with any contents.
\<close>

record uefi_screen =
  us_cell :: "nat \<Rightarrow> nat \<Rightarrow> char16_t"
  us_row :: nat
  us_col :: nat

definition screen_feed :: "nat \<Rightarrow> uefi_screen \<Rightarrow> uefi_screen" where
  "screen_feed height t =
     (if us_row t + 1 < height then t\<lparr>us_row := us_row t + 1\<rparr>
      else t\<lparr>us_cell := (\<lambda>r. if r + 1 < height then us_cell t (r + 1) else (\<lambda>_. 32))\<rparr>)"

definition screen_char :: "nat \<Rightarrow> nat \<Rightarrow> char16_t \<Rightarrow> uefi_screen \<Rightarrow> uefi_screen" where
  "screen_char width height c t =
     (if c = 13 then t\<lparr>us_col := 0\<rparr>
      else if c = 10 then screen_feed height t
      else if c = 8 then t\<lparr>us_col := us_col t - 1\<rparr>
      else
        let t1 = t\<lparr>us_cell := (us_cell t)(us_row t := (us_cell t (us_row t))(us_col t := c))\<rparr>
        in if us_col t + 1 < width then t1\<lparr>us_col := us_col t + 1\<rparr> else screen_feed height (t1\<lparr>us_col := 0\<rparr>))"

fun screen_sent :: "nat \<Rightarrow> nat \<Rightarrow> efi_sent \<Rightarrow> uefi_screen \<Rightarrow> uefi_screen" where
  "screen_sent width height (OUTPUT_STRING s) t = fold (screen_char width height) s t"
| "screen_sent width height CLEAR_SCREEN t = \<lparr>us_cell = (\<lambda>_ _. 32), us_row = 0, us_col = 0\<rparr>"

definition screen :: "nat \<Rightarrow> nat \<Rightarrow> uefi_screen \<Rightarrow> uefi_sys \<Rightarrow> uefi_screen" where
  "screen width height t u = fold (screen_sent width height) (ue_sent u) t"

section \<open>Text on the screen\<close>

definition cells :: "string \<Rightarrow> nat \<Rightarrow> char16_t" where
  "cells s i = (if i < length s then char16 (s ! i) else 32)"

text \<open>The screen \<open>t\<close> with the prompt, the text and blanks in the row of its cursor, which stands behind the text.\<close>

definition prompted :: "nat \<Rightarrow> uefi_screen \<Rightarrow> string \<Rightarrow> uefi_screen" where
  "prompted width t s =
     t\<lparr>us_cell := (\<lambda>r i. if r = us_row t \<and> i < width then cells (''> '' @ s) i else us_cell t r i), us_col := length s + 2\<rparr>"

definition printable :: "char \<Rightarrow> bool" where
  "printable c = (c \<noteq> CR \<and> c \<noteq> LF \<and> c \<noteq> BS)"

lemma char16_control: "char16 CR = 13" "char16 LF = 10" "char16 BS = 8" "char16 CHR '' '' = 32"
  by (simp_all add: char16_def)

lemma printable_char16: "printable c \<longleftrightarrow> char16 c \<noteq> 13 \<and> char16 c \<noteq> 10 \<and> char16 c \<noteq> 8"
  by (simp add: printable_def char16_inj flip: char16_control)

lemma allowed_printable: "uefi_allowed_input_char c \<Longrightarrow> printable c"
  unfolding uefi_allowed_input_char_def printable_def by (auto split: if_splits)

lemma ascii_loop_take: "ascii_loop cap i s = map char16 (take (cap - 3 - i) s)"
proof (induction s arbitrary: i)
  case Nil
  show ?case by simp
next
  case (Cons c cs)
  show ?case
  proof (cases "i + 3 < cap")
    case True
    then have "cap - 3 - i = Suc (cap - 3 - (i + 1))" by simp
    then show ?thesis using True Cons.IH [of "i + 1"] by simp
  next
    case False
    then show ?thesis by simp
  qed
qed

lemma screen_output:
  assumes "ue_output_string u" "length s \<le> 253"
  shows "screen w h t (uefi_output_raw (Some s) u) = fold (screen_char w h) (map char16 s) (screen w h t u)"
    and "ue_output_string (uefi_output_raw (Some s) u)"
  using assms by (simp_all add: uefi_output_raw_def send_def screen_def ascii_to_char16_def ascii_loop_take)

text \<open>Characters in one row, none of them in its last column.\<close>

definition typed_over :: "string \<Rightarrow> uefi_screen \<Rightarrow> uefi_screen" where
  "typed_over s t =
     t\<lparr>us_cell := (\<lambda>r i. if r = us_row t \<and> us_col t \<le> i \<and> i < us_col t + length s then char16 (s ! (i - us_col t)) else us_cell t r i),
       us_col := us_col t + length s\<rparr>"

lemma typed_over_Nil: "typed_over [] t = t"
  by (cases t) (auto simp: typed_over_def fun_eq_iff)

lemma typed_over_sel [simp]:
  "us_col (typed_over s t) = us_col t + length s" "us_row (typed_over s t) = us_row t"
  by (simp_all add: typed_over_def)

lemma typed_over_append: "typed_over t (typed_over s r) = typed_over (s @ t) r"
  by (cases r) (auto simp: typed_over_def fun_eq_iff nth_append)

lemma screen_printable:
  "list_all printable s \<Longrightarrow> us_col t + length s < w \<Longrightarrow> fold (screen_char w h) (map char16 s) t = typed_over s t"
proof (induction s arbitrary: t)
  case Nil
  show ?case by (simp add: typed_over_Nil)
next
  case (Cons c s)
  then have "printable c" "us_col t + 1 < w" by simp_all
  then have "screen_char w h (char16 c) t = typed_over [c] t"
    by (cases t) (auto simp: screen_char_def typed_over_def printable_char16 Let_def fun_eq_iff)
  moreover have "fold (screen_char w h) (map char16 s) (typed_over [c] t) = typed_over s (typed_over [c] t)"
    using Cons.prems by (intro Cons.IH) simp_all
  ultimately show ?case by (simp add: typed_over_append)
qed

lemma repeat_raw_screen:
  assumes "length s \<le> 253"
  shows "ue_output_string u \<Longrightarrow> screen w h t (repeat_raw n s u) = (fold (screen_char w h) (map char16 s) ^^ n) (screen w h t u)"
    and "ue_output_string u \<Longrightarrow> ue_output_string (repeat_raw n s u)"
  using screen_output [OF _ assms] by (induction n arbitrary: u) (simp_all add: funpow_swap1)

lemma blanks_screen:
  "us_col t + n < w \<Longrightarrow> (fold (screen_char w h) (map char16 '' '') ^^ n) t = typed_over (replicate n CHR '' '') t"
proof (induction n)
  case 0
  show ?case by (simp add: typed_over_Nil)
next
  case (Suc n)
  let ?t = "typed_over (replicate n CHR '' '') t"
  have "fold (screen_char w h) (map char16 '' '') ?t = typed_over '' '' ?t"
    using Suc.prems by (intro screen_printable) (simp_all add: printable_def)
  then have "(fold (screen_char w h) (map char16 '' '') ^^ Suc n) t = typed_over '' '' ?t"
    using Suc by simp
  then show ?case by (simp only: typed_over_append replicate_append_same replicate_Suc)
qed

lemma backspaces_screen: "(fold (screen_char w h) (map char16 [BS]) ^^ n) t = t\<lparr>us_col := us_col t - n\<rparr>"
  by (induction n) (simp_all add: char16_control screen_char_def)

section \<open>What the editor sends\<close>

lemma redraw_screen:
  assumes "screen w h t u = prompted w t0 old" "ue_output_string u" "list_all printable line" "length line \<le> 253"
    and "length old + 2 < w" "length line + 2 < w"
  defines "r \<equiv> uefi_redraw_input line (length line) (length old) u"
  shows "screen w h t (snd r) = prompted w t0 line" and "ue_output_string (snd r)" and "fst r = length line"
proof -
  define n where "n = length old - length line"
  let ?p = "(prompted w t0 old)\<lparr>us_col := 0\<rparr>"
  have "screen w h t (snd r) = (fold (screen_char w h) (map char16 [BS]) ^^ n) ((fold (screen_char w h) (map char16 '' '') ^^ n)
    (fold (screen_char w h) (map char16 line) (fold (screen_char w h) (map char16 (CR # ''> '')) (prompted w t0 old))))"
    unfolding r_def uefi_redraw_input_def Let_def n_def
    using assms(1,2,4) by (simp add: screen_output repeat_raw_screen del: map_append list.map)
  also have "fold (screen_char w h) (map char16 (CR # ''> '')) (prompted w t0 old) = typed_over ''> '' ?p"
    using screen_printable [of "''> ''" ?p w h] assms(5)
    by (simp add: printable_def char16_control screen_char_def)
  also have "fold (screen_char w h) (map char16 line) (typed_over ''> '' ?p) = typed_over (''> '' @ line) ?p"
    using assms(6) by (subst screen_printable [OF assms(3)]) (simp_all add: typed_over_append)
  also have "(fold (screen_char w h) (map char16 '' '') ^^ n) (typed_over (''> '' @ line) ?p) =
      typed_over (''> '' @ line @ replicate n CHR '' '') ?p"
    using assms(5,6) by (subst blanks_screen) (auto simp: n_def typed_over_append)
  also have "(fold (screen_char w h) (map char16 [BS]) ^^ n) \<dots> = prompted w t0 line"
    unfolding backspaces_screen using assms(5,6)
    by (cases t0) (auto simp: typed_over_def prompted_def cells_def n_def fun_eq_iff nth_append nth_Cons' char16_control)
  finally show "screen w h t (snd r) = prompted w t0 line" .
  show "ue_output_string (snd r)" "fst r = length line"
    using assms(2,4) by (simp_all add: r_def uefi_redraw_input_def Let_def screen_output repeat_raw_screen)
qed

lemma echo_screen:
  assumes "screen w h t u = prompted w t0 s" "ue_output_string u" "printable c" "length s + 3 < w"
  shows "screen w h t (uefi_echo_char c u) = prompted w t0 (s @ [c])" "ue_output_string (uefi_echo_char c u)"
proof -
  have "screen w h t (uefi_echo_char c u) = typed_over [c] (prompted w t0 s)"
    using assms screen_printable [of "[c]" "prompted w t0 s"]
    by (simp add: uefi_echo_char_def screen_output prompted_def)
  also have "\<dots> = prompted w t0 (s @ [c])"
    using assms(4) by (cases t0) (auto simp: typed_over_def prompted_def cells_def fun_eq_iff nth_append nth_Cons')
  finally show "screen w h t (uefi_echo_char c u) = prompted w t0 (s @ [c])" .
  show "ue_output_string (uefi_echo_char c u)" using assms(2) by (simp add: uefi_echo_char_def screen_output)
qed

lemma erase_screen:
  assumes "screen w h t u = prompted w t0 s" "ue_output_string u" "s \<noteq> []" "length s + 2 < w"
  shows "screen w h t (uefi_output_raw (Some [BS, CHR '' '', BS]) u) = prompted w t0 (take (length s - 1) s)"
    "ue_output_string (uefi_output_raw (Some [BS, CHR '' '', BS]) u)"
proof -
  obtain r c where s: "s = r @ [c]" using assms(3) by (cases s rule: rev_cases) auto
  have "screen w h t (uefi_output_raw (Some [BS, CHR '' '', BS]) u) =
      fold (screen_char w h) (map char16 [BS, CHR '' '', BS]) (prompted w t0 s)"
    using assms by (simp add: screen_output)
  also have "\<dots> = prompted w t0 r"
    using assms(4)
    by (cases t0) (auto simp: char16_control screen_char_def prompted_def s cells_def fun_eq_iff nth_append nth_Cons' Let_def)
  finally show "screen w h t (uefi_output_raw (Some [BS, CHR '' '', BS]) u) = prompted w t0 (take (length s - 1) s)"
    by (simp add: s)
  show "ue_output_string (uefi_output_raw (Some [BS, CHR '' '', BS]) u)" using assms(2) by (simp add: screen_output)
qed

section \<open>The loop\<close>

definition in_view :: "nat \<Rightarrow> nat \<Rightarrow> uefi_screen \<Rightarrow> uefi_screen \<Rightarrow> line_input \<Rightarrow> uefi_sys \<Rightarrow> bool" where
  "in_view w h t t0 i u = (ue_output_string u \<and> screen w h t u = prompted w t0 (li_out i))"

definition left_of_margin :: "nat \<Rightarrow> line_input \<Rightarrow> bool" where
  "left_of_margin w i = (length (li_out i) + 2 < w)"

lemma recall_view:
  assumes "in_view w h t t0 i u" "input_ok cap i u" "list_all uefi_allowed_input_char l" "length l \<le> 253" "left_of_margin w i"
  shows "case recall k l i u of (j, v) \<Rightarrow> left_of_margin w j \<longrightarrow> in_view w h t t0 j v"
proof -
  have "list_all printable l" using assms(3) by (auto simp: list_all_iff allowed_printable)
  note r = redraw_screen [OF _ _ this assms(4), of w h t u t0 "li_out i"]
  show ?thesis
    using assms(1,2,5) r by (simp add: recall_def in_view_def input_ok_def left_of_margin_def case_prod_beta Let_def)
qed

lemma edit_view:
  assumes "history_ok u" "input_ok cap i u" "0 < cap" "cap \<le> 254" "in_view w h t t0 i u" "left_of_margin w i"
  shows "case edit_key cap key i u of (j, v) \<Rightarrow> left_of_margin w j \<longrightarrow> in_view w h t t0 j v"
proof (rule edit_key_cases)
  show "li_history_cursor i \<le> ue_history_count u" using assms(2) by (simp add: input_ok_def)
  show "case (i, u) of (j, v) \<Rightarrow> left_of_margin w j \<longrightarrow> in_view w h t t0 j v" using assms(5) by simp
next
  fix k assume "k < ue_history_count u"
  then show "case recall k (take (cap - 1) (ue_history u ! k)) i u of (j, v) \<Rightarrow> left_of_margin w j \<longrightarrow> in_view w h t t0 j v"
    using assms by (intro recall_view recalled_allowed) auto
next
  show "case recall (ue_history_count u) [] i u of (j, v) \<Rightarrow> left_of_margin w j \<longrightarrow> in_view w h t t0 j v"
    using assms by (intro recall_view) auto
next
  assume "0 < li_len i"
  then show "case erase_last i u of (j, v) \<Rightarrow> left_of_margin w j \<longrightarrow> in_view w h t t0 j v"
    using assms(2,5,6) erase_screen [of w h t u t0 "li_out i"]
    by (simp add: erase_last_def in_view_def input_ok_def left_of_margin_def)
next
  fix c assume "uefi_allowed_input_char c"
  then show "case type_char c i u of (j, v) \<Rightarrow> left_of_margin w j \<longrightarrow> in_view w h t t0 j v"
    using assms(2,5) echo_screen [of w h t u t0 "li_out i" c] allowed_printable
    by (simp add: type_char_def in_view_def input_ok_def left_of_margin_def)
qed

lemma read_loop_view:
  assumes "history_ok u" "input_ok cap i u" "0 < cap" "cap \<le> 254" "in_view w h t t0 i u"
    and "\<And>n j v. read_loop cap (take n keys) i u = (WAITING j, v) \<Longrightarrow> left_of_margin w j"
    and "read_loop cap keys i u = (WAITING j, v)"
  shows "in_view w h t t0 j v"
  using assms(1,2,5-7)
proof (induction keys arbitrary: i u)
  case Nil
  then show ?case by simp
next
  case (Cons poll keys)
  have room: "left_of_margin w j'" if "read_loop cap (poll # take n keys) i u = (WAITING j', v')" for n j' v'
    using Cons.prems(4) [of "Suc n" j' v'] that by simp
  show ?case
  proof (cases poll)
    case None
    then show ?thesis using Cons.prems room by (intro Cons.IH [of u i]) auto
  next
    case (Some key)
    obtain i1 u1 where e: "edit_key cap key i u = (i1, u1)" by (cases "edit_key cap key i u")
    have ne: "\<not> is_enter key" using Cons.prems(5) Some by (auto split: if_splits)
    have s: "same_history u u1" using same_history_edit [of u cap key i] e by simp
    have "left_of_margin w i" using Cons.prems(4) [of 0] by simp
    moreover have "left_of_margin w i1" using room [of 0] Some ne e by simp
    ultimately have "in_view w h t t0 i1 u1"
      using edit_view [OF Cons.prems(1,2) assms(3,4) Cons.prems(3), of key] e by simp
    moreover have "history_ok u1" "input_ok cap i1 u1"
      using edit_ok [OF Cons.prems(1,2) assms(3), of key] s Cons.prems(1) e
      by (simp_all add: history_ok_history input_ok_history)
    ultimately show ?thesis
      using Cons.prems(5) Some ne e room by (intro Cons.IH [of u1 i1]) auto
  qed
qed

section \<open>Properties\<close>

definition blank_screen :: uefi_screen where
  "blank_screen = \<lparr>us_cell = (\<lambda>_ _. 32), us_row = 0, us_col = 0\<rparr>"

text \<open>A text that, behind the prompt, does not reach the last column.\<close>

definition stays_left :: "nat \<Rightarrow> line_read \<Rightarrow> bool" where
  "stays_left width r = (case r of WAITING i \<Rightarrow> length (li_out i) + 2 < width | RETURNED ok line \<Rightarrow> True)"

lemma demo_screen: "screen 80 25 blank_screen demo_uefi = prompted 80 blank_screen []"
  unfolding demo_uefi_def
  by (subst screen_output) (auto simp: screen_def screen_char_def prompted_def cells_def fun_eq_iff char16_def
      nth_Cons' blank_screen_def Let_def)

text \<open>
  C28. The line on the screen is the line in the buffer, as long as the prompt and the text have stayed left of the
  last column. On a firmware console of any size, showing anything before, with the prompt in the cursor's row:
  whatever keys come and however often the firmware has none, while the editor waits and no text so far has
  reached the last column, that row shows the prompt, exactly the text that would be returned and blanks behind
  it, the cursor stands at the end of the text, and every other row is as it was - also after a longer line of the
  history gave way to a shorter one. Without the condition it does not hold: the editor takes 127 characters,
  and \<open>long_line_stays_on_screen\<close> shows what a recalled line of two rows leaves on 80 columns.
\<close>

theorem uefi_line_is_what_is_shown:
  fixes t t0 :: uefi_screen
  assumes "history_ok u" "ue_output_string u" "ue_read_key_stroke u" "0 < cap" "cap \<le> UEFI_LINE_MAX"
    and "screen width height t u = prompted width t0 []"
    and "list_all (\<lambda>ks. stays_left width (fst (uefi_console_read_line cap ks u))) (prefixes keys)"
    and "fst (uefi_console_read_line cap keys u) = WAITING i"
  shows "screen width height t (snd (uefi_console_read_line cap keys u)) = prompted width t0 (li_out i)"
proof -
  note loop = read_line_loop [OF assms(4,3)]
  have "in_view width height t t0 i (snd (uefi_console_read_line cap keys u))"
  proof (rule read_loop_view [OF assms(1) line_start_ok [OF assms(4)] assms(4)])
    show "in_view width height t t0 (line_start u) u" using assms(2,6) by (simp add: in_view_def line_start_def)
    fix n j v assume r: "read_loop cap (take n keys) (line_start u) u = (WAITING j, v)"
    have "take n keys \<in> set (prefixes keys)" by (simp add: take_is_prefix)
    then have "stays_left width (fst (uefi_console_read_line cap (take n keys) u))" using assms(7) by (simp only: list_all_iff)
    then show "left_of_margin width j" by (simp add: loop r stays_left_def left_of_margin_def)
  next
  qed (use assms(5,8) in \<open>auto simp: UEFI_LINE_MAX_def loop prod_eq_iff\<close>)
  then show ?thesis by (simp add: in_view_def)
qed

definition demo_keys :: "efi_input_key option list" where
  "demo_keys = [Some (char_key CHR ''l''), None, Some (char_key CHR ''s''), Some up_key, Some (char_key BS)]"

theorem uefi_line_is_what_is_shown_witness:
  "screen 80 25 blank_screen (snd (uefi_console_read_line 128 demo_keys demo_uefi)) = prompted 80 blank_screen ''l''"
proof -
  have "fst (uefi_console_read_line 128 demo_keys demo_uefi) =
     WAITING \<lparr>li_out = ''l'', li_len = 1, li_last_drawn_len = 1, li_history_cursor = 0\<rparr>"
    by code_simp
  moreover have "list_all (\<lambda>ks. stays_left 80 (fst (uefi_console_read_line 128 ks demo_uefi))) (prefixes demo_keys)"
    by code_simp
  ultimately show ?thesis
    using uefi_line_is_what_is_shown [OF demo_uefi_ok _ _ demo_screen] by (fastforce simp: UEFI_LINE_MAX_def)
qed

section \<open>A line of two rows\<close>

definition down_key :: efi_input_key where
  "down_key = \<lparr>ik_scan_code = EFI_SCAN_DOWN, ik_unicode_char = 0\<rparr>"

lemma screen_wraps:
  assumes "list_all printable s" "s \<noteq> []" "us_col t + length s = w" "us_row t + 1 < h"
  shows "fold (screen_char w h) (map char16 s) t = (typed_over s t)\<lparr>us_row := us_row t + 1, us_col := 0\<rparr>"
proof -
  obtain r c where s: "s = r @ [c]" using assms(2) by (cases s rule: rev_cases) auto
  have "fold (screen_char w h) (map char16 r) t = typed_over r t"
    using assms(1,3) s by (intro screen_printable) auto
  moreover have "screen_char w h (char16 c) (typed_over r t) = (typed_over s t)\<lparr>us_row := us_row t + 1, us_col := 0\<rparr>"
    using assms(1,3,4) unfolding s
    by (cases t) (auto simp: screen_char_def screen_feed_def typed_over_def printable_char16 Let_def fun_eq_iff nth_append)
  ultimately show ?thesis by (simp add: s)
qed

text \<open>Text that goes on in the next row.\<close>

lemma two_rows:
  assumes "list_all printable s" "us_col t < w" "us_row t + 1 < h" "w \<le> us_col t + length s" "us_col t + length s < 2 * w"
  defines "n \<equiv> w - us_col t"
  shows "fold (screen_char w h) (map char16 s) t =
    typed_over (drop n s) ((typed_over (take n s) t)\<lparr>us_row := us_row t + 1, us_col := 0\<rparr>)"
proof -
  have p: "list_all printable (take n s)" "list_all printable (drop n s)"
    using assms(1) by (auto simp: list_all_iff dest: in_set_takeD in_set_dropD)
  have "fold (screen_char w h) (map char16 (take n s)) t = (typed_over (take n s) t)\<lparr>us_row := us_row t + 1, us_col := 0\<rparr>"
    using assms p by (intro screen_wraps) (auto simp: n_def)
  moreover have "fold (screen_char w h) (map char16 s) t =
      fold (screen_char w h) (map char16 (drop n s)) (fold (screen_char w h) (map char16 (take n s)) t)"
    by (metis append_take_drop_id comp_apply fold_append map_append)
  ultimately show ?thesis using p(2) assms(4,5) by (simp add: n_def screen_printable)
qed

lemma blanks_repeated: "(fold f (map g [c]) ^^ n) t = fold f (map g (replicate n c)) t"
  by (induction n arbitrary: t) (simp_all add: funpow_swap1)

lemma prompt_again:
  "2 < w \<Longrightarrow> fold (screen_char w h) (map char16 (CR # ''> '')) t = typed_over ''> '' (t\<lparr>us_col := 0\<rparr>)"
  using screen_printable [of "''> ''" "t\<lparr>us_col := 0\<rparr>" w h] by (simp add: printable_def char16_control screen_char_def)

lemma same_history_count: "ue_history_count (uefi_output_raw x v) = ue_history_count v" "ue_history_count (repeat_raw n y v) = ue_history_count v"
  using same_history_raw [of v x v] same_history_repeat [of v n y v] by (simp_all add: same_history_def)

text \<open>The calls of a recalled line and of the empty line after it.\<close>

lemma recalled_and_given_up:
  assumes "history_ok u" "ue_read_key_stroke u" "recalled_lines u \<noteq> []" "l = last (recalled_lines u)"
  shows "uefi_console_read_line 128 [Some up_key, Some down_key] u =
     (WAITING \<lparr>li_out = [], li_len = 0, li_last_drawn_len = 0, li_history_cursor = ue_history_count u\<rparr>,
      snd (uefi_redraw_input [] 0 (length l) (snd (uefi_redraw_input l (length l) 0 u))))"
    and "line_ok l"
proof -
  let ?n = "ue_history_count u"
  have n: "0 < ?n" "?n \<le> length (ue_history u)" "list_all line_ok (recalled_lines u)"
    using assms(1,3) by (auto simp: recalled_lines_def history_ok_def)
  have l: "ue_history u ! (?n - 1) = l"
    using n assms(3) by (simp add: assms(4) last_conv_nth recalled_lines_def min_absorb2)
  show ok: "line_ok l" using n(3) assms(3,4) by (simp add: list_all_iff)
  then have t: "take 127 l = l" by (simp add: line_ok_def UEFI_LINE_MAX_def)
  have count: "ue_history_count (snd (uefi_redraw_input x k m u)) = ?n" for x k m
    by (simp add: uefi_redraw_input_def Let_def same_history_count)
  have up: "edit_key 128 up_key (line_start u) u = recall (?n - 1) l (line_start u) u"
    using n l t by (simp add: up_key_def edit_key_def line_start_def)
  have down: "edit_key 128 down_key i v = recall ?n [] i v" if "li_history_cursor i = ?n - 1" "ue_history_count v = ?n" for i v
    using n that by (simp add: down_key_def edit_key_def EFI_SCAN_UP_def EFI_SCAN_DOWN_def)
  show "uefi_console_read_line 128 [Some up_key, Some down_key] u =
     (WAITING \<lparr>li_out = [], li_len = 0, li_last_drawn_len = 0, li_history_cursor = ue_history_count u\<rparr>,
      snd (uefi_redraw_input [] 0 (length l) (snd (uefi_redraw_input l (length l) 0 u))))"
    using assms(2) count
    by (simp add: read_line_loop up recall_def down case_prod_beta is_enter_def) 
      (simp add: up_key_def down_key_def line_start_def uefi_redraw_input_def Let_def)
qed

text \<open>
  C34. A recalled line of two rows is not taken back. On a firmware console with room below the cursor, when the
  newest line of the history reaches the last column behind the prompt but not the end of a second row, going up to
  it and down again leaves the empty line in the buffer, and yet the row of the prompt still shows the old line, and
  the cursor stands two rows below. On 80 columns these are the lines of 78 to 127 characters, which the editor
  takes.
\<close>

theorem long_line_stays_on_screen:
  fixes t t0 :: uefi_screen
  assumes "history_ok u" "ue_output_string u" "ue_read_key_stroke u" "recalled_lines u \<noteq> []"
    and "width \<le> length (last (recalled_lines u)) + 2" "length (last (recalled_lines u)) + 2 < 2 * width" "2 < width"
    and "us_row t0 + 2 < height" "screen width height t u = prompted width t0 []"
  defines "r \<equiv> uefi_console_read_line 128 [Some up_key, Some down_key] u"
  shows "fst r = WAITING \<lparr>li_out = [], li_len = 0, li_last_drawn_len = 0, li_history_cursor = ue_history_count u\<rparr> \<and>
    (\<forall>i. 2 \<le> i \<and> i < width \<longrightarrow>
       us_cell (screen width height t (snd r)) (us_row t0) i = char16 (last (recalled_lines u) ! (i - 2))) \<and>
    us_row (screen width height t (snd r)) = us_row t0 + 2"
proof -
  let ?f = "screen_char width height"
  define l where "l = last (recalled_lines u)"
  note read = recalled_and_given_up [OF assms(1,3,4) l_def]
  have l: "list_all printable l" "length l < 128" "width \<le> 2 + length l" "2 + length l < 2 * width"
    using read(2) assms(5,6) by (auto simp: line_ok_def UEFI_LINE_MAX_def list_all_iff allowed_printable l_def)
  define t1 where "t1 = typed_over ''> '' ((prompted width t0 [])\<lparr>us_col := 0\<rparr>)"
  define t2 where "t2 = typed_over (drop (width - 2) l) ((typed_over (take (width - 2) l) t1)\<lparr>us_row := us_row t0 + 1, us_col := 0\<rparr>)"
  define t3 where "t3 = typed_over ''> '' (t2\<lparr>us_col := 0\<rparr>)"
  define b where "b = replicate (length l) CHR '' ''"
  define t4 where "t4 = typed_over (drop (width - 2) b) ((typed_over (take (width - 2) b) t3)\<lparr>us_row := us_row t0 + 2, us_col := 0\<rparr>)"
  have pos: "us_col t1 = 2" "us_row t1 = us_row t0" "us_row t2 = us_row t0 + 1" "us_col t3 = 2" "us_row t3 = us_row t0 + 1"
      "us_row t4 = us_row t0 + 2"
    by (simp_all add: t1_def t2_def t3_def t4_def prompted_def)
  have f1: "fold ?f (map char16 (CR # ''> '')) (prompted width t0 []) = t1"
    unfolding t1_def using assms(7) by (rule prompt_again)
  have f2: "fold ?f (map char16 l) t1 = t2"
    using two_rows [of l t1 width height] l assms(7,8) by (simp add: pos t2_def)
  have f3: "fold ?f (map char16 (CR # ''> '')) t2 = t3"
    unfolding t3_def using assms(7) by (rule prompt_again)
  have "list_all printable b" "length b = length l" by (auto simp: b_def list_all_iff printable_def)
  then have f4: "fold ?f (map char16 b) t3 = t4"
    using two_rows [of b t3 width height] l(3,4) assms(7,8) by (simp add: pos t4_def numeral_2_eq_2)
  have f5: "(fold ?f (map char16 '' '') ^^ length l) (fold ?f (map char16 []) t3) = t4"
    unfolding blanks_repeated f4 [symmetric] b_def by simp
  have ne: "l \<noteq> []" using l(3) assms(7) by auto
  have scr: "screen width height t (snd r) = t4\<lparr>us_col := us_col t4 - length l\<rparr>"
    using f1 f2 f3 f5 assms(2,9) l(2) ne
    by (simp add: r_def read(1) uefi_redraw_input_def Let_def screen_output repeat_raw_screen backspaces_screen
        del: list.map)
  have "us_cell t4 (us_row t0) i = char16 (l ! (i - 2))" if "2 \<le> i" "i < width" for i
    using that l(3) by (auto simp: t4_def t3_def t2_def t1_def typed_over_def prompted_def numeral_2_eq_2)
  then show ?thesis unfolding l_def [symmetric] by (simp add: scr pos) (simp add: r_def read(1))
qed

text \<open>A history with one line of 100 characters.\<close>

definition long_history :: uefi_sys where
  "long_history = demo_uefi\<lparr>ue_history := replicate 100 CHR ''a'' # replicate 7 [], ue_history_count := 1\<rparr>"

lemma long_history_ok:
  "history_ok long_history" "ue_output_string long_history" "ue_read_key_stroke long_history"
  "recalled_lines long_history = [replicate 100 CHR ''a'']"
  by (simp_all add: long_history_def history_ok_def VITA_CONSOLE_HISTORY_MAX_def demo_uefi_def recalled_lines_def
      uefi_output_raw_def send_def line_ok_def list_all_length uefi_allowed_input_char_def UEFI_LINE_MAX_def)

theorem long_line_stays_on_screen_witness:
  "us_cell (screen 80 25 blank_screen (snd (uefi_console_read_line 128 [Some up_key, Some down_key] long_history))) 0 2 =
     char16 CHR ''a''"
proof -
  have "screen 80 25 blank_screen long_history = prompted 80 blank_screen []"
    using demo_screen by (simp add: screen_def long_history_def)
  from long_line_stays_on_screen [OF long_history_ok(1-3) _ _ _ _ _ this] show ?thesis
    by (simp add: long_history_ok(4) blank_screen_def)
qed

end
