(* ===== verification/Spec2Isabelle.thy ===== *)
theory Spec2Isabelle
  imports Kernel_Main Uefi_Branches Uefi_Boot Uefi_Storage Neon_Terminal Neon_Frame Char_Arrays Session_Log
    Transcript_Json Uefi_Screen
begin

text \<open>
  VitaOS with AI: the kernel as the hosted build runs it, from \<open>main\<close> to the end of the process, and the
  console, framebuffer, splash and storage of the UEFI build.

  The program. VitaOS is a small C kernel with two builds, a hosted one (a process with libc, SQLite and
  sockets) and a UEFI one. This development models the whole hosted build, and of the UEFI build the files
  below arch/x86\_64/boot and the storage backend as stand-alone parts. kmain.c opens the audit log, looks
  at the hardware, prepares text storage below \<open>/vita\<close>, starts the session journal and the session
  transcript kept there, generates proposals, exchanges datagrams with a peer, shows the guided screens and
  runs the command loop; command\_core.c sends each line to a screen, a report, the AI gateway, the storage
  commands, the note editor, the journal commands or the emergency flow. Later services call earlier ones
  only, with one exception: the console copies every line it prints to the transcript, so printing writes
  files.

  The state. Every C file keeps static variables; each theory declares them as one record, and the
  records extend each other in the order of the calls, so that an operation of a lower service is
  polymorphic in what is above it:
    host (theory Host): file table, clock, terminal, the SQLite databases and the outcomes of calls the
      kernel does not control;
    \<open>aud\<close> (Audit\_Core): \<open>g_audit\<close> of audit\_core.c;
    \<open>sto\<close> (Storage, StorageCmd): \<open>g_storage\<close> of storage.c;
    \<open>jrn\<close> (Journal, JournalCmd): \<open>g_journal\<close> of session\_journal.c;
    \<open>trn\<close> (Transcript): \<open>g\<close> of session\_transcript.c;
    \<open>con\<close> (Console): the statics of console.c, with the writers of host\_entry.c;
    \<open>net\<close> (Node\_Core): the datagram socket; \<open>nod\<close>: the peer and the link proposal of node\_core.c;
    \<open>prp\<close> (Proposal): the proposal slots of proposal.c;
    \<open>tcp\<close>, \<open>cnx\<close> (Net\_Connect): the socket table of the host and the statics of net\_connect.c;
    \<open>edi\<close> (Editor): the text and flags of editor.c;
    \<open>aig\<close> (Ai\_Gateway): the endpoint of ai\_gateway.c.
  Operations are functions from the state to a result and the state; a failing call is \<open>False\<close> or
  \<open>None\<close>, as in the code. C strings are lists of characters without their terminator, a pointer that is
  tested for null is an option, and counters keep their width. The command context of command\_core.c is a
  value that the command loop passes on.

  The theories.
    Vita\_Prelude: the string helpers every C file has a copy of, with the contract \<open>bounded_append\<close> of
      an append into an array; decimal printing.
    Char\_Arrays: the same helpers, and the builders and log buffers, on arrays of characters with their
      terminators, cell by cell: a cell outside its array is no result.
    Host: what the C library and SQLite do for the code. Which calls fail, how many bytes of a write are
      accepted or survive, and what queries return are functions of the state, so every theorem holds
      for all hosts.
    Sha256: the hash of audit\_core.c and its equivalence with the padded, blockwise definition.
    Hash\_Chain: the contract of a chained log, interpreted on the audit rows in Audit\_Core.
    Audit\_Core, Storage, StorageCmd, Journal, JournalCmd, Transcript, Console, Hardware, Vitair, Node\_Core,
      Proposal, Net\_Connect, Editor, Ai\_Gateway: one or two per C file, named after it.
    Session\_Export: session\_export.c, session\_jsonl\_export.c and the hosted branch of power.c.
    Autocomplete: console\_autocomplete.c. Screens, Reports, Commands: the three parts of command\_core.c.
    Kernel\_Main: kmain.c, panic.c and \<open>main\<close> of host\_entry.c.
    Net\_Status: net\_status.c, for both builds, over the firmware's answer about each protocol.
    Session\_Log: what one event leaves in the two logs of the transcript and in their files. Transcript\_Json: a
      strict reader of JSON and what it makes of the transcript's lines.
    Uefi\_Console: the writers, the history and the line editor of uefi\_entry.c; Uefi\_Screen: the text console of
      the UEFI specification, rows, columns and scrolling, and what the editor leaves on it; Uefi\_Boot: its \<open>efi_main\<close> and its
      waits, the audit functions the UEFI build has instead of audit\_core.c's, and the placeholder files memory.c,
      scheduler.c, emergency\_core.c and sqlite\_vfs.c.
    Uefi\_Storage: the UEFI branches of storage.c over a firmware that is a parameter, with the trace of its calls.
    Uefi\_Branches: the UEFI branches of hardware\_discovery.c, net\_connect.c and power.c.
    Framebuffer: pixels, modes and the relation \<open>paints\<close>; Neon\_Text: uefi\_neon\_text.c; Neon\_Terminal: what its
      ring, its viewport and its layout promise; Neon\_Frame: uefi\_neon\_frame.c; Splash: uefi\_splash.c.
    Quiet: what logging and printing leave unchanged, as locales with interpretations for the storage
      flags, the audit state, the database, the files outside the storage tree and the rest.
    Kernel\_Steps: the small effects the operations are made of, as a step relation \<open>kernel_step\<close>, and for
      each operation that it is a sequence of them; with it a property that each effect keeps is one of every
      run. Static\_Arrays: the sizes of the services' character arrays and what keeps their texts in them; an
      effect that changes a module's statics must keep them. Kernel\_Main draws the three properties of a whole
      run from it.

  What is shown. Of a whole run, from \<open>kmain\<close> to its end, for every host and every input:
  the audit rows it added are a hash chain that starts at 1, or there is no audit backend and no row;
  nothing outside \<open>build/storage/vita\<close> is touched; and no text outgrows its static array
  (\<open>kernel_arrays_in_bounds\<close>). The command loop ends, with one turn more than characters of
  input at most, and only \<open>shutdown\<close> and \<open>exit\<close> end it before the input does.
  Below the strings, the copy, append and log routines stay in their arrays of characters, whatever
  those held, and leave the terminated string the string level says.
  Of the components: a chain forged to the same head needs a collision; the storage bootstrap is marked
  verified only when every path of the tree is there and the marker was read back, and it is on every host that
  cooperates, but a plain file passes for a directory; the journal redacts the texts with one of nine words, records
  JSON a reader decodes, and is active only when its files were written and read back; the transcript cannot
  recurse, keeps its buffers in bounds and picks a free session number, an event is one more line in each of its
  logs and their files, and the JSONL line is an object with every member of the event, unless a control character
  breaks it; the pager stops once per page; PCI counters agree with the listed devices; a peer is linked only after
  an accept; a proposal changes only by a command that names it; the editor stores what was typed, within its
  limits, and guards a loaded note; the network layer holds at most one socket and owns it; a unique command is
  completed. Of the UEFI parts: the storage closes every handle it opened, asks for no path outside its tree, and
  calls a volume verified only when it delivered the marker; a read returns a line of allowed characters and the
  history is the newest eight lines; the line the firmware console shows is the line in the buffer as long as it
  stays in its row, and a recalled line of two rows is not taken back; the framebuffer terminal is the end of an
  unbounded terminal, keeps its arrays in bounds, shows the window it should and paints the screen only; the frame
  paints the screen only; the splash reads its buffer only, unless a size in a header wraps. Where the code does
  less than its documents say, the theorem or its text says what it does.

  Bounds and fuel. Loops over input are structural or carry a measure: the command loop and the editor
  loop the input left. The printing of the journal buffer has fuel: 8192 turns, one per character, and the
  buffer holds at most 8191; the receive loop of node\_core.c has the three turns of the code. Theorem
  \<open>command_loop_ends\<close> bounds the turns of the command loop. The loop over the notes directory of a UEFI volume
  ends with the firmware's answers; \<open>notes_loop_ends\<close> says which fuel is enough.

  The UEFI files. The firmware is a parameter: what its tables offer, the mode of the screen, the keys it
  hands out and what reading a file ends in are values, and a read outside the splash buffer is \<open>None\<close>. They
  keep no state in common with the kernel, so each is a theory of its own; what they send to the firmware is a
  list in their state.

  Not modelled: the tables of the firmware beyond what the parameters say of them; the instructions that halt
  the processor; and the UEFI build as one composition, whose console, storage and entry are separate theories: the
  kernel between them is the hosted one, and \<open>efi_main\<close> takes its \<open>kmain\<close> as a parameter.
\<close>

end
